(* ===== verification/Prelude.thy ===== *)
theory Prelude
  imports Complex_Main "HOL-Library.Stream" "HOL-Library.AList"
begin

text \<open>
  The vocabulary shared by every component: Go's 64-bit integers as \<open>int\<close> with the
  wrap-around written out, durations and instants in nanoseconds, Go's truncating
  division, decimal printing and the list facts the component proofs share.

  An \<open>int\<close> of the model that stands for a Go \<open>int\<close>, \<open>int64\<close> or \<open>time.Duration\<close> is in the
  range of a signed 64-bit word; every arithmetic operation of the source that can leave
  that range is written with \<open>wrap64\<close>. Instants (\<open>time.Time\<close>) are unbounded integers: Go
  keeps them in seconds and nanoseconds, which no addition of a duration overflows.
\<close>

named_theorems go_arith \<open>wrap-around and truncating arithmetic\<close>
named_theorems go_time \<open>units and instants\<close>

section \<open>64-bit integers\<close>

type_synonym i64 = int
type_synonym duration = int
type_synonym instant = int

definition in_i64 :: "int \<Rightarrow> bool" where
  "in_i64 x \<longleftrightarrow> - (2 ^ 63) \<le> x \<and> x < 2 ^ 63"

definition wrap64 :: "int \<Rightarrow> i64" where
  "wrap64 x = (x + 2 ^ 63) mod 2 ^ 64 - 2 ^ 63"

lemma wrap64_id [simp]: "in_i64 x \<Longrightarrow> wrap64 x = x"
  by (simp add: in_i64_def wrap64_def)

lemma wrap64_range [simp, intro]: "in_i64 (wrap64 x)"
proof -
  have "0 \<le> (x + 2 ^ 63) mod 2 ^ 64" "(x + 2 ^ 63) mod 2 ^ 64 < 2 ^ 64"
    by (rule pos_mod_sign pos_mod_bound, simp)+
  then show ?thesis by (simp add: in_i64_def wrap64_def)
qed

lemma wrap64_mod: "wrap64 x mod 2 ^ 64 = x mod 2 ^ 64"
  by (simp add: wrap64_def mod_diff_left_eq)

lemma wrap64_add_left [go_arith]: "wrap64 (wrap64 x + y) = wrap64 (x + y)"
proof -
  have "(wrap64 x + (y + 2 ^ 63)) mod 2 ^ 64 = (x + (y + 2 ^ 63)) mod 2 ^ 64"
    by (rule mod_add_cong [OF wrap64_mod refl])
  then show ?thesis by (simp add: wrap64_def [of "wrap64 x + y"] wrap64_def [of "x + y"] add.assoc)
qed

lemma wrap64_add_right [go_arith]: "wrap64 (x + wrap64 y) = wrap64 (x + y)"
  using wrap64_add_left [of y x] by (simp add: add.commute)

lemma wrap64_mult_left [go_arith]: "wrap64 (wrap64 x * y) = wrap64 (x * y)"
proof -
  have "(wrap64 x * y) mod 2 ^ 64 = (x * y) mod 2 ^ 64"
    by (rule mod_mult_cong [OF wrap64_mod refl])
  then have "(wrap64 x * y + 2 ^ 63) mod 2 ^ 64 = (x * y + 2 ^ 63) mod 2 ^ 64"
    by (rule mod_add_cong) simp
  then show ?thesis by (simp add: wrap64_def [of "wrap64 x * y"] wrap64_def [of "x * y"])
qed

lemma in_i64I [intro]: "0 \<le> x \<Longrightarrow> x < 2 ^ 63 \<Longrightarrow> in_i64 x"
  by (simp add: in_i64_def)

lemma in_i64_between: "in_i64 a \<Longrightarrow> in_i64 b \<Longrightarrow> a \<le> x \<Longrightarrow> x \<le> b \<Longrightarrow> in_i64 x"
  by (simp add: in_i64_def)

text \<open>Go's integer division and remainder truncate towards zero.\<close>

definition quo :: "int \<Rightarrow> int \<Rightarrow> int" where
  "quo a b = sgn a * sgn b * (\<bar>a\<bar> div \<bar>b\<bar>)"

definition rem :: "int \<Rightarrow> int \<Rightarrow> int" where
  "rem a b = a - b * quo a b"

lemma quo_nonneg [go_arith]: "0 \<le> a \<Longrightarrow> 0 < b \<Longrightarrow> quo a b = a div b"
  by (cases "a = 0") (simp_all add: quo_def)

lemma rem_nonneg [go_arith]: "0 \<le> a \<Longrightarrow> 0 < b \<Longrightarrow> rem a b = a mod b"
  by (simp add: rem_def quo_nonneg minus_mult_div_eq_mod)

lemma int_Suc_ex: "1 \<le> n \<Longrightarrow> \<exists>k. n = int (Suc k)"
  by (rule exI [of _ "nat (n - 1)"]) simp

section \<open>Durations and instants\<close>

definition Nanosecond :: duration where "Nanosecond = 1"
definition Microsecond :: duration where "Microsecond = 1000"
definition Millisecond :: duration where "Millisecond = 1000000"
definition Second :: duration where "Second = 1000000000"
definition Minute :: duration where "Minute = 60000000000"
definition Hour :: duration where "Hour = 3600000000000"

lemmas unit_defs [go_time] =
  Nanosecond_def Microsecond_def Millisecond_def Second_def Minute_def Hour_def

text \<open>\<open>t.Unix()\<close>: whole seconds since the epoch, rounded down.\<close>

definition unix_seconds :: "instant \<Rightarrow> int" where
  "unix_seconds t = t div Second"

text \<open>\<open>t.Add(d)\<close>, and \<open>t.Sub(u)\<close>, which saturates at the ends of the duration range.\<close>

definition time_add :: "instant \<Rightarrow> duration \<Rightarrow> instant" where
  "time_add t d = t + d"

definition time_sub :: "instant \<Rightarrow> instant \<Rightarrow> duration" where
  "time_sub t u = max (- (2 ^ 63)) (min (2 ^ 63 - 1) (t - u))"

lemma time_sub_exact [go_time]: "in_i64 (t - u) \<Longrightarrow> time_sub t u = t - u"
  by (simp add: time_sub_def in_i64_def)

lemma time_sub_range: "in_i64 (time_sub t u)"
  by (simp add: time_sub_def in_i64_def)

section \<open>Decimal printing\<close>

definition digit_char :: "nat \<Rightarrow> char" where
  "digit_char d = char_of (48 + d)"

fun utoa :: "nat \<Rightarrow> string" where
  "utoa n = (if n < 10 then [digit_char n] else utoa (n div 10) @ [digit_char (n mod 10)])"

declare utoa.simps [simp del]

definition itoa :: "int \<Rightarrow> string" where
  "itoa i = (if i < 0 then ''-'' @ utoa (nat (- i)) else utoa (nat i))"

definition is_digit :: "char \<Rightarrow> bool" where
  "is_digit c \<longleftrightarrow> 48 \<le> (of_char c :: nat) \<and> (of_char c :: nat) \<le> 57"

definition digit_val :: "char \<Rightarrow> nat" where
  "digit_val c = of_char c - 48"

lemma of_char_digit_char [simp]: "d < 10 \<Longrightarrow> of_char (digit_char d) = 48 + d"
  by (simp add: digit_char_def of_char_of)

lemma is_digit_digit_char [simp]: "d < 10 \<Longrightarrow> is_digit (digit_char d)"
  by (simp add: is_digit_def)

lemma digit_val_digit_char [simp]: "d < 10 \<Longrightarrow> digit_val (digit_char d) = d"
  by (simp add: digit_val_def)

lemma utoa_nonempty [simp]: "utoa n \<noteq> []"
  by (subst utoa.simps) simp

lemma utoa_digits: "list_all is_digit (utoa n)"
proof (induction n rule: utoa.induct)
  case (1 n)
  then show ?case by (cases "n < 10") (simp_all add: utoa.simps [of n])
qed

text \<open>The value of a digit string, and that printing is inverse to it.\<close>

definition digits_val :: "string \<Rightarrow> nat" where
  "digits_val s = foldl (\<lambda>a c. 10 * a + digit_val c) 0 s"

lemma digits_val_append_single [simp]: "digits_val (s @ [c]) = 10 * digits_val s + digit_val c"
  by (simp add: digits_val_def)

lemma digits_val_utoa [simp]: "digits_val (utoa n) = n"
proof (induction n rule: utoa.induct)
  case (1 n)
  show ?case
  proof (cases "n < 10")
    case True
    then show ?thesis by (subst utoa.simps) (simp add: digits_val_def)
  next
    case False
    with "1.IH" have "digits_val (utoa (n div 10)) = n div 10" by blast
    with False show ?thesis by (subst utoa.simps) simp
  qed
qed

lemma utoa_inject [simp]: "utoa m = utoa n \<longleftrightarrow> m = n"
  by (metis digits_val_utoa)

section \<open>Lists\<close>

lemma length_filter_add_length_filter_not:
  "length (filter P xs) + length (filter (\<lambda>x. \<not> P x) xs) = length xs"
  by (induction xs) auto

lemma filter_filter_conj: "filter P (filter Q xs) = filter (\<lambda>x. P x \<and> Q x) xs"
  by (induction xs) auto

section \<open>Iteration over a Go map\<close>

text \<open>
  A Go map is kept as the list of its entries. A \<open>range\<close> loop visits them in an order the
  runtime chooses afresh for every loop: it takes a ranking of the keys and visits the entries
  by rank, so every permutation of the entries is the order of some ranking.
\<close>

type_synonym ranking = "int \<Rightarrow> nat"

definition map_range :: "('k \<Rightarrow> nat) \<Rightarrow> ('k \<times> 'v) list \<Rightarrow> ('k \<times> 'v) list" where
  "map_range rk m = sort_key (rk \<circ> fst) m"

lemma set_map_range [simp]: "set (map_range rk m) = set m"
  by (simp add: map_range_def)

lemma length_map_range [simp]: "length (map_range rk m) = length m"
  by (simp add: map_range_def)

lemma distinct_map_range [simp]: "distinct (map fst (map_range rk (m :: ('k \<times> 'v) list))) = distinct (map fst m)"
proof -
  have "distinct xs = distinct ys" if "set xs = set ys" "length xs = length ys" for xs ys :: "'k list"
    using that by (metis card_distinct distinct_card)
  from this [of "map fst (map_range rk m)" "map fst m"] show ?thesis by simp
qed

section \<open>Accumulating by key\<close>

text \<open>
  The loops that keep one accumulator per key in a map: the first element of a key creates its
  accumulator, every later one updates it. Such a loop computes, for every key, the fold over the
  elements of that key in their order.
\<close>

locale grouping =
  fixes key :: "'x \<Rightarrow> 'k" and start :: "'x \<Rightarrow> 'v" and upd :: "'x \<Rightarrow> 'v \<Rightarrow> 'v"
    and step :: "'x \<Rightarrow> ('k \<times> 'v) list \<Rightarrow> ('k \<times> 'v) list"
  assumes step_eq: "step x m =
    AList.update (key x) (case map_of m (key x) of Some v \<Rightarrow> upd x v | None \<Rightarrow> start x) m"
begin

lemma step_lookup: "map_of (step x m) k =
    (if key x = k then Some (case map_of m k of Some v \<Rightarrow> upd x v | None \<Rightarrow> start x) else map_of m k)"
  by (simp add: step_eq update_conv')

lemma distinct_keys: "distinct (map fst (fold step xs []))"
proof (induction xs rule: rev_induct)
  case (snoc x xs)
  then show ?case by (simp add: step_eq distinct_update)
qed simp

lemma group_none: "map_of (fold step xs []) k = None \<longleftrightarrow> filter (\<lambda>x. key x = k) xs = []"
proof (induction xs rule: rev_induct)
  case (snoc x xs)
  then show ?case by (simp add: step_lookup)
qed simp

lemma group_invariant:
  assumes "\<And>x. Q [x] (start x)" and "\<And>xs x v. xs \<noteq> [] \<Longrightarrow> Q xs v \<Longrightarrow> Q (xs @ [x]) (upd x v)"
  shows "map_of (fold step xs []) k = Some v \<Longrightarrow> Q (filter (\<lambda>x. key x = k) xs) v"
proof (induction xs arbitrary: v rule: rev_induct)
  case (snoc x xs)
  show ?case
  proof (cases "key x = k")
    case True
    show ?thesis
    proof (cases "map_of (fold step xs []) k")
      case None
      with True group_none [of xs k] snoc.prems assms(1) [of x] show ?thesis by (auto simp: step_lookup)
    next
      case (Some w)
      with group_none [of xs k] have "filter (\<lambda>x. key x = k) xs \<noteq> []" by simp
      from assms(2) [OF this snoc.IH [OF Some], of x] True Some snoc.prems show ?thesis
        by (simp add: step_lookup)
    qed
  next
    case False
    with snoc show ?thesis by (simp add: step_lookup)
  qed
qed simp

lemma group_entry:
  assumes "(k, v) \<in> set (fold step xs [])"
  shows "map_of (fold step xs []) k = Some v"
  using distinct_keys assms by (simp add: map_of_eq_Some_iff)

end

end
