(* ===== verification/Float64.thy ===== *)
theory Float64
  imports Prelude
begin

text \<open>
  Go's \<open>float64\<close>: IEEE-754 binary64 with round-to-nearest, ties to even. A finite value is
  the rational it denotes; the two zeros are one value (no operation of the modelled code
  tells them apart). Every arithmetic operation is the exact rational operation followed
  by \<open>f64_round\<close>, which is executable, so witnesses compute with the real rounding.
  Operations are not fused, as on amd64.

  What the language leaves to the implementation is a parameter, collected in the record
  \<open>platform\<close>: \<open>math.Pow\<close> and the conversion of a float outside the range of \<open>int64\<close>.
\<close>

named_theorems f64_simps \<open>evaluation of float64 operations\<close>

section \<open>Rounding a rational to 53 bits\<close>

definition pow2 :: "int \<Rightarrow> rat" where
  "pow2 k = (if 0 \<le> k then 2 ^ nat k else 1 / 2 ^ nat (- k))"

lemma pow2_pos [simp]: "0 < pow2 k"
  by (simp add: pow2_def)

lemma pow2_nonzero [simp]: "pow2 k \<noteq> 0"
  using pow2_pos [of k] by linarith

lemma abs_pow2 [simp]: "\<bar>pow2 k\<bar> = pow2 k"
  using pow2_pos [of k] by (rule abs_of_pos)

lemma pow2_0 [simp]: "pow2 0 = 1"
  by (simp add: pow2_def)

lemma pow2_powi: "pow2 k = 2 powi k"
  by (simp add: pow2_def power_int_def inverse_eq_divide power_one_over)

lemma pow2_add: "pow2 (a + b) = pow2 a * pow2 b"
  by (simp add: pow2_powi power_int_add)

lemma pow2_diff: "pow2 (a - b) = pow2 a / pow2 b"
  by (simp add: pow2_powi power_int_diff)

lemma pow2_Suc: "pow2 (k + 1) = 2 * pow2 k"
  by (simp add: pow2_add) (simp add: pow2_def)

lemma pow2_mono: "a \<le> b \<Longrightarrow> pow2 a \<le> pow2 b"
  by (simp add: pow2_powi power_int_increasing)

lemma pow2_of_nat: "pow2 (int n) = of_int (2 ^ n)"
  by (simp add: pow2_def)

text \<open>Number of binary digits, and the exponent \<open>e\<close> with \<open>2^e \<le> x < 2^(e+1)\<close>.\<close>

fun bits :: "nat \<Rightarrow> nat" where
  "bits n = (if n = 0 then 0 else Suc (bits (n div 2)))"

declare bits.simps [simp del]

lemma bits_bounds: "0 < n \<Longrightarrow> 2 ^ (bits n - 1) \<le> n \<and> n < 2 ^ bits n \<and> 0 < bits n"
proof (induction n rule: bits.induct)
  case (1 n)
  show ?case
  proof (cases "n div 2 = 0")
    case True
    with "1.prems" have "n = 1" by auto
    then show ?thesis by (simp add: bits.simps)
  next
    case False
    with "1.IH" "1.prems" have "2 ^ (bits (n div 2) - 1) \<le> n div 2"
      "n div 2 < 2 ^ bits (n div 2)" "0 < bits (n div 2)" by auto
    moreover from this(3) obtain m where "bits (n div 2) = Suc m"
      using gr0_implies_Suc by blast
    ultimately show ?thesis using "1.prems" by (auto simp: bits.simps [of n])
  qed
qed

lemma bits_pow2:
  assumes "0 < p"
  shows "pow2 (int (bits (nat p)) - 1) \<le> of_int p" and "of_int p < pow2 (int (bits (nat p)))"
proof -
  let ?a = "bits (nat p)"
  have "(2::int) ^ (?a - 1) \<le> p \<and> p < 2 ^ ?a \<and> 0 < ?a"
    using bits_bounds [of "nat p"] assms
    by (metis nat_numeral nat_power_eq nat_less_eq_zless nat_le_eq_zle
        order_less_imp_le zero_le_numeral zero_less_nat_eq zero_le_power)
  then show "pow2 (int ?a - 1) \<le> of_int p" "of_int p < pow2 (int ?a)"
    using pow2_of_nat [of "?a - 1"] pow2_of_nat [of ?a] by (simp_all add: of_nat_diff)
qed

definition ilog2 :: "rat \<Rightarrow> int" where
  "ilog2 x = (case quotient_of x of (p, q) \<Rightarrow>
     let k = int (bits (nat p)) - int (bits (nat q)) in if x < pow2 k then k - 1 else k)"

lemma ilog2_bounds:
  assumes "0 < x"
  shows "pow2 (ilog2 x) \<le> x" and "x < pow2 (ilog2 x + 1)"
proof -
  obtain p q where pq: "quotient_of x = (p, q)" by (cases "quotient_of x")
  have q: "0 < q" and x: "x = of_int p / of_int q"
    using quotient_of_denom_pos [OF pq] quotient_of_div [OF pq] by auto
  with assms have p: "0 < p" by (simp add: zero_less_divide_iff)
  define a where "a = int (bits (nat p))"
  define b where "b = int (bits (nat q))"
  define k where "k = a - b"
  note pa = bits_pow2 [OF p, folded a_def] and qb = bits_pow2 [OF q, folded b_def]
  have q0: "(0::rat) < of_int q" using q by simp
  have "pow2 (k - 1) * of_int q \<le> pow2 (k - 1) * pow2 b"
    using qb(2) by (intro mult_left_mono) (auto intro: less_imp_le)
  also have "\<dots> = pow2 (a - 1)" by (simp add: k_def flip: pow2_add)
  finally have lo: "pow2 (k - 1) \<le> x"
    using pa(1) q0 by (simp add: x pos_le_divide_eq)
  have "of_int p < pow2 (k + 1) * pow2 (b - 1)"
    using pa(2) by (simp add: k_def flip: pow2_add)
  also have "\<dots> \<le> pow2 (k + 1) * of_int q"
    using qb(1) by (intro mult_left_mono) (auto intro: less_imp_le)
  finally have hi: "x < pow2 (k + 1)" using q0 by (simp add: x pos_divide_less_eq)
  have "ilog2 x = (if x < pow2 k then k - 1 else k)"
    by (simp add: ilog2_def pq k_def a_def b_def Let_def)
  then show "pow2 (ilog2 x) \<le> x" "x < pow2 (ilog2 x + 1)"
    using lo hi by (auto split: if_splits)
qed

lemma ilog2_less: "0 < x \<Longrightarrow> x < pow2 k \<Longrightarrow> ilog2 x < k"
  using ilog2_bounds(1) [of x] pow2_mono [of k "ilog2 x"] by force

lemma ilog2_mono: "0 < x \<Longrightarrow> x \<le> y \<Longrightarrow> ilog2 x \<le> ilog2 y"
  using ilog2_less [of x "ilog2 y + 1"] ilog2_bounds(2) [of y] by force

text \<open>Rounding to the nearest integer, ties to even.\<close>

definition round_even :: "rat \<Rightarrow> int" where
  "round_even x = (let f = \<lfloor>x\<rfloor>; d = x - of_int f in
     if d < 1 / 2 then f else if 1 / 2 < d then f + 1 else if even f then f else f + 1)"

lemma round_even_of_int [simp]: "round_even (of_int n) = n"
  by (simp add: round_even_def)

lemma round_even_floor: "\<lfloor>x\<rfloor> \<le> round_even x \<and> round_even x \<le> \<lfloor>x\<rfloor> + 1"
  by (simp add: round_even_def Let_def)

lemma round_even_mono: assumes "x \<le> y" shows "round_even x \<le> round_even y"
proof (cases "\<lfloor>x\<rfloor> = \<lfloor>y\<rfloor>")
  case True
  with assms show ?thesis by (auto simp: round_even_def Let_def)
next
  case False
  with floor_mono [OF assms] have "\<lfloor>x\<rfloor> + 1 \<le> \<lfloor>y\<rfloor>" by linarith
  with round_even_floor [of x] round_even_floor [of y] show ?thesis by linarith
qed

lemma round_even_near: "\<bar>of_int (round_even x) - x\<bar> \<le> 1 / 2"
  using of_int_floor_le [of x] floor_less_one [of "x - of_int \<lfloor>x\<rfloor>"] floor_correct [of x]
  by (auto simp: round_even_def Let_def abs_le_iff)

lemma round_even_le: "x \<le> of_int n \<Longrightarrow> round_even x \<le> n"
  using round_even_mono [of x "of_int n"] by simp

lemma round_even_ge: "of_int n \<le> x \<Longrightarrow> n \<le> round_even x"
  using round_even_mono [of "of_int n" x] by simp

text \<open>
  The spacing of the binary64 grid at a positive \<open>x\<close>: 53 significant bits, and never finer
  than \<open>2^-1074\<close> (the subnormal range).
\<close>

definition ulp_exp :: "rat \<Rightarrow> int" where
  "ulp_exp x = max (ilog2 x - 52) (- 1074)"

definition rnd_pos :: "rat \<Rightarrow> rat" where
  "rnd_pos x = of_int (round_even (x / pow2 (ulp_exp x))) * pow2 (ulp_exp x)"

definition rnd64 :: "rat \<Rightarrow> rat" where
  "rnd64 x = (if x = 0 then 0 else if x < 0 then - rnd_pos (- x) else rnd_pos x)"

text \<open>The grid itself.\<close>

definition rep64 :: "rat \<Rightarrow> bool" where
  "rep64 x \<longleftrightarrow> (\<exists>m e. \<bar>m\<bar> < 2 ^ 53 \<and> - 1074 \<le> e \<and> x = of_int m * pow2 e)"

lemma rep64I: "\<bar>m\<bar> < 2 ^ 53 \<Longrightarrow> - 1074 \<le> e \<Longrightarrow> x = of_int m * pow2 e \<Longrightarrow> rep64 x"
  unfolding rep64_def by blast

lemma rep64_le53:
  assumes "\<bar>m\<bar> \<le> 2 ^ 53" "- 1074 \<le> e"
  shows "rep64 (of_int m * pow2 e)"
proof (cases "\<bar>m\<bar> = 2 ^ 53")
  case True
  then have "m = 2 ^ 53 \<or> m = - (2 ^ 53)" by linarith
  then have "of_int m * pow2 e = of_int (sgn m * 2 ^ 52) * pow2 (e + 1)"
    by (auto simp: pow2_Suc)
  moreover have "\<bar>sgn m * (2::int) ^ 52\<bar> < 2 ^ 53" by (simp add: sgn_if)
  ultimately show ?thesis using assms(2) by (intro rep64I [of "sgn m * 2 ^ 52" "e + 1"]) auto
next
  case False
  with assms show ?thesis by (intro rep64I [of m e]) auto
qed

lemma rep64_of_int [simp]: "\<bar>n\<bar> \<le> 2 ^ 53 \<Longrightarrow> rep64 (of_int n)"
  using rep64_le53 [of n 0] by simp

lemma rep64_uminus [simp]: "rep64 (- x) \<longleftrightarrow> rep64 x"
proof -
  have "rep64 y \<Longrightarrow> rep64 (- y)" for y
    unfolding rep64_def by (metis abs_minus_cancel mult_minus_left of_int_minus)
  then show ?thesis by (metis minus_minus)
qed

lemma pow2_int: "0 \<le> k \<Longrightarrow> \<exists>n. pow2 k = of_int n"
  by (metis int_nat_eq pow2_of_nat)

lemma rnd_pos_fixed:
  assumes "rep64 x" "0 < x"
  shows "rnd_pos x = x"
proof -
  obtain m e where m: "\<bar>m\<bar> < 2 ^ 53" and e: "- 1074 \<le> e" and x: "x = of_int m * pow2 e"
    using assms(1) unfolding rep64_def by blast
  have "of_int m < (of_int (2 ^ 53) :: rat)" using m by (subst of_int_less_iff) auto
  then have "x < pow2 53 * pow2 e" by (simp add: x) (simp add: pow2_def)
  then have "ilog2 x < 53 + e" using assms(2) by (intro ilog2_less) (simp_all add: pow2_add)
  then have "ulp_exp x \<le> e" using e by (simp add: ulp_exp_def)
  then obtain n where n: "pow2 (e - ulp_exp x) = of_int n" using pow2_int [of "e - ulp_exp x"] by auto
  have "x / pow2 (ulp_exp x) = of_int m * pow2 (e - ulp_exp x)" by (simp add: x pow2_diff)
  then have "x / pow2 (ulp_exp x) = of_int (m * n)" by (simp add: n)
  then show ?thesis unfolding rnd_pos_def by (metis nonzero_eq_divide_eq pow2_nonzero round_even_of_int)
qed

lemma rnd_pos_rep:
  assumes "0 < x"
  shows "rep64 (rnd_pos x)" and "0 \<le> rnd_pos x"
proof -
  let ?e = "ulp_exp x"
  have "x < pow2 (53 + ?e)"
    using ilog2_bounds(2) [OF assms] pow2_mono [of "ilog2 x + 1" "53 + ?e"]
    by (force simp: ulp_exp_def)
  then have "x / pow2 ?e \<le> of_int (2 ^ 53)"
    by (simp add: pow2_add pos_divide_le_eq) (simp add: pow2_def)
  then have "round_even (x / pow2 ?e) \<le> 2 ^ 53" by (rule round_even_le)
  moreover have nonneg: "0 \<le> round_even (x / pow2 ?e)"
    using assms by (intro round_even_ge) (simp add: less_imp_le)
  ultimately show "rep64 (rnd_pos x)"
    unfolding rnd_pos_def by (intro rep64_le53) (auto simp: ulp_exp_def)
  show "0 \<le> rnd_pos x" using nonneg by (simp add: rnd_pos_def less_imp_le)
qed

lemma rnd_pos_mono:
  assumes "0 < x" "x \<le> y"
  shows "rnd_pos x \<le> rnd_pos y"
proof (cases "ulp_exp x = ulp_exp y")
  case True
  have "x / pow2 (ulp_exp y) \<le> y / pow2 (ulp_exp y)" using assms(2) by (simp add: divide_right_mono less_imp_le)
  from round_even_mono [OF this] show ?thesis by (simp add: rnd_pos_def True mult_right_mono less_imp_le)
next
  case False
  let ?k = "ilog2 y" and ?a = "ulp_exp x" and ?b = "ulp_exp y"
  have "0 < y" using assms by linarith
  have less: "ilog2 x < ?k" "?b = ?k - 52"
    using False ilog2_mono [OF assms] by (auto simp: ulp_exp_def)
  then have ab: "?a \<le> ?k" "?b \<le> ?k" using ilog2_mono [OF assms] by (auto simp: ulp_exp_def)
  have split: "pow2 ?k = pow2 (?k - c) * pow2 c" for c by (simp flip: pow2_add)
  obtain m where m: "pow2 (?k - ?a) = of_int m" using pow2_int [of "?k - ?a"] ab by auto
  obtain n where n: "pow2 (?k - ?b) = of_int n" using pow2_int [of "?k - ?b"] ab by auto
  have "x \<le> pow2 ?k"
    using ilog2_bounds(2) [OF assms(1)] pow2_mono [of "ilog2 x + 1" ?k] less by linarith
  then have "round_even (x / pow2 ?a) \<le> m"
    by (intro round_even_le) (simp add: pos_divide_le_eq split [of ?a] flip: m)
  then have "rnd_pos x \<le> of_int m * pow2 ?a"
    unfolding rnd_pos_def by (intro mult_right_mono) (auto simp: less_imp_le)
  also have "\<dots> = of_int n * pow2 ?b" using split [of ?a] split [of ?b] m n by simp
  also have "\<dots> \<le> rnd_pos y"
  proof -
    have "pow2 ?k \<le> y" by (rule ilog2_bounds(1) [OF \<open>0 < y\<close>])
    then have "n \<le> round_even (y / pow2 ?b)"
      by (intro round_even_ge) (simp add: pos_le_divide_eq split [of ?b] flip: n)
    then show ?thesis unfolding rnd_pos_def by (intro mult_right_mono) (auto simp: less_imp_le)
  qed
  finally show ?thesis .
qed

lemma rnd64_rep: "rep64 (rnd64 x)"
  using rnd_pos_rep(1) [of x] rnd_pos_rep(1) [of "- x"] rep64_of_int [of 0]
  by (auto simp: rnd64_def)

lemma rnd64_fixed: "rep64 x \<Longrightarrow> rnd64 x = x"
  using rnd_pos_fixed [of x] rnd_pos_fixed [of "- x"] by (auto simp: rnd64_def)

lemma rnd64_mono: assumes "x \<le> y" shows "rnd64 x \<le> rnd64 y"
proof -
  have "x < 0 \<Longrightarrow> 0 < y \<Longrightarrow> - rnd_pos (- x) \<le> rnd_pos y"
    using rnd_pos_rep(2) [of "- x"] rnd_pos_rep(2) [of y] by linarith
  then show ?thesis
    using assms rnd_pos_mono [of x y] rnd_pos_mono [of "- y" "- x"]
      rnd_pos_rep(2) [of y] rnd_pos_rep(2) [of "- x"]
    by (auto simp: rnd64_def not_less)
qed

text \<open>What clients of the arithmetic rely on: a monotone rounding onto a grid.\<close>

locale grid_rounding =
  fixes rnd :: "rat \<Rightarrow> rat" and rep :: "rat \<Rightarrow> bool"
  assumes rnd_mono: "x \<le> y \<Longrightarrow> rnd x \<le> rnd y"
    and rnd_fixed: "rep x \<Longrightarrow> rnd x = x"
    and rnd_rep: "rep (rnd x)"
    and rep_0: "rep 0"
begin

lemma rnd_le: "x \<le> b \<Longrightarrow> rep b \<Longrightarrow> rnd x \<le> b"
  using rnd_mono [of x b] rnd_fixed [of b] by simp

lemma rnd_ge: "a \<le> x \<Longrightarrow> rep a \<Longrightarrow> a \<le> rnd x"
  using rnd_mono [of a x] rnd_fixed [of a] by simp

lemma rnd_nonneg: "0 \<le> x \<Longrightarrow> 0 \<le> rnd x"
  using rnd_ge [OF _ rep_0] .

lemma rnd_scale_le: "rep x \<Longrightarrow> 0 \<le> x \<Longrightarrow> r \<le> 1 \<Longrightarrow> rnd (r * x) \<le> x"
  by (rule rnd_le) (simp_all add: mult_left_le_one_le mult_right_mono [of r 1, simplified])

lemma rnd_idem: "rnd (rnd x) = rnd x"
  using rnd_fixed rnd_rep .

end

interpretation r64: grid_rounding rnd64 rep64
  using rep64_of_int [of 0] by unfold_locales (auto simp: rnd64_mono rnd64_fixed rnd64_rep)

lemma round_even_le_half: "x \<le> of_int n + 1 / 2 \<Longrightarrow> even n \<Longrightarrow> round_even x \<le> n"
proof -
  assume x: "x \<le> of_int n + 1 / 2" and n: "even n"
  have "round_even (of_int n + 1 / 2) = n"
  proof -
    have "\<lfloor>of_int n + 1 / 2 :: rat\<rfloor> = n" by (simp add: floor_eq_iff)
    with n show ?thesis by (simp add: round_even_def)
  qed
  with round_even_mono [OF x] show ?thesis by simp
qed

lemma rnd64_le_1: "x \<le> 1 + pow2 (- 53) \<Longrightarrow> rnd64 x \<le> 1"
proof (cases "x \<le> 1")
  case True
  then show ?thesis using r64.rnd_le [of x 1] rep64_of_int [of 1] by simp
next
  case False
  assume x: "x \<le> 1 + pow2 (- 53)"
  have "ilog2 x < 1" using False x by (intro ilog2_less) (simp_all add: pow2_def)
  moreover have "0 \<le> ilog2 x"
    using ilog2_less [of "1 / 2" 0] ilog2_mono [of 1 x] False by (simp add: ilog2_def pow2_def quotient_of_int)
  ultimately have e: "ulp_exp x = - 52" by (simp add: ulp_exp_def)
  have "x / pow2 (- 52) \<le> of_int (2 ^ 52) + 1 / 2" using x by (simp add: pow2_def)
  then have "round_even (x / pow2 (- 52)) \<le> 2 ^ 52" by (rule round_even_le_half) simp
  then have "rnd_pos x \<le> of_int (2 ^ 52) * pow2 (- 52)"
    unfolding rnd_pos_def e by (intro mult_right_mono) (auto simp: less_imp_le)
  with False show ?thesis by (simp add: rnd64_def pow2_def)
qed

lemma rnd64_error:
  assumes "0 \<le> x" "x \<le> pow2 k" "- 1021 \<le> k"
  shows "rnd64 x \<le> x + pow2 (k - 54)"
proof (cases "x = 0 \<or> x = pow2 k")
  case True
  have "rep64 (of_int 1 * pow2 k)" using assms(3) by (intro rep64_le53) simp_all
  then show ?thesis using True rnd64_fixed [of "pow2 k"] by (auto simp: rnd64_def less_imp_le)
next
  case False
  with assms have x: "0 < x" "x < pow2 k" by auto
  then have "ulp_exp x \<le> k - 53" using ilog2_less [OF x] assms(3) by (simp add: ulp_exp_def)
  then have u: "pow2 (ulp_exp x) \<le> 2 * pow2 (k - 54)"
    using pow2_mono [of "ulp_exp x" "k - 53"] pow2_Suc [of "k - 54"] by simp
  let ?q = "x / pow2 (ulp_exp x)"
  have "of_int (round_even ?q) \<le> ?q + 1 / 2" using round_even_near [of ?q] by linarith
  then have "rnd_pos x \<le> (?q + 1 / 2) * pow2 (ulp_exp x)"
    unfolding rnd_pos_def by (intro mult_right_mono) (auto simp: less_imp_le)
  also have "\<dots> = x + pow2 (ulp_exp x) / 2" by (simp add: distrib_right)
  finally show ?thesis using x u by (simp add: rnd64_def)
qed

lemmas rnd64_error_unit = rnd64_error [of _ 0, simplified]

section \<open>float64 values and operations\<close>

datatype f64 = Fin rat | PInf | NInf | NaN

text \<open>Overflow threshold: a rounded magnitude of \<open>2^1024\<close> or more is an infinity.\<close>

definition f64_limit :: rat where
  "f64_limit = pow2 1024"

lemma f64_limit_pos [simp]: "0 < f64_limit"
  by (simp add: f64_limit_def)

definition f64_round :: "rat \<Rightarrow> f64" where
  "f64_round x = (let r = rnd64 x in
     if f64_limit \<le> r then PInf else if r \<le> - f64_limit then NInf else Fin r)"

text \<open>
  Code equations for evaluation in the kernel: the same functions with the recursion on
  binary integers.
\<close>

function ipow2 :: "int \<Rightarrow> int" where
  "ipow2 k = (if k \<le> 0 then 1 else if even k then (let h = ipow2 (k div 2) in h * h) else 2 * ipow2 (k - 1))"
  by pat_completeness auto
termination
  by (relation "measure nat") auto

declare ipow2.simps [simp del]

lemma ipow2_eq: "ipow2 k = 2 ^ nat k"
proof (induction k rule: ipow2.induct)
  case (1 k)
  consider "k \<le> 0" | "0 < k" "even k" | "0 < k" "odd k" by linarith
  then show ?case
  proof cases
    case 1
    then show ?thesis by (simp add: ipow2.simps)
  next
    case 2
    then have "nat k = nat (k div 2) + nat (k div 2)" by auto
    with 2 "1.IH"(1) show ?thesis by (simp add: ipow2.simps [of k] Let_def power_add)
  next
    case 3
    then have "nat k = Suc (nat (k - 1))" by auto
    with 3 "1.IH"(2) show ?thesis by (simp add: ipow2.simps [of k])
  qed
qed

function ibits :: "int \<Rightarrow> int" where
  "ibits n = (if n \<le> 0 then 0 else 1 + ibits (n div 2))"
  by pat_completeness auto
termination
  by (relation "measure nat") auto

declare ibits.simps [simp del]

lemma ibits_eq: "ibits n = int (bits (nat n))"
proof (induction n rule: ibits.induct)
  case (1 n)
  then show ?case
    by (cases "n \<le> 0")
      (simp_all add: ibits.simps [of n] bits.simps [of "nat n"] bits.simps [of 0] nat_div_distrib)
qed

lemma pow2_code [code]: "pow2 k = (if 0 \<le> k then of_int (ipow2 k) else 1 / of_int (ipow2 (- k)))"
  by (simp add: pow2_def ipow2_eq)

lemma ilog2_code [code]: "ilog2 x = (case quotient_of x of (p, q) \<Rightarrow>
    let k = ibits p - ibits q in if x < pow2 k then k - 1 else k)"
  by (simp add: ilog2_def ibits_eq)

text \<open>A value the type really has: a grid point below the overflow threshold.\<close>

fun f64_ok :: "f64 \<Rightarrow> bool" where
  "f64_ok (Fin x) = (rep64 x \<and> \<bar>x\<bar> < f64_limit)"
| "f64_ok _ = True"

fun fneg :: "f64 \<Rightarrow> f64" where
  "fneg (Fin x) = Fin (- x)"
| "fneg PInf = NInf"
| "fneg NInf = PInf"
| "fneg NaN = NaN"

fun fadd :: "f64 \<Rightarrow> f64 \<Rightarrow> f64" where
  "fadd (Fin x) (Fin y) = f64_round (x + y)"
| "fadd NaN _ = NaN"
| "fadd _ NaN = NaN"
| "fadd PInf NInf = NaN"
| "fadd NInf PInf = NaN"
| "fadd PInf _ = PInf"
| "fadd _ PInf = PInf"
| "fadd NInf _ = NInf"
| "fadd _ NInf = NInf"

definition fsub :: "f64 \<Rightarrow> f64 \<Rightarrow> f64" where
  "fsub x y = fadd x (fneg y)"

text \<open>The infinity with the sign of a nonzero product; infinity times zero is NaN.\<close>

definition inf_sgn :: "rat \<Rightarrow> f64" where
  "inf_sgn s = (if 0 < s then PInf else if s < 0 then NInf else NaN)"

fun fsgn :: "f64 \<Rightarrow> rat" where
  "fsgn (Fin x) = sgn x"
| "fsgn PInf = 1"
| "fsgn NInf = - 1"
| "fsgn NaN = 0"

fun fmul :: "f64 \<Rightarrow> f64 \<Rightarrow> f64" where
  "fmul (Fin x) (Fin y) = f64_round (x * y)"
| "fmul NaN _ = NaN"
| "fmul _ NaN = NaN"
| "fmul x y = inf_sgn (fsgn x * fsgn y)"

text \<open>Division; a zero divisor is taken as \<open>+0\<close>.\<close>

fun fdiv :: "f64 \<Rightarrow> f64 \<Rightarrow> f64" where
  "fdiv (Fin x) (Fin y) = (if y = 0 then inf_sgn x else f64_round (x / y))"
| "fdiv NaN _ = NaN"
| "fdiv _ NaN = NaN"
| "fdiv (Fin x) _ = Fin 0"
| "fdiv x (Fin y) = inf_sgn (fsgn x * (if y < 0 then - 1 else 1))"
| "fdiv _ _ = NaN"

text \<open>Comparisons: every one with a NaN is false.\<close>

fun flt :: "f64 \<Rightarrow> f64 \<Rightarrow> bool" where
  "flt (Fin x) (Fin y) = (x < y)"
| "flt NInf y = (y \<noteq> NInf \<and> y \<noteq> NaN)"
| "flt x PInf = (x \<noteq> PInf \<and> x \<noteq> NaN)"
| "flt _ _ = False"

fun feq :: "f64 \<Rightarrow> f64 \<Rightarrow> bool" where
  "feq NaN _ = False"
| "feq x y = (x = y)"

lemma flt_trans: "flt a b \<Longrightarrow> flt b c \<Longrightarrow> flt a c"
  by (cases a; cases b; cases c) auto

lemma flt_irrefl [simp]: "\<not> flt a a"
  by (cases a) auto

definition fle :: "f64 \<Rightarrow> f64 \<Rightarrow> bool" where
  "fle x y = (flt x y \<or> feq x y)"

definition f64_of_int :: "int \<Rightarrow> f64" where
  "f64_of_int n = f64_round (of_int n)"

section \<open>Conversion to int64 and the platform parameters\<close>

record platform =
  pow_fn :: "f64 \<Rightarrow> f64 \<Rightarrow> f64"    \<comment> \<open>\<open>math.Pow\<close>\<close>
  cvt_oor :: "f64 \<Rightarrow> i64"           \<comment> \<open>\<open>int64(x)\<close> for \<open>x\<close> out of range\<close>

definition trunc :: "rat \<Rightarrow> int" where
  "trunc x = (if x < 0 then - \<lfloor>- x\<rfloor> else \<lfloor>x\<rfloor>)"

definition i64_of_f64 :: "platform \<Rightarrow> f64 \<Rightarrow> i64" where
  "i64_of_f64 p v = (case v of
     Fin x \<Rightarrow> if in_i64 (trunc x) then trunc x else cvt_oor p v
   | _ \<Rightarrow> cvt_oor p v)"

lemma rep64_pow2_1024: "\<bar>r\<bar> \<le> 2 ^ 63 \<Longrightarrow> \<bar>r\<bar> < f64_limit"
proof -
  assume "\<bar>r\<bar> \<le> 2 ^ 63"
  also have "(2 ^ 63 :: rat) = pow2 63" by (simp add: pow2_def)
  also have "pow2 63 < pow2 1024" unfolding pow2_powi by (rule power_int_strict_increasing) simp_all
  finally show ?thesis by (simp add: f64_limit_def)
qed

lemma f64_round_between:
  assumes "rep64 a" "rep64 b" "a \<le> x" "x \<le> b" "- f64_limit < a" "b < f64_limit"
  shows "\<exists>r. f64_round x = Fin r \<and> rep64 r \<and> a \<le> r \<and> r \<le> b"
proof -
  have "a \<le> rnd64 x" "rnd64 x \<le> b"
    using assms by (auto intro: r64.rnd_ge r64.rnd_le)
  with assms(5,6) show ?thesis by (auto simp: f64_round_def Let_def r64.rnd_rep)
qed

lemma f64_round_ok: "f64_ok (f64_round x)"
  by (auto simp: f64_round_def Let_def r64.rnd_rep abs_less_iff)

lemma f64_round_fixed: "rep64 x \<Longrightarrow> \<bar>x\<bar> < f64_limit \<Longrightarrow> f64_round x = Fin x"
  using rnd64_fixed [of x] by (simp add: f64_round_def abs_less_iff not_le)

lemma f64_of_int_small [f64_simps]: "\<bar>n\<bar> \<le> 2 ^ 53 \<Longrightarrow> f64_of_int n = Fin (of_int n)"
proof -
  assume n: "\<bar>n\<bar> \<le> 2 ^ 53"
  then have "\<bar>of_int n :: rat\<bar> \<le> of_int (2 ^ 53)" by (subst of_int_abs [symmetric]) (simp only: of_int_le_iff)
  then have "\<bar>of_int n :: rat\<bar> < f64_limit" by (intro rep64_pow2_1024) simp
  with n show ?thesis by (simp add: f64_of_int_def f64_round_fixed)
qed

text \<open>A duration as a float lies between the roundings of the ends of its range.\<close>

lemma f64_of_int_bounded:
  assumes "0 \<le> n" "n < 2 ^ 63"
  shows "\<exists>r. f64_of_int n = Fin r \<and> rep64 r \<and> 0 \<le> r \<and> r \<le> 2 ^ 63"
proof -
  have "rep64 (of_int (2 ^ 52) * pow2 11)" by (rule rep64_le53) simp_all
  then have r63: "rep64 (2 ^ 63)" by (simp add: pow2_def)
  have "(of_int n :: rat) \<le> of_int (2 ^ 63)" using assms(2) by (simp only: of_int_le_iff)
  then have "\<exists>r. f64_round (of_int n) = Fin r \<and> rep64 r \<and> 0 \<le> r \<and> r \<le> 2 ^ 63"
    using assms(1) rep64_pow2_1024 [of "2 ^ 63"]
    by (intro f64_round_between) (use rep64_of_int [of 0] r63 in simp_all)
  then show ?thesis by (simp add: f64_of_int_def)
qed

lemma trunc_of_int [simp]: "trunc (of_int n) = n"
  by (simp add: trunc_def flip: of_int_minus)

lemma trunc_nonneg: "0 \<le> x \<Longrightarrow> 0 \<le> trunc x"
  by (simp add: trunc_def)

lemma trunc_mono: "x \<le> y \<Longrightarrow> trunc x \<le> trunc y"
  by (auto simp: trunc_def floor_mono intro: order_trans [of _ 0])

lemma trunc_le_of_int: "x \<le> of_int n \<Longrightarrow> trunc x \<le> n"
  using trunc_mono [of x "of_int n"] by simp

lemma trunc_ge_of_int: "of_int n \<le> x \<Longrightarrow> n \<le> trunc x"
  using trunc_mono [of "of_int n" x] by simp

lemma i64_of_f64_Fin [f64_simps]: "in_i64 (trunc x) \<Longrightarrow> i64_of_f64 p (Fin x) = trunc x"
  by (simp add: i64_of_f64_def)

text \<open>
  A platform to evaluate on: amd64 converts every float outside the range to the least
  \<open>int64\<close>; powers with a natural exponent are the correctly rounded ones, and other
  exponents are outside what this platform answers.
\<close>

fun pow_nat_exact :: "f64 \<Rightarrow> f64 \<Rightarrow> f64" where
  "pow_nat_exact (Fin x) (Fin y) =
     (if 0 \<le> y \<and> of_int \<lfloor>y\<rfloor> = y then f64_round (x ^ nat \<lfloor>y\<rfloor>) else NaN)"
| "pow_nat_exact _ _ = NaN"

definition amd64 :: platform where
  "amd64 = \<lparr>pow_fn = pow_nat_exact, cvt_oor = (\<lambda>_. - (2 ^ 63))\<rparr>"

section \<open>Rates\<close>

text \<open>A float that is a rate: finite and between zero and one.\<close>

definition unit_rate :: "f64 \<Rightarrow> bool" where
  "unit_rate v \<longleftrightarrow> (\<exists>x. v = Fin x \<and> rep64 x \<and> 0 \<le> x \<and> x \<le> 1)"

lemma unit_rate_0: "unit_rate (Fin 0)"
  using rep64_of_int [of 0] by (simp add: unit_rate_def)

lemma unit_rate_1: "unit_rate (Fin 1)"
  using rep64_of_int [of 1] by (simp add: unit_rate_def)

end
