(* ===== verification/Strategy.thy ===== *)
theory Strategy
  imports Float64
begin

text \<open>
  The stateless and self-contained backoff strategies of \<open>pkg/backoff/strategy.go\<close> and
  \<open>pkg/backoff/polynomial.go\<close>: one record per struct and one definition per constructor and
  \<open>Delay\<close> method. A method that draws random numbers takes the stream of the draws
  \<open>rand.Float64\<close> will return and gives back what is left of it; a method that changes its
  receiver gives back the new receiver. \<open>base_Delay\<close> is the dynamic dispatch of the
  \<open>Strategy\<close> interface on these strategies.
\<close>

named_theorems strategy_defs \<open>unfolding of constructors and dispatch\<close>

section \<open>Random draws\<close>

type_synonym rng = "f64 stream"

definition rand_Float64 :: "rng \<Rightarrow> f64 \<times> rng" where
  "rand_Float64 r = (shd r, stl r)"

text \<open>What \<open>rand.Float64\<close> documents: draws lie in the half-open interval from 0 to 1.\<close>

definition unit_draw :: "f64 \<Rightarrow> bool" where
  "unit_draw v \<longleftrightarrow> (\<exists>x. v = Fin x \<and> rep64 x \<and> 0 \<le> x \<and> x < 1)"

definition rng_ok :: "rng \<Rightarrow> bool" where
  "rng_ok r \<longleftrightarrow> (\<forall>v \<in> sset r. unit_draw v)"

lemma rng_ok_shd [simp, intro]: "rng_ok r \<Longrightarrow> unit_draw (shd r)"
  by (simp add: rng_ok_def shd_sset)

lemma rng_ok_stl [simp, intro]: "rng_ok r \<Longrightarrow> rng_ok (stl r)"
  by (meson rng_ok_def stl_sset)

section \<open>Fixed\<close>

record Fixed =
  fx_Duration :: duration

definition NewFixed :: "duration \<Rightarrow> Fixed" where
  [strategy_defs]: "NewFixed duration = \<lparr>fx_Duration = duration\<rparr>"

definition Fixed_Delay :: "Fixed \<Rightarrow> int \<Rightarrow> duration" where
  "Fixed_Delay f attempt = fx_Duration f"

section \<open>Exponential\<close>

record Exponential =
  ex_BaseDelay :: duration
  ex_Multiplier :: f64
  ex_MaxDelay :: duration

definition NewExponential :: "duration \<Rightarrow> f64 \<Rightarrow> duration \<Rightarrow> Exponential" where
  [strategy_defs]: "NewExponential baseDelay multiplier maxDelay =
     \<lparr>ex_BaseDelay = baseDelay, ex_Multiplier = multiplier, ex_MaxDelay = maxDelay\<rparr>"

definition Exponential_Delay :: "platform \<Rightarrow> Exponential \<Rightarrow> int \<Rightarrow> duration" where
  "Exponential_Delay p e attempt =
     (if attempt \<le> 0 then ex_BaseDelay e
      else let delay = fmul (f64_of_int (ex_BaseDelay e))
                         (pow_fn p (ex_Multiplier e) (f64_of_int (attempt - 1)));
               result = i64_of_f64 p delay
           in if 0 < ex_MaxDelay e \<and> ex_MaxDelay e < result then ex_MaxDelay e else result)"

section \<open>Jitter\<close>

record Jitter =
  ji_BaseDelay :: duration
  ji_Multiplier :: f64
  ji_MaxDelay :: duration

definition NewJitter :: "duration \<Rightarrow> f64 \<Rightarrow> duration \<Rightarrow> Jitter" where
  [strategy_defs]: "NewJitter baseDelay multiplier maxDelay =
     \<lparr>ji_BaseDelay = baseDelay, ji_Multiplier = multiplier, ji_MaxDelay = maxDelay\<rparr>"

definition Jitter_Delay :: "platform \<Rightarrow> Jitter \<Rightarrow> int \<Rightarrow> rng \<Rightarrow> duration \<times> rng" where
  "Jitter_Delay p j attempt r =
     (if attempt \<le> 0 then
        (let (u, r') = rand_Float64 r
         in (i64_of_f64 p (fmul u (f64_of_int (ji_BaseDelay j))), r'))
      else
        (let exponentialDelay = fmul (f64_of_int (ji_BaseDelay j))
               (pow_fn p (ji_Multiplier j) (f64_of_int (attempt - 1)));
             capped = (if 0 < ji_MaxDelay j \<and> ji_MaxDelay j < i64_of_f64 p exponentialDelay
               then f64_of_int (ji_MaxDelay j) else exponentialDelay);
             (u, r') = rand_Float64 r
         in (i64_of_f64 p (fmul u capped), r')))"

section \<open>Linear\<close>

record Linear =
  li_Increment :: duration
  li_MaxDelay :: duration

definition NewLinear :: "duration \<Rightarrow> duration \<Rightarrow> Linear" where
  [strategy_defs]: "NewLinear increment maxDelay =
     \<lparr>li_Increment = increment, li_MaxDelay = maxDelay\<rparr>"

definition Linear_Delay :: "Linear \<Rightarrow> int \<Rightarrow> duration" where
  "Linear_Delay l attempt =
     (if attempt \<le> 0 then li_Increment l
      else let delay = wrap64 (attempt * li_Increment l)
           in if 0 < li_MaxDelay l \<and> li_MaxDelay l < delay then li_MaxDelay l else delay)"

section \<open>Decorrelated jitter\<close>

record DecorrelatedJitter =
  dj_BaseDelay :: duration
  dj_Multiplier :: f64
  dj_MaxDelay :: duration
  dj_previousDelay :: duration

definition NewDecorrelatedJitter :: "duration \<Rightarrow> f64 \<Rightarrow> duration \<Rightarrow> DecorrelatedJitter" where
  [strategy_defs]: "NewDecorrelatedJitter baseDelay multiplier maxDelay =
     \<lparr>dj_BaseDelay = baseDelay, dj_Multiplier = multiplier, dj_MaxDelay = maxDelay,
      dj_previousDelay = 0\<rparr>"

definition dj_upperBound :: "platform \<Rightarrow> DecorrelatedJitter \<Rightarrow> int \<Rightarrow> duration" where
  "dj_upperBound p d attempt =
     (let upper = (if attempt \<le> 0 \<or> dj_previousDelay d = 0
            then i64_of_f64 p (fmul (f64_of_int (dj_BaseDelay d)) (dj_Multiplier d))
            else i64_of_f64 p (fmul (f64_of_int (dj_previousDelay d)) (dj_Multiplier d)));
          capped = (if 0 < dj_MaxDelay d \<and> dj_MaxDelay d < upper then dj_MaxDelay d else upper)
      in if capped < dj_BaseDelay d then dj_BaseDelay d else capped)"

definition DecorrelatedJitter_Delay ::
  "platform \<Rightarrow> DecorrelatedJitter \<Rightarrow> int \<Rightarrow> rng \<Rightarrow> duration \<times> DecorrelatedJitter \<times> rng" where
  "DecorrelatedJitter_Delay p d attempt r =
     (let upperBound = dj_upperBound p d attempt;
          delayRange = wrap64 (upperBound - dj_BaseDelay d);
          (u, r') = rand_Float64 r;
          randomDelay = wrap64 (dj_BaseDelay d + i64_of_f64 p (fmul u (f64_of_int delayRange)))
      in (randomDelay, d\<lparr>dj_previousDelay := randomDelay\<rparr>, r'))"

section \<open>Fibonacci\<close>

record Fibonacci =
  fi_BaseDelay :: duration
  fi_MaxDelay :: duration

definition NewFibonacci :: "duration \<Rightarrow> duration \<Rightarrow> Fibonacci" where
  [strategy_defs]: "NewFibonacci baseDelay maxDelay =
     \<lparr>fi_BaseDelay = baseDelay, fi_MaxDelay = maxDelay\<rparr>"

text \<open>The loop \<open>for i := 3; i <= n; i++\<close> of \<open>fibonacci\<close>.\<close>

function fibonacci_loop :: "int \<Rightarrow> int \<Rightarrow> i64 \<Rightarrow> i64 \<Rightarrow> i64" where
  "fibonacci_loop i n a b = (if i \<le> n then fibonacci_loop (i + 1) n b (wrap64 (a + b)) else b)"
  by pat_completeness auto
termination
  by (relation "measure (\<lambda>(i, n, a, b). nat (n + 1 - i))") auto

declare fibonacci_loop.simps [simp del]

definition fibonacci :: "int \<Rightarrow> i64" where
  "fibonacci n = (if n \<le> 2 then 1 else fibonacci_loop 3 n 1 1)"

definition Fibonacci_Delay :: "Fibonacci \<Rightarrow> int \<Rightarrow> duration" where
  "Fibonacci_Delay f attempt =
     (if attempt \<le> 0 then fi_BaseDelay f
      else let delay = wrap64 (fibonacci attempt * fi_BaseDelay f)
           in if 0 < fi_MaxDelay f \<and> fi_MaxDelay f < delay then fi_MaxDelay f else delay)"

section \<open>Polynomial\<close>

record PolynomialStrategy =
  po_baseDelay :: duration
  po_exponent :: f64
  po_maxDelay :: duration

datatype poly_error =
    BaseDelayNotPositive duration
  | ExponentNegative f64
  | MaxDelayNotPositive duration
  | BaseAboveMax duration duration

definition NewPolynomial ::
  "duration \<Rightarrow> f64 \<Rightarrow> duration \<Rightarrow> poly_error + PolynomialStrategy" where
  "NewPolynomial baseDelay exponent maxDelay =
     (if baseDelay \<le> 0 then Inl (BaseDelayNotPositive baseDelay)
      else if flt exponent (Fin 0) then Inl (ExponentNegative exponent)
      else if maxDelay \<le> 0 then Inl (MaxDelayNotPositive maxDelay)
      else if maxDelay < baseDelay then Inl (BaseAboveMax baseDelay maxDelay)
      else Inr \<lparr>po_baseDelay = baseDelay, po_exponent = exponent, po_maxDelay = maxDelay\<rparr>)"

definition Polynomial_Delay :: "platform \<Rightarrow> PolynomialStrategy \<Rightarrow> int \<Rightarrow> duration" where
  "Polynomial_Delay p s attempt =
     (if attempt \<le> 0 then po_baseDelay s
      else let multiplier = pow_fn p (f64_of_int attempt) (po_exponent s);
               delay = fmul (f64_of_int (po_baseDelay s)) multiplier
           in if flt (f64_of_int (po_maxDelay s)) delay then po_maxDelay s
              else i64_of_f64 p delay)"

section \<open>The Strategy interface on the self-contained strategies\<close>

datatype base_strategy =
    BFixed Fixed
  | BExponential Exponential
  | BJitter Jitter
  | BLinear Linear
  | BDecorrelatedJitter DecorrelatedJitter
  | BFibonacci Fibonacci
  | BPolynomial PolynomialStrategy

fun base_Delay ::
  "platform \<Rightarrow> base_strategy \<Rightarrow> int \<Rightarrow> rng \<Rightarrow> duration \<times> base_strategy \<times> rng" where
  "base_Delay p (BFixed f) n r = (Fixed_Delay f n, BFixed f, r)"
| "base_Delay p (BExponential e) n r = (Exponential_Delay p e n, BExponential e, r)"
| "base_Delay p (BJitter j) n r = (case Jitter_Delay p j n r of (d, r') \<Rightarrow> (d, BJitter j, r'))"
| "base_Delay p (BLinear l) n r = (Linear_Delay l n, BLinear l, r)"
| "base_Delay p (BDecorrelatedJitter d) n r =
     (case DecorrelatedJitter_Delay p d n r of (x, d', r') \<Rightarrow> (x, BDecorrelatedJitter d', r'))"
| "base_Delay p (BFibonacci f) n r = (Fibonacci_Delay f n, BFibonacci f, r)"
| "base_Delay p (BPolynomial s) n r = (Polynomial_Delay p s n, BPolynomial s, r)"

section \<open>Exact results where nothing overflows\<close>

definition cap :: "duration \<Rightarrow> duration \<Rightarrow> duration" where
  "cap maxDelay d = (if 0 < maxDelay then min d maxDelay else d)"

lemma cap_if [simp]:
  "(if 0 < m \<and> m < d then m else d) = cap m d"
  by (auto simp: cap_def)

lemma cap_mono: "d \<le> d' \<Longrightarrow> cap m d \<le> cap m d'"
  by (auto simp: cap_def)

lemma cap_nonneg: "0 \<le> d \<Longrightarrow> 0 \<le> cap m d"
  by (auto simp: cap_def)

lemma cap_le: "cap m d \<le> d"
  by (auto simp: cap_def)

lemma cap_le_max: "0 < m \<Longrightarrow> cap m d \<le> m"
  by (auto simp: cap_def)

lemma Linear_Delay_exact:
  assumes "1 \<le> attempt" "0 \<le> li_Increment l" "attempt * li_Increment l < 2 ^ 63"
  shows "Linear_Delay l attempt = cap (li_MaxDelay l) (attempt * li_Increment l)"
proof -
  from assms have "in_i64 (attempt * li_Increment l)" by (intro in_i64I) simp_all
  with assms(1) show ?thesis by (simp add: Linear_Delay_def)
qed

lemma day_product_fits:
  assumes "0 \<le> a" "a \<le> 1000" "0 \<le> d" "d \<le> 24 * Hour"
  shows "a * d < 2 ^ 63"
proof -
  have "a * d \<le> 1000 * (24 * Hour)" using assms by (intro mult_mono) auto
  then show ?thesis by (simp add: Hour_def)
qed

text \<open>Linear backoff, on the whole range the configuration admits (at most 1000 attempts,
  an increment of at most 24 hours), never overflows: the delay is the attempt number times
  the increment, cut at the maximum when one is set, and it never shrinks from one attempt
  to a later one.\<close>

lemma linear_delay_correct:
  assumes "1 \<le> a" "a \<le> b" "b \<le> 1000" "0 \<le> li_Increment l" "li_Increment l \<le> 24 * Hour"
  shows "Linear_Delay l a = cap (li_MaxDelay l) (a * li_Increment l)
    \<and> 0 \<le> Linear_Delay l a \<and> Linear_Delay l a \<le> Linear_Delay l b"
proof -
  have fits: "c * li_Increment l < 2 ^ 63" if "1 \<le> c" "c \<le> 1000" for c
    using day_product_fits [of c "li_Increment l"] that assms(4,5) by simp
  have eq: "Linear_Delay l c = cap (li_MaxDelay l) (c * li_Increment l)" if "1 \<le> c" "c \<le> 1000" for c
    using Linear_Delay_exact [OF _ assms(4)] fits that by blast
  have "a * li_Increment l \<le> b * li_Increment l" using assms by (intro mult_right_mono) auto
  then show ?thesis using assms eq [of a] eq [of b] by (auto intro!: cap_mono cap_nonneg)
qed

lemma linear_delay_correct_witness:
  "Linear_Delay (NewLinear Second (60 * Second)) 7 = 7 * Second
   \<and> Linear_Delay (NewLinear Second (60 * Second)) 7 \<le> Linear_Delay (NewLinear Second (60 * Second)) 1000"
  using linear_delay_correct [of 7 1000 "NewLinear Second (60 * Second)"]
  by (simp add: NewLinear_def cap_def unit_defs)

subsection \<open>Fibonacci numbers\<close>

fun fib :: "nat \<Rightarrow> int" where
  "fib 0 = 0"
| "fib (Suc 0) = 1"
| "fib (Suc (Suc n)) = fib n + fib (Suc n)"

fun fib_pair :: "nat \<Rightarrow> int \<times> int" where
  "fib_pair 0 = (0, 1)"
| "fib_pair (Suc n) = (let (a, b) = fib_pair n in (b, a + b))"

lemma fib_pair_eq: "fib_pair n = (fib n, fib (Suc n))"
  by (induction n) auto

lemma fib_code [code]: "fib n = fst (fib_pair n)"
  by (simp add: fib_pair_eq)

lemma fib_nonneg: "0 \<le> fib n"
  by (induction n rule: fib.induct) auto

lemma fibonacci_loop_fib:
  assumes "2 \<le> k" "k \<le> n"
  shows "fibonacci_loop (int k + 1) (int n) (wrap64 (fib (k - 1))) (wrap64 (fib k)) = wrap64 (fib n)"
  using assms
proof (induction "n - k" arbitrary: k)
  case 0
  then show ?case by (simp add: fibonacci_loop.simps)
next
  case (Suc m)
  then have "k < n" by simp
  obtain j where j: "k = Suc j" using Suc.prems(1) by (cases k) auto
  have "wrap64 (wrap64 (fib (k - 1)) + wrap64 (fib k)) = wrap64 (fib (Suc k))"
    by (simp add: go_arith j)
  then have "fibonacci_loop (int k + 1) (int n) (wrap64 (fib (k - 1))) (wrap64 (fib k))
      = fibonacci_loop (int (Suc k) + 1) (int n) (wrap64 (fib (Suc k - 1))) (wrap64 (fib (Suc k)))"
    using \<open>k < n\<close> by (subst fibonacci_loop.simps) simp
  also have "\<dots> = wrap64 (fib n)" using Suc by (intro Suc.hyps(1)) auto
  finally show ?case .
qed

lemma fibonacci_eq_wrap: "fibonacci (int (Suc n)) = wrap64 (fib (Suc n))"
proof (cases "Suc n \<le> 2")
  case True
  then have "n = 0 \<or> n = Suc 0" by auto
  then show ?thesis by (auto simp: fibonacci_def wrap64_def)
next
  case False
  have "wrap64 1 = 1" by (simp add: wrap64_def)
  moreover have "fibonacci_loop (int 2 + 1) (int (Suc n)) (wrap64 (fib (2 - 1))) (wrap64 (fib 2))
      = wrap64 (fib (Suc n))" using False by (intro fibonacci_loop_fib) auto
  ultimately show ?thesis using False by (simp add: fibonacci_def numeral_2_eq_2)
qed

lemma fib_mono: "m \<le> k \<Longrightarrow> fib m \<le> fib k"
proof (rule lift_Suc_mono_le)
  show "fib i \<le> fib (Suc i)" for i using fib_nonneg [of "i - 1"] by (cases i) auto
qed

text \<open>C34. The iterative \<open>fibonacci\<close> computes the Fibonacci number of its argument modulo
  the 64-bit wrap-around, for every argument of at least one; up to the 92nd, the last one
  that fits, it is exact.\<close>

theorem fibonacci_correct:
  "fibonacci (int (Suc n)) = wrap64 (fib (Suc n)) \<and> (Suc n \<le> 92 \<longrightarrow> fibonacci (int (Suc n)) = fib (Suc n))"
proof -
  have "fib 92 = 7540113804746346429" by code_simp
  then have "in_i64 (fib (Suc n))" if "Suc n \<le> 92"
    using fib_mono [OF that] fib_nonneg [of "Suc n"] by (intro in_i64I) simp_all
  then show ?thesis by (simp add: fibonacci_eq_wrap del: fib.simps of_nat_Suc)
qed

theorem fibonacci_correct_witness: "fibonacci 10 = 55"
  using fibonacci_correct [of 9] by (simp add: eval_nat_numeral)

lemma Fibonacci_Delay_exact:
  assumes "0 \<le> fi_BaseDelay f" "fib (Suc n) * fi_BaseDelay f < 2 ^ 63"
  shows "Fibonacci_Delay f (int (Suc n)) = cap (fi_MaxDelay f) (fib (Suc n) * fi_BaseDelay f)"
proof -
  have "in_i64 (fib (Suc n) * fi_BaseDelay f)"
    using assms fib_nonneg [of "Suc n"] by (intro in_i64I) simp_all
  moreover have "wrap64 (fibonacci (int (Suc n)) * fi_BaseDelay f) = wrap64 (fib (Suc n) * fi_BaseDelay f)"
    by (simp add: fibonacci_eq_wrap go_arith del: of_nat_Suc)
  ultimately show ?thesis by (simp add: Fibonacci_Delay_def del: of_nat_Suc)
qed

text \<open>Fibonacci backoff: as long as the Fibonacci number times the base delay fits in 63
  bits, the delay is that product, cut at the maximum when one is set.\<close>

lemma fibonacci_delay_correct:
  assumes "0 \<le> fi_BaseDelay f" "fib (Suc n) * fi_BaseDelay f < 2 ^ 63"
  shows "Fibonacci_Delay f (int (Suc n)) = cap (fi_MaxDelay f) (fib (Suc n) * fi_BaseDelay f)"
  using assms by (rule Fibonacci_Delay_exact)

lemma fibonacci_delay_correct_witness:
  "Fibonacci_Delay (NewFibonacci Second (60 * Second)) 8 = 21 * Second
   \<and> Fibonacci_Delay (NewFibonacci Second (60 * Second)) 49 = 60 * Second"
proof -
  let ?f = "NewFibonacci Second (60 * Second)"
  have "fib 8 = 21" "fib 49 = 7778742049" by code_simp+
  then show ?thesis
    using fibonacci_delay_correct [of ?f 7] fibonacci_delay_correct [of ?f 48]
    by (simp add: NewFibonacci_def cap_def unit_defs)
qed

text \<open>Past that range the wrapped product can be negative, and a negative delay passes the
  cap: with the defaults of the command line (base one second, maximum 60 seconds) the
  50th retry is scheduled with a negative delay, that is without any wait.\<close>

lemma fibonacci_delay_overflow:
  "Fibonacci_Delay (NewFibonacci Second (60 * Second)) 50 < 0"
proof -
  have "fib (Suc 49) = 12586269025" by code_simp
  then have "fibonacci 50 = 12586269025"
    using fibonacci_eq_wrap [of 49] by (simp add: wrap64_def)
  then show ?thesis
    by (simp add: Fibonacci_Delay_def NewFibonacci_def unit_defs wrap64_def cap_def)
qed

section \<open>Exponential growth in floating point\<close>

text \<open>
  What the exponential theorems use of \<open>math.Pow\<close>: powers of two are exact. (\<open>Pow\<close> documents
  that it returns \<open>x**y\<close>, and these results are representable.)
\<close>

definition pow_exact2 :: "platform \<Rightarrow> bool" where
  "pow_exact2 p \<longleftrightarrow> (\<forall>k \<le> 900. pow_fn p (Fin 2) (Fin (of_nat k)) = Fin (2 ^ k))"

text \<open>What amd64 does with a float that does not fit: the least \<open>int64\<close>.\<close>

definition cvt_min :: "platform \<Rightarrow> bool" where
  "cvt_min p \<longleftrightarrow> (\<forall>v. cvt_oor p v = - (2 ^ 63))"

lemma fmul_pow2:
  assumes "\<bar>m\<bar> < 2 ^ 53" "k \<le> 900"
  shows "fmul (f64_of_int m) (Fin (2 ^ k)) = Fin (of_int m * 2 ^ k)"
proof -
  let ?x = "of_int m * 2 ^ k :: rat"
  have x: "?x = of_int m * pow2 (int k)" by (simp add: pow2_def)
  have rep: "rep64 ?x" by (rule rep64I [OF assms(1) _ x]) simp
  have "\<bar>of_int m :: rat\<bar> < of_int (2 ^ 53)"
    using assms(1) by (simp only: of_int_abs [symmetric] of_int_less_iff)
  then have "\<bar>of_int m\<bar> < pow2 53" by (simp add: pow2_def)
  then have "\<bar>?x\<bar> < pow2 53 * pow2 (int k)"
    unfolding x abs_mult by (simp add: mult_strict_right_mono)
  also have "\<dots> \<le> f64_limit"
    unfolding f64_limit_def pow2_add [symmetric] using assms(2) by (intro pow2_mono) simp
  finally have "\<bar>?x\<bar> < f64_limit" .
  with rep have "f64_round ?x = Fin ?x" by (rule f64_round_fixed)
  with assms(1) show ?thesis by (simp add: f64_of_int_small)
qed

lemma Exponential_Delay_pow2:
  assumes "pow_exact2 p" "ex_Multiplier e = Fin 2" "\<bar>ex_BaseDelay e\<bar> < 2 ^ 53" "k \<le> 900"
  shows "Exponential_Delay p e (int (Suc k)) =
    cap (ex_MaxDelay e) (i64_of_f64 p (Fin (of_int (ex_BaseDelay e * 2 ^ k))))"
proof -
  have "f64_of_int (int k) = Fin (of_nat k)" using assms(4) by (simp add: f64_of_int_small)
  moreover have "pow_fn p (Fin 2) (Fin (of_nat k)) = Fin (2 ^ k)"
    using assms(1,4) by (simp add: pow_exact2_def)
  ultimately show ?thesis
    using fmul_pow2 [OF assms(3,4)] by (simp add: Exponential_Delay_def assms(2) Let_def)
qed

text \<open>Exponential backoff with the default multiplier 2: while the doubled base delay fits
  in 63 bits, the delay of attempt \<open>k + 1\<close> is exactly \<open>base * 2^k\<close>, cut at the maximum
  when one is set, whatever the platform does with larger floats.\<close>

lemma exponential_doubles:
  assumes "pow_exact2 p" "ex_Multiplier e = Fin 2" "0 \<le> ex_BaseDelay e" "ex_BaseDelay e < 2 ^ 53"
    and "k \<le> 900" "ex_BaseDelay e * 2 ^ k < 2 ^ 63"
  shows "Exponential_Delay p e (int (Suc k)) = cap (ex_MaxDelay e) (ex_BaseDelay e * 2 ^ k)"
proof -
  have "in_i64 (ex_BaseDelay e * 2 ^ k)" using assms(3,6) by (intro in_i64I) simp_all
  then show ?thesis using Exponential_Delay_pow2 [OF assms(1,2) _ assms(5)] assms(3,4)
    by (simp add: i64_of_f64_def del: of_int_mult of_int_power)
qed

lemma pow_exact2_amd64: "pow_exact2 amd64"
proof -
  have "f64_round (2 ^ k) = Fin (2 ^ k)" if "k \<le> 900" for k
    using fmul_pow2 [of 1 k] that by (simp add: f64_of_int_small)
  then show ?thesis by (simp add: pow_exact2_def amd64_def)
qed

lemma exponential_doubles_witness:
  "Exponential_Delay amd64 (NewExponential Second (Fin 2) (60 * Second)) 6 = 32 * Second"
  using exponential_doubles [OF pow_exact2_amd64, of "NewExponential Second (Fin 2) (60 * Second)" 5]
  by (simp add: NewExponential_def unit_defs cap_def)

text \<open>Where the float does not fit in 63 bits any more and the platform converts it to the
  least \<open>int64\<close> (amd64), the comparison with the maximum is made after the conversion and
  misses: the strategy returns \<open>-2^63\<close>, not \<open>MaxDelay\<close>, and the executor does not wait.\<close>

lemma exponential_overflow_unbounded:
  assumes "pow_exact2 p" "cvt_min p" "ex_Multiplier e = Fin 2"
    and "ex_BaseDelay e < 2 ^ 53" "k \<le> 900" "2 ^ 63 \<le> ex_BaseDelay e * 2 ^ k"
  shows "Exponential_Delay p e (int (Suc k)) = - (2 ^ 63)"
proof -
  have "0 < ex_BaseDelay e * 2 ^ k" using assms(6) by (rule less_le_trans [rotated]) simp
  then have "0 < ex_BaseDelay e" by (simp add: zero_less_mult_iff)
  moreover have "\<not> in_i64 (ex_BaseDelay e * 2 ^ k)" using assms(6) by (simp add: in_i64_def)
  ultimately show ?thesis
    using Exponential_Delay_pow2 [OF assms(1,3) _ assms(5)] assms(2,4)
    by (simp add: i64_of_f64_def cvt_min_def cap_def del: of_int_mult of_int_power)
qed

theorem exponential_overflow_witness:
  "Exponential_Delay amd64 (NewExponential Second (Fin 2) (60 * Second)) 35 = - (2 ^ 63)"
  using exponential_overflow_unbounded
    [OF pow_exact2_amd64, of "NewExponential Second (Fin 2) (60 * Second)" 34]
  by (simp add: NewExponential_def unit_defs cvt_min_def amd64_def)

section \<open>Random delays stay in their interval\<close>

lemma unit_scale:
  assumes "unit_draw u" "rep64 x" "0 \<le> x" "x < f64_limit"
  shows "\<exists>y. fmul u (Fin x) = Fin y \<and> 0 \<le> y \<and> y \<le> x"
proof -
  obtain v where v: "u = Fin v" "0 \<le> v" "v < 1" using assms(1) by (auto simp: unit_draw_def)
  have "0 \<le> v * x" "v * x \<le> x" using v assms(3) by (simp_all add: mult_left_le_one_le)
  then have "\<exists>r. f64_round (v * x) = Fin r \<and> rep64 r \<and> 0 \<le> r \<and> r \<le> x"
    using assms rep64_of_int [of 0] rep64_pow2_1024 [of 0] by (intro f64_round_between) simp_all
  with v(1) show ?thesis by auto
qed

lemma unit_scale_int:
  assumes "unit_draw u" "0 \<le> n" "n \<le> 2 ^ 53"
  shows "0 \<le> i64_of_f64 p (fmul u (f64_of_int n))" and "i64_of_f64 p (fmul u (f64_of_int n)) \<le> n"
proof -
  have "rep64 (of_int n)" "f64_of_int n = Fin (of_int n)"
    using assms by (auto simp: f64_of_int_small)
  moreover have "of_int n < f64_limit"
  proof -
    have "\<bar>of_int n :: rat\<bar> \<le> of_int (2 ^ 63)" using assms(2,3) by (simp del: of_int_power)
    then show ?thesis using rep64_pow2_1024 [of "of_int n"] by (simp add: abs_less_iff)
  qed
  ultimately obtain y where y: "fmul u (f64_of_int n) = Fin y" "0 \<le> y" "y \<le> of_int n"
    using unit_scale [OF assms(1), of "of_int n"] assms(2) by auto
  then have "0 \<le> trunc y" "trunc y \<le> n" by (simp_all add: trunc_nonneg trunc_le_of_int)
  moreover from this have "in_i64 (trunc y)" using assms(3) by (intro in_i64I) simp_all
  ultimately show "0 \<le> i64_of_f64 p (fmul u (f64_of_int n))" "i64_of_f64 p (fmul u (f64_of_int n)) \<le> n"
    by (simp_all add: y(1) i64_of_f64_def)
qed

text \<open>The invariant of decorrelated jitter: ranges as the configuration admits them.\<close>

definition dj_inv :: "DecorrelatedJitter \<Rightarrow> bool" where
  "dj_inv d \<longleftrightarrow> 0 \<le> dj_BaseDelay d \<and> dj_BaseDelay d \<le> 2 ^ 53
     \<and> 0 < dj_MaxDelay d \<and> dj_MaxDelay d \<le> 2 ^ 53
     \<and> (dj_previousDelay d = 0 \<or> dj_BaseDelay d \<le> dj_previousDelay d
         \<and> dj_previousDelay d \<le> max (dj_BaseDelay d) (dj_MaxDelay d))"

lemma dj_range:
  assumes "dj_inv d" "rng_ok r" "DecorrelatedJitter_Delay p d attempt r = (x, d', r')"
  shows "dj_BaseDelay d \<le> x \<and> x \<le> max (dj_BaseDelay d) (dj_MaxDelay d)
    \<and> dj_previousDelay d' = x \<and> dj_inv d' \<and> rng_ok r'"
proof -
  let ?b = "dj_BaseDelay d" and ?m = "dj_MaxDelay d" and ?u = "dj_upperBound p d attempt"
  have b: "0 \<le> ?b" "?b \<le> 2 ^ 53" "0 < ?m" "?m \<le> 2 ^ 53" using assms(1) by (auto simp: dj_inv_def)
  have u: "?b \<le> ?u" "?u \<le> max ?b ?m"
    using b(3) by (auto simp: dj_upperBound_def cap_def Let_def simp del: cap_if)
  then have range: "0 \<le> ?u - ?b" "?u - ?b \<le> 2 ^ 53" using b by auto
  let ?v = "i64_of_f64 p (fmul (shd r) (f64_of_int (?u - ?b)))"
  have v: "0 \<le> ?v" "?v \<le> ?u - ?b" using unit_scale_int [OF rng_ok_shd [OF assms(2)] range] by auto
  have "in_i64 (?u - ?b)" "in_i64 (?b + ?v)" using range u b v by (auto intro!: in_i64I)
  then have eq: "x = ?b + ?v" "d' = d\<lparr>dj_previousDelay := ?b + ?v\<rparr>" "r' = stl r"
    using assms(3) by (auto simp: DecorrelatedJitter_Delay_def rand_Float64_def Let_def)
  moreover have "?b + ?v \<le> max ?b ?m" using u v by auto
  ultimately show ?thesis using v(1) assms(1,2) by (auto simp: dj_inv_def)
qed

text \<open>C35. Decorrelated jitter: every delay lies between the base delay and the larger of base and
  maximum delay, for every multiplier (NaN and infinities included) and whatever the
  platform makes of floats that overflow; it is stored as the previous delay, and the
  strategy keeps its invariant, so this holds for every delay of a run.\<close>

theorem decorrelated_jitter_bounds:
  assumes "dj_inv d" "rng_ok r" "DecorrelatedJitter_Delay p d attempt r = (x, d', r')"
  shows "dj_BaseDelay d \<le> x \<and> x \<le> max (dj_BaseDelay d) (dj_MaxDelay d)
    \<and> dj_previousDelay d' = x \<and> dj_inv d' \<and> rng_ok r'"
  using assms by (rule dj_range)

text \<open>A stream of draws to evaluate on.\<close>

definition half_draws :: rng where
  "half_draws = sconst (Fin (1 / 2))"

lemma rng_ok_half_draws: "rng_ok half_draws"
proof -
  have "rep64 (1 / 2)" by (rule rep64I [of 1 "- 1"]) (simp_all add: pow2_def)
  then show ?thesis by (force simp: rng_ok_def half_draws_def unit_draw_def)
qed

lemma half_draws_simps [simp]: "shd half_draws = Fin (1 / 2)" "stl half_draws = half_draws"
  by (simp_all add: half_draws_def)

theorem decorrelated_jitter_bounds_witness:
  "dj_inv (NewDecorrelatedJitter Second (Fin 3) (60 * Second))
   \<and> (\<exists>x d' r'. DecorrelatedJitter_Delay amd64 (NewDecorrelatedJitter Second (Fin 3) (60 * Second)) 1
        half_draws = (x, d', r') \<and> Second \<le> x \<and> x \<le> 60 * Second)"
proof -
  let ?d = "NewDecorrelatedJitter Second (Fin 3) (60 * Second)"
  have inv: "dj_inv ?d" by (simp add: dj_inv_def NewDecorrelatedJitter_def unit_defs)
  obtain x d' r' where eq: "DecorrelatedJitter_Delay amd64 ?d 1 half_draws = (x, d', r')"
    by (metis prod_cases3)
  show ?thesis
    using inv eq decorrelated_jitter_bounds [OF inv rng_ok_half_draws eq]
    by (auto simp: NewDecorrelatedJitter_def unit_defs)
qed

text \<open>
  The exponential delay of the jitter strategy before its cap, when it is a finite float
  that fits in 63 bits.
\<close>

definition ji_fits :: "platform \<Rightarrow> Jitter \<Rightarrow> int \<Rightarrow> rat \<Rightarrow> bool" where
  "ji_fits p j attempt x \<longleftrightarrow>
     fmul (f64_of_int (ji_BaseDelay j)) (pow_fn p (ji_Multiplier j) (f64_of_int (attempt - 1))) = Fin x
     \<and> rep64 x \<and> 0 \<le> x \<and> x < 2 ^ 63"

lemma trunc_fits: "0 \<le> x \<Longrightarrow> x < 2 ^ 63 \<Longrightarrow> in_i64 (trunc x)"
proof -
  assume x: "0 \<le> x" "x < 2 ^ 63"
  then have "\<lfloor>x\<rfloor> < 2 ^ 63" by (simp add: floor_less_iff)
  with x show ?thesis by (simp add: trunc_def in_i64_def)
qed

lemma jitter_range:
  assumes "1 \<le> attempt" "ji_fits p j attempt x" "ji_MaxDelay j \<le> 2 ^ 53" "rng_ok r"
    and "Jitter_Delay p j attempt r = (d, r')"
  shows "0 \<le> d \<and> d \<le> cap (ji_MaxDelay j) (trunc x) \<and> r' = stl r"
proof -
  let ?m = "ji_MaxDelay j"
  have x: "fmul (f64_of_int (ji_BaseDelay j)) (pow_fn p (ji_Multiplier j) (f64_of_int (attempt - 1))) = Fin x"
    "rep64 x" "0 \<le> x" "x < 2 ^ 63" using assms(2) by (auto simp: ji_fits_def)
  then have tx: "in_i64 (trunc x)" by (simp add: trunc_fits)
  let ?c = "if 0 < ?m \<and> ?m < trunc x then f64_of_int ?m else Fin x"
  have d: "d = i64_of_f64 p (fmul (shd r) ?c)" "r' = stl r"
    using assms(1,5) x(1) tx
    by (auto simp: Jitter_Delay_def rand_Float64_def Let_def i64_of_f64_Fin simp del: cap_if)
  show ?thesis
  proof (cases "0 < ?m \<and> ?m < trunc x")
    case True
    with unit_scale_int [OF rng_ok_shd [OF assms(4)], of ?m p] assms(3) d show ?thesis
      by (auto simp: cap_def)
  next
    case False
    have "x < f64_limit" using rep64_pow2_1024 [of x] x(3,4) by (simp add: abs_less_iff)
    then obtain y where y: "fmul (shd r) (Fin x) = Fin y" "0 \<le> y" "y \<le> x"
      using unit_scale [OF rng_ok_shd [OF assms(4)] x(2,3)] by auto
    then have "in_i64 (trunc y)" "0 \<le> trunc y" "trunc y \<le> trunc x"
      using x(4) by (auto simp: trunc_fits trunc_nonneg trunc_mono)
    with False d y(1) show ?thesis by (auto simp: cap_def i64_of_f64_def)
  qed
qed

text \<open>Full jitter: as long as the exponential delay fits in 63 bits, the random delay lies
  between zero and the exponential delay cut at the maximum, and one draw is consumed.\<close>

lemma jitter_bounds:
  assumes "1 \<le> attempt" "ji_fits p j attempt x" "ji_MaxDelay j \<le> 2 ^ 53" "rng_ok r"
    and "Jitter_Delay p j attempt r = (d, r')"
  shows "0 \<le> d \<and> d \<le> cap (ji_MaxDelay j) (trunc x) \<and> r' = stl r"
  using assms by (rule jitter_range)

lemma jitter_bounds_witness:
  "\<exists>d r'. Jitter_Delay amd64 (NewJitter Second (Fin 2) (60 * Second)) 3 half_draws = (d, r')
     \<and> 0 \<le> d \<and> d \<le> 4 * Second"
proof -
  let ?j = "NewJitter Second (Fin 2) (60 * Second)"
  have "fmul (f64_of_int Second) (Fin (2 ^ 2)) = Fin (of_int Second * 2 ^ 2)"
    by (rule fmul_pow2) (simp_all add: unit_defs)
  moreover have "pow_fn amd64 (Fin 2) (f64_of_int 2) = Fin (2 ^ 2)"
    using pow_exact2_amd64 [unfolded pow_exact2_def, rule_format, of 2] by (simp add: f64_of_int_small)
  moreover have "rep64 (of_int (4 * Second))" by (rule rep64_of_int) (simp add: unit_defs)
  ultimately have fits: "ji_fits amd64 ?j 3 (of_int (4 * Second))"
    by (simp add: ji_fits_def NewJitter_def unit_defs)
  obtain d r' where eq: "Jitter_Delay amd64 ?j 3 half_draws = (d, r')" by (metis prod.exhaust)
  have "0 \<le> d \<and> d \<le> cap (ji_MaxDelay ?j) (trunc (of_int (4 * Second))) \<and> r' = stl half_draws"
    by (rule jitter_bounds [OF _ fits _ rng_ok_half_draws eq]) (simp_all add: NewJitter_def unit_defs)
  with eq show ?thesis by (auto simp: NewJitter_def cap_def unit_defs simp del: of_int_mult of_int_numeral)
qed

section \<open>Polynomial backoff\<close>

text \<open>The polynomial constructor accepts exactly the parameters with a positive base delay, an
  exponent that does not compare below zero, and a maximum of at least the base delay, and
  stores them unchanged; every other input is an error.\<close>

lemma new_polynomial_accepts:
  "NewPolynomial b x m = Inr s \<longleftrightarrow>
     0 < b \<and> \<not> flt x (Fin 0) \<and> b \<le> m \<and> s = \<lparr>po_baseDelay = b, po_exponent = x, po_maxDelay = m\<rparr>"
  by (auto simp: NewPolynomial_def)

text \<open>What \<open>math.Pow\<close> gives for a base of at least 1 and a non-negative exponent.\<close>

definition pow_ge_1 :: "f64 \<Rightarrow> bool" where
  "pow_ge_1 v \<longleftrightarrow> v = PInf \<or> (\<exists>y. v = Fin y \<and> 1 \<le> y)"

lemma poly_range:
  fixes s :: PolynomialStrategy
  defines "b \<equiv> po_baseDelay s" and "m \<equiv> po_maxDelay s" and "x \<equiv> po_exponent s"
  assumes s: "0 < b" "b \<le> m" and lim: "m \<le> 2 ^ 53" and att: "1 \<le> attempt"
    and pow: "pow_ge_1 (pow_fn p (f64_of_int attempt) x)"
  shows "b \<le> Polynomial_Delay p s attempt \<and> Polynomial_Delay p s attempt \<le> m"
proof -
  have eqs: "po_baseDelay s = b" "po_maxDelay s = m" "po_exponent s = x"
    by (simp_all add: b_def m_def x_def)
  from s have fb: "f64_of_int b = Fin (of_int b)" "f64_of_int m = Fin (of_int m)"
    using lim by (simp_all add: f64_of_int_small)
  show ?thesis
  proof (cases "pow_fn p (f64_of_int attempt) x")
    case (Fin y)
    with pow have "1 \<le> y" by (simp add: pow_ge_1_def)
    then have "of_int b \<le> of_int b * y" using s(1) by simp
    moreover have "rep64 (of_int b)" using s(1,2) lim by (intro rep64_of_int) simp
    ultimately have ge: "of_int b \<le> rnd64 (of_int b * y)" by (intro r64.rnd_ge)
    show ?thesis
    proof (cases "rnd64 (of_int b * y) \<le> of_int m")
      case True
      let ?r = "rnd64 (of_int b * y)"
      have t: "b \<le> trunc ?r" "trunc ?r \<le> m" using ge True by (simp_all add: trunc_ge_of_int trunc_le_of_int)
      then have "in_i64 (trunc ?r)" using s(1) lim by (intro in_i64I) auto
      moreover have "\<bar>?r\<bar> < f64_limit"
      proof (rule rep64_pow2_1024)
        have "(of_int m :: rat) \<le> of_int (2 ^ 63)"
          by (subst of_int_le_iff) (use lim in simp)
        with True have "?r \<le> of_int (2 ^ 63)" by (rule order_trans)
        moreover have "0 \<le> ?r" using ge s(1) by (meson of_int_0_le_iff order_trans less_imp_le)
        ultimately show "\<bar>?r\<bar> \<le> 2 ^ 63" by simp
      qed
      ultimately show ?thesis
        using t True s eqs att Fin fb
        by (simp add: Polynomial_Delay_def f64_round_def Let_def i64_of_f64_def abs_less_iff not_le)
    next
      case False
      then have "flt (Fin (of_int m)) (f64_round (of_int b * y))"
        using ge s(1) f64_limit_pos by (auto simp: f64_round_def Let_def)
      with s eqs att Fin fb show ?thesis by (simp add: Polynomial_Delay_def)
    qed
  qed (use att pow s eqs fb in \<open>simp_all add: pow_ge_1_def Polynomial_Delay_def inf_sgn_def\<close>)
qed

text \<open>Polynomial backoff caps in floating point, before the conversion: for a strategy the
  constructor accepted, with a maximum of at most \<open>2^53\<close> nanoseconds (104 days), the delay
  lies between the base delay and the maximum for every attempt, even where the power
  overflows to infinity.\<close>

lemma polynomial_bounds:
  assumes "NewPolynomial b x m = Inr s" "m \<le> 2 ^ 53" "1 \<le> attempt"
    and "pow_ge_1 (pow_fn p (f64_of_int attempt) x)"
  shows "b \<le> Polynomial_Delay p s attempt \<and> Polynomial_Delay p s attempt \<le> m"
  using assms poly_range [of s attempt p] by (auto simp: NewPolynomial_def split: if_splits)

lemma polynomial_bounds_witness:
  "\<exists>s. NewPolynomial Second (Fin 2) (60 * Second) = Inr s
     \<and> Second \<le> Polynomial_Delay amd64 s 3 \<and> Polynomial_Delay amd64 s 3 \<le> 60 * Second"
proof -
  let ?s = "\<lparr>po_baseDelay = Second, po_exponent = Fin 2, po_maxDelay = 60 * Second\<rparr>"
  have new: "NewPolynomial Second (Fin 2) (60 * Second) = Inr ?s"
    by (simp add: NewPolynomial_def unit_defs)
  have "pow_fn amd64 (f64_of_int 3) (Fin 2) = Fin 9" by code_simp
  then have "pow_ge_1 (pow_fn amd64 (f64_of_int 3) (Fin 2))" by (simp add: pow_ge_1_def)
  from polynomial_bounds [OF new _ _ this] new show ?thesis by (simp add: unit_defs)
qed

section \<open>The contract a retry loop relies on\<close>

text \<open>
  A client of the \<open>Strategy\<close> interface calls \<open>Delay\<close> with the attempt numbers 1, 2, 3 and so
  on. What it needs is a bound on each answer that the calls themselves keep true.
\<close>

locale bounded_strategy =
  fixes delay :: "'s \<Rightarrow> int \<Rightarrow> 'r \<Rightarrow> duration \<times> 's \<times> 'r"
    and inv :: "'s \<Rightarrow> bool"
    and bound :: "'s \<Rightarrow> duration"
    and rok :: "'r \<Rightarrow> bool"
    and horizon :: int
  assumes delay_step:
    "inv s \<Longrightarrow> rok r \<Longrightarrow> 1 \<le> n \<Longrightarrow> n \<le> horizon \<Longrightarrow> delay s n r = (d, s', r') \<Longrightarrow>
       0 \<le> d \<and> d \<le> bound s \<and> inv s' \<and> bound s' = bound s \<and> rok r'"
begin

lemma delay_nonneg:
  "inv s \<Longrightarrow> rok r \<Longrightarrow> 1 \<le> n \<Longrightarrow> n \<le> horizon \<Longrightarrow> 0 \<le> fst (delay s n r)"
  using delay_step [of s r n "fst (delay s n r)" "fst (snd (delay s n r))" "snd (snd (delay s n r))"]
  by simp

lemma delay_le_bound:
  "inv s \<Longrightarrow> rok r \<Longrightarrow> 1 \<le> n \<Longrightarrow> n \<le> horizon \<Longrightarrow> fst (delay s n r) \<le> bound s"
  using delay_step [of s r n "fst (delay s n r)" "fst (snd (delay s n r))" "snd (snd (delay s n r))"]
  by simp

end

text \<open>The parameter ranges in which a self-contained strategy answers for \<open>N\<close> attempts.\<close>

fun base_inv :: "platform \<Rightarrow> int \<Rightarrow> base_strategy \<Rightarrow> bool" where
  "base_inv p N (BFixed f) = (0 \<le> fx_Duration f)"
| "base_inv p N (BExponential e) = (\<forall>n. 1 \<le> n \<and> n \<le> N \<longrightarrow>
     (\<exists>x. fmul (f64_of_int (ex_BaseDelay e)) (pow_fn p (ex_Multiplier e) (f64_of_int (n - 1))) = Fin x
          \<and> 0 \<le> x \<and> x < 2 ^ 63))"
| "base_inv p N (BJitter j) = (ji_MaxDelay j \<le> 2 ^ 53 \<and> (\<forall>n. 1 \<le> n \<and> n \<le> N \<longrightarrow> (\<exists>x. ji_fits p j n x)))"
| "base_inv p N (BLinear l) = (0 \<le> li_Increment l \<and> N * li_Increment l < 2 ^ 63)"
| "base_inv p N (BDecorrelatedJitter d) = dj_inv d"
| "base_inv p N (BFibonacci f) = (0 \<le> fi_BaseDelay f \<and> fib (nat N) * fi_BaseDelay f < 2 ^ 63)"
| "base_inv p N (BPolynomial s) = (0 < po_baseDelay s \<and> po_baseDelay s \<le> po_maxDelay s
     \<and> \<not> flt (po_exponent s) (Fin 0) \<and> po_maxDelay s \<le> 2 ^ 53
     \<and> (\<forall>n. 1 \<le> n \<and> n \<le> N \<longrightarrow> pow_ge_1 (pow_fn p (f64_of_int n) (po_exponent s))))"

definition max_i64 :: int where
  "max_i64 = 2 ^ 63 - 1"

fun base_bound :: "base_strategy \<Rightarrow> duration" where
  "base_bound (BFixed f) = fx_Duration f"
| "base_bound (BExponential e) = cap (ex_MaxDelay e) max_i64"
| "base_bound (BJitter j) = cap (ji_MaxDelay j) max_i64"
| "base_bound (BLinear l) = cap (li_MaxDelay l) max_i64"
| "base_bound (BDecorrelatedJitter d) = max (dj_BaseDelay d) (dj_MaxDelay d)"
| "base_bound (BFibonacci f) = cap (fi_MaxDelay f) max_i64"
| "base_bound (BPolynomial s) = po_maxDelay s"

lemma base_Exponential_bound:
  assumes "base_inv p N (BExponential e)" "1 \<le> n" "n \<le> N"
  shows "0 \<le> Exponential_Delay p e n \<and> Exponential_Delay p e n \<le> cap (ex_MaxDelay e) max_i64"
proof -
  obtain x where x: "fmul (f64_of_int (ex_BaseDelay e))
      (pow_fn p (ex_Multiplier e) (f64_of_int (n - 1))) = Fin x" "0 \<le> x" "x < 2 ^ 63"
    using assms by auto
  then have t: "in_i64 (trunc x)" "0 \<le> trunc x" "trunc x \<le> max_i64"
    using trunc_fits [of x] by (auto simp: trunc_nonneg in_i64_def max_i64_def)
  with assms(2) x(1) have "Exponential_Delay p e n = cap (ex_MaxDelay e) (trunc x)"
    by (simp add: Exponential_Delay_def i64_of_f64_Fin)
  with t show ?thesis by (simp add: cap_nonneg cap_mono)
qed

lemma base_Jitter_bound:
  assumes "base_inv p N (BJitter j)" "1 \<le> n" "n \<le> N" "rng_ok r" "Jitter_Delay p j n r = (d, r')"
  shows "0 \<le> d \<and> d \<le> cap (ji_MaxDelay j) max_i64 \<and> r' = stl r"
proof -
  obtain x where x: "ji_fits p j n x" "ji_MaxDelay j \<le> 2 ^ 53" using assms(1-3) by auto
  then have "trunc x \<le> max_i64" using trunc_fits [of x] by (auto simp: ji_fits_def in_i64_def max_i64_def)
  moreover have "0 \<le> d \<and> d \<le> cap (ji_MaxDelay j) (trunc x) \<and> r' = stl r"
    by (rule jitter_range [OF assms(2) x assms(4,5)])
  ultimately show ?thesis using cap_mono [of "trunc x" max_i64 "ji_MaxDelay j"] by linarith
qed

lemma base_Linear_bound:
  assumes "base_inv p N (BLinear l)" "1 \<le> n" "n \<le> N"
  shows "0 \<le> Linear_Delay l n \<and> Linear_Delay l n \<le> cap (li_MaxDelay l) max_i64"
proof -
  have "n * li_Increment l \<le> N * li_Increment l" using assms by (auto intro: mult_right_mono)
  then have "n * li_Increment l < 2 ^ 63" using assms(1) by simp
  with assms Linear_Delay_exact [of n l] show ?thesis
    by (simp add: cap_nonneg cap_mono max_i64_def)
qed

lemma base_Fibonacci_bound:
  assumes "base_inv p N (BFibonacci f)" "1 \<le> n" "n \<le> N"
  shows "0 \<le> Fibonacci_Delay f n \<and> Fibonacci_Delay f n \<le> cap (fi_MaxDelay f) max_i64"
proof -
  obtain k where k: "n = int (Suc k)"
    using int_Suc_ex [OF assms(2)] by blast
  have "fib (Suc k) * fi_BaseDelay f \<le> fib (nat N) * fi_BaseDelay f"
    using assms(1,3) k by (intro mult_right_mono fib_mono) auto
  with assms(1) have "fib (Suc k) * fi_BaseDelay f < 2 ^ 63" by simp
  with assms(1) fib_nonneg [of "Suc k"] show ?thesis
    by (simp add: k Fibonacci_Delay_exact cap_nonneg cap_mono max_i64_def del: of_nat_Suc fib.simps)
qed

lemma dj_frame:
  "DecorrelatedJitter_Delay p d n r = (x, d', r') \<Longrightarrow> d' = d\<lparr>dj_previousDelay := x\<rparr>"
  by (auto simp: DecorrelatedJitter_Delay_def Let_def rand_Float64_def)

interpretation base: bounded_strategy "base_Delay p" "base_inv p N" base_bound rng_ok N for p N
proof
  fix s r n d s' r'
  assume a: "base_inv p N s" "rng_ok r" "1 \<le> n" "n \<le> N" "base_Delay p s n r = (d, s', r')"
  show "0 \<le> d \<and> d \<le> base_bound s \<and> base_inv p N s' \<and> base_bound s' = base_bound s \<and> rng_ok r'"
  proof (cases s)
    case (BFixed f)
    with a show ?thesis by (auto simp: Fixed_Delay_def)
  next
    case (BExponential e)
    with a base_Exponential_bound [of p N e n] show ?thesis by auto
  next
    case (BJitter j)
    with a base_Jitter_bound [of p N j n r] show ?thesis by (auto split: prod.splits)
  next
    case (BLinear l)
    with a base_Linear_bound [of p N l n] show ?thesis by auto
  next
    case (BDecorrelatedJitter k)
    then obtain k' where k': "DecorrelatedJitter_Delay p k n r = (d, k', r')" "s' = BDecorrelatedJitter k'"
      using a(5) by (auto split: prod.splits)
    have inv: "dj_inv k" using a(1) BDecorrelatedJitter by simp
    then have "0 \<le> dj_BaseDelay k" by (simp add: dj_inv_def)
    with dj_range [OF inv a(2) k'(1)] dj_frame [OF k'(1)] k'(2) BDecorrelatedJitter show ?thesis by simp
  next
    case (BFibonacci f)
    with a base_Fibonacci_bound [of p N f n] show ?thesis by auto
  next
    case (BPolynomial q)
    with a poly_range [of q n p] show ?thesis by auto
  qed
qed

end
