(* ===== verification/Adaptive.thy ===== *)
theory Adaptive
  imports Strategy
begin

text \<open>
  The adaptive strategy of \<open>pkg/backoff/adaptive.go\<close>. The fallback strategy is of an
  arbitrary type \<open>'f\<close>; its \<open>Delay\<close> method is an argument of the definitions that call it.

  \<open>delayBuckets\<close> is a Go map, kept as the list of its entries in key order; every \<open>range\<close> loop
  over it takes its order of iteration (\<open>map_range\<close>) from a stream of rankings.
\<close>

named_theorems adaptive_simps \<open>evaluation of the adaptive strategy\<close>

section \<open>Data\<close>

record DelayBucket =
  db_MinDelay :: duration
  db_MaxDelay :: duration
  db_SuccessRate :: f64
  db_SampleCount :: int
  db_TotalLatency :: duration

record OutcomeRecord =
  oc_Delay :: duration
  oc_Success :: bool
  oc_Latency :: duration

record 'f Adaptive =
  ad_fallbackStrategy :: 'f
  ad_learningRate :: f64
  ad_memoryWindow :: int
  ad_delayBuckets :: "(int \<times> DelayBucket) list"
  ad_recentOutcomes :: "OutcomeRecord list"
  ad_totalOutcomes :: int

datatype adaptive_error =
    ErrNilFallback
  | ErrLearningRate f64
  | ErrMemoryWindow int

section \<open>Operations\<close>

definition NewAdaptive :: "'f option \<Rightarrow> f64 \<Rightarrow> int \<Rightarrow> adaptive_error + 'f Adaptive" where
  "NewAdaptive fallback learningRate memoryWindow =
     (case fallback of None \<Rightarrow> Inl ErrNilFallback
      | Some f \<Rightarrow>
          if fle learningRate (Fin 0) \<or> flt (Fin 1) learningRate then Inl (ErrLearningRate learningRate)
          else if memoryWindow \<le> 0 \<or> 10000 < memoryWindow then Inl (ErrMemoryWindow memoryWindow)
          else Inr \<lparr>ad_fallbackStrategy = f, ad_learningRate = learningRate,
                    ad_memoryWindow = memoryWindow, ad_delayBuckets = [],
                    ad_recentOutcomes = [], ad_totalOutcomes = 0\<rparr>)"

definition bucketRanges :: "(duration \<times> duration) list" where
  "bucketRanges =
     [(0, 1 * Second), (1 * Second, 2 * Second), (2 * Second, 5 * Second), (5 * Second, 10 * Second),
      (10 * Second, 30 * Second), (30 * Second, 60 * Second), (60 * Second, 300 * Second)]"

definition initialBuckets :: "(int \<times> DelayBucket) list" where
  "initialBuckets =
     map (\<lambda>i. case bucketRanges ! i of (mn, mx) \<Rightarrow>
           (int i, \<lparr>db_MinDelay = mn, db_MaxDelay = mx, db_SuccessRate = Fin 0,
                    db_SampleCount = 0, db_TotalLatency = 0\<rparr>))
       [0..<length bucketRanges]"

definition initializeBucketsLocked :: "'f Adaptive \<Rightarrow> 'f Adaptive" where
  "initializeBucketsLocked a = a\<lparr>ad_delayBuckets := initialBuckets\<rparr>"

definition findBucketIndexLocked :: "ranking \<Rightarrow> (int \<times> DelayBucket) list \<Rightarrow> duration \<Rightarrow> int" where
  "findBucketIndexLocked rk m delay =
     (case find (\<lambda>(index, bucket). db_MinDelay bucket \<le> delay \<and> delay < db_MaxDelay bucket)
             (map_range rk m) of
        Some (index, _) \<Rightarrow> index
      | None \<Rightarrow> if 300 * Second \<le> delay then int (length m) - 1 else - 1)"

definition ema_update :: "f64 \<Rightarrow> bool \<Rightarrow> f64 \<Rightarrow> f64" where
  "ema_update \<alpha> success rate =
     fadd (fmul (fsub (Fin 1) \<alpha>) rate) (fmul \<alpha> (if success then Fin 1 else Fin 0))"

definition bucket_observe :: "f64 \<Rightarrow> OutcomeRecord \<Rightarrow> DelayBucket \<Rightarrow> DelayBucket" where
  "bucket_observe \<alpha> oc b =
     b\<lparr>db_SampleCount := wrap64 (db_SampleCount b + 1),
       db_TotalLatency := wrap64 (db_TotalLatency b + oc_Latency oc),
       db_SuccessRate := ema_update \<alpha> (oc_Success oc) (db_SuccessRate b)\<rparr>"

definition at_key :: "int \<Rightarrow> ('v \<Rightarrow> 'v) \<Rightarrow> (int \<times> 'v) list \<Rightarrow> (int \<times> 'v) list" where
  "at_key k f = map (\<lambda>(i, b). (i, if i = k then f b else b))"

fun populate_loop ::
  "f64 \<Rightarrow> OutcomeRecord list \<Rightarrow> (int \<times> DelayBucket) list \<Rightarrow> ranking stream \<Rightarrow>
     (int \<times> DelayBucket) list \<times> ranking stream" where
  "populate_loop \<alpha> [] m rks = (m, rks)"
| "populate_loop \<alpha> (oc # ocs) m rks =
     (let bucketIndex = findBucketIndexLocked (shd rks) m (oc_Delay oc)
      in populate_loop \<alpha> ocs
           (if 0 \<le> bucketIndex then at_key bucketIndex (bucket_observe \<alpha> oc) m else m)
           (stl rks))"

definition updateDelayBucketsLocked :: "'f Adaptive \<Rightarrow> ranking stream \<Rightarrow> 'f Adaptive \<times> ranking stream" where
  "updateDelayBucketsLocked a rks =
     (let a1 = (if ad_delayBuckets a = [] then initializeBucketsLocked a
                else a\<lparr>ad_delayBuckets := map (\<lambda>(i, b). (i, b\<lparr>db_SuccessRate := Fin 0,
                         db_SampleCount := 0, db_TotalLatency := 0\<rparr>)) (ad_delayBuckets a)\<rparr>);
          (m, rks') = populate_loop (ad_learningRate a1) (ad_recentOutcomes a1) (ad_delayBuckets a1) rks
      in (a1\<lparr>ad_delayBuckets := m\<rparr>, rks'))"

definition RecordOutcome ::
  "'f Adaptive \<Rightarrow> duration \<Rightarrow> bool \<Rightarrow> duration \<Rightarrow> ranking stream \<Rightarrow> 'f Adaptive \<times> ranking stream" where
  "RecordOutcome a delay success latency rks =
     (let outcome = \<lparr>oc_Delay = delay, oc_Success = success, oc_Latency = latency\<rparr>;
          kept = (if ad_memoryWindow a \<le> int (length (ad_recentOutcomes a))
                  then tl (ad_recentOutcomes a) else ad_recentOutcomes a);
          a1 = a\<lparr>ad_recentOutcomes := kept @ [outcome],
                 ad_totalOutcomes := wrap64 (ad_totalOutcomes a + 1)\<rparr>
      in updateDelayBucketsLocked a1 rks)"

fun best_bucket ::
  "(int \<times> DelayBucket) list \<Rightarrow> DelayBucket option \<Rightarrow> f64 \<Rightarrow> DelayBucket option" where
  "best_bucket [] best rate = best"
| "best_bucket ((i, b) # bs) best rate =
     (if 2 \<le> db_SampleCount b \<and> flt rate (db_SuccessRate b)
      then best_bucket bs (Some b) (db_SuccessRate b)
      else best_bucket bs best rate)"

definition blendDelays :: "platform \<Rightarrow> f64 \<Rightarrow> duration \<Rightarrow> duration \<Rightarrow> duration" where
  "blendDelays p learningRate optimal fallback =
     (let optimalWeight = learningRate; fallbackWeight = fsub (Fin 1) learningRate
      in i64_of_f64 p (fadd (fmul (f64_of_int optimal) optimalWeight)
                            (fmul (f64_of_int fallback) fallbackWeight)))"

definition bucket_middle :: "DelayBucket \<Rightarrow> duration" where
  "bucket_middle b =
     (let bucketRange = wrap64 (db_MaxDelay b - db_MinDelay b)
      in wrap64 (db_MinDelay b + quo bucketRange 2))"

text \<open>The fallback's method: receiver, attempt and randomness to delay, receiver and randomness.\<close>

type_synonym ('f, 'r) delay_fn = "'f \<Rightarrow> int \<Rightarrow> 'r \<Rightarrow> duration \<times> 'f \<times> 'r"

definition fallback_Delay ::
  "('f, 'r) delay_fn \<Rightarrow> 'f Adaptive \<Rightarrow> int \<Rightarrow> 'r \<Rightarrow> duration \<times> 'f Adaptive \<times> 'r" where
  "fallback_Delay fb a attempt r =
     (case fb (ad_fallbackStrategy a) attempt r of (d, f, r') \<Rightarrow> (d, a\<lparr>ad_fallbackStrategy := f\<rparr>, r'))"

definition calculateOptimalDelay ::
  "platform \<Rightarrow> ('f, 'r) delay_fn \<Rightarrow> 'f Adaptive \<Rightarrow> int \<Rightarrow> 'r \<times> ranking stream \<Rightarrow>
     duration \<times> 'f Adaptive \<times> 'r \<times> ranking stream" where
  "calculateOptimalDelay p fb a attempt rr =
     (case rr of (r, rks) \<Rightarrow>
        case best_bucket (map_range (shd rks) (ad_delayBuckets a)) None (Fin (- 1)) of
          None \<Rightarrow> (0, a, r, stl rks)
        | Some b \<Rightarrow>
            let optimalDelay = bucket_middle b;
                (fallbackDelay, a', r') = fallback_Delay fb a attempt r
            in (blendDelays p (ad_learningRate a') optimalDelay fallbackDelay, a', r', stl rks))"

definition Adaptive_Delay ::
  "platform \<Rightarrow> ('f, 'r) delay_fn \<Rightarrow> 'f Adaptive \<Rightarrow> int \<Rightarrow> 'r \<times> ranking stream \<Rightarrow>
     duration \<times> 'f Adaptive \<times> 'r \<times> ranking stream" where
  "Adaptive_Delay p fb a attempt rr =
     (let fall = (\<lambda>a (r, rks). case fallback_Delay fb a attempt r of (d, a', r') \<Rightarrow> (d, a', r', rks))
      in if attempt \<le> 0 then fall a rr
         else if ad_totalOutcomes a < 3 then fall a rr
         else case calculateOptimalDelay p fb a attempt rr of (optimalDelay, a', rr') \<Rightarrow>
           if 0 < optimalDelay then (optimalDelay, a', rr') else fall a' rr')"

text \<open>The helpers that initialise the buckets on demand.\<close>

definition ensureBucketsInitialized :: "'f Adaptive \<Rightarrow> 'f Adaptive" where
  "ensureBucketsInitialized a = (if ad_delayBuckets a \<noteq> [] then a else initializeBucketsLocked a)"

definition findBucketIndexSafe :: "ranking \<Rightarrow> 'f Adaptive \<Rightarrow> duration \<Rightarrow> int \<times> 'f Adaptive" where
  "findBucketIndexSafe rk a delay =
     (let a' = ensureBucketsInitialized a in (findBucketIndexLocked rk (ad_delayBuckets a') delay, a'))"

definition getBucketSuccessRateSafe :: "ranking \<Rightarrow> 'f Adaptive \<Rightarrow> duration \<Rightarrow> f64 \<times> 'f Adaptive" where
  "getBucketSuccessRateSafe rk a delay =
     (let a' = ensureBucketsInitialized a;
          bucketIndex = findBucketIndexLocked rk (ad_delayBuckets a') delay
      in (if bucketIndex < 0 then Fin 0
          else case map_of (ad_delayBuckets a') bucketIndex of
                 None \<Rightarrow> Fin 0 | Some b \<Rightarrow> db_SuccessRate b, a'))"

section \<open>Which bucket an outcome falls in\<close>

text \<open>The intended partition of the delays, without the map.\<close>

definition bucket_of :: "duration \<Rightarrow> int" where
  "bucket_of d = (if d < 0 then - 1 else if d < Second then 0 else if d < 2 * Second then 1
     else if d < 5 * Second then 2 else if d < 10 * Second then 3 else if d < 30 * Second then 4
     else if d < 60 * Second then 5 else 6)"

definition bucket_triples :: "(int \<times> duration \<times> duration) list" where
  "bucket_triples = [(0, 0, Second), (1, Second, 2 * Second), (2, 2 * Second, 5 * Second),
     (3, 5 * Second, 10 * Second), (4, 10 * Second, 30 * Second), (5, 30 * Second, 60 * Second),
     (6, 60 * Second, 300 * Second)]"

definition bucket_triple :: "int \<times> DelayBucket \<Rightarrow> int \<times> duration \<times> duration" where
  "bucket_triple ib = (fst ib, db_MinDelay (snd ib), db_MaxDelay (snd ib))"

definition bucket_ranges_ok :: "(int \<times> DelayBucket) list \<Rightarrow> bool" where
  "bucket_ranges_ok m \<longleftrightarrow> map bucket_triple m = bucket_triples"

lemma initialBuckets_eq [adaptive_simps]:
  "initialBuckets = map (\<lambda>(i, mn, mx). (i, \<lparr>db_MinDelay = mn, db_MaxDelay = mx,
       db_SuccessRate = Fin 0, db_SampleCount = 0, db_TotalLatency = 0\<rparr>)) bucket_triples"
  by (simp add: initialBuckets_def bucketRanges_def bucket_triples_def upt_rec)

lemma bucket_ranges_initial [simp]: "bucket_ranges_ok initialBuckets"
  by (simp add: bucket_ranges_ok_def initialBuckets_eq bucket_triple_def bucket_triples_def)

lemma bucket_ranges_keys:
  assumes "bucket_ranges_ok m"
  shows "map fst m = [0, 1, 2, 3, 4, 5, 6]"
proof -
  have "map fst m = map fst (map bucket_triple m)" by (simp add: bucket_triple_def)
  also have "\<dots> = map fst bucket_triples" using assms by (simp add: bucket_ranges_ok_def)
  also have "\<dots> = [0, 1, 2, 3, 4, 5, 6]" by (simp add: bucket_triples_def)
  finally show ?thesis .
qed

lemma bucket_triples_cover:
  "0 \<le> d \<Longrightarrow> d < 300 * Second \<Longrightarrow> (k, mn, mx) \<in> set bucket_triples \<Longrightarrow>
     (mn \<le> d \<and> d < mx) = (k = bucket_of d)"
  by (simp add: bucket_triples_def, elim disjE) (simp_all add: bucket_of_def Second_def)

lemma bucket_of_range: "- 1 \<le> bucket_of d \<and> bucket_of d \<le> 6"
  by (simp add: bucket_of_def)

lemma find_unique:
  assumes "x \<in> set xs" "P x" "\<And>y. y \<in> set xs \<Longrightarrow> P y \<Longrightarrow> y = x"
  shows "find P xs = Some x"
proof -
  obtain y where "find P xs = Some y" using assms(1,2) by (cases "find P xs") (auto simp: find_None_iff)
  moreover from this have "y \<in> set xs" "P y" by (auto simp: find_Some_iff)
  ultimately show ?thesis using assms(3) by simp
qed

lemma find_map: "find P (map g xs) = map_option g (find (P \<circ> g) xs)"
  by (induction xs) auto

lemma insort_key_map: "insort_key f (g x) (map g xs) = map g (insort_key (f \<circ> g) x xs)"
  by (induction xs) auto

lemma sort_key_map: "sort_key f (map g xs) = map g (sort_key (f \<circ> g) xs)"
  by (induction xs) (simp_all add: insort_key_map, simp add: comp_def)

lemma map_range_triples: "map_range rk (map bucket_triple m) = map bucket_triple (map_range rk m)"
  by (simp add: map_range_def sort_key_map comp_def bucket_triple_def)

lemma findBucketIndexLocked_eq:
  assumes "bucket_ranges_ok m"
  shows "findBucketIndexLocked rk m d = bucket_of d"
proof -
  let ?P = "\<lambda>(i :: int, b). db_MinDelay b \<le> d \<and> d < db_MaxDelay b"
  let ?Q = "\<lambda>(i :: int, mn, mx). mn \<le> d \<and> d < mx"
  have PQ: "?P = ?Q \<circ> bucket_triple" by (auto simp: bucket_triple_def)
  have tr: "map bucket_triple m = bucket_triples" using assms by (simp add: bucket_ranges_ok_def)
  have fnd: "find ?Q (map_range rk bucket_triples) = map_option bucket_triple (find ?P (map_range rk m))"
    by (simp add: PQ find_map map_range_triples flip: tr)
  have len: "length m = 7" using arg_cong [OF tr, of length] by (simp add: bucket_triples_def)
  show ?thesis
  proof (cases "0 \<le> d \<and> d < 300 * Second")
    case True
    have keys: "fst ` set bucket_triples = {0, 1, 2, 3, 4, 5, 6}" by (simp add: bucket_triples_def)
    have "distinct (map fst bucket_triples)" by (simp add: bucket_triples_def)
    note inj = eq_key_imp_eq_value [OF this]
    have "bucket_of d \<in> fst ` set bucket_triples"
      unfolding keys using True by (simp add: bucket_of_def)
    then obtain mn mx where x: "(bucket_of d, mn, mx) \<in> set bucket_triples" by force
    have "find ?Q (map_range rk bucket_triples) = Some (bucket_of d, mn, mx)"
    proof (rule find_unique)
      show "(bucket_of d, mn, mx) \<in> set (map_range rk bucket_triples)" using x by simp
      show "?Q (bucket_of d, mn, mx)" using bucket_triples_cover [OF _ _ x] True by simp
      fix y assume "y \<in> set (map_range rk bucket_triples)" "?Q y"
      moreover obtain k u v where y: "y = (k, u, v)" by (cases y)
      ultimately have "k = bucket_of d" "(k, u, v) \<in> set bucket_triples"
        using bucket_triples_cover [of d k u v] True by auto
      with inj [OF x, of "(u, v)"] y show "y = (bucket_of d, mn, mx)" by simp
    qed
    then obtain i b where "find ?P (map_range rk m) = Some (i, b)" "i = bucket_of d"
      unfolding fnd by (auto simp: bucket_triple_def)
    then show ?thesis by (simp add: findBucketIndexLocked_def)
  next
    case False
    then have d: "d < 0 \<or> 300 * Second \<le> d" by linarith
    then have "\<not> ?Q x" if "x \<in> set bucket_triples" for x
      using that by (elim disjE; simp add: bucket_triples_def, elim disjE; simp add: Second_def)
    then have "find ?Q (map_range rk bucket_triples) = None" by (fastforce simp: find_None_iff)
    then have "find ?P (map_range rk m) = None" unfolding fnd by simp
    with d len show ?thesis by (elim disjE) (simp_all add: findBucketIndexLocked_def bucket_of_def Second_def)
  qed
qed

lemma at_key_keys [simp]: "map fst (at_key k f m) = map fst m"
  by (simp add: at_key_def case_prod_beta comp_def)

lemma bucket_observe_range [simp]:
  "db_MinDelay (bucket_observe \<alpha> oc b) = db_MinDelay b"
  "db_MaxDelay (bucket_observe \<alpha> oc b) = db_MaxDelay b"
  by (simp_all add: bucket_observe_def)

lemma bucket_ranges_map:
  assumes "\<And>i b. db_MinDelay (f i b) = db_MinDelay b" "\<And>i b. db_MaxDelay (f i b) = db_MaxDelay b"
  shows "bucket_ranges_ok (map (\<lambda>(i, b). (i, f i b)) m) = bucket_ranges_ok m"
proof -
  have "bucket_triple \<circ> (\<lambda>(i, b). (i, f i b)) = bucket_triple"
    using assms by (auto simp: bucket_triple_def)
  then show ?thesis by (simp add: bucket_ranges_ok_def)
qed

lemma bucket_ranges_at_key [simp]:
  "bucket_ranges_ok (at_key k (bucket_observe \<alpha> oc) m) = bucket_ranges_ok m"
  unfolding at_key_def by (rule bucket_ranges_map) simp_all

section \<open>The buckets summarise the remembered outcomes\<close>

text \<open>What the learned data should be: every bucket folds the outcomes that fall in it.\<close>

definition bucket_summary ::
  "f64 \<Rightarrow> OutcomeRecord list \<Rightarrow> (int \<times> DelayBucket) list \<Rightarrow> (int \<times> DelayBucket) list" where
  "bucket_summary \<alpha> ocs =
     map (\<lambda>(i, b). (i, fold (bucket_observe \<alpha>) (filter (\<lambda>oc. bucket_of (oc_Delay oc) = i) ocs) b))"

lemma bucket_summary_Nil [simp]: "bucket_summary \<alpha> [] m = m"
  by (simp add: bucket_summary_def)

lemma at_key_absent: "k \<notin> fst ` set m \<Longrightarrow> at_key k f m = m"
  unfolding at_key_def by (rule map_idI) (force split: prod.splits)

lemma bucket_summary_Cons:
  "bucket_summary \<alpha> (oc # ocs) m =
     bucket_summary \<alpha> ocs (at_key (bucket_of (oc_Delay oc)) (bucket_observe \<alpha> oc) m)"
  by (auto simp: bucket_summary_def at_key_def)

lemma populate_loop_eq:
  assumes "bucket_ranges_ok m"
  shows "populate_loop \<alpha> ocs m rks = (bucket_summary \<alpha> ocs m, sdrop (length ocs) rks)"
  using assms
proof (induction ocs arbitrary: m rks)
  case (Cons oc ocs)
  let ?k = "bucket_of (oc_Delay oc)"
  have "\<not> 0 \<le> ?k \<Longrightarrow> at_key ?k (bucket_observe \<alpha> oc) m = m"
    using arg_cong [OF bucket_ranges_keys [OF Cons.prems], of set] by (intro at_key_absent) auto
  with Cons show ?case
    by (simp add: findBucketIndexLocked_eq bucket_summary_Cons Let_def)
qed simp

text \<open>The state every sequence of outcomes keeps, and the buckets it determines.\<close>

definition ad_params_ok :: "f64 \<Rightarrow> int \<Rightarrow> bool" where
  "ad_params_ok \<alpha> w \<longleftrightarrow> (\<exists>x. \<alpha> = Fin x \<and> rep64 x \<and> 0 < x \<and> x \<le> 1) \<and> 0 < w \<and> w \<le> 10000"

definition ad_inv :: "'f Adaptive \<Rightarrow> bool" where
  "ad_inv a \<longleftrightarrow> ad_params_ok (ad_learningRate a) (ad_memoryWindow a)
     \<and> int (length (ad_recentOutcomes a)) \<le> ad_memoryWindow a
     \<and> (if ad_recentOutcomes a = [] then ad_delayBuckets a = []
        else ad_delayBuckets a = bucket_summary (ad_learningRate a) (ad_recentOutcomes a) initialBuckets)"

lemma bucket_summary_ranges [simp]: "bucket_ranges_ok (bucket_summary \<alpha> ocs m) = bucket_ranges_ok m"
proof -
  have "db_MinDelay (fold (bucket_observe \<alpha>) xs b) = db_MinDelay b
      \<and> db_MaxDelay (fold (bucket_observe \<alpha>) xs b) = db_MaxDelay b" for xs b
    by (induction xs arbitrary: b) simp_all
  then show ?thesis unfolding bucket_summary_def by (intro bucket_ranges_map) simp_all
qed

lemma reset_ranges:
  assumes "bucket_ranges_ok m"
  shows "map (\<lambda>(i, b). (i, b\<lparr>db_SuccessRate := Fin 0, db_SampleCount := 0, db_TotalLatency := 0\<rparr>)) m =
    initialBuckets"
proof -
  have "(\<lambda>(i, b). (i, b\<lparr>db_SuccessRate := Fin 0, db_SampleCount := 0, db_TotalLatency := 0\<rparr>)) =
    (\<lambda>(i, mn, mx). (i, \<lparr>db_MinDelay = mn, db_MaxDelay = mx, db_SuccessRate = Fin 0,
        db_SampleCount = 0, db_TotalLatency = 0\<rparr>)) \<circ> bucket_triple"
    by (auto simp: bucket_triple_def)
  then show ?thesis using assms by (simp add: initialBuckets_eq bucket_ranges_ok_def flip: map_map)
qed

lemma updateDelayBucketsLocked_eq:
  assumes "ad_delayBuckets a = [] \<or> bucket_ranges_ok (ad_delayBuckets a)"
  shows "updateDelayBucketsLocked a rks =
    (a\<lparr>ad_delayBuckets := bucket_summary (ad_learningRate a) (ad_recentOutcomes a) initialBuckets\<rparr>,
     sdrop (length (ad_recentOutcomes a)) rks)"
  using assms
  by (auto simp: updateDelayBucketsLocked_def initializeBucketsLocked_def reset_ranges populate_loop_eq)

lemma ad_inv_ranges: "ad_inv a \<Longrightarrow> ad_delayBuckets a = [] \<or> bucket_ranges_ok (ad_delayBuckets a)"
  by (auto simp: ad_inv_def split: if_splits)

lemma RecordOutcome_eq:
  fixes a :: "'f Adaptive" and delay latency :: duration and success :: bool
  assumes "ad_inv a"
  defines "kept \<equiv> drop (Suc (length (ad_recentOutcomes a)) - nat (ad_memoryWindow a)) (ad_recentOutcomes a)"
  defines "ocs \<equiv> kept @ [\<lparr>oc_Delay = delay, oc_Success = success, oc_Latency = latency\<rparr>]"
  shows "RecordOutcome a delay success latency rks =
    (a\<lparr>ad_recentOutcomes := ocs, ad_totalOutcomes := wrap64 (ad_totalOutcomes a + 1),
       ad_delayBuckets := bucket_summary (ad_learningRate a) ocs initialBuckets\<rparr>,
     sdrop (length ocs) rks)"
proof -
  let ?n = "length (ad_recentOutcomes a)"
  have "0 < ad_memoryWindow a" "int ?n \<le> ad_memoryWindow a"
    using assms(1) by (simp_all add: ad_inv_def ad_params_ok_def)
  then have "kept = (if ad_memoryWindow a \<le> int ?n then tl (ad_recentOutcomes a) else ad_recentOutcomes a)"
    by (auto simp: kept_def drop_Suc)
  then show ?thesis
    using ad_inv_ranges [OF assms(1)]
    by (simp add: RecordOutcome_def updateDelayBucketsLocked_eq ocs_def Let_def)
qed

lemma ad_inv_RecordOutcome:
  assumes "ad_inv a" "RecordOutcome a delay success latency rks = (a', rks')"
  shows "ad_inv a'" and "ad_fallbackStrategy a' = ad_fallbackStrategy a"
    and "ad_learningRate a' = ad_learningRate a" and "ad_memoryWindow a' = ad_memoryWindow a"
  using assms RecordOutcome_eq [OF assms(1), of delay success latency rks]
  by (auto simp: ad_inv_def ad_params_ok_def)

lemma ad_inv_New: "ad_params_ok \<alpha> w \<Longrightarrow> NewAdaptive f \<alpha> w = Inr a \<Longrightarrow> ad_inv a"
  by (auto simp: NewAdaptive_def ad_inv_def split: option.splits if_splits)

text \<open>Recording a whole history, oldest outcome first.\<close>

fun record_all :: "'f Adaptive \<Rightarrow> OutcomeRecord list \<Rightarrow> ranking stream \<Rightarrow> 'f Adaptive \<times> ranking stream" where
  "record_all a [] rks = (a, rks)"
| "record_all a (oc # ocs) rks =
     (case RecordOutcome a (oc_Delay oc) (oc_Success oc) (oc_Latency oc) rks of
        (a', rks') \<Rightarrow> record_all a' ocs rks')"

definition last_n :: "nat \<Rightarrow> 'a list \<Rightarrow> 'a list" where
  "last_n n xs = drop (length xs - n) xs"

lemma last_n_snoc: "0 < n \<Longrightarrow> length ys \<le> n \<Longrightarrow>
    last_n n (drop (Suc (length ys) - n) ys @ x # xs) = last_n n (ys @ x # xs)"
proof -
  assume n: "0 < n" "length ys \<le> n"
  let ?k = "Suc (length ys) - n"
  have eq: "drop ?k ys @ x # xs = drop ?k (ys @ x # xs)" using n by simp
  have "last_n n (drop ?k zs) = last_n n zs" if "length zs = length ys + Suc (length xs)" for zs :: "'a list"
  proof -
    have "length zs - ?k - n + ?k = length zs - n" using n that by linarith
    then show ?thesis by (simp add: last_n_def)
  qed
  from this [of "ys @ x # xs"] show ?thesis unfolding eq by simp
qed

lemma record_all_window:
  assumes "ad_inv a" "record_all a ocs rks = (a', rks')"
  shows "ad_inv a' \<and> ad_fallbackStrategy a' = ad_fallbackStrategy a \<and> ad_learningRate a' = ad_learningRate a
    \<and> ad_recentOutcomes a' = last_n (nat (ad_memoryWindow a)) (ad_recentOutcomes a @ ocs)"
  using assms
proof (induction ocs arbitrary: a rks)
  case Nil
  then show ?case by (clarsimp simp: last_n_def ad_inv_def)
next
  case (Cons oc ocs)
  let ?n = "nat (ad_memoryWindow a)"
  obtain a1 rks1 where r: "RecordOutcome a (oc_Delay oc) (oc_Success oc) (oc_Latency oc) rks = (a1, rks1)"
    by (cases "RecordOutcome a (oc_Delay oc) (oc_Success oc) (oc_Latency oc) rks")
  note inv1 = ad_inv_RecordOutcome [OF Cons.prems(1) r]
  have "0 < ?n" "length (ad_recentOutcomes a) \<le> ?n"
    using Cons.prems(1) by (auto simp: ad_inv_def ad_params_ok_def)
  moreover have "ad_recentOutcomes a1 =
      drop (Suc (length (ad_recentOutcomes a)) - ?n) (ad_recentOutcomes a) @ [oc]"
    using r RecordOutcome_eq [OF Cons.prems(1)] by auto
  ultimately show ?case
    using Cons.IH [OF inv1(1)] Cons.prems(2) r inv1 by (simp add: last_n_snoc)
qed

section \<open>The success rates are rates\<close>

lemma f64_round_unit:
  assumes "0 \<le> x" "x \<le> 1 + pow2 (- 53)"
  shows "f64_round x = Fin (rnd64 x) \<and> rep64 (rnd64 x) \<and> 0 \<le> rnd64 x \<and> rnd64 x \<le> 1"
proof -
  have "rnd64 x \<le> 1" "0 \<le> rnd64 x" using assms by (simp_all add: rnd64_le_1 r64.rnd_nonneg)
  moreover have "(1 :: rat) < f64_limit" using rep64_pow2_1024 [of 1] by simp
  ultimately show ?thesis by (simp add: f64_round_def r64.rnd_rep)
qed

lemma weight_complement:
  assumes "0 < \<alpha>" "\<alpha> \<le> 1" "rep64 \<alpha>"
  obtains \<beta> where "fsub (Fin 1) (Fin \<alpha>) = Fin \<beta>" "rep64 \<beta>" "0 \<le> \<beta>" "\<beta> \<le> 1" "\<beta> + \<alpha> \<le> 1 + pow2 (- 54)"
proof -
  have "0 \<le> 1 - \<alpha>" "1 - \<alpha> \<le> 1 + pow2 (- 53)" "1 - \<alpha> \<le> 1"
    using assms less_imp_le [OF pow2_pos [of "- 53"]] by linarith+
  with f64_round_unit [of "1 - \<alpha>"] rnd64_error_unit [of "1 - \<alpha>"] that [of "rnd64 (1 - \<alpha>)"]
  show ?thesis by (simp add: fsub_def)
qed

lemma ema_update_unit:
  assumes "ad_params_ok \<alpha> w" "unit_rate r"
  shows "unit_rate (ema_update \<alpha> s r)"
proof -
  obtain x y where x: "\<alpha> = Fin x" "rep64 x" "0 < x" "x \<le> 1" and y: "r = Fin y" "0 \<le> y" "y \<le> 1"
    using assms by (auto simp: ad_params_ok_def unit_rate_def)
  obtain \<beta> where \<beta>: "fsub (Fin 1) (Fin x) = Fin \<beta>" "rep64 \<beta>" "0 \<le> \<beta>" "\<beta> \<le> 1" "\<beta> + x \<le> 1 + pow2 (- 54)"
    using weight_complement [OF x(3,4,2)] .
  define z where "z = x * (if s then 1 else 0)"
  have p54: "pow2 (- 54) \<le> pow2 (- 53)" by (rule pow2_mono) simp
  have z: "rep64 z" "0 \<le> z" "z \<le> x" using x rep64_of_int [of 0] by (auto simp: z_def)
  have by1: "0 \<le> \<beta> * y" "\<beta> * y \<le> \<beta>"
    using \<beta> y by (simp_all add: mult_left_le)
  have r1: "rnd64 (\<beta> * y) \<le> \<beta>" "0 \<le> rnd64 (\<beta> * y)"
    using by1 \<beta>(2) by (simp_all add: r64.rnd_le r64.rnd_nonneg)
  have f1: "fmul (Fin \<beta>) (Fin y) = Fin (rnd64 (\<beta> * y))"
    using f64_round_unit [of "\<beta> * y"] by1 \<beta>(4) less_imp_le [OF pow2_pos [of "- 53"]] by simp
  have f2: "fmul (Fin x) (if s then Fin 1 else Fin 0) = Fin z"
    using f64_round_unit [of z] z x(4) rnd64_fixed [OF z(1)] less_imp_le [OF pow2_pos [of "- 53"]]
    by (cases s) (simp_all add: z_def)
  have "rnd64 (\<beta> * y) + z \<le> 1 + pow2 (- 53)" using r1 z \<beta>(5) p54 by linarith
  with f64_round_unit [of "rnd64 (\<beta> * y) + z"] r1 z f1 f2 x y \<beta>(1) show ?thesis
    by (simp add: ema_update_def unit_rate_def)
qed

lemma bucket_observe_unit:
  "ad_params_ok \<alpha> w \<Longrightarrow> unit_rate (db_SuccessRate b) \<Longrightarrow> unit_rate (db_SuccessRate (bucket_observe \<alpha> oc b))"
  by (simp add: bucket_observe_def ema_update_unit)

lemma fold_observe_unit:
  "ad_params_ok \<alpha> w \<Longrightarrow> unit_rate (db_SuccessRate b) \<Longrightarrow>
     unit_rate (db_SuccessRate (fold (bucket_observe \<alpha>) ocs b))"
  by (induction ocs arbitrary: b) (simp_all add: bucket_observe_unit)

lemma fold_observe_count:
  "0 \<le> db_SampleCount b \<Longrightarrow> db_SampleCount b + int (length ocs) < 2 ^ 63 \<Longrightarrow>
     db_SampleCount (fold (bucket_observe \<alpha>) ocs b) = db_SampleCount b + int (length ocs)"
  by (induction ocs arbitrary: b) (simp_all add: bucket_observe_def in_i64_def)

lemma summary_entry:
  assumes "(i, b) \<in> set (bucket_summary \<alpha> ocs initialBuckets)"
  shows "\<exists>mn mx. (i, mn, mx) \<in> set bucket_triples \<and>
    b = fold (bucket_observe \<alpha>) (filter (\<lambda>oc. bucket_of (oc_Delay oc) = i) ocs)
          \<lparr>db_MinDelay = mn, db_MaxDelay = mx, db_SuccessRate = Fin 0, db_SampleCount = 0, db_TotalLatency = 0\<rparr>"
  using assms by (auto simp: bucket_summary_def initialBuckets_eq)

section \<open>The learned delay\<close>

text \<open>A bucket with enough samples that no other such bucket beats.\<close>

definition best_of :: "(int \<times> DelayBucket) set \<Rightarrow> DelayBucket \<Rightarrow> bool" where
  "best_of m b \<longleftrightarrow> b \<in> snd ` m \<and> 2 \<le> db_SampleCount b \<and>
     (\<forall>b' \<in> snd ` m. 2 \<le> db_SampleCount b' \<longrightarrow> \<not> flt (db_SuccessRate b) (db_SuccessRate b'))"

lemma best_bucket_spec:
  "(best_bucket bs best r = best \<and> (\<forall>b \<in> snd ` set bs. 2 \<le> db_SampleCount b \<longrightarrow> \<not> flt r (db_SuccessRate b)))
   \<or> (\<exists>b. best_bucket bs best r = Some b \<and> best_of (set bs) b \<and> flt r (db_SuccessRate b))"
proof (induction bs best r rule: best_bucket.induct)
  case (2 i b bs best r)
  show ?case
  proof (cases "2 \<le> db_SampleCount b \<and> flt r (db_SuccessRate b)")
    case True
    then have step: "best_bucket ((i, b) # bs) best r = best_bucket bs (Some b) (db_SuccessRate b)" by simp
    from "2.IH"(1) [OF True] show ?thesis
    proof (elim disjE exE conjE)
      assume "best_bucket bs (Some b) (db_SuccessRate b) = Some b"
        "\<forall>c \<in> snd ` set bs. 2 \<le> db_SampleCount c \<longrightarrow> \<not> flt (db_SuccessRate b) (db_SuccessRate c)"
      with True show ?thesis by (intro disjI2 exI [of _ b]) (simp add: step best_of_def)
    next
      fix c
      assume c: "best_bucket bs (Some b) (db_SuccessRate b) = Some c" "best_of (set bs) c"
        "flt (db_SuccessRate b) (db_SuccessRate c)"
      then have "\<not> flt (db_SuccessRate c) (db_SuccessRate b)" using flt_trans flt_irrefl by blast
      with c True show ?thesis
        by (intro disjI2 exI [of _ c]) (auto simp: step best_of_def intro: flt_trans)
    qed
  next
    case False
    with "2.IH"(2) show ?thesis
      by (fastforce simp: best_of_def dest: flt_trans)
  qed
qed simp

lemma blend_range:
  assumes \<alpha>: "ad_params_ok \<alpha> w" and o: "0 \<le> opt" "opt \<le> 2 ^ 49" and f: "0 \<le> fall" "fall \<le> 2 ^ 49"
  shows "0 \<le> blendDelays p \<alpha> opt fall \<and> blendDelays p \<alpha> opt fall \<le> max opt fall"
proof -
  obtain x where x: "\<alpha> = Fin x" "rep64 x" "0 < x" "x \<le> 1" using \<alpha> by (auto simp: ad_params_ok_def)
  obtain \<beta> where \<beta>: "fsub (Fin 1) (Fin x) = Fin \<beta>" "rep64 \<beta>" "0 \<le> \<beta>" "\<beta> \<le> 1" "\<beta> + x \<le> 1 + pow2 (- 54)"
    using weight_complement [OF x(3,4,2)] .
  define M where "M = max opt fall"
  have M: "0 \<le> M" "M \<le> 2 ^ 49" "opt \<le> M" "fall \<le> M" using o f by (auto simp: M_def)
  define m where "m = (of_int M :: rat)"
  have m: "0 \<le> m" "m \<le> pow2 49" "of_int opt \<le> m" "of_int fall \<le> m"
    using M of_int_le_iff [of M "2 ^ 49", where 'a = rat] by (simp_all add: m_def pow2_def)
  have part: "0 \<le> c * v \<and> c * v \<le> pow2 49 \<and> c * v \<le> c * m" if "0 \<le> c" "c \<le> 1" "0 \<le> v" "v \<le> m" for c v
  proof -
    have "c * v \<le> c * m" using that by (simp add: mult_left_mono)
    moreover have "c * m \<le> m" using that m(1) by (simp add: mult_left_le_one_le)
    ultimately show ?thesis using that m(2) by simp
  qed
  define X where "X = x * of_int opt"
  define Y where "Y = \<beta> * of_int fall"
  have X: "0 \<le> X" "X \<le> pow2 49" "X \<le> x * m" using part [of x "of_int opt"] x o m by (simp_all add: X_def)
  have Y: "0 \<le> Y" "Y \<le> pow2 49" "Y \<le> \<beta> * m" using part [of \<beta> "of_int fall"] \<beta> f m by (simp_all add: Y_def)
  have big: "v \<le> pow2 50 \<Longrightarrow> - pow2 50 \<le> v \<Longrightarrow> \<bar>v\<bar> < f64_limit" for v
    by (rule rep64_pow2_1024) (simp add: pow2_def)
  have rX: "0 \<le> rnd64 X" "rnd64 X \<le> X + pow2 (- 5)" and rY: "0 \<le> rnd64 Y" "rnd64 Y \<le> Y + pow2 (- 5)"
    using X Y rnd64_error [of X 49] rnd64_error [of Y 49] by (simp_all add: r64.rnd_nonneg)
  have FX: "f64_round X = Fin (rnd64 X)" and FY: "f64_round Y = Fin (rnd64 Y)"
    using X Y rX rY big [of "rnd64 X"] big [of "rnd64 Y"]
    by (simp_all add: f64_round_def abs_less_iff pow2_def not_le)
  have "(\<beta> + x) * m \<le> (1 + pow2 (- 54)) * m" using \<beta>(5) m(1) by (rule mult_right_mono)
  also have "\<dots> \<le> m + pow2 (- 5)" using m(2) by (simp add: distrib_right pow2_def)
  finally have S: "rnd64 X + rnd64 Y \<le> m + 1 / 4"
    using rX(2) rY(2) X(3) Y(3) by (simp add: distrib_right pow2_def)
  have rep: "rep64 (m + 1 / 4)"
    using M rep64_le53 [of "4 * M + 1" "- 2"] by (simp add: m_def pow2_def add_divide_distrib)
  define Z where "Z = rnd64 (rnd64 X + rnd64 Y)"
  have Z: "0 \<le> Z" "Z \<le> m + 1 / 4" unfolding Z_def using S rep rX rY by (simp_all add: r64.rnd_le r64.rnd_nonneg)
  have "f64_round (rnd64 X + rnd64 Y) = Fin Z"
    using Z m big [of Z] by (simp add: f64_round_def abs_less_iff pow2_def not_le flip: Z_def)
  then have blend: "blendDelays p \<alpha> opt fall = i64_of_f64 p (Fin Z)"
    using FX FY x(1) \<beta>(1) o f
    by (simp add: blendDelays_def f64_of_int_small X_def Y_def mult.commute)
  have t: "0 \<le> trunc Z" "trunc Z \<le> M"
    using Z floor_mono [OF Z(2)] by (simp_all add: trunc_nonneg trunc_def m_def floor_eq_iff [of _ 0, THEN iffD2])
  with M have "in_i64 (trunc Z)" by (simp add: in_i64_def)
  with t show ?thesis by (simp add: blend i64_of_f64_Fin M_def)
qed

lemma bucket_middle_range:
  assumes "bucket_ranges_ok m" "b \<in> snd ` set m"
  shows "Second div 2 \<le> bucket_middle b \<and> bucket_middle b \<le> 180 * Second"
proof -
  obtain i where "(i, b) \<in> set m" using assms(2) by force
  then have "bucket_triple (i, b) \<in> set (map bucket_triple m)" by (metis image_eqI list.set_map)
  then have "bucket_triple (i, b) \<in> set bucket_triples"
    using assms(1) by (simp only: bucket_ranges_ok_def)
  then have "(i, db_MinDelay b, db_MaxDelay b) \<in> set bucket_triples" by (simp add: bucket_triple_def)
  then show ?thesis
    by (simp add: bucket_triples_def, elim disjE)
      (simp_all add: bucket_middle_def Second_def in_i64_def quo_def)
qed

lemma best_bucket_learned:
  assumes "best_bucket (map_range rk m) None (Fin (- 1)) = x" "\<forall>b \<in> snd ` set m. unit_rate (db_SuccessRate b)"
  shows "case x of None \<Rightarrow> \<forall>b \<in> snd ` set m. db_SampleCount b < 2 | Some b \<Rightarrow> best_of (set m) b"
proof -
  have "flt (Fin (- 1)) v" if "unit_rate v" for v using that by (auto simp: unit_rate_def)
  then show ?thesis
    using best_bucket_spec [of "map_range rk m" None "Fin (- 1)"] assms by (force split: option.splits)
qed

lemma ad_inv_rates: "ad_inv a \<Longrightarrow> \<forall>b \<in> snd ` set (ad_delayBuckets a). unit_rate (db_SuccessRate b)"
proof
  fix b assume a: "ad_inv a" "b \<in> snd ` set (ad_delayBuckets a)"
  then obtain i where "(i, b) \<in> set (bucket_summary (ad_learningRate a) (ad_recentOutcomes a) initialBuckets)"
    by (force simp: ad_inv_def split: if_splits)
  from summary_entry [OF this] a(1) show "unit_rate (db_SuccessRate b)"
    by (force simp: ad_inv_def intro: fold_observe_unit unit_rate_0)
qed

section \<open>Contract: adaptive over a bounded fallback is bounded\<close>

definition ad_bound :: "('f \<Rightarrow> duration) \<Rightarrow> 'f Adaptive \<Rightarrow> duration" where
  "ad_bound bound a = max (bound (ad_fallbackStrategy a)) (180 * Second)"

definition ad_client_inv :: "('f \<Rightarrow> bool) \<Rightarrow> 'f Adaptive \<Rightarrow> bool" where
  "ad_client_inv ok a \<longleftrightarrow> ad_inv a \<and> ok (ad_fallbackStrategy a)"

definition fst_ok :: "('r \<Rightarrow> bool) \<Rightarrow> 'r \<times> 'q \<Rightarrow> bool" where
  "fst_ok rok rr = rok (fst rr)"

lemma ad_inv_fallback_update [simp]: "ad_inv (a\<lparr>ad_fallbackStrategy := f\<rparr>) = ad_inv a"
  by (simp add: ad_inv_def)

locale small_fallback = bounded_strategy delay inv bound rok horizon
  for delay :: "'f \<Rightarrow> int \<Rightarrow> 'r \<Rightarrow> duration \<times> 'f \<times> 'r" and inv bound rok horizon +
  assumes small: "inv s \<Longrightarrow> bound s \<le> 2 ^ 49"
begin

lemma fallback_step:
  assumes "ad_client_inv inv a" "rok r" "1 \<le> n" "n \<le> horizon" "fallback_Delay delay a n r = (d, a', r')"
  shows "0 \<le> d \<and> d \<le> bound (ad_fallbackStrategy a) \<and> ad_client_inv inv a' \<and> rok r'
    \<and> ad_learningRate a' = ad_learningRate a \<and> ad_bound bound a' = ad_bound bound a
    \<and> bound (ad_fallbackStrategy a') = bound (ad_fallbackStrategy a)"
proof -
  obtain f where f: "delay (ad_fallbackStrategy a) n r = (d, f, r')" "a' = a\<lparr>ad_fallbackStrategy := f\<rparr>"
    using assms(5) by (auto simp: fallback_Delay_def split: prod.splits)
  with delay_step [OF _ assms(2-4) f(1)] assms(1) show ?thesis
    by (simp add: ad_client_inv_def ad_bound_def)
qed

lemma optimal_step:
  assumes "ad_client_inv inv a" "rok r" "1 \<le> n" "n \<le> horizon"
    "calculateOptimalDelay p delay a n (r, rks) = (d, a', r', rks')"
  shows "0 \<le> d \<and> d \<le> ad_bound bound a \<and> ad_client_inv inv a' \<and> rok r' \<and> ad_bound bound a' = ad_bound bound a
    \<and> bound (ad_fallbackStrategy a') = bound (ad_fallbackStrategy a)"
proof (cases "best_bucket (map_range (shd rks) (ad_delayBuckets a)) None (Fin (- 1))")
  case None
  then have "d = 0" "a' = a" "r' = r" using assms(5) by (auto simp: calculateOptimalDelay_def)
  then show ?thesis using assms by (simp add: ad_bound_def le_max_iff_disj Second_def)
next
  case (Some b)
  obtain fd where fd: "fallback_Delay delay a n r = (fd, a', r')"
    "d = blendDelays p (ad_learningRate a') (bucket_middle b) fd"
    using assms(5) Some by (auto simp: calculateOptimalDelay_def split: prod.splits)
  note step = fallback_step [OF assms(1-4) fd(1)]
  have inv: "ad_inv a" "inv (ad_fallbackStrategy a)" using assms(1) by (simp_all add: ad_client_inv_def)
  have "best_of (set (ad_delayBuckets a)) b"
    using best_bucket_learned [OF Some ad_inv_rates [OF inv(1)]] by simp
  then have b: "b \<in> snd ` set (ad_delayBuckets a)" by (simp add: best_of_def)
  then have "bucket_ranges_ok (ad_delayBuckets a)" using ad_inv_ranges [OF inv(1)] by auto
  from bucket_middle_range [OF this b] have mid: "0 \<le> bucket_middle b" "bucket_middle b \<le> 180 * Second"
    by (auto simp: Second_def)
  have "ad_params_ok (ad_learningRate a') (ad_memoryWindow a)"
    using inv(1) step by (simp add: ad_inv_def)
  from blend_range [OF this mid(1) _ _ , of fd p] step mid(2) small [OF inv(2)]
  have "0 \<le> d \<and> d \<le> max (bucket_middle b) fd" by (simp add: fd(2) Second_def)
  then show ?thesis using step mid(2) by (auto simp: ad_bound_def)
qed

lemma adaptive_step:
  assumes "ad_client_inv inv a" "rok r" "1 \<le> n" "n \<le> horizon"
    "Adaptive_Delay p delay a n (r, rks) = (d, a', r', rks')"
  shows "0 \<le> d \<and> d \<le> ad_bound bound a \<and> ad_client_inv inv a' \<and> ad_bound bound a' = ad_bound bound a \<and> rok r'"
proof (cases "ad_totalOutcomes a < 3")
  case True
  then have "fallback_Delay delay a n r = (d, a', r')"
    using assms(3,5) by (auto simp: Adaptive_Delay_def Let_def split: prod.splits)
  from fallback_step [OF assms(1-4) this] show ?thesis by (auto simp: ad_bound_def)
next
  case False
  obtain d1 a1 r1 rks1 where c: "calculateOptimalDelay p delay a n (r, rks) = (d1, a1, r1, rks1)"
    by (metis prod_cases4)
  note o = optimal_step [OF assms(1-4) c]
  show ?thesis
  proof (cases "0 < d1")
    case True
    with c False assms(3,5) o show ?thesis by (simp add: Adaptive_Delay_def Let_def)
  next
    case neg: False
    then have "fallback_Delay delay a1 n r1 = (d, a', r')"
      using c False assms(3,5) by (auto simp: Adaptive_Delay_def Let_def split: prod.splits)
    from fallback_step [OF _ _ assms(3,4) this] o show ?thesis by (auto simp: ad_bound_def)
  qed
qed

end

sublocale small_fallback \<subseteq> adaptive: bounded_strategy "Adaptive_Delay p delay" "ad_client_inv inv"
    "ad_bound bound" "fst_ok rok" horizon for p
proof
  fix a r n d a' r'
  assume "ad_client_inv inv a" "fst_ok rok r" "1 \<le> n" "n \<le> horizon" "Adaptive_Delay p delay a n r = (d, a', r')"
  with adaptive_step [of a "fst r" n p "snd r" d a' "fst r'" "snd r'"]
  show "0 \<le> d \<and> d \<le> ad_bound bound a \<and> ad_client_inv inv a' \<and> ad_bound bound a' = ad_bound bound a \<and> fst_ok rok r'"
    by (simp add: fst_ok_def)
qed

definition base_small_inv :: "platform \<Rightarrow> int \<Rightarrow> base_strategy \<Rightarrow> bool" where
  "base_small_inv p N s \<longleftrightarrow> base_inv p N s \<and> base_bound s \<le> 2 ^ 49"

interpretation base_fb: small_fallback "base_Delay p" "base_small_inv p N" base_bound rng_ok N for p N
proof
  fix s r n d s' r'
  assume a: "base_small_inv p N s" "rng_ok r" "1 \<le> n" "n \<le> N" "base_Delay p s n r = (d, s', r')"
  with base.delay_step [of p N s r n d s' r'] show
    "0 \<le> d \<and> d \<le> base_bound s \<and> base_small_inv p N s' \<and> base_bound s' = base_bound s \<and> rng_ok r'"
    by (auto simp: base_small_inv_def)
qed (simp add: base_small_inv_def)

section \<open>Properties\<close>

text \<open>A concrete instance: half-second waits over a fixed fallback, window 2, rate one half.\<close>

definition sample_adaptive :: "base_strategy Adaptive" where
  "sample_adaptive = \<lparr>ad_fallbackStrategy = BFixed (NewFixed Second), ad_learningRate = Fin (1 / 2),
     ad_memoryWindow = 2, ad_delayBuckets = [], ad_recentOutcomes = [], ad_totalOutcomes = 0\<rparr>"

definition sample_history :: "OutcomeRecord list" where
  "sample_history = map (\<lambda>s. \<lparr>oc_Delay = 500000000, oc_Success = s, oc_Latency = 0\<rparr>) [True, False, True]"

definition learned_adaptive :: "base_strategy Adaptive" where
  "learned_adaptive = sample_adaptive\<lparr>ad_recentOutcomes := tl sample_history, ad_totalOutcomes := 3,
     ad_delayBuckets := bucket_summary (Fin (1 / 2)) (tl sample_history) initialBuckets\<rparr>"

lemma rep64_half: "rep64 (1 / 2)"
  using rep64_le53 [of 1 "- 1"] by (simp add: pow2_def)

lemma sample_params: "ad_params_ok (Fin (1 / 2)) 2"
  unfolding ad_params_ok_def using rep64_half by (intro conjI exI [of _ "1 / 2"]) simp_all

lemma sample_New:
  "NewAdaptive (Some (BFixed (NewFixed Second))) (Fin (1 / 2)) 2 = Inr sample_adaptive"
  by (simp add: NewAdaptive_def sample_adaptive_def fle_def)

lemma learned_inv: "ad_inv learned_adaptive"
  using sample_params by (simp add: ad_inv_def learned_adaptive_def sample_adaptive_def sample_history_def)

lemma NewAdaptive_params:
  assumes "NewAdaptive f \<alpha> w = Inr a" "f64_ok \<alpha>" "\<alpha> \<noteq> NaN"
  shows "ad_params_ok \<alpha> w" "ad_memoryWindow a = w" "ad_learningRate a = \<alpha>"
    "ad_recentOutcomes a = []" "ad_totalOutcomes a = 0" "f = Some (ad_fallbackStrategy a)"
  using assms by (cases \<alpha>; auto simp: NewAdaptive_def ad_params_ok_def fle_def split: option.splits if_splits)+

lemma fold_observe_rate:
  "db_SuccessRate (fold (bucket_observe \<alpha>) ocs b) =
     fold (\<lambda>oc. ema_update \<alpha> (oc_Success oc)) ocs (db_SuccessRate b)"
  by (induction ocs arbitrary: b) (simp_all add: bucket_observe_def)

lemma adaptive_learns_window_parts:
  assumes "NewAdaptive (Some f) \<alpha> w = Inr a0" "f64_ok \<alpha>" "\<alpha> \<noteq> NaN"
    "record_all a0 history rks = (a, rks')" "(i, b) \<in> set (ad_delayBuckets a)"
  defines "mine \<equiv> filter (\<lambda>oc. bucket_of (oc_Delay oc) = i) (last_n (nat w) history)"
  shows "ad_recentOutcomes a = last_n (nat w) history"
    and "db_SampleCount b = int (length mine)"
    and "db_SuccessRate b = fold (\<lambda>oc. ema_update \<alpha> (oc_Success oc)) mine (Fin 0)"
    and "fle (Fin 0) (db_SuccessRate b) \<and> fle (db_SuccessRate b) (Fin 1)"
proof -
  note new = NewAdaptive_params [OF assms(1-3)]
  have inv0: "ad_inv a0" using ad_inv_New new(1) assms(1) by blast
  note all = record_all_window [OF inv0 assms(4)]
  then show rec: "ad_recentOutcomes a = last_n (nat w) history" using new by simp
  have inv: "ad_inv a" and \<alpha>: "ad_learningRate a = \<alpha>" using all new by simp_all
  have "(i, b) \<in> set (bucket_summary \<alpha> (last_n (nat w) history) initialBuckets)"
    using inv assms(5) \<alpha> rec by (auto simp: ad_inv_def split: if_splits)
  from summary_entry [OF this] obtain mn mx where b: "b = fold (bucket_observe \<alpha>) mine
      \<lparr>db_MinDelay = mn, db_MaxDelay = mx, db_SuccessRate = Fin 0, db_SampleCount = 0, db_TotalLatency = 0\<rparr>"
    by (auto simp: mine_def)
  then show "db_SuccessRate b = fold (\<lambda>oc. ema_update \<alpha> (oc_Success oc)) mine (Fin 0)"
    by (simp add: fold_observe_rate)
  have "length mine \<le> length (last_n (nat w) history)" by (simp add: mine_def)
  also have "int \<dots> \<le> 10000" using new(1) by (auto simp: last_n_def ad_params_ok_def)
  finally show "db_SampleCount b = int (length mine)" by (simp add: b fold_observe_count)
  have "unit_rate (db_SuccessRate b)" using ad_inv_rates [OF inv] assms(5) by force
  then show "fle (Fin 0) (db_SuccessRate b) \<and> fle (db_SuccessRate b) (Fin 1)"
    by (auto simp: unit_rate_def fle_def less_le)
qed

text \<open>C37. The adaptive strategy learns from exactly the last \<open>memoryWindow\<close> outcomes. However the
  map iterations are ordered, after any history a bucket's sample count is the number of
  remembered outcomes whose delay lies in it, its success rate is the exponential moving
  average of those outcomes in order, computed in floating point, and the rate never leaves the
  interval from 0 to 1.\<close>

theorem adaptive_learns_window:
  assumes "NewAdaptive (Some f) \<alpha> w = Inr a0" "f64_ok \<alpha>" "\<alpha> \<noteq> NaN"
    "record_all a0 history rks = (a, rks')" "(i, b) \<in> set (ad_delayBuckets a)"
  defines "mine \<equiv> filter (\<lambda>oc. bucket_of (oc_Delay oc) = i) (last_n (nat w) history)"
  shows "(ad_recentOutcomes a = last_n (nat w) history)
    \<and> (db_SampleCount b = int (length mine))
    \<and> (db_SuccessRate b = fold (\<lambda>oc. ema_update \<alpha> (oc_Success oc)) mine (Fin 0))
    \<and> (fle (Fin 0) (db_SuccessRate b) \<and> fle (db_SuccessRate b) (Fin 1))"
  using adaptive_learns_window_parts [OF assms(1-5)] unfolding mine_def by blast

theorem adaptive_learns_window_witness:
  "\<exists>a rks' b. record_all sample_adaptive sample_history (sconst (\<lambda>_. 0)) = (a, rks')
     \<and> (0, b) \<in> set (ad_delayBuckets a) \<and> db_SampleCount b = 2 \<and> db_SuccessRate b = Fin (1 / 2)"
proof -
  obtain a rks' where a: "record_all sample_adaptive sample_history (sconst (\<lambda>_. 0)) = (a, rks')"
    by fastforce
  have ok: "f64_ok (Fin (1 / 2))" using rep64_half rep64_pow2_1024 [of "1 / 2"] by simp
  have inv: "ad_inv sample_adaptive" using ad_inv_New [OF sample_params sample_New] .
  have "ad_inv a" "ad_recentOutcomes a = tl sample_history" "ad_learningRate a = Fin (1 / 2)"
    using record_all_window [OF inv a]
    by (simp_all add: sample_adaptive_def sample_history_def last_n_def)
  then have "ad_delayBuckets a = bucket_summary (Fin (1 / 2)) (tl sample_history) initialBuckets"
    by (simp add: ad_inv_def sample_history_def split: if_splits)
  then obtain b where b: "(0, b) \<in> set (ad_delayBuckets a)"
    by (simp add: bucket_summary_def initialBuckets_eq bucket_triples_def)
  have "filter (\<lambda>oc. bucket_of (oc_Delay oc) = 0) (last_n (nat 2) sample_history) = tl sample_history"
    by (simp add: sample_history_def last_n_def bucket_of_def Second_def)
  moreover have "fold (\<lambda>oc. ema_update (Fin (1 / 2)) (oc_Success oc)) (tl sample_history) (Fin 0) = Fin (1 / 2)"
    by code_simp
  ultimately show ?thesis
    using adaptive_learns_window [OF sample_New ok _ a b] a b by (auto simp: sample_history_def)
qed

text \<open>For every order of the map iteration, a positive learned delay is the blend of the
  fallback's delay with the middle of a bucket that has at least two samples and whose success
  rate no other such bucket beats; when no bucket has two samples nothing is learned.\<close>

lemma adaptive_uses_best_bucket:
  assumes "ad_inv a" "calculateOptimalDelay p fb a attempt (r, rks) = (d, a', rr')"
  shows "(d = 0 \<and> a' = a \<and> (\<forall>b \<in> snd ` set (ad_delayBuckets a). db_SampleCount b < 2))
    \<or> (\<exists>b fd r'. best_of (set (ad_delayBuckets a)) b \<and> fallback_Delay fb a attempt r = (fd, a', r')
         \<and> d = blendDelays p (ad_learningRate a) (bucket_middle b) fd)"
proof (cases "best_bucket (map_range (shd rks) (ad_delayBuckets a)) None (Fin (- 1))")
  case None
  with best_bucket_learned [OF None ad_inv_rates [OF assms(1)]] assms(2) show ?thesis
    by (auto simp: calculateOptimalDelay_def)
next
  case (Some b)
  have "best_of (set (ad_delayBuckets a)) b"
    using best_bucket_learned [OF Some ad_inv_rates [OF assms(1)]] by simp
  moreover obtain fd r' where "fallback_Delay fb a attempt r = (fd, a', r')"
    "d = blendDelays p (ad_learningRate a') (bucket_middle b) fd"
    using assms(2) Some by (auto simp: calculateOptimalDelay_def split: prod.splits)
  moreover from this(1) have "ad_learningRate a' = ad_learningRate a"
    by (auto simp: fallback_Delay_def split: prod.splits)
  ultimately show ?thesis by auto
qed

lemma adaptive_uses_best_bucket_witness:
  "\<exists>b. best_of (set (ad_delayBuckets learned_adaptive)) b
     \<and> fst (calculateOptimalDelay amd64 (base_Delay amd64) learned_adaptive 1 (half_draws, sconst (\<lambda>_. 0)))
         = blendDelays amd64 (Fin (1 / 2)) (bucket_middle b) Second"
proof -
  obtain d a' rr' where c: "calculateOptimalDelay amd64 (base_Delay amd64) learned_adaptive 1
      (half_draws, sconst (\<lambda>_. 0)) = (d, a', rr')" by (metis prod_cases3)
  have "\<exists>b \<in> snd ` set (ad_delayBuckets learned_adaptive). 2 \<le> db_SampleCount b" by code_simp
  then have "\<not> (\<forall>b \<in> snd ` set (ad_delayBuckets learned_adaptive). db_SampleCount b < 2)" by force
  with adaptive_uses_best_bucket [OF learned_inv c] c show ?thesis
    by (auto simp: fallback_Delay_def learned_adaptive_def sample_adaptive_def strategy_defs Fixed_Delay_def)
qed

lemma adaptive_delay_bounds_parts:
  assumes "ad_inv a" "base_inv p N (ad_fallbackStrategy a)" "base_bound (ad_fallbackStrategy a) \<le> 2 ^ 49"
    "rng_ok r" "1 \<le> n" "n \<le> N" "Adaptive_Delay p (base_Delay p) a n (r, rks) = (d, a', rr')"
  shows "0 \<le> d" and "d \<le> max (base_bound (ad_fallbackStrategy a)) (180 * Second)" and "ad_inv a'"
  using base_fb.adaptive.delay_step [of p N a "(r, rks)" n p d a' rr'] assms
  by (simp_all add: ad_client_inv_def base_small_inv_def fst_ok_def ad_bound_def)

text \<open>Over any self-contained fallback in its parameter range whose delays stay below about
  six days, the adaptive strategy answers every attempt of the horizon with a delay between zero
  and the larger of the fallback's bound and three minutes, the middle of the last bucket, and
  keeps its own invariant, whatever it has learned and whatever the random draws are.\<close>

lemma adaptive_delay_bounds:
  assumes "ad_inv a" "base_inv p N (ad_fallbackStrategy a)" "base_bound (ad_fallbackStrategy a) \<le> 2 ^ 49"
    "rng_ok r" "1 \<le> n" "n \<le> N" "Adaptive_Delay p (base_Delay p) a n (r, rks) = (d, a', rr')"
  shows "(0 \<le> d)
    \<and> (d \<le> max (base_bound (ad_fallbackStrategy a)) (180 * Second))
    \<and> (ad_inv a')"
  using adaptive_delay_bounds_parts [OF assms(1-7)] by blast

lemma adaptive_delay_bounds_witness:
  "fst (Adaptive_Delay amd64 (base_Delay amd64) learned_adaptive 1 (half_draws, sconst (\<lambda>_. 0))) \<le> 180 * Second"
proof -
  obtain d a' rr' where c: "Adaptive_Delay amd64 (base_Delay amd64) learned_adaptive 1
      (half_draws, sconst (\<lambda>_. 0)) = (d, a', rr')" by (metis prod_cases3)
  have "ad_fallbackStrategy learned_adaptive = BFixed (NewFixed Second)"
    by (simp add: learned_adaptive_def sample_adaptive_def)
  with adaptive_delay_bounds [OF learned_inv, of amd64 1 half_draws 1 "sconst (\<lambda>_. 0)" d a' rr'] c
  show ?thesis by (simp add: strategy_defs rng_ok_half_draws Second_def)
qed

end
