(* ===== verification/GoText.thy ===== *)
theory GoText
  imports Float64
begin

text \<open>
  What the sources use of Go's text packages: \<open>strings\<close>, \<open>strconv.Atoi\<close> and \<open>ParseInt\<close>,
  \<open>Duration.String\<close> and the \<open>%.nf\<close> verb of \<open>fmt\<close>. A Go string is a byte sequence, so a
  \<open>string\<close> (list of 8-bit characters) is one as it is. White space is that of ASCII: the trimming
  and splitting functions of the source also know a few code points beyond it, as U+00A0 and
  U+2028.
\<close>

section \<open>strings\<close>

fun has_prefix :: "string \<Rightarrow> string \<Rightarrow> bool" where
  "has_prefix s [] = True"
| "has_prefix [] (c # cs) = False"
| "has_prefix (x # s) (c # cs) = (x = c \<and> has_prefix s cs)"

fun contains :: "string \<Rightarrow> string \<Rightarrow> bool" where
  "contains [] sub = (sub = [])"
| "contains (c # s) sub = (has_prefix (c # s) sub \<or> contains s sub)"

lemma has_prefix_append [simp]: "has_prefix (p @ s) p"
  by (induction p) auto

lemma has_prefix_iff: "has_prefix s p \<longleftrightarrow> (\<exists>t. s = p @ t)"
  by (induction s p rule: has_prefix.induct) auto

lemma contains_iff: "contains s sub \<longleftrightarrow> (\<exists>a b. s = a @ sub @ b)"
proof (induction s)
  case (Cons c s)
  show ?case
  proof
    assume "contains (c # s) sub"
    then consider t where "c # s = sub @ t" | "contains s sub" by (auto simp: has_prefix_iff)
    then show "\<exists>a b. c # s = a @ sub @ b"
    proof cases
      case (1 t)
      then have "c # s = [] @ sub @ t" by simp
      then show ?thesis by blast
    next
      case 2
      then obtain a b where "s = a @ sub @ b" using Cons.IH by blast
      then have "c # s = (c # a) @ sub @ b" by simp
      then show ?thesis by blast
    qed
  next
    assume "\<exists>a b. c # s = a @ sub @ b"
    then obtain a b where ab: "c # s = a @ sub @ b" by blast
    show "contains (c # s) sub"
    proof (cases a)
      case Nil
      with ab have "c # s = sub @ b" by simp
      then show ?thesis by (metis contains.simps(2) has_prefix_iff)
    next
      case (Cons x xs)
      with ab have "s = xs @ sub @ b" by simp
      then have "contains s sub" using Cons.IH by blast
      then show ?thesis by simp
    qed
  qed
qed auto

fun join :: "string \<Rightarrow> string list \<Rightarrow> string" where
  "join sep [] = []"
| "join sep [x] = x"
| "join sep (x # y # xs) = x @ sep @ join sep (y # xs)"

definition trim_right :: "char \<Rightarrow> string \<Rightarrow> string" where
  "trim_right c s = rev (dropWhile (\<lambda>x. x = c) (rev s))"

text \<open>\<open>strings.TrimSpace\<close> on ASCII white space.\<close>

definition is_space :: "char \<Rightarrow> bool" where
  "is_space c \<longleftrightarrow> c \<in> set [CHR 0x09, CHR 0x0A, CHR 0x0B, CHR 0x0C, CHR 0x0D, CHR '' '']"

definition trim_space :: "string \<Rightarrow> string" where
  "trim_space s = rev (dropWhile is_space (rev (dropWhile is_space s)))"

lemma digit_not_space: "is_digit c \<Longrightarrow> \<not> is_space c"
  by (auto simp: is_digit_def is_space_def)

lemma trim_space_digits: "list_all is_digit s \<Longrightarrow> trim_space s = s"
proof -
  have "dropWhile is_space s = s" if "list_all is_digit s" for s
    using that by (cases s) (auto simp: digit_not_space)
  moreover assume "list_all is_digit s"
  moreover from this have "list_all is_digit (rev s)" by (simp add: list_all_iff)
  ultimately show ?thesis by (simp add: trim_space_def)
qed

text \<open>\<open>strings.Index\<close> of one character; \<open>None\<close> where Go returns -1.\<close>

definition index_of :: "char \<Rightarrow> string \<Rightarrow> nat option" where
  "index_of c s = (let n = length (takeWhile (\<lambda>x. x \<noteq> c) s) in if n < length s then Some n else None)"

lemma index_of_less: "index_of c s = Some n \<Longrightarrow> n < length s"
  by (auto simp: index_of_def Let_def split: if_splits)

section \<open>strconv\<close>

text \<open>\<open>Atoi\<close> and \<open>ParseInt(s, 10, 64)\<close>: a sign, digits, and a value in the 64-bit range.\<close>

definition parse_int :: "string \<Rightarrow> int option" where
  "parse_int s =
     (let (neg, ds) = (case s of
            c # cs \<Rightarrow> if c = CHR ''-'' then (True, cs) else if c = CHR ''+'' then (False, cs) else (False, s)
          | [] \<Rightarrow> (False, []));
          v = int (digits_val ds); n = (if neg then - v else v)
      in if ds \<noteq> [] \<and> list_all is_digit ds \<and> in_i64 n then Some n else None)"

lemma parse_int_digits:
  assumes "list_all is_digit ds" "ds \<noteq> []"
  shows "parse_int ds = (if digits_val ds < 2 ^ 63 then Some (int (digits_val ds)) else None)"
proof -
  obtain c cs where ds: "ds = c # cs" using assms(2) by (cases ds) auto
  have "c \<noteq> CHR ''-''" "c \<noteq> CHR ''+''" using assms(1) by (auto simp: ds is_digit_def)
  moreover have "in_i64 (int n) \<longleftrightarrow> n < 2 ^ 63" for n by (auto simp: in_i64_def)
  ultimately show ?thesis using assms by (auto simp: parse_int_def ds)
qed

lemma parse_int_utoa [simp]: "n < 2 ^ 63 \<Longrightarrow> parse_int (utoa n) = Some (int n)"
  by (simp add: parse_int_digits utoa_digits)

section \<open>Formatting\<close>

text \<open>\<open>%.nf\<close>: the exact value rounded to \<open>n\<close> decimals, ties to even.\<close>

definition pad_left :: "nat \<Rightarrow> string \<Rightarrow> string" where
  "pad_left n s = replicate (n - length s) (CHR ''0'') @ s"

definition fmt_fixed :: "nat \<Rightarrow> rat \<Rightarrow> string" where
  "fmt_fixed n x =
     (let q = nat (round_even (\<bar>x\<bar> * 10 ^ n));
          whole = utoa (q div 10 ^ n);
          frac = (if n = 0 then [] else ''.'' @ pad_left n (utoa (q mod 10 ^ n)))
      in (if x < 0 then ''-'' else []) @ whole @ frac)"

fun fmt_f :: "nat \<Rightarrow> f64 \<Rightarrow> string" where
  "fmt_f n (Fin x) = fmt_fixed n x"
| "fmt_f n PInf = ''+Inf''"
| "fmt_f n NInf = ''-Inf''"
| "fmt_f n NaN = ''NaN''"

text \<open>
  \<open>Duration.String\<close>: below a second one unit with its decimals, otherwise hours, minutes
  and seconds, leading zero units dropped. \<open>frac_str prec u\<close> is \<open>u / 10^prec\<close> with the
  trailing zeros of the fraction left out.
\<close>

definition frac_str :: "nat \<Rightarrow> nat \<Rightarrow> string" where
  "frac_str prec u =
     (let f = trim_right (CHR ''0'') (pad_left prec (utoa (u mod 10 ^ prec)))
      in utoa (u div 10 ^ prec) @ (if prec = 0 \<or> f = [] then [] else ''.'' @ f))"

definition micro_sign :: string where
  "micro_sign = [CHR 0xC2, CHR 0xB5]"

definition seconds_str :: "nat \<Rightarrow> string" where
  "seconds_str u =
     (let f = trim_right (CHR ''0'') (pad_left 9 (utoa (u mod 1000000000)));
          secs = u div 1000000000
      in (if 3600 \<le> secs then utoa (secs div 3600) @ ''h'' else [])
         @ (if 60 \<le> secs then utoa (secs div 60 mod 60) @ ''m'' else [])
         @ utoa (secs mod 60) @ (if f = [] then [] else ''.'' @ f) @ ''s'')"

definition Duration_String :: "duration \<Rightarrow> string" where
  "Duration_String d =
     (let u = nat \<bar>d\<bar>
      in (if d < 0 then ''-'' else []) @
         (if u = 0 then ''0s''
          else if u < 1000 then utoa u @ ''ns''
          else if u < 1000000 then frac_str 3 u @ micro_sign @ ''s''
          else if u < 1000000000 then frac_str 6 u @ ''ms''
          else seconds_str u))"

section \<open>Splitting and ParseDuration\<close>

text \<open>\<open>strings.Split\<close> at a one-byte separator; there is always at least one part.\<close>

fun split_on :: "char \<Rightarrow> string \<Rightarrow> string list" where
  "split_on sep [] = [[]]"
| "split_on sep (c # s) =
     (if c = sep then [] # split_on sep s
      else case split_on sep s of p # ps \<Rightarrow> (c # p) # ps | [] \<Rightarrow> [[c]])"

lemma split_on_nonempty [simp]: "split_on sep s \<noteq> []"
  by (induction s) (auto split: list.splits)

lemma split_on_parts: "p \<in> set (split_on sep s) \<Longrightarrow> sep \<notin> set p"
  by (induction s arbitrary: p) (auto split: list.splits if_splits)

lemma join_split_on: "join [sep] (split_on sep s) = s"
proof (induction s)
  case (Cons c s)
  obtain p ps where "split_on sep s = p # ps" by (cases "split_on sep s") auto
  with Cons show ?case by (cases ps) auto
qed simp

lemma split_on_single: "sep \<notin> set p \<Longrightarrow> split_on sep p = [p]"
  by (induction p) auto

lemma split_on_append: "sep \<notin> set p \<Longrightarrow> split_on sep (p @ sep # s) = p # split_on sep s"
  by (induction p) auto

lemma split_on_join: "ps \<noteq> [] \<Longrightarrow> (\<And>p. p \<in> set ps \<Longrightarrow> sep \<notin> set p) \<Longrightarrow> split_on sep (join [sep] ps) = ps"
  by (induction "[sep]" ps rule: join.induct) (simp_all add: split_on_single split_on_append)

text \<open>
  \<open>time.ParseDuration\<close>: an optional sign and a sequence of decimal numbers with units. The
  accumulated value is a \<open>uint64\<close>; every number has its overflow tests. The fraction of a number
  is read as an integer and a power of ten, until the integer would overflow.
\<close>

definition unitMap :: "(string \<times> nat) list" where
  "unitMap = [(''ns'', 1), (''us'', 1000), ([CHR 0xC2, CHR 0xB5] @ ''s'', 1000), ([CHR 0xCE, CHR 0xBC] @ ''s'', 1000),
     (''ms'', 1000000), (''s'', 1000000000), (''m'', 60000000000), (''h'', 3600000000000)]"

fun leadingFraction :: "string \<Rightarrow> nat \<Rightarrow> f64 \<Rightarrow> nat \<times> f64" where
  "leadingFraction [] x scale = (x, scale)"
| "leadingFraction (c # s) x scale =
     (if \<not> is_digit c then (x, scale)
      else if (2 ^ 63 - 1) div 10 < x \<or> 2 ^ 63 < 10 * x + digit_val c then (x, scale)
      else leadingFraction s (10 * x + digit_val c) (fmul scale (Fin 10)))"

definition unit_char :: "char \<Rightarrow> bool" where
  "unit_char c \<longleftrightarrow> c \<noteq> CHR ''.'' \<and> \<not> is_digit c"

text \<open>One number with its unit: its value and what is left of the text.\<close>

definition duration_part :: "string \<Rightarrow> (nat \<times> string) option" where
  "duration_part s =
     (let ds = takeWhile is_digit s; s1 = dropWhile is_digit s; v = digits_val ds;
          point = (s1 \<noteq> [] \<and> hd s1 = CHR ''.'');
          fs = (if point then takeWhile is_digit (tl s1) else []);
          s2 = (if point then dropWhile is_digit (tl s1) else s1);
          (f, scale) = leadingFraction fs 0 (Fin 1);
          u = takeWhile unit_char s2
      in if 2 ^ 63 < v then None
         else if ds = [] \<and> fs = [] then None
         else case map_of unitMap u of None \<Rightarrow> None
         | Some unit \<Rightarrow>
             if 2 ^ 63 div unit < v then None
             else let v1 = v * unit
                        + (if 0 < f then (case fmul (f64_of_int (int f)) (fdiv (f64_of_int (int unit)) scale) of
                                            Fin x \<Rightarrow> nat (trunc x) | _ \<Rightarrow> 0) else 0)
                  in if 2 ^ 63 < v1 then None else Some (v1, dropWhile unit_char s2))"

lemma length_dropWhile_less: "takeWhile P s \<noteq> [] \<Longrightarrow> length (dropWhile P s) < length s"
  by (cases s) (auto split: if_splits simp: length_dropWhile_le less_Suc_eq_le)

lemma unitMap_nonempty: "map_of unitMap u = Some unit \<Longrightarrow> u \<noteq> []"
  by (auto simp: unitMap_def)

lemma duration_part_shorter:
  assumes "duration_part s = Some (v, rest)"
  shows "length rest < length s"
proof -
  define s1 where "s1 = dropWhile is_digit s"
  define s2 where "s2 = (if s1 \<noteq> [] \<and> hd s1 = CHR ''.'' then dropWhile is_digit (tl s1) else s1)"
  obtain unit where "map_of unitMap (takeWhile unit_char s2) = Some unit" "rest = dropWhile unit_char s2"
    using assms unfolding duration_part_def Let_def s1_def [symmetric] s2_def [symmetric]
    by (auto split: if_splits option.splits prod.splits)
  then have "length rest < length s2" using length_dropWhile_less unitMap_nonempty by blast
  also have "length s2 \<le> length s1"
    using length_dropWhile_le [of is_digit "tl s1"] by (auto simp: s2_def)
  also have "\<dots> \<le> length s" by (simp add: s1_def length_dropWhile_le)
  finally show ?thesis .
qed

function duration_parts :: "string \<Rightarrow> nat \<Rightarrow> nat option" where
  "duration_parts s d =
     (if s = [] then Some d
      else case duration_part s of None \<Rightarrow> None
      | Some (v, rest) \<Rightarrow>
          (let d' = (d + v) mod 2 ^ 64 in if 2 ^ 63 < d' then None else duration_parts rest d'))"
  by pat_completeness auto
termination
  by (relation "measure (\<lambda>(s, d). length s)") (auto dest: duration_part_shorter)

declare duration_parts.simps [simp del]

definition ParseDuration :: "string \<Rightarrow> duration option" where
  "ParseDuration s =
     (let (neg, body) = (case s of c # cs \<Rightarrow> if c = CHR ''-'' then (True, cs) else if c = CHR ''+'' then (False, cs) else (False, s)
                          | [] \<Rightarrow> (False, []))
      in if body = ''0'' then Some 0
         else if body = [] then None
         else case duration_parts body 0 of None \<Rightarrow> None
         | Some d \<Rightarrow> if neg then Some (wrap64 (- wrap64 (int d))) else if 2 ^ 63 - 1 < d then None else Some (int d))"

lemma ParseDuration_range: "ParseDuration s = Some d \<Longrightarrow> in_i64 d"
  by (auto simp: ParseDuration_def in_i64_def [of 0] in_i64I Let_def split: if_splits option.splits list.splits)

end
