(* ===== verification/GoJson.thy ===== *)
theory GoJson
  imports GoText "HOL-Library.Monad_Syntax"
begin

text \<open>
  What the sources use of \<open>encoding/json\<close>: decoding a document into Go values. The grammar is
  the decoder's (RFC 8259); a number keeps its text and its correctly rounded float64, and an
  overflowing one is an error where a float64 is wanted; a repeated key keeps its last value. A
  string is a list of bytes; inside a JSON string, every byte that begins no well-formed UTF-8
  sequence is replaced by U+FFFD, as the decoder does. The decoder's limit of 10000 nested values is
  not modelled.

  The mutually recursive parser takes fuel; every call consumes a character, and
  \<open>jvalue_enough\<close> shows that the length of the input is always enough.
\<close>

datatype json = JNull | JBool bool | JNum string f64 | JStr string | JArr "json list" | JObj "(string \<times> json) list"

definition json_ws :: "string \<Rightarrow> string" where
  "json_ws = dropWhile (\<lambda>c. c \<in> {CHR '' '', CHR 0x09, CHR 0x0A, CHR 0x0D})"

lemma json_ws_length: "length (json_ws s) \<le> length s"
  by (simp add: json_ws_def length_dropWhile_le)

section \<open>Strings\<close>

definition hex_val :: "char \<Rightarrow> nat option" where
  "hex_val c = (let n = (of_char c :: nat) in
     if 48 \<le> n \<and> n \<le> 57 then Some (n - 48)
     else if 97 \<le> n \<and> n \<le> 102 then Some (n - 87)
     else if 65 \<le> n \<and> n \<le> 70 then Some (n - 55) else None)"

fun hex4 :: "string \<Rightarrow> (nat \<times> string) option" where
  "hex4 (a # b # c # d # r) =
     do { w \<leftarrow> hex_val a; x \<leftarrow> hex_val b; y \<leftarrow> hex_val c; z \<leftarrow> hex_val d;
          Some (((w * 16 + x) * 16 + y) * 16 + z, r) }"
| "hex4 _ = None"

text \<open>The UTF-8 encoding of a code point.\<close>

definition utf8 :: "nat \<Rightarrow> string" where
  "utf8 u = map char_of
     (if u < 128 then [u]
      else if u < 2048 then [192 + u div 64, 128 + u mod 64]
      else if u < 65536 then [224 + u div 4096, 128 + u div 64 mod 64, 128 + u mod 64]
      else [240 + u div 262144, 128 + u div 4096 mod 64, 128 + u div 64 mod 64, 128 + u mod 64])"

text \<open>
  The length of the well-formed UTF-8 sequence that a string begins with, or 0 when it begins with
  none: what \<open>utf8.DecodeRune\<close> finds. The range of the second byte depends on the first one, which
  excludes overlong forms, surrogates and code points above U+10FFFF.
\<close>

definition byte_in :: "nat \<times> nat \<Rightarrow> char \<Rightarrow> bool" where
  "byte_in bounds c \<longleftrightarrow> fst bounds \<le> of_char c \<and> of_char c \<le> snd bounds"

definition sequence_length :: "char \<Rightarrow> nat" where
  "sequence_length c =
     (if byte_in (0, 127) c then 1 else if byte_in (194, 223) c then 2
      else if byte_in (224, 239) c then 3 else if byte_in (240, 244) c then 4 else 0)"

definition second_range :: "char \<Rightarrow> nat \<times> nat" where
  "second_range c =
     (if c = CHR 0xE0 then (160, 191) else if c = CHR 0xED then (128, 159)
      else if c = CHR 0xF0 then (144, 191) else if c = CHR 0xF4 then (128, 143) else (128, 191))"

fun rune_len :: "string \<Rightarrow> nat" where
  "rune_len [] = 0"
| "rune_len [c] = (if sequence_length c = 1 then 1 else 0)"
| "rune_len (c # d # r) =
     (let n = sequence_length c in
      if n \<le> 1 then n
      else if byte_in (second_range c) d \<and> n - 2 \<le> length r \<and> list_all (byte_in (128, 191)) (take (n - 2) r)
      then n else 0)"

lemma sequence_length_ascii: "sequence_length c = 1 \<longleftrightarrow> (of_char c :: nat) < 128"
  by (auto simp: sequence_length_def byte_in_def)

lemma rune_len_ascii [simp]: "(of_char c :: nat) < 128 \<Longrightarrow> rune_len (c # r) = 1"
  using sequence_length_ascii [of c] by (cases r) simp_all

lemma rune_len_le: "rune_len s \<le> length s"
  by (cases s rule: rune_len.cases) (auto simp: Let_def)

text \<open>The length depends on the bytes of the sequence only.\<close>

lemma rune_len_append:
  assumes "rune_len s = n" "0 < n"
  shows "rune_len (take n s @ x) = n"
proof (cases s rule: rune_len.cases)
  case (3 c d r)
  show ?thesis
  proof (cases "sequence_length c \<le> 1")
    case True
    with assms 3 have "n = 1" "(of_char c :: nat) < 128"
      using sequence_length_ascii [of c] by (simp_all add: Let_def)
    then show ?thesis using 3 by simp
  next
    case False
    with assms 3 have n: "n = sequence_length c" "byte_in (second_range c) d" "n - 2 \<le> length r"
        "list_all (byte_in (128, 191)) (take (n - 2) r)"
      by (auto simp: Let_def split: if_splits)
    obtain m where m: "n = Suc (Suc m)" using False n(1) by (metis Suc_diff_Suc diff_zero less_Suc_eq not_le not_less_eq numeral_nat(7))
    then show ?thesis using n False 3 by (simp add: Let_def)
  qed
next
  case (2 c)
  with assms have "n = 1" "(of_char c :: nat) < 128" using sequence_length_ascii [of c] by (auto split: if_splits)
  then show ?thesis using 2 by simp
qed (use assms in simp)

lemma rune_bytes_high:
  assumes "128 \<le> (of_char c :: nat)" "x \<in> set (take (rune_len (c # r)) (c # r))"
  shows "128 \<le> (of_char x :: nat)"
proof -
  have s1: "sequence_length c \<noteq> 1" using assms(1) sequence_length_ascii [of c] by simp
  show ?thesis
  proof (cases r)
    case (Cons d r')
    have "128 \<le> fst (second_range c)" by (simp add: second_range_def)
    moreover have "0 < rune_len (c # r)" using assms(2) by (cases "rune_len (c # r)") simp_all
    ultimately have *: "128 \<le> (of_char d :: nat)" "list_all (byte_in (128, 191)) (take (rune_len (c # r) - 2) r')"
      using s1 Cons by (auto simp: Let_def byte_in_def split: if_splits)
    have "x = c \<or> x = d \<or> x \<in> set (take (rune_len (c # r) - 2) r')"
      using assms(2) Cons by (auto simp: take_Cons' numeral_2_eq_2 simp del: rune_len.simps split: if_splits)
    with * assms(1) show ?thesis by (auto simp: list_all_iff byte_in_def)
  qed (use assms s1 in simp)
qed

text \<open>U+FFFD, and a string with every ill-formed byte replaced by it.\<close>

definition replacement :: string where
  "replacement = [CHR 0xEF, CHR 0xBF, CHR 0xBD]"

function to_valid :: "string \<Rightarrow> string" where
  "to_valid [] = []"
| "to_valid (c # r) =
     (let n = rune_len (c # r)
      in (if n = 0 then replacement else c # take (n - 1) r) @ to_valid (drop (n - 1) r))"
  by pat_completeness auto
termination
  by (relation "measure length") auto

lemma to_valid_ascii [simp]: "(of_char c :: nat) < 128 \<Longrightarrow> to_valid (c # r) = c # to_valid r"
  by simp

declare to_valid.simps(2) [simp del]

text \<open>Well-formed UTF-8: nothing is replaced.\<close>

definition well_formed :: "string \<Rightarrow> bool" where
  "well_formed s \<longleftrightarrow> to_valid s = s"

lemma to_valid_rune:
  assumes "rune_len s = n" "0 < n"
  shows "to_valid (take n s @ x) = take n s @ to_valid x"
proof -
  obtain c r where s: "s = c # r" using assms by (cases s) auto
  obtain m where m: "n = Suc m" using assms(2) by (cases n) auto
  have "length (take m r) = m" using rune_len_le [of s] assms m s by simp
  then show ?thesis using rune_len_append [OF assms, of x] s m by (simp add: to_valid.simps(2))
qed

lemma rune_len_replacement: "rune_len replacement = 3"
  by (simp add: replacement_def sequence_length_def byte_in_def second_range_def Let_def)

lemma to_valid_replacement: "to_valid (replacement @ x) = replacement @ to_valid x"
  using to_valid_rune [OF rune_len_replacement, of x] by (simp add: replacement_def)

lemma to_valid_idem [simp]: "to_valid (to_valid s) = to_valid s"
proof (induction s rule: to_valid.induct)
  case (2 c r)
  let ?n = "rune_len (c # r)"
  show ?case
  proof (cases "?n = 0")
    case True
    then show ?thesis using 2 by (simp add: to_valid.simps(2) [of c r] to_valid_replacement)
  next
    case False
    then have t: "take ?n (c # r) = c # take (?n - 1) r" by (cases ?n) auto
    show ?thesis using 2 False to_valid_rune [of "c # r" ?n, unfolded t]
      by (simp add: to_valid.simps(2) [of c r] Let_def)
  qed
qed simp

lemma to_valid_well_formed [simp]: "well_formed (to_valid s)"
  by (simp add: well_formed_def)

lemma ascii_well_formed: "list_all (\<lambda>c. (of_char c :: nat) < 128) s \<Longrightarrow> to_valid s = s"
  by (induction s) auto

text \<open>A \<open>\u\<close> escape: a surrogate pair is one code point, a lone surrogate is U+FFFD.\<close>

definition u_escape :: "string \<Rightarrow> (string \<times> string) option" where
  "u_escape s = do {
     (u, r) \<leftarrow> hex4 s;
     if u < 55296 \<or> 57343 < u then Some (utf8 u, r)
     else (let low = (case r of c # d # r1 \<Rightarrow> if c = CHR 0x5C \<and> d = CHR ''u'' then hex4 r1 else None | _ \<Rightarrow> None)
           in case low of
                Some (v, r2) \<Rightarrow> if u < 56320 \<and> 56320 \<le> v \<and> v \<le> 57343
                  then Some (utf8 (65536 + (u - 55296) * 1024 + (v - 56320)), r2)
                  else Some (utf8 65533, r)
              | None \<Rightarrow> Some (utf8 65533, r)) }"

fun escape :: "string \<Rightarrow> (string \<times> string) option" where
  "escape [] = None"
| "escape (c # r) =
     (if c \<in> {CHR 0x22, CHR 0x5C, CHR ''/''} then Some ([c], r)
      else if c = CHR ''b'' then Some ([CHR 0x08], r)
      else if c = CHR ''f'' then Some ([CHR 0x0C], r)
      else if c = CHR ''n'' then Some ([CHR 0x0A], r)
      else if c = CHR ''r'' then Some ([CHR 0x0D], r)
      else if c = CHR ''t'' then Some ([CHR 0x09], r)
      else if c = CHR ''u'' then u_escape r
      else None)"

lemma hex4_length: "hex4 s = Some (u, r) \<Longrightarrow> length r < length s"
  by (induction s rule: hex4.induct) (auto split: bind_splits)

lemma u_escape_length: "u_escape s = Some (b, r) \<Longrightarrow> length r < length s"
  by (force simp: u_escape_def Let_def dest: hex4_length split: bind_splits if_splits list.splits option.splits)

lemma escape_length: "escape s = Some (b, r) \<Longrightarrow> length r < length s"
  by (cases s) (auto split: if_splits dest: u_escape_length)

text \<open>The rest of a string after its opening quote.\<close>

function str_body :: "string \<Rightarrow> (string \<times> string) option" where
  "str_body [] = None"
| "str_body (c # r) =
     (if c = CHR 0x22 then Some ([], r)
      else if c = CHR 0x5C then
        (case escape r of None \<Rightarrow> None
         | Some (b, r1) \<Rightarrow> (case str_body r1 of None \<Rightarrow> None | Some (t, r2) \<Rightarrow> Some (b @ t, r2)))
      else if (of_char c :: nat) < 32 then None
      else (let n = rune_len (c # r)
            in case str_body (drop (n - 1) r) of None \<Rightarrow> None
               | Some (t, r2) \<Rightarrow> Some ((if n = 0 then replacement else c # take (n - 1) r) @ t, r2)))"
  by pat_completeness auto
termination
  by (relation "measure length") (auto dest: escape_length)

lemma str_body_length: "str_body s = Some (t, r) \<Longrightarrow> length r < length s"
  by (induction s arbitrary: t rule: str_body.induct)
    (fastforce simp: Let_def split: if_splits option.splits dest: escape_length)+

section \<open>Numbers\<close>

definition span_digits :: "string \<Rightarrow> string \<times> string" where
  "span_digits s = (takeWhile is_digit s, dropWhile is_digit s)"

definition num_int :: "string \<Rightarrow> (rat \<times> string) option" where
  "num_int s = (case s of [] \<Rightarrow> None
     | c # r \<Rightarrow> if c = CHR ''0'' then Some (0, r)
               else if is_digit c then (case span_digits s of (ds, r') \<Rightarrow> Some (of_nat (digits_val ds), r'))
               else None)"

definition num_frac :: "string \<Rightarrow> (rat \<times> string) option" where
  "num_frac s = (case s of [] \<Rightarrow> Some (0, s)
     | c # r \<Rightarrow> if c = CHR ''.'' then
                 (case span_digits r of (ds, r') \<Rightarrow>
                    if ds = [] then None else Some (of_nat (digits_val ds) / 10 ^ length ds, r'))
               else Some (0, s))"

definition num_exp :: "string \<Rightarrow> (int \<times> string) option" where
  "num_exp s = (case s of [] \<Rightarrow> Some (0, s)
     | c # r \<Rightarrow> if c = CHR ''e'' \<or> c = CHR ''E'' then
                 (let (neg, r1) = (case r of [] \<Rightarrow> (False, r)
                        | d # t \<Rightarrow> if d = CHR ''-'' then (True, t) else if d = CHR ''+'' then (False, t) else (False, r));
                      (ds, r2) = span_digits r1
                  in if ds = [] then None
                     else Some (if neg then - int (digits_val ds) else int (digits_val ds), r2))
               else Some (0, s))"

definition jnumber :: "string \<Rightarrow> (json \<times> string) option" where
  "jnumber s = (case (case s of [] \<Rightarrow> (False, s) | c # r \<Rightarrow> if c = CHR ''-'' then (True, r) else (False, s)) of
     (neg, s1) \<Rightarrow> do {
       (i, s2) \<leftarrow> num_int s1;
       (f, s3) \<leftarrow> num_frac s2;
       (e, s4) \<leftarrow> num_exp s3;
       let m = (i + f) * (if 0 \<le> e then 10 ^ nat e else 1 / 10 ^ nat (- e));
       Some (JNum (take (length s - length s4) s) (f64_round (if neg then - m else m)), s4) })"

lemma span_digits_length: "span_digits s = (ds, r) \<Longrightarrow> length r \<le> length s"
  by (auto simp: span_digits_def length_dropWhile_le)

lemma num_int_length: "num_int s = Some (i, r) \<Longrightarrow> length r < length s"
  by (auto simp: num_int_def span_digits_def length_dropWhile_le le_imp_less_Suc split: list.splits if_splits)

lemma num_frac_length: "num_frac s = Some (i, r) \<Longrightarrow> length r \<le> length s"
  by (auto simp: num_frac_def span_digits_def length_dropWhile_le le_SucI split: list.splits if_splits)

lemma num_exp_length: "num_exp s = Some (i, r) \<Longrightarrow> length r \<le> length s"
  by (auto simp: num_exp_def span_digits_def length_dropWhile_le le_SucI Let_def split: list.splits if_splits)

lemma jnumber_length: "jnumber s = Some (v, r) \<Longrightarrow> length r < length s"
  by (fastforce simp: jnumber_def Let_def split: list.splits if_splits bind_splits f64.splits
      dest: num_int_length num_frac_length num_exp_length)

section \<open>Values\<close>

definition literal :: "string \<Rightarrow> json \<Rightarrow> string \<Rightarrow> (json \<times> string) option" where
  "literal w v s = (if has_prefix s w then Some (v, drop (length w) s) else None)"

text \<open>A key of an object and the colon after it.\<close>

definition jkey :: "string \<Rightarrow> (string \<times> string) option" where
  "jkey s =
     (case json_ws s of [] \<Rightarrow> None
      | q # r \<Rightarrow>
          if q \<noteq> CHR 0x22 then None
          else (case str_body r of None \<Rightarrow> None
                | Some (k, r1) \<Rightarrow>
                    (case json_ws r1 of [] \<Rightarrow> None
                     | d # r2 \<Rightarrow> if d \<noteq> CHR '':'' then None else Some (k, r2))))"

fun jvalue :: "nat \<Rightarrow> string \<Rightarrow> (json \<times> string) option"
  and jelems :: "nat \<Rightarrow> string \<Rightarrow> (json list \<times> string) option"
  and jmembers :: "nat \<Rightarrow> string \<Rightarrow> ((string \<times> json) list \<times> string) option" where
  "jvalue 0 s = None"
| "jvalue (Suc n) s =
     (case json_ws s of [] \<Rightarrow> None
      | c # r \<Rightarrow>
          if c = CHR ''{'' then
            (case json_ws r of [] \<Rightarrow> None
             | d # r1 \<Rightarrow> if d = CHR ''}'' then Some (JObj [], r1)
                         else map_option (\<lambda>(ms, r2). (JObj ms, r2)) (jmembers n (d # r1)))
          else if c = CHR ''['' then
            (case json_ws r of [] \<Rightarrow> None
             | d # r1 \<Rightarrow> if d = CHR '']'' then Some (JArr [], r1)
                         else map_option (\<lambda>(vs, r2). (JArr vs, r2)) (jelems n (d # r1)))
          else if c = CHR 0x22 then map_option (\<lambda>(t, r2). (JStr t, r2)) (str_body r)
          else if c = CHR ''t'' then literal ''true'' (JBool True) (c # r)
          else if c = CHR ''f'' then literal ''false'' (JBool False) (c # r)
          else if c = CHR ''n'' then literal ''null'' JNull (c # r)
          else jnumber (c # r))"
| "jelems 0 s = None"
| "jelems (Suc n) s =
     (case jvalue n s of None \<Rightarrow> None
      | Some (v, r) \<Rightarrow>
          (case json_ws r of [] \<Rightarrow> None
           | d # r1 \<Rightarrow> if d = CHR '','' then map_option (\<lambda>(vs, r2). (v # vs, r2)) (jelems n r1)
                       else if d = CHR '']'' then Some ([v], r1) else None))"
| "jmembers 0 s = None"
| "jmembers (Suc n) s =
     (case jkey s of None \<Rightarrow> None
      | Some (k, r2) \<Rightarrow>
          (case jvalue n r2 of None \<Rightarrow> None
           | Some (v, r3) \<Rightarrow>
               (case json_ws r3 of [] \<Rightarrow> None
                | e # r4 \<Rightarrow> if e = CHR '','' then map_option (\<lambda>(ms, r5). ((k, v) # ms, r5)) (jmembers n r4)
                            else if e = CHR ''}'' then Some ([(k, v)], r4) else None)))"

lemma json_ws_Cons_length: "json_ws s = c # r \<Longrightarrow> length r < length s"
  using json_ws_length [of s] by simp

lemma literal_length: "literal w v s = Some (x, r) \<Longrightarrow> w \<noteq> [] \<Longrightarrow> length r < length s"
  by (auto simp: literal_def has_prefix_iff split: if_splits)

lemma jkey_length: "jkey s = Some (k, r) \<Longrightarrow> length r < length s"
  by (fastforce simp: jkey_def split: list.splits if_splits option.splits
      dest: json_ws_Cons_length str_body_length)

lemmas parse_lengths = json_ws_Cons_length str_body_length literal_length jnumber_length

lemma jvalue_length: "jvalue n s = Some (v, r) \<Longrightarrow> length r < length s"
  and jelems_length: "jelems n s = Some (vs, r) \<Longrightarrow> length r < length s"
  and jmembers_length: "jmembers n s = Some (ms, r) \<Longrightarrow> length r < length s"
proof (induction n s and n s and n s arbitrary: v r and vs r and ms r rule: jvalue_jelems_jmembers.induct)
  case (2 n s)
  then obtain c t where ws: "json_ws s = c # t" by (auto split: list.splits)
  have t: "length t < length s" using json_ws_Cons_length [OF ws] .
  from 2 ws t show ?case
    by (auto split: list.splits if_splits option.splits dest!: parse_lengths)
      (fastforce dest: parse_lengths)+
next
  case (4 n s)
  then obtain v1 r1 where v1: "jvalue n s = Some (v1, r1)" by (auto split: option.splits)
  have "length r1 < length s" using "4.IH"(1) [OF v1] .
  with "4.prems" "4.IH"(2) [OF v1] v1 show ?case
    by (fastforce split: list.splits if_splits dest: json_ws_Cons_length)
next
  case (6 n s)
  from "6.prems" obtain k r2 v1 r3 e r4 where
    k: "jkey s = Some (k, r2)" and v: "jvalue n r2 = Some (v1, r3)" and e: "json_ws r3 = e # r4"
    by (auto split: list.splits option.splits)
  have "length r4 < length s"
    using jkey_length [OF k] "6.IH"(1) [OF k _ v] json_ws_Cons_length [OF e] by simp
  with 6 k v e show ?case by (fastforce split: if_splits)
qed auto

text \<open>Twice the length of the input is enough fuel.\<close>

lemma fuel_step:
  "(2 * length s < n \<longrightarrow> jvalue (Suc n) s = jvalue n s)
   \<and> (2 * length s + 1 < n \<longrightarrow> jelems (Suc n) s = jelems n s)
   \<and> (2 * length s < n \<longrightarrow> jmembers (Suc n) s = jmembers n s)"
proof (induction n arbitrary: s)
  case (Suc n)
  have vals: "jvalue (Suc (Suc n)) s = jvalue (Suc n) s" if "2 * length s < Suc n"
  proof (cases "json_ws s")
    case (Cons c r)
    have "length r < length s" using json_ws_Cons_length [OF Cons] .
    then have "jmembers (Suc n) (d # r1) = jmembers n (d # r1) \<and> jelems (Suc n) (d # r1) = jelems n (d # r1)"
      if "json_ws r = d # r1" for d r1
      using json_ws_length [of r] that \<open>2 * length s < Suc n\<close> Suc.IH [of "d # r1"] by simp
    then show ?thesis using Cons
      by (cases "json_ws r") (simp_all only: jvalue.simps list.case)
  qed simp
  have elems: "jelems (Suc (Suc n)) s = jelems (Suc n) s" if fuel: "2 * length s + 1 < Suc n"
  proof (cases "jvalue n s")
    case (Some vr)
    obtain v r where vr: "vr = (v, r)" by (cases vr)
    have r: "length r < length s" using jvalue_length Some vr by simp
    have "jvalue (Suc n) s = Some (v, r)" using Suc.IH [of s] fuel Some vr by simp
    moreover have "jelems (Suc n) r1 = jelems n r1" if "json_ws r = d # r1" for d r1
      using json_ws_Cons_length [OF that] r fuel Suc.IH [of r1] by simp
    ultimately show ?thesis using Some vr
      by (cases "json_ws r") (simp_all only: jelems.simps option.case prod.case list.case)
  next
    case None
    moreover have "jvalue (Suc n) s = None" using Suc.IH [of s] fuel None by simp
    ultimately show ?thesis by (simp only: jelems.simps option.case)
  qed
  have members: "jmembers (Suc (Suc n)) s = jmembers (Suc n) s" if fuel: "2 * length s < Suc n"
  proof (cases "jkey s")
    case (Some kr)
    obtain k r2 where kr: "kr = (k, r2)" by (cases kr)
    have r2: "length r2 < length s" using jkey_length Some kr by simp
    then have val: "jvalue (Suc n) r2 = jvalue n r2" using fuel Suc.IH [of r2] by simp
    show ?thesis
    proof (cases "jvalue n r2")
      case (Some vr)
      obtain v r3 where vr: "vr = (v, r3)" by (cases vr)
      have "length r3 < length r2" using jvalue_length Some vr by simp
      then have "jmembers (Suc n) r4 = jmembers n r4" if "json_ws r3 = e # r4" for e r4
        using json_ws_Cons_length [OF that] r2 fuel Suc.IH [of r4] by simp
      with Some vr \<open>jkey s = Some kr\<close> kr val show ?thesis
        by (cases "json_ws r3") (simp_all only: jmembers.simps option.case prod.case list.case)
    next
      case None
      with \<open>jkey s = Some kr\<close> kr val show ?thesis by (simp only: jmembers.simps option.case prod.case)
    qed
  qed simp
  from vals elems members show ?case by blast
qed simp

lemma jvalue_enough: "2 * length s < n \<Longrightarrow> jvalue n s = jvalue (2 * length s + 1) s"
proof (induction n)
  case (Suc n)
  then show ?case using fuel_step [of s n] by (cases "2 * length s < n") (auto simp: less_Suc_eq)
qed simp

definition json_decode :: "string \<Rightarrow> json option" where
  "json_decode s = (case jvalue (2 * length s + 1) s of
     Some (v, r) \<Rightarrow> if json_ws r = [] then Some v else None | None \<Rightarrow> None)"

fun is_fin :: "f64 \<Rightarrow> bool" where
  "is_fin (Fin x) = True"
| "is_fin _ = False"

text \<open>Every number of the value is in the range of a float64.\<close>

fun finite_json :: "json \<Rightarrow> bool" where
  "finite_json (JNum l v) = is_fin v"
| "finite_json (JArr vs) = list_all finite_json vs"
| "finite_json (JObj ms) = list_all (\<lambda>kv. finite_json (snd kv)) ms"
| "finite_json _ = True"

text \<open>\<open>json.Unmarshal\<close> into a \<open>map[string]interface{}\<close>, and a lookup in that map.\<close>

definition unmarshal_map :: "string \<Rightarrow> (string \<times> json) list option" where
  "unmarshal_map s = (case json_decode s of
     Some (JObj ms) \<Rightarrow> if finite_json (JObj ms) then Some ms else None
   | Some JNull \<Rightarrow> Some []
   | _ \<Rightarrow> None)"

definition json_get :: "(string \<times> json) list \<Rightarrow> string \<Rightarrow> json option" where
  "json_get ms k = map_of (rev ms) k"

end
