(* ===== verification/HTTPAware.thy ===== *)
theory HTTPAware
  imports Adaptive GoJson
begin

text \<open>
  The HTTP-aware strategy of \<open>pkg/backoff/http_aware.go\<close>: retry timing extracted from the
  output of the command, from a header or from a JSON body, with a fallback strategy otherwise.
  The three regular expressions are fixed, so their leftmost matches are written out; the clock
  reading that \<open>time.Until\<close> takes is an argument.
\<close>

section \<open>The three header patterns\<close>

text \<open>
  A literal matched with \<open>(?i)\<close>. Unicode case folding adds one spelling to ASCII's two: the long
  s, U+017F, matches an \<open>s\<close> (the Kelvin sign matches a \<open>k\<close>, which no pattern contains).
\<close>

definition lower_ascii :: "char \<Rightarrow> char" where
  "lower_ascii c = (let n = (of_char c :: nat) in if 65 \<le> n \<and> n \<le> 90 then char_of (n + 32) else c)"

fun strip_fold :: "string \<Rightarrow> string \<Rightarrow> string option" where
  "strip_fold [] s = Some s"
| "strip_fold (p # ps) [] = None"
| "strip_fold (p # ps) (c # s) =
     (if lower_ascii c = p then strip_fold ps s
      else if p = CHR ''s'' \<and> c = CHR 0xC5 \<and> (case s of d # _ \<Rightarrow> d = CHR 0xBF | [] \<Rightarrow> False)
      then strip_fold ps (tl s) else None)"

definition re_space :: "char \<Rightarrow> bool" where
  "re_space c \<longleftrightarrow> c \<in> {CHR 0x09, CHR 0x0A, CHR 0x0C, CHR 0x0D, CHR '' ''}"

text \<open>\<open>literal:\s*(\d+)\<close> at the start of the text, and its leftmost match: the captured digits.\<close>

definition header_at :: "string \<Rightarrow> string \<Rightarrow> string option" where
  "header_at lit s = (case strip_fold lit s of None \<Rightarrow> None
     | Some r \<Rightarrow> let ds = takeWhile is_digit (dropWhile re_space r) in if ds = [] then None else Some ds)"

fun FindStringSubmatch :: "string \<Rightarrow> string \<Rightarrow> string option" where
  "FindStringSubmatch lit [] = header_at lit []"
| "FindStringSubmatch lit (c # s) =
     (case header_at lit (c # s) of Some ds \<Rightarrow> Some ds | None \<Rightarrow> FindStringSubmatch lit s)"

definition retryAfterPattern :: string where
  "retryAfterPattern = ''retry-after:''"
definition rateLimitPattern :: string where
  "rateLimitPattern = ''x-ratelimit-retry-after:''"
definition rateLimitResetPattern :: string where
  "rateLimitResetPattern = ''x-ratelimit-reset:''"

section \<open>State and parsing\<close>

record 'f HTTPAware =
  ha_fallbackStrategy :: 'f
  ha_maxRetryAfter :: duration
  ha_lastRetryAfter :: duration

definition NewHTTPAware :: "'f \<Rightarrow> duration \<Rightarrow> 'f HTTPAware" where
  [strategy_defs]: "NewHTTPAware fallback maxRetryAfter =
     \<lparr>ha_fallbackStrategy = fallback, ha_maxRetryAfter = maxRetryAfter, ha_lastRetryAfter = 0\<rparr>"

definition HTTPAware_Delay :: "('f, 'r) delay_fn \<Rightarrow> 'f HTTPAware \<Rightarrow> int \<Rightarrow> 'r \<Rightarrow> duration \<times> 'f HTTPAware \<times> 'r" where
  "HTTPAware_Delay fb h attempt r =
     (if 0 < ha_lastRetryAfter h then (ha_lastRetryAfter h, h, r)
      else case fb (ha_fallbackStrategy h) attempt r of (d, f, r') \<Rightarrow> (d, h\<lparr>ha_fallbackStrategy := f\<rparr>, r'))"

definition SetFallbackStrategy :: "'f HTTPAware \<Rightarrow> 'f \<Rightarrow> 'f HTTPAware" where
  "SetFallbackStrategy h strategy = h\<lparr>ha_fallbackStrategy := strategy\<rparr>"

definition capDelay :: "'f HTTPAware \<Rightarrow> duration \<Rightarrow> duration" where
  "capDelay h delay =
     (if 0 < ha_maxRetryAfter h \<and> ha_maxRetryAfter h < delay then ha_maxRetryAfter h else delay)"

text \<open>\<open>time.Duration(seconds) * time.Second\<close>.\<close>

definition seconds_duration :: "i64 \<Rightarrow> duration" where
  "seconds_duration n = wrap64 (n * Second)"

definition parseRetryAfterHeader :: "string \<Rightarrow> duration" where
  "parseRetryAfterHeader output =
     (case FindStringSubmatch retryAfterPattern output of None \<Rightarrow> 0
      | Some m \<Rightarrow> (case parse_int (trim_space m) of None \<Rightarrow> 0 | Some seconds \<Rightarrow> seconds_duration seconds))"

text \<open>\<open>time.Unix\<close>: the runtime keeps seconds since year 1 in 64 bits, so a far stamp wraps.\<close>

definition time_Unix :: "i64 \<Rightarrow> instant" where
  "time_Unix sec = (wrap64 (sec + 62135596800) - 62135596800) * Second"

definition parseRateLimitHeaders :: "instant \<Rightarrow> string \<Rightarrow> duration" where
  "parseRateLimitHeaders now output =
     (case Option.bind (FindStringSubmatch rateLimitPattern output) (\<lambda>m. parse_int (trim_space m)) of
        Some seconds \<Rightarrow> seconds_duration seconds
      | None \<Rightarrow>
          (case Option.bind (FindStringSubmatch rateLimitResetPattern output) (\<lambda>m. parse_int (trim_space m)) of
             Some timestamp \<Rightarrow>
               (let delay = time_sub (time_Unix timestamp) now in if 0 < delay then delay else 0)
           | None \<Rightarrow> 0))"

text \<open>\<open>findMatchingBrace\<close>: its loop over the text from \<open>i\<close> on.\<close>

fun brace_loop :: "string \<Rightarrow> int \<Rightarrow> int \<Rightarrow> bool \<Rightarrow> bool \<Rightarrow> int" where
  "brace_loop [] i depth inString escaped = - 1"
| "brace_loop (c # s) i depth inString escaped =
     (if escaped then brace_loop s (i + 1) depth inString False
      else if c = CHR 0x5C \<and> inString then brace_loop s (i + 1) depth inString True
      else if c = CHR 0x22 then brace_loop s (i + 1) depth (\<not> inString) False
      else if inString then brace_loop s (i + 1) depth inString False
      else if c = CHR ''{'' then brace_loop s (i + 1) (depth + 1) inString False
      else if c = CHR ''}'' then
        (if depth - 1 = 0 then i else brace_loop s (i + 1) (depth - 1) inString False)
      else brace_loop s (i + 1) depth inString False)"

definition findMatchingBrace :: "string \<Rightarrow> nat \<Rightarrow> int" where
  "findMatchingBrace s start =
     (if length s \<le> start \<or> s ! start \<noteq> CHR ''{'' then - 1
      else brace_loop (drop start s) (int start) 0 False False)"

definition retryFields :: "string list" where
  "retryFields = [''retry_after'', ''retry_after_seconds'', ''retryAfter'', ''retryAfterSeconds'', ''retry_in'']"

lemma brace_loop_range:
  "brace_loop s i depth q e = - 1 \<or> (i \<le> brace_loop s i depth q e \<and> brace_loop s i depth q e < i + int (length s))"
proof (induction s arbitrary: i depth q e)
  case (Cons c s)
  have "brace_loop (c # s) i depth q e = i
      \<or> (\<exists>d' q' e'. brace_loop (c # s) i depth q e = brace_loop s (i + 1) d' q' e')"
    by (simp split: if_splits) blast
  then show ?case
  proof (elim disjE exE)
    fix d' q' e' assume "brace_loop (c # s) i depth q e = brace_loop s (i + 1) d' q' e'"
    with Cons.IH [of "i + 1" d' q' e'] show ?thesis
      by (auto simp del: brace_loop.simps)
  qed simp
qed simp

lemma findMatchingBrace_range:
  "findMatchingBrace s start \<noteq> - 1 \<Longrightarrow>
     int start \<le> findMatchingBrace s start \<and> findMatchingBrace s start < int (length s)"
  using brace_loop_range [of "drop start s" "int start" 0 False False]
  by (auto simp: findMatchingBrace_def split: if_splits)

text \<open>The field loop: the first field that holds a number, or a string \<open>Atoi\<close> accepts, returns.\<close>

fun field_loop :: "platform \<Rightarrow> (string \<times> json) list \<Rightarrow> string list \<Rightarrow> duration option" where
  "field_loop p data [] = None"
| "field_loop p data (field # fs) =
     (case json_get data field of
        Some (JNum _ v) \<Rightarrow> Some (seconds_duration (i64_of_f64 p v))
      | Some (JStr t) \<Rightarrow> (case parse_int t of Some n \<Rightarrow> Some (seconds_duration n)
                          | None \<Rightarrow> field_loop p data fs)
      | _ \<Rightarrow> field_loop p data fs)"

function json_loop :: "platform \<Rightarrow> string \<Rightarrow> nat \<Rightarrow> duration" where
  "json_loop p output start =
     (case index_of (CHR ''{'') (drop start output) of None \<Rightarrow> 0
      | Some k \<Rightarrow>
          let jsonStart = k + start; jsonEnd = findMatchingBrace output jsonStart
          in if jsonEnd = - 1 then json_loop p output (jsonStart + 1)
             else let jsonStr = take (nat jsonEnd + 1 - jsonStart) (drop jsonStart output)
                  in case unmarshal_map jsonStr of
                       None \<Rightarrow> json_loop p output (jsonStart + 1)
                     | Some data \<Rightarrow>
                         (case field_loop p data retryFields of
                            Some d \<Rightarrow> d
                          | None \<Rightarrow> json_loop p output (nat jsonEnd + 1)))"
  by pat_completeness auto
termination
  by (relation "measure (\<lambda>(p, output, start). length output - start)")
    (auto dest!: index_of_less findMatchingBrace_range)

declare json_loop.simps [simp del]

definition maxProcessingSize :: nat where
  "maxProcessingSize = 10 * 1024"

definition parseJSONResponse :: "platform \<Rightarrow> string \<Rightarrow> duration" where
  "parseJSONResponse p output =
     (let output = take maxProcessingSize output
      in if \<not> contains output ''{'' then 0 else json_loop p output 0)"

definition ProcessCommandOutput ::
  "platform \<Rightarrow> instant \<Rightarrow> 'f HTTPAware \<Rightarrow> string \<Rightarrow> string \<Rightarrow> int \<Rightarrow> 'f HTTPAware" where
  "ProcessCommandOutput p now h stdout stderr exitCode =
     (let h = h\<lparr>ha_lastRetryAfter := 0\<rparr>;
          output = take maxProcessingSize stdout @ [CHR 0x0A] @ take maxProcessingSize stderr;
          d1 = parseRetryAfterHeader output
      in if 0 < d1 then h\<lparr>ha_lastRetryAfter := capDelay h d1\<rparr>
         else let d2 = parseRateLimitHeaders now output
              in if 0 < d2 then h\<lparr>ha_lastRetryAfter := capDelay h d2\<rparr>
                 else let d3 = parseJSONResponse p output
                      in if 0 < d3 then h\<lparr>ha_lastRetryAfter := capDelay h d3\<rparr> else h)"

section \<open>Leftmost matches\<close>

lemma FindStringSubmatch_skip:
  "(\<forall>k < length pre. header_at lit (drop k (pre @ s)) = None) \<Longrightarrow>
     FindStringSubmatch lit (pre @ s) = FindStringSubmatch lit s"
proof (induction pre)
  case (Cons c pre)
  have "header_at lit (drop k (pre @ s)) = None" if "k < length pre" for k
    using Cons.prems [rule_format, of "Suc k"] that by simp
  with Cons show ?case by (auto dest: spec [of _ 0])
qed simp

lemma FindStringSubmatch_here: "header_at lit s = Some ds \<Longrightarrow> FindStringSubmatch lit s = Some ds"
  by (cases s) simp_all

lemma FindStringSubmatch_exists:
  "(\<exists>ds. FindStringSubmatch lit s = Some ds) \<longleftrightarrow> (\<exists>k \<le> length s. header_at lit (drop k s) \<noteq> None)"
proof (induction s)
  case (Cons c s)
  have "(\<exists>k \<le> length (c # s). header_at lit (drop k (c # s)) \<noteq> None) \<longleftrightarrow>
      header_at lit (c # s) \<noteq> None \<or> (\<exists>k \<le> length s. header_at lit (drop k s) \<noteq> None)"
    by (metis Suc_le_mono drop0 drop_Suc_Cons le0 length_Cons not0_implies_Suc)
  with Cons.IH show ?case by (auto split: option.splits)
qed auto

lemma strip_fold_append: "map lower_ascii h = p \<Longrightarrow> strip_fold p (h @ r) = Some r"
  by (induction h arbitrary: p) auto

lemma strip_fold_split:
  "strip_fold (p @ q) s = Some r \<Longrightarrow> \<exists>k. strip_fold q (drop k s) = Some r \<and> k \<le> length s"
proof (induction p s arbitrary: r rule: strip_fold.induct)
  case (3 p ps c s)
  show ?case
  proof (cases "lower_ascii c = p")
    case True
    with 3 obtain k where "strip_fold q (drop k s) = Some r" "k \<le> length s" by auto
    then show ?thesis by (intro exI [of _ "Suc k"]) simp
  next
    case False
    with "3.prems" have cond: "p = CHR ''s'' \<and> c = CHR 0xC5 \<and> (case s of [] \<Rightarrow> False | d # _ \<Rightarrow> d = CHR 0xBF)"
      by (auto split: if_splits)
    with "3.IH"(2) [OF False cond] "3.prems" False obtain k where
      "strip_fold q (drop k (tl s)) = Some r" "k \<le> length (tl s)" by (auto split: if_splits)
    then show ?thesis using cond
      by (intro exI [of _ "Suc (Suc k)"]) (auto simp: drop_Suc split: list.splits)
  qed
qed (auto intro: exI [of _ 0])

lemma header_digits: "header_at lit s = Some ds \<Longrightarrow> list_all is_digit ds \<and> ds \<noteq> []"
  by (auto simp: header_at_def Let_def list_all_iff split: option.splits if_splits dest: set_takeWhileD)

lemma header_at_exact:
  assumes "map lower_ascii hdr = lit" "list_all re_space ws" "rest = [] \<or> \<not> is_digit (hd rest)"
  shows "header_at lit (hdr @ ws @ utoa n @ rest) = Some (utoa n)"
proof -
  have "dropWhile re_space (ws @ utoa n @ rest) = utoa n @ rest"
  proof -
    have "\<not> re_space (hd (utoa n))"
      using utoa_digits [of n] by (cases "utoa n") (auto simp: re_space_def is_digit_def)
    then have "dropWhile re_space (utoa n @ rest) = utoa n @ rest"
      by (cases "utoa n") auto
    with assms(2) show ?thesis by (simp add: list_all_iff dropWhile_append2)
  qed
  moreover have "takeWhile is_digit (utoa n @ rest) = utoa n"
    using assms(3) utoa_digits [of n] by (cases rest) (auto simp: list_all_iff takeWhile_append)
  ultimately show ?thesis using strip_fold_append [OF assms(1)] by (simp add: header_at_def)
qed

section \<open>Contract: HTTP timing over a bounded fallback is bounded\<close>

definition ha_inv :: "'f HTTPAware \<Rightarrow> bool" where
  "ha_inv h \<longleftrightarrow> 0 < ha_maxRetryAfter h \<and> 0 \<le> ha_lastRetryAfter h \<and> ha_lastRetryAfter h \<le> ha_maxRetryAfter h"

definition ha_client_inv :: "('f \<Rightarrow> bool) \<Rightarrow> 'f HTTPAware \<Rightarrow> bool" where
  "ha_client_inv ok h \<longleftrightarrow> ha_inv h \<and> ok (ha_fallbackStrategy h)"

definition ha_bound :: "('f \<Rightarrow> duration) \<Rightarrow> 'f HTTPAware \<Rightarrow> duration" where
  "ha_bound bound h = max (bound (ha_fallbackStrategy h)) (ha_maxRetryAfter h)"

lemma capDelay_cap: "capDelay h d = cap (ha_maxRetryAfter h) d"
  by (simp add: capDelay_def)

lemma capDelay_range: "0 < d \<Longrightarrow> 0 < capDelay h d \<and> (0 < ha_maxRetryAfter h \<longrightarrow> capDelay h d \<le> ha_maxRetryAfter h)"
  by (simp add: capDelay_cap cap_def)

lemma capDelay_reset [simp]: "capDelay (h\<lparr>ha_lastRetryAfter := x\<rparr>) d = capDelay h d"
  by (simp add: capDelay_cap)

text \<open>The first source with a positive delay, in the order header, rate limit, JSON body.\<close>

definition timing_text :: "string \<Rightarrow> string \<Rightarrow> string" where
  "timing_text stdout stderr = take maxProcessingSize stdout @ [CHR 0x0A] @ take maxProcessingSize stderr"

definition found_delay :: "platform \<Rightarrow> instant \<Rightarrow> string \<Rightarrow> duration" where
  "found_delay p now output =
     (if 0 < parseRetryAfterHeader output then parseRetryAfterHeader output
      else if 0 < parseRateLimitHeaders now output then parseRateLimitHeaders now output
      else max 0 (parseJSONResponse p output))"

lemma ProcessCommandOutput_eq:
  "ProcessCommandOutput p now h out err code =
     h\<lparr>ha_lastRetryAfter := (let d = found_delay p now (timing_text out err) in if 0 < d then capDelay h d else 0)\<rparr>"
  by (simp add: ProcessCommandOutput_def found_delay_def Let_def flip: timing_text_def [unfolded append_Cons append_Nil])

lemma ha_inv_Process: "0 < ha_maxRetryAfter h \<Longrightarrow> ha_inv (ProcessCommandOutput p now h out err code)"
  using capDelay_range [of "found_delay p now (timing_text out err)" h]
  by (fastforce simp: ha_inv_def ProcessCommandOutput_eq Let_def)

locale http_fallback = bounded_strategy

sublocale http_fallback \<subseteq> http: bounded_strategy "HTTPAware_Delay delay" "ha_client_inv inv"
    "ha_bound bound" rok horizon
proof
  fix h r n d h' r'
  assume a: "ha_client_inv inv h" "rok r" "1 \<le> n" "n \<le> horizon" "HTTPAware_Delay delay h n r = (d, h', r')"
  show "0 \<le> d \<and> d \<le> ha_bound bound h \<and> ha_client_inv inv h' \<and> ha_bound bound h' = ha_bound bound h \<and> rok r'"
  proof (cases "0 < ha_lastRetryAfter h")
    case True
    with a show ?thesis by (auto simp: HTTPAware_Delay_def ha_client_inv_def ha_inv_def ha_bound_def)
  next
    case False
    then obtain f where f: "delay (ha_fallbackStrategy h) n r = (d, f, r')" "h' = h\<lparr>ha_fallbackStrategy := f\<rparr>"
      using a(5) by (auto simp: HTTPAware_Delay_def split: prod.splits)
    with delay_step [OF _ a(2-4) f(1)] a(1) show ?thesis
      by (auto simp: ha_client_inv_def ha_inv_def ha_bound_def)
  qed
qed

interpretation base_http: http_fallback "base_Delay p" "base_inv p N" base_bound rng_ok N for p N
  by unfold_locales

section \<open>Properties\<close>

lemma seconds_exact: "0 \<le> n \<Longrightarrow> n * Second < 2 ^ 63 \<Longrightarrow> seconds_duration n = n * Second"
  by (simp add: seconds_duration_def in_i64_def Second_def)

lemma parseRetryAfterHeader_exact:
  assumes "map lower_ascii hdr = retryAfterPattern" "list_all re_space ws"
    "rest = [] \<or> \<not> is_digit (hd rest)" "int n * Second < 2 ^ 63"
    "\<forall>k < length pre. header_at retryAfterPattern (drop k (pre @ hdr @ ws @ utoa n @ rest)) = None"
  shows "parseRetryAfterHeader (pre @ hdr @ ws @ utoa n @ rest) = int n * Second"
proof -
  have "n < 2 ^ 63" using assms(4) by (simp add: Second_def)
  then show ?thesis
    using FindStringSubmatch_skip [OF assms(5)]
      FindStringSubmatch_here [OF header_at_exact [OF assms(1-3)], of n] seconds_exact [of "int n"] assms(4)
    by (simp add: parseRetryAfterHeader_def trim_space_digits utoa_digits)
qed

text \<open>C38. A \<open>Retry-After\<close> header is honoured: when the command's output, short enough to be processed
  whole, has the header in any letter case with \<open>n\<close> seconds after any white space, and no earlier match
  of the pattern, then the next delay is exactly \<open>n\<close> seconds, cut to the configured maximum, for
  every attempt number and whatever the fallback is.\<close>

theorem retry_after_honoured:
  assumes "out = pre @ hdr @ ws @ utoa n @ rest" "length out \<le> maxProcessingSize" "length err \<le> maxProcessingSize"
    "map lower_ascii hdr = retryAfterPattern" "list_all re_space ws" "rest = [] \<or> \<not> is_digit (hd rest)"
    "0 < n" "int n * Second < 2 ^ 63"
    "\<forall>k < length pre. header_at retryAfterPattern (drop k (out @ [CHR 0x0A] @ err)) = None"
  shows "fst (HTTPAware_Delay fb (ProcessCommandOutput p now h out err code) attempt r) =
    cap (ha_maxRetryAfter h) (int n * Second)"
proof -
  have "timing_text out err = pre @ hdr @ ws @ utoa n @ rest @ [CHR 0x0A] @ err"
    using assms(1-3) by (simp add: timing_text_def)
  moreover have "rest @ [CHR 0x0A] @ err = [] \<or> \<not> is_digit (hd (rest @ [CHR 0x0A] @ err))"
    using assms(6) by (cases rest) (auto simp: is_digit_def)
  ultimately have "parseRetryAfterHeader (timing_text out err) = int n * Second"
    using parseRetryAfterHeader_exact [OF assms(4,5) _ assms(8), of "rest @ [CHR 0x0A] @ err" pre] assms(1,9)
    by simp
  moreover have "0 < int n * Second" using assms(7) by (simp add: Second_def)
  ultimately show ?thesis
    by (simp add: HTTPAware_Delay_def ProcessCommandOutput_eq found_delay_def Let_def capDelay_cap cap_def)
qed

theorem retry_after_honoured_witness:
  "fst (HTTPAware_Delay (base_Delay amd64)
      (ProcessCommandOutput amd64 0 (NewHTTPAware (BFixed (NewFixed Second)) (60 * Second))
         ''HTTP/1.1 429 retry-After:  7;'' [] 22) 1 half_draws) = 7 * Second"
proof -
  have t: "''HTTP/1.1 429 retry-After:  7;'' = ''HTTP/1.1 429 '' @ ''retry-After:'' @ ''  '' @ utoa 7 @ '';''"
    by code_simp
  have "map lower_ascii ''retry-After:'' = retryAfterPattern" by code_simp
  moreover have "list_all re_space ''  ''" "\<not> is_digit (hd '';'')" by code_simp+
  moreover have "\<forall>k < length ''HTTP/1.1 429 ''. header_at retryAfterPattern
      (drop k (''HTTP/1.1 429 retry-After:  7;'' @ [CHR 0x0A] @ [])) = None" by code_simp
  ultimately show ?thesis
    using retry_after_honoured [OF t, of "[]" "base_Delay amd64" amd64 0
        "NewHTTPAware (BFixed (NewFixed Second)) (60 * Second)" 22 1 half_draws]
    by (simp add: maxProcessingSize_def Second_def strategy_defs cap_def)
qed

lemma http_aware_bounds_parts:
  assumes "0 < ha_maxRetryAfter h" "base_inv p N (ha_fallbackStrategy h)" "rng_ok r" "1 \<le> n" "n \<le> N"
    "HTTPAware_Delay (base_Delay p) (ProcessCommandOutput p now h out err code) n r = (d, h', r')"
  shows "0 \<le> ha_lastRetryAfter (ProcessCommandOutput p now h out err code)"
    and "ha_lastRetryAfter (ProcessCommandOutput p now h out err code) \<le> ha_maxRetryAfter h"
    and "0 \<le> d" and "d \<le> max (base_bound (ha_fallbackStrategy h)) (ha_maxRetryAfter h)"
proof -
  let ?h = "ProcessCommandOutput p now h out err code"
  have inv: "ha_inv ?h" using ha_inv_Process [OF assms(1)] .
  have same: "ha_maxRetryAfter ?h = ha_maxRetryAfter h" "ha_fallbackStrategy ?h = ha_fallbackStrategy h"
    by (simp_all add: ProcessCommandOutput_eq)
  show "0 \<le> ha_lastRetryAfter ?h" "ha_lastRetryAfter ?h \<le> ha_maxRetryAfter h"
    using inv same by (simp_all add: ha_inv_def)
  show "0 \<le> d" "d \<le> max (base_bound (ha_fallbackStrategy h)) (ha_maxRetryAfter h)"
    using base_http.http.delay_step [of p N ?h r n d h' r'] assms inv same
    by (simp_all add: ha_client_inv_def ha_bound_def)
qed

text \<open>Whatever a server sends, the timing the strategy keeps is never negative and never above the
  configured maximum; over a self-contained fallback in its parameter range every delay then lies
  between zero and the larger of the fallback's bound and that maximum.\<close>

lemma http_aware_bounds:
  assumes "0 < ha_maxRetryAfter h" "base_inv p N (ha_fallbackStrategy h)" "rng_ok r" "1 \<le> n" "n \<le> N"
    "HTTPAware_Delay (base_Delay p) (ProcessCommandOutput p now h out err code) n r = (d, h', r')"
  shows "(0 \<le> ha_lastRetryAfter (ProcessCommandOutput p now h out err code))
    \<and> (ha_lastRetryAfter (ProcessCommandOutput p now h out err code) \<le> ha_maxRetryAfter h)
    \<and> (0 \<le> d)
    \<and> (d \<le> max (base_bound (ha_fallbackStrategy h)) (ha_maxRetryAfter h))"
  using http_aware_bounds_parts [OF assms(1-6)] by blast

lemma http_aware_bounds_witness:
  "fst (HTTPAware_Delay (base_Delay amd64) (ProcessCommandOutput amd64 0
      (NewHTTPAware (BFixed (NewFixed Second)) (60 * Second)) ''Retry-After: 86400'' [] 1) 1 half_draws) \<le> 60 * Second"
proof -
  let ?h = "NewHTTPAware (BFixed (NewFixed Second)) (60 * Second)"
  obtain d h' r' where d: "HTTPAware_Delay (base_Delay amd64)
      (ProcessCommandOutput amd64 0 ?h ''Retry-After: 86400'' [] 1) 1 half_draws = (d, h', r')"
    by (metis prod_cases3)
  have "0 < ha_maxRetryAfter ?h" "base_inv amd64 1 (ha_fallbackStrategy ?h)"
    by (simp_all add: strategy_defs Second_def)
  from http_aware_bounds [OF this rng_ok_half_draws _ _ d] d show ?thesis
    by (simp add: strategy_defs Second_def)
qed

text \<open>The branch for \<open>X-RateLimit-Retry-After\<close> is shadowed: the \<open>Retry-After\<close> pattern is not
  anchored, so every output in which the rate-limit pattern finds a number also has a match of the
  \<open>Retry-After\<close> pattern, which is tried first.\<close>

lemma rate_limit_header_shadowed:
  assumes "FindStringSubmatch rateLimitPattern output = Some ds"
  shows "\<exists>ds'. FindStringSubmatch retryAfterPattern output = Some ds'"
proof -
  obtain k where k: "k \<le> length output" "header_at rateLimitPattern (drop k output) \<noteq> None"
    using assms FindStringSubmatch_exists [of rateLimitPattern "output"] by blast
  then obtain r where r: "strip_fold rateLimitPattern (drop k output) = Some r"
      "takeWhile is_digit (dropWhile re_space r) \<noteq> []"
    by (auto simp: header_at_def Let_def split: option.splits if_splits)
  have "rateLimitPattern = ''x-ratelimit-'' @ retryAfterPattern"
    by (simp add: rateLimitPattern_def retryAfterPattern_def)
  with r(1) strip_fold_split [of "''x-ratelimit-''" retryAfterPattern "drop k output" r] obtain j where
    j: "strip_fold retryAfterPattern (drop (j + k) output) = Some r" "j \<le> length (drop k output)" by auto
  with r(2) k(1) have "header_at retryAfterPattern (drop (j + k) output) \<noteq> None" "j + k \<le> length output"
    by (auto simp: header_at_def)
  then show ?thesis using FindStringSubmatch_exists [of retryAfterPattern "output"] by blast
qed

lemma rate_limit_header_shadowed_witness:
  "\<exists>ds. FindStringSubmatch retryAfterPattern ''X-RateLimit-Retry-After: 30'' = Some ds"
proof -
  have "FindStringSubmatch rateLimitPattern ''X-RateLimit-Retry-After: 30'' = Some ''30''" by code_simp
  from rate_limit_header_shadowed [OF this] show ?thesis .
qed

section \<open>Brace matching\<close>

text \<open>
  The characters of a text outside string literals, and how many more opening than closing
  braces they have. The two flags say whether the text starts inside a literal and after a backslash.
\<close>

fun outside_strings :: "bool \<Rightarrow> bool \<Rightarrow> string \<Rightarrow> string" where
  "outside_strings q e [] = []"
| "outside_strings False e (c # s) =
     (if c = CHR 0x22 then outside_strings True False s else c # outside_strings False False s)"
| "outside_strings True True (c # s) = outside_strings True False s"
| "outside_strings True False (c # s) =
     (if c = CHR 0x5C then outside_strings True True s
      else if c = CHR 0x22 then outside_strings False False s else outside_strings True False s)"

definition open_braces :: "bool \<Rightarrow> bool \<Rightarrow> string \<Rightarrow> int" where
  "open_braces q e s = int (count_list (outside_strings q e s) (CHR ''{''))
     - int (count_list (outside_strings q e s) (CHR ''}''))"

lemma brace_loop_step:
  assumes "1 \<le> d \<or> (c = CHR ''{'' \<and> \<not> q \<and> 0 \<le> d)" "e \<longrightarrow> q"
  obtains q' e' b where "\<And>t. open_braces q e (c # t) = b + open_braces q' e' t" "e' \<longrightarrow> q'"
    "\<And>s i. brace_loop (c # s) i d q e = (if d + b = 0 then i else brace_loop s (i + 1) (d + b) q' e')"
    "0 \<le> d + b"
proof -
  consider "q" "e" | "q" "\<not> e" "c = CHR 0x5C" | "q" "\<not> e" "c = CHR 0x22" | "q" "\<not> e" "c \<noteq> CHR 0x5C" "c \<noteq> CHR 0x22"
    | "\<not> q" "c = CHR 0x22" | "\<not> q" "c = CHR ''{''" | "\<not> q" "c = CHR ''}''"
    | "\<not> q" "c \<noteq> CHR 0x22" "c \<noteq> CHR ''{''" "c \<noteq> CHR ''}''" by blast
  then show thesis
  proof cases
    case 1 then show thesis using assms that [of 0 True False] by (simp add: open_braces_def)
  next
    case 2 then show thesis using assms that [of 0 True True] by (simp add: open_braces_def)
  next
    case 3 then show thesis using assms that [of 0 False False] by (simp add: open_braces_def)
  next
    case 4 then show thesis using assms that [of 0 True False] by (simp add: open_braces_def)
  next
    case 5 then show thesis using assms that [of 0 True False] by (simp add: open_braces_def)
  next
    case 6
    then have "0 \<le> d" "d + 1 \<noteq> 0" using assms(1) by auto
    with 6 show thesis using assms that [of 1 False False] by (simp add: open_braces_def)
  next
    case 7 then show thesis using assms that [of "- 1" False False] by (simp add: open_braces_def)
  next
    case 8 then show thesis using assms that [of 0 False False] by (simp add: open_braces_def)
  qed
qed

lemma open_braces_Nil [simp]: "open_braces q e [] = 0"
  by (simp add: open_braces_def)

definition closes_at :: "int \<Rightarrow> bool \<Rightarrow> bool \<Rightarrow> string \<Rightarrow> nat \<Rightarrow> bool" where
  "closes_at d q e s k \<longleftrightarrow> k < length s \<and> d + open_braces q e (take (Suc k) s) = 0
     \<and> (\<forall>j < k. 0 < d + open_braces q e (take (Suc j) s))"

lemma brace_loop_closes:
  assumes "1 \<le> d \<or> (s \<noteq> [] \<and> hd s = CHR ''{'' \<and> \<not> q \<and> 0 \<le> d)" "e \<longrightarrow> q"
  shows "(brace_loop s i d q e = - 1 \<and> (\<forall>j < length s. 0 < d + open_braces q e (take (Suc j) s)))
    \<or> (\<exists>k. closes_at d q e s k \<and> brace_loop s i d q e = i + int k)"
  using assms
proof (induction s arbitrary: i d q e)
  case (Cons c s)
  obtain q' e' b where st: "\<And>t. open_braces q e (c # t) = b + open_braces q' e' t" "e' \<longrightarrow> q'"
    "brace_loop (c # s) i d q e = (if d + b = 0 then i else brace_loop s (i + 1) (d + b) q' e')" "0 \<le> d + b"
  proof (rule brace_loop_step [of d c q e])
    show "1 \<le> d \<or> (c = CHR ''{'' \<and> \<not> q \<and> 0 \<le> d)" "e \<longrightarrow> q" using Cons.prems by auto
  qed (rule that)
  show ?case
  proof (cases "d + b = 0")
    case True
    then have "closes_at d q e (c # s) 0" by (simp add: closes_at_def st(1))
    with True st(3) show ?thesis by (intro disjI2 exI [of _ 0]) simp
  next
    case False
    then have pos: "1 \<le> d + b" using st(4) by linarith
    from Cons.IH [OF disjI1 [OF pos] st(2), of "i + 1"] show ?thesis
    proof (elim disjE exE conjE)
      assume "brace_loop s (i + 1) (d + b) q' e' = - 1"
        "\<forall>j < length s. 0 < d + b + open_braces q' e' (take (Suc j) s)"
      with False pos st(3) show ?thesis
        by (intro disjI1) (simp add: All_less_Suc2 st(1) add.assoc del: brace_loop.simps)
    next
      fix k assume k: "closes_at (d + b) q' e' s k" "brace_loop s (i + 1) (d + b) q' e' = i + 1 + int k"
      then have "closes_at d q e (c # s) (Suc k)"
        using pos by (simp add: closes_at_def All_less_Suc2 st(1) add.assoc)
      with k(2) False st(3) show ?thesis by (intro disjI2 exI [of _ "Suc k"]) simp
    qed
  qed
qed simp

lemma closes_at_unique: "closes_at d q e s j \<Longrightarrow> closes_at d q e s k \<Longrightarrow> j = k"
  by (metis closes_at_def less_irrefl nat_neq_iff)

lemma find_matching_brace_correct_parts:
  assumes "start < length s" "s ! start = CHR ''{''"
  shows "findMatchingBrace s start = int (start + k) \<longleftrightarrow> closes_at 0 False False (drop start s) k"
    and "findMatchingBrace s start = - 1 \<longleftrightarrow> (\<nexists>k. closes_at 0 False False (drop start s) k)"
proof -
  let ?t = "drop start s"
  have "hd ?t = CHR ''{''" "?t \<noteq> []" using assms by (simp_all add: hd_drop_conv_nth)
  moreover have f: "findMatchingBrace s start = brace_loop ?t (int start) 0 False False"
    using assms by (simp add: findMatchingBrace_def)
  ultimately have "(findMatchingBrace s start = - 1 \<and> (\<forall>j < length ?t. 0 < 0 + open_braces False False (take (Suc j) ?t)))
    \<or> (\<exists>k. closes_at 0 False False ?t k \<and> findMatchingBrace s start = int start + int k)"
    using brace_loop_closes [of 0 ?t False False "int start"] by simp
  moreover have "\<not> closes_at 0 False False ?t k"
    if "\<forall>j < length ?t. 0 < 0 + open_braces False False (take (Suc j) ?t)" for k
    using that by (auto simp: closes_at_def)
  ultimately show "findMatchingBrace s start = int (start + k) \<longleftrightarrow> closes_at 0 False False ?t k"
    and "findMatchingBrace s start = - 1 \<longleftrightarrow> (\<nexists>k. closes_at 0 False False ?t k)"
    using closes_at_unique by fastforce+
qed

text \<open>The scan for a JSON object finds exactly its closing brace: from an opening brace it returns
  the first position up to which the text has as many closing as opening braces, counting only
  braces outside string literals (with their escapes), and it returns -1 exactly when the text
  has no such position.\<close>

lemma find_matching_brace_correct:
  assumes "start < length s" "s ! start = CHR ''{''"
  shows "(findMatchingBrace s start = int (start + k) \<longleftrightarrow> closes_at 0 False False (drop start s) k)
    \<and> (findMatchingBrace s start = - 1 \<longleftrightarrow> (\<nexists>k. closes_at 0 False False (drop start s) k))"
  using find_matching_brace_correct_parts [OF assms(1-2)] by blast

lemma find_matching_brace_correct_witness:
  "closes_at 0 False False (drop 2 ''x={a:{}}}'') 5"
proof -
  have "(2::nat) < length ''x={a:{}}}''" "''x={a:{}}}'' ! 2 = CHR ''{''" by simp_all
  moreover have "findMatchingBrace ''x={a:{}}}'' 2 = int (2 + 5)" by code_simp
  ultimately show ?thesis using find_matching_brace_correct by blast
qed

end
