(* ===== verification/Diophantine.thy ===== *)
theory Diophantine
  imports Strategy "HOL-Library.Multiset"
begin

text \<open>
  The proactive scheduling strategy of \<open>pkg/backoff/diophantine.go\<close>: the check that a planned
  batch of requests keeps every time window within the rate limit, and the exponential
  delay it falls back to. The check is proved to decide the sliding-window property over
  all windows, not only those that start at a request; that property is the interface
  (\<open>rate_limiter\<close>) the request scheduler relies on.
\<close>

record DiophantineStrategy =
  di_rateLimit :: int
  di_window :: duration
  di_retryOffsets :: "duration list"

definition NewDiophantine :: "int \<Rightarrow> duration \<Rightarrow> duration list \<Rightarrow> DiophantineStrategy" where
  "NewDiophantine rateLimit window retryOffsets =
     \<lparr>di_rateLimit = rateLimit, di_window = window, di_retryOffsets = retryOffsets\<rparr>"

definition newRetries :: "DiophantineStrategy \<Rightarrow> instant \<Rightarrow> instant list" where
  "newRetries d newRequestTime = map (time_add newRequestTime) (di_retryOffsets d)"

text \<open>The inner loop: requests from the current one on that are before the window's end.\<close>

fun count_window :: "instant \<Rightarrow> instant list \<Rightarrow> int" where
  "count_window windowEnd [] = 0"
| "count_window windowEnd (t # ts) = (if t < windowEnd then 1 + count_window windowEnd ts else 0)"

text \<open>The outer loop: each request in turn starts a window.\<close>

fun windows_ok :: "DiophantineStrategy \<Rightarrow> instant list \<Rightarrow> bool" where
  "windows_ok d [] = True"
| "windows_ok d (t # ts) =
     (if di_rateLimit d < count_window (time_add t (di_window d)) (t # ts) then False
      else windows_ok d ts)"

definition CanScheduleRequest :: "DiophantineStrategy \<Rightarrow> instant list \<Rightarrow> instant \<Rightarrow> bool" where
  "CanScheduleRequest d existing newRequestTime =
     windows_ok d (sort (existing @ newRetries d newRequestTime))"

text \<open>The loop \<open>for i := 1; i < attempt; i++\<close> of \<open>Delay\<close>, with its early return.\<close>

function dio_delay_loop :: "int \<Rightarrow> int \<Rightarrow> duration \<Rightarrow> duration" where
  "dio_delay_loop i attempt delay =
     (if i < attempt then
        (let delay' = wrap64 (delay * 2)
         in if Hour < delay' then Hour else dio_delay_loop (i + 1) attempt delay')
      else delay)"
  by pat_completeness auto
termination
  by (relation "measure (\<lambda>(i, attempt, delay). nat (attempt - i))") auto

declare dio_delay_loop.simps [simp del]

definition dio_baseDelay :: "DiophantineStrategy \<Rightarrow> duration" where
  "dio_baseDelay d = (if 1 < length (di_retryOffsets d) then di_retryOffsets d ! 1 else Second)"

definition Diophantine_Delay :: "DiophantineStrategy \<Rightarrow> int \<Rightarrow> duration" where
  "Diophantine_Delay d attempt =
     (if attempt \<le> 0 then Second else dio_delay_loop 1 attempt (dio_baseDelay d))"

section \<open>The check decides the sliding-window property\<close>

text \<open>Requests in the half-open window of length \<open>w\<close> that starts at \<open>t\<close>.\<close>

definition in_window :: "duration \<Rightarrow> instant \<Rightarrow> instant list \<Rightarrow> instant list" where
  "in_window w t ts = filter (\<lambda>x. t \<le> x \<and> x < t + w) ts"

definition within_limit :: "DiophantineStrategy \<Rightarrow> instant list \<Rightarrow> bool" where
  "within_limit d ts \<longleftrightarrow> ts = [] \<or> (\<forall>t. int (length (in_window (di_window d) t ts)) \<le> di_rateLimit d)"

lemma count_window_filter:
  "sorted ts \<Longrightarrow> count_window e ts = int (length (filter (\<lambda>x. x < e) ts))"
proof (induction ts)
  case (Cons t ts)
  show ?case
  proof (cases "t < e")
    case False
    with Cons.prems have "filter (\<lambda>x. x < e) ts = []" by (auto simp: filter_empty_conv)
    with False show ?thesis by simp
  qed (use Cons in simp)
qed simp

lemma length_filter_mono: "(\<And>x. x \<in> set xs \<Longrightarrow> P x \<Longrightarrow> Q x) \<Longrightarrow> length (filter P xs) \<le> length (filter Q xs)"
  by (induction xs) (auto simp: le_SucI)

lemma windows_ok_iff:
  "sorted ts \<Longrightarrow> ts \<noteq> [] \<Longrightarrow>
     windows_ok d ts \<longleftrightarrow> (\<forall>t. int (length (in_window (di_window d) t ts)) \<le> di_rateLimit d)"
proof (induction ts)
  case (Cons a ts)
  let ?w = "di_window d" and ?xs = "a # ts"
  have sorted: "sorted ?xs" and ge: "\<And>x. x \<in> set ?xs \<Longrightarrow> a \<le> x" using Cons.prems(1) by auto
  have head: "count_window (time_add a ?w) ?xs = int (length (in_window ?w a ?xs))"
    using ge by (simp only: count_window_filter [OF sorted] in_window_def time_add_def)
      (metis (no_types, lifting) filter_cong)
  have tail: "windows_ok d ts \<longleftrightarrow> ts = [] \<or> (\<forall>t. int (length (in_window ?w t ts)) \<le> di_rateLimit d)"
    using Cons by (cases "ts = []") auto
  show ?case
  proof
    assume ok: "windows_ok d ?xs"
    then have a: "int (length (in_window ?w a ?xs)) \<le> di_rateLimit d"
      and ts: "windows_ok d ts" using head by (simp_all split: if_splits)
    show "\<forall>t. int (length (in_window ?w t ?xs)) \<le> di_rateLimit d"
    proof
      fix t
      show "int (length (in_window ?w t ?xs)) \<le> di_rateLimit d"
      proof (cases "ts = [] \<or> t \<le> a \<and> a < t + ?w")
        case True
        have "length (in_window ?w t ?xs) \<le> length (in_window ?w a ?xs)"
          unfolding in_window_def using True ge by (intro length_filter_mono) auto
        with a show ?thesis by linarith
      next
        case False
        then have "in_window ?w t ?xs = in_window ?w t ts" by (auto simp: in_window_def)
        with ts tail False show ?thesis by simp
      qed
    qed
  next
    assume all: "\<forall>t. int (length (in_window ?w t ?xs)) \<le> di_rateLimit d"
    have "int (length (in_window ?w t ts)) \<le> di_rateLimit d" for t
      using all [rule_format, of t] by (auto simp: in_window_def split: if_splits)
    then have "windows_ok d ts" using tail by blast
    moreover have "\<not> di_rateLimit d < count_window (time_add a ?w) ?xs"
      using all [rule_format, of a] by (simp only: head not_less)
    ultimately show "windows_ok d ?xs" by simp
  qed
qed simp

lemma within_limit_mset:
  assumes "within_limit d xs" "mset ys \<subseteq># mset xs"
  shows "within_limit d ys"
proof (cases "ys = []")
  case False
  with assms(2) have "xs \<noteq> []" by auto
  have "length (in_window w t ys) \<le> length (in_window w t xs)" for w t
    unfolding in_window_def by (metis assms(2) mset_filter multiset_filter_mono size_mset size_mset_mono)
  with assms(1) False \<open>xs \<noteq> []\<close> show ?thesis
    unfolding within_limit_def by (meson of_nat_mono order_trans)
qed (simp add: within_limit_def)

lemma CanScheduleRequest_within_limit:
  "CanScheduleRequest d existing t \<longleftrightarrow> within_limit d (existing @ newRetries d t)"
proof -
  let ?xs = "existing @ newRetries d t"
  have "windows_ok d (sort ?xs) \<longleftrightarrow> within_limit d (sort ?xs)"
    using windows_ok_iff [of "sort ?xs" d] by (cases "sort ?xs = []") (auto simp: within_limit_def)
  also have "\<dots> \<longleftrightarrow> within_limit d ?xs"
    using within_limit_mset [of d] by (metis mset_sort subset_mset.order_refl)
  finally show ?thesis by (simp add: CanScheduleRequest_def)
qed

text \<open>C33. The Diophantine check is sound and complete for the sliding-window limit: it accepts a
  batch at time \<open>t\<close> exactly when in the union of the existing requests and the planned
  attempts every half-open window of the configured length, wherever it starts, holds at
  most \<open>rateLimit\<close> requests.\<close>

theorem can_schedule_iff_windows:
  assumes "0 \<le> di_rateLimit d"
  shows "CanScheduleRequest d existing t \<longleftrightarrow>
    (\<forall>s. int (length (in_window (di_window d) s (existing @ newRetries d t))) \<le> di_rateLimit d)"
  using assms by (auto simp: CanScheduleRequest_within_limit within_limit_def in_window_def)

theorem can_schedule_iff_windows_witness:
  "CanScheduleRequest (NewDiophantine 2 10 [0, 5]) [100] 110 \<and>
   \<not> CanScheduleRequest (NewDiophantine 2 10 [0, 5]) [100] 104 \<and>
   (\<forall>s. int (length (in_window 10 s ([100] @ [110, 115]))) \<le> 2)"
proof -
  let ?d = "NewDiophantine 2 10 [0, 5]"
  have "CanScheduleRequest ?d [100] 110" "\<not> CanScheduleRequest ?d [100] 104" by code_simp+
  then show ?thesis using can_schedule_iff_windows [of ?d "[100]" 110]
    by (simp add: NewDiophantine_def newRetries_def time_add_def)
qed

section \<open>The interface of a rate limiter\<close>

text \<open>
  What a scheduler relies on: the check accepts a batch exactly when the batch can be added
  to what exists, and forgetting or reordering requests never breaks the limit.
\<close>

locale rate_limiter =
  fixes can :: "'t list \<Rightarrow> 't \<Rightarrow> bool"
    and plan :: "'t \<Rightarrow> 't list"
    and ok :: "'t list \<Rightarrow> bool"
  assumes can_ok: "can es t \<longleftrightarrow> ok (es @ plan t)"
    and ok_sub: "ok xs \<Longrightarrow> mset ys \<subseteq># mset xs \<Longrightarrow> ok ys"
begin

lemma admit_ok: "can es t \<Longrightarrow> mset ys \<subseteq># mset es + mset (plan t) \<Longrightarrow> ok ys"
  using can_ok ok_sub by (metis mset_append)

lemma refuse_overfull: "\<not> ok (es @ plan t) \<Longrightarrow> \<not> can es t"
  by (simp add: can_ok)

lemma can_fewer: "can es t \<Longrightarrow> mset es' \<subseteq># mset es \<Longrightarrow> can es' t"
  unfolding can_ok by (erule ok_sub) (simp add: subset_mset.add_mono)

end

interpretation dio: rate_limiter "CanScheduleRequest d" "newRetries d" "within_limit d" for d
  by unfold_locales (auto simp: CanScheduleRequest_within_limit intro: within_limit_mset)

section \<open>The fallback delay\<close>

lemma dio_delay_loop_min:
  assumes "0 \<le> delay" "delay \<le> Hour"
  shows "dio_delay_loop (attempt - int k) attempt delay = min (delay * 2 ^ k) Hour"
  using assms
proof (induction k arbitrary: delay)
  case 0
  then show ?case by (simp add: dio_delay_loop.simps)
next
  case (Suc k)
  have w: "wrap64 (delay * 2) = delay * 2" using Suc.prems by (intro wrap64_id in_i64I) (simp_all add: Hour_def)
  show ?case
  proof (cases "Hour < delay * 2")
    case True
    moreover have "delay * 2 \<le> delay * 2 ^ Suc k" using Suc.prems(1) by (intro mult_left_mono) auto
    ultimately show ?thesis by (subst dio_delay_loop.simps) (simp add: w)
  next
    case False
    then show ?thesis using Suc.IH [of "delay * 2"] Suc.prems
      by (subst dio_delay_loop.simps) (simp add: w mult.assoc add.commute diff_diff_eq)
  qed
qed

text \<open>The fallback delay of the Diophantine strategy doubles from its base delay (the second
  retry offset, or one second) and stops at one hour, for a base delay of at most one hour.\<close>

lemma diophantine_delay_capped:
  assumes "0 \<le> dio_baseDelay d" "dio_baseDelay d \<le> Hour"
  shows "Diophantine_Delay d (int (Suc k)) = min (dio_baseDelay d * 2 ^ k) Hour"
  using dio_delay_loop_min [OF assms, of "int (Suc k)" k] by (simp add: Diophantine_Delay_def)

lemma diophantine_delay_capped_witness:
  "Diophantine_Delay (NewDiophantine 100 Hour [0, 10 * Minute, 30 * Minute]) 3 = 40 * Minute
   \<and> Diophantine_Delay (NewDiophantine 100 Hour [0, 10 * Minute, 30 * Minute]) 40 = Hour"
  using diophantine_delay_capped [of "NewDiophantine 100 Hour [0, 10 * Minute, 30 * Minute]" 2]
    diophantine_delay_capped [of "NewDiophantine 100 Hour [0, 10 * Minute, 30 * Minute]" 39]
  by (simp add: dio_baseDelay_def NewDiophantine_def unit_defs)

end
