(* ===== verification/Scheduler.thy ===== *)
theory Scheduler
  imports Diophantine "HOL-Library.AList"
begin

text \<open>
  The daemon's request scheduler, \<open>pkg/daemon/scheduler.go\<close>, over the request type of
  \<open>pkg/daemon/protocol.go\<close>. Go's map from resource identifiers to request slices is an
  association list (its iteration order is never observable here); a missing key reads as
  the empty slice. Every operation runs under the scheduler's lock, so each is one step;
  an operation that reads \<open>time.Now()\<close> takes the instant it reads.
\<close>

section \<open>State and operations\<close>

record ScheduledRequest =
  sr_ID :: string
  sr_ResourceID :: string
  sr_ScheduledAt :: instant
  sr_ExpiresAt :: instant

record RequestScheduler =
  rs_requests :: "(string \<times> ScheduledRequest list) list"

datatype sched_error = DuplicateRequest string

definition NewRequestScheduler :: RequestScheduler where
  "NewRequestScheduler = \<lparr>rs_requests = []\<rparr>"

text \<open>Indexing the map: \<open>s.requests[resourceID]\<close>.\<close>

definition requests_of :: "RequestScheduler \<Rightarrow> string \<Rightarrow> ScheduledRequest list" where
  "requests_of s rid = (case map_of (rs_requests s) rid of None \<Rightarrow> [] | Some rs \<Rightarrow> rs)"

definition AddRequest ::
  "RequestScheduler \<Rightarrow> ScheduledRequest \<Rightarrow> sched_error + RequestScheduler" where
  "AddRequest s req =
     (if \<exists>(rid, rs) \<in> set (rs_requests s). \<exists>existing \<in> set rs. sr_ID existing = sr_ID req
      then Inl (DuplicateRequest (sr_ID req))
      else Inr (s\<lparr>rs_requests := AList.update (sr_ResourceID req)
                   (requests_of s (sr_ResourceID req) @ [req]) (rs_requests s)\<rparr>))"

definition unexpired :: "instant \<Rightarrow> ScheduledRequest \<Rightarrow> bool" where
  "unexpired now req \<longleftrightarrow> now < sr_ExpiresAt req"

definition GetActiveRequests :: "instant \<Rightarrow> RequestScheduler \<Rightarrow> string \<Rightarrow> ScheduledRequest list" where
  "GetActiveRequests now s rid = filter (unexpired now) (requests_of s rid)"

definition CleanupExpiredRequests :: "instant \<Rightarrow> RequestScheduler \<Rightarrow> RequestScheduler" where
  "CleanupExpiredRequests now s =
     s\<lparr>rs_requests := map (\<lambda>(rid, rs). (rid, filter (unexpired now) rs)) (rs_requests s)\<rparr>"

definition CanScheduleWithStrategy ::
  "instant \<Rightarrow> RequestScheduler \<Rightarrow> string \<Rightarrow> DiophantineStrategy \<Rightarrow> instant \<Rightarrow> bool" where
  "CanScheduleWithStrategy now s rid strategy requestTime =
     CanScheduleRequest strategy
       (map sr_ScheduledAt (filter (unexpired now) (requests_of s rid))) requestTime"

text \<open>
  The loop \<open>for i := 0; i < 1440; i++\<close>, one candidate a minute; \<open>now i\<close> is the instant the
  \<open>i\<close>-th check reads.
\<close>

fun slot_loop ::
  "nat \<Rightarrow> (nat \<Rightarrow> instant) \<Rightarrow> RequestScheduler \<Rightarrow> string \<Rightarrow> DiophantineStrategy \<Rightarrow> nat \<Rightarrow> instant
   \<Rightarrow> instant option" where
  "slot_loop 0 now s rid strategy i candidate = None"
| "slot_loop (Suc k) now s rid strategy i candidate =
     (if CanScheduleWithStrategy (now i) s rid strategy candidate then Some candidate
      else slot_loop k now s rid strategy (Suc i) (time_add candidate Minute))"

definition GetNextAvailableSlot ::
  "(nat \<Rightarrow> instant) \<Rightarrow> RequestScheduler \<Rightarrow> string \<Rightarrow> DiophantineStrategy \<Rightarrow> instant \<Rightarrow> instant" where
  "GetNextAvailableSlot now s rid strategy preferredTime =
     (case slot_loop 1440 now s rid strategy 0 preferredTime of
        Some candidate \<Rightarrow> candidate
      | None \<Rightarrow> time_add preferredTime (24 * Hour))"

section \<open>The scheduler's invariant\<close>

definition all_requests :: "RequestScheduler \<Rightarrow> ScheduledRequest list" where
  "all_requests s = concat (map snd (rs_requests s))"

text \<open>One bucket per resource, each request in the bucket of its resource, identifiers unique.\<close>

definition sched_inv :: "RequestScheduler \<Rightarrow> bool" where
  "sched_inv s \<longleftrightarrow> distinct (map fst (rs_requests s))
     \<and> (\<forall>(rid, rs) \<in> set (rs_requests s). \<forall>r \<in> set rs. sr_ResourceID r = rid)
     \<and> distinct (map sr_ID (all_requests s))"

lemma requests_of_in:
  "r \<in> set (requests_of s rid) \<Longrightarrow> \<exists>rs. (rid, rs) \<in> set (rs_requests s) \<and> r \<in> set rs"
  by (cases "map_of (rs_requests s) rid") (auto simp: requests_of_def dest: map_of_SomeD)

lemma requests_of_update:
  "requests_of (s\<lparr>rs_requests := AList.update k v (rs_requests s)\<rparr>) rid =
     (if rid = k then v else requests_of s rid)"
  by (simp add: requests_of_def update_conv')

lemma AddRequest_requests_of:
  "AddRequest s req = Inr s' \<Longrightarrow>
     requests_of s' rid = requests_of s rid @ (if rid = sr_ResourceID req then [req] else [])"
  by (auto simp: AddRequest_def requests_of_update split: if_splits)

lemma requests_of_cleanup:
  "requests_of (CleanupExpiredRequests now s) rid = filter (unexpired now) (requests_of s rid)"
  by (simp add: requests_of_def CleanupExpiredRequests_def map_of_map split: option.splits)

lemma mset_all_requests_update:
  assumes "distinct (map fst m)"
  shows "mset (concat (map snd (AList.update k (v @ [x]) m))) + mset (case map_of m k of None \<Rightarrow> [] | Some rs \<Rightarrow> rs)
    = mset (concat (map snd m)) + mset (v @ [x])"
  using assms
proof (induction m)
  case (Cons a m)
  then show ?case by (cases a) (auto simp: map_of_eq_None_iff image_iff)
qed simp

lemma mset_AddRequest:
  assumes "sched_inv s" "AddRequest s req = Inr s'"
  shows "mset (all_requests s') = add_mset req (mset (all_requests s))"
  using mset_all_requests_update [of "rs_requests s" "sr_ResourceID req" "requests_of s (sr_ResourceID req)" req] assms
  by (auto simp: sched_inv_def all_requests_def AddRequest_def requests_of_def split: if_splits option.splits)

lemma fresh_iff:
  "(\<exists>(rid, rs) \<in> set (rs_requests s). \<exists>r \<in> set rs. sr_ID r = i) \<longleftrightarrow> i \<in> sr_ID ` set (all_requests s)"
  by (fastforce simp: all_requests_def)

lemma sched_inv_AddRequest:
  assumes "sched_inv s" "AddRequest s req = Inr s'"
  shows "sched_inv s'"
proof -
  have s': "s' = s\<lparr>rs_requests := AList.update (sr_ResourceID req)
      (requests_of s (sr_ResourceID req) @ [req]) (rs_requests s)\<rparr>"
    and fresh: "sr_ID req \<notin> sr_ID ` set (all_requests s)"
    using assms(2) by (auto simp: AddRequest_def fresh_iff split: if_splits)
  have dist: "distinct (map fst (rs_requests s))" using assms(1) by (simp add: sched_inv_def)
  have home: "sr_ResourceID r = rid" if "(rid, rs) \<in> set (rs_requests s)" "r \<in> set rs" for rid rs r
    using assms(1) that by (auto simp: sched_inv_def)
  have "sr_ResourceID r = rid" if "(rid, rs) \<in> set (rs_requests s')" "r \<in> set rs" for rid rs r
  proof -
    have "map_of (rs_requests s') rid = Some rs"
      using that(1) distinct_update [OF dist] unfolding s' by (intro map_of_is_SomeI) simp_all
    then have "rs = requests_of s' rid" by (simp add: requests_of_def)
    with that(2) AddRequest_requests_of [OF assms(2), of rid]
    consider "r \<in> set (requests_of s rid)" | "r = req" "rid = sr_ResourceID req"
      by (auto split: if_splits)
    then show ?thesis using home requests_of_in [of r s rid] by cases blast+
  qed
  moreover have "distinct (map sr_ID (all_requests s'))"
  proof -
    have "mset (map sr_ID (all_requests s')) = mset (sr_ID req # map sr_ID (all_requests s))"
      using mset_AddRequest [OF assms] by simp
    moreover have "distinct (sr_ID req # map sr_ID (all_requests s))"
      using assms(1) fresh by (auto simp: sched_inv_def)
    ultimately show ?thesis by (metis mset_eq_imp_distinct_iff)
  qed
  moreover have "distinct (map fst (rs_requests s'))"
    using distinct_update [OF dist] by (simp add: s')
  ultimately show ?thesis unfolding sched_inv_def by blast
qed

lemma sched_inv_New: "sched_inv NewRequestScheduler"
  by (simp add: sched_inv_def NewRequestScheduler_def all_requests_def)

lemma all_requests_cleanup: "all_requests (CleanupExpiredRequests now s) = filter (unexpired now) (all_requests s)"
proof -
  have "concat (map snd (map (\<lambda>(rid, rs). (rid, filter P rs)) m)) = filter P (concat (map snd m))" for P m
    by (induction m) auto
  then show ?thesis by (simp add: all_requests_def CleanupExpiredRequests_def)
qed

lemma sched_inv_cleanup: "sched_inv s \<Longrightarrow> sched_inv (CleanupExpiredRequests now s)"
proof -
  assume inv: "sched_inv s"
  have "map fst (rs_requests (CleanupExpiredRequests now s)) = map fst (rs_requests s)"
    by (auto simp: CleanupExpiredRequests_def)
  moreover have "distinct (map sr_ID (all_requests (CleanupExpiredRequests now s)))"
    using inv by (simp add: all_requests_cleanup sched_inv_def distinct_map_filter)
  ultimately show ?thesis
    using inv by (auto simp: sched_inv_def) (auto simp: CleanupExpiredRequests_def)
qed

text \<open>Adding a request: it is refused exactly when some resource already holds a request with
  its identifier; otherwise it becomes the last request of its own resource, every other
  resource is untouched, and the scheduler's invariant (one bucket per resource, requests
  in their own bucket, unique identifiers) is kept.\<close>

lemma add_request_correct:
  assumes "sched_inv s"
  shows "case AddRequest s req of
      Inl e \<Rightarrow> e = DuplicateRequest (sr_ID req) \<and> sr_ID req \<in> sr_ID ` set (all_requests s)
    | Inr s' \<Rightarrow> sr_ID req \<notin> sr_ID ` set (all_requests s) \<and> sched_inv s'
        \<and> requests_of s' (sr_ResourceID req) = requests_of s (sr_ResourceID req) @ [req]
        \<and> (\<forall>rid. rid \<noteq> sr_ResourceID req \<longrightarrow> requests_of s' rid = requests_of s rid)"
proof (cases "AddRequest s req")
  case (Inl e)
  then show ?thesis by (auto simp: AddRequest_def fresh_iff split: if_splits)
next
  case (Inr s')
  then have "sr_ID req \<notin> sr_ID ` set (all_requests s)"
    by (auto simp: AddRequest_def fresh_iff split: if_splits)
  then show ?thesis
    using Inr sched_inv_AddRequest [OF assms Inr] AddRequest_requests_of [OF Inr] by simp
qed

definition sample_request :: "string \<Rightarrow> instant \<Rightarrow> ScheduledRequest" where
  "sample_request i t = \<lparr>sr_ID = i, sr_ResourceID = ''api'', sr_ScheduledAt = t, sr_ExpiresAt = t + Hour\<rparr>"

lemma add_request_correct_witness:
  "\<exists>s. AddRequest NewRequestScheduler (sample_request ''a'' 0) = Inr s \<and> sched_inv s
     \<and> AddRequest s (sample_request ''a'' 9) = Inl (DuplicateRequest ''a'')"
proof -
  let ?s = "\<lparr>rs_requests = [(''api'', [sample_request ''a'' 0])]\<rparr>"
  have "AddRequest NewRequestScheduler (sample_request ''a'' 0) = Inr ?s"
    by (simp add: AddRequest_def NewRequestScheduler_def requests_of_def sample_request_def)
  moreover have "AddRequest ?s (sample_request ''a'' 9) = Inl (DuplicateRequest ''a'')"
    by (simp add: AddRequest_def sample_request_def)
  ultimately show ?thesis
    using add_request_correct [OF sched_inv_New, of "sample_request ''a'' 0"] by auto
qed

text \<open>Cleaning up is invisible: at any later instant the active requests of every resource and
  every scheduling decision are the same with and without an earlier cleanup, and no expired
  request stays behind; the invariant is kept.\<close>

lemma cleanup_invisible:
  assumes "sched_inv s" "now \<le> later"
  shows "GetActiveRequests later (CleanupExpiredRequests now s) rid = GetActiveRequests later s rid
    \<and> CanScheduleWithStrategy later (CleanupExpiredRequests now s) rid d t
        = CanScheduleWithStrategy later s rid d t
    \<and> (\<forall>r. r \<in> set (all_requests (CleanupExpiredRequests now s))
          \<longleftrightarrow> r \<in> set (all_requests s) \<and> now < sr_ExpiresAt r)
    \<and> sched_inv (CleanupExpiredRequests now s)"
proof -
  have "filter (unexpired later) (filter (unexpired now) rs) = filter (unexpired later) rs" for rs
    using assms(2) by (induction rs) (auto simp: unexpired_def)
  then show ?thesis
    using sched_inv_cleanup [OF assms(1)]
    by (auto simp: GetActiveRequests_def CanScheduleWithStrategy_def requests_of_cleanup
        all_requests_cleanup unexpired_def)
qed

text \<open>The slot search tries the preferred time and the 1439 minutes after it in order: the slot
  it returns is the first of them the check accepts; when it accepts none of them, the
  answer is 24 hours after the preferred time, without a check.\<close>

lemma next_slot_first_fit:
  "(\<exists>k < 1440. GetNextAvailableSlot now s rid d t = t + int k * Minute
       \<and> CanScheduleWithStrategy (now k) s rid d (t + int k * Minute)
       \<and> (\<forall>j < k. \<not> CanScheduleWithStrategy (now j) s rid d (t + int j * Minute)))
   \<or> ((\<forall>j < 1440. \<not> CanScheduleWithStrategy (now j) s rid d (t + int j * Minute))
       \<and> GetNextAvailableSlot now s rid d t = t + 24 * Hour)"
proof -
  have loop: "case slot_loop n now s rid d i (t + int i * Minute) of
      Some c \<Rightarrow> \<exists>k. i \<le> k \<and> k < i + n \<and> c = t + int k * Minute
        \<and> CanScheduleWithStrategy (now k) s rid d (t + int k * Minute)
        \<and> (\<forall>j. i \<le> j \<and> j < k \<longrightarrow> \<not> CanScheduleWithStrategy (now j) s rid d (t + int j * Minute))
    | None \<Rightarrow> \<forall>j. i \<le> j \<and> j < i + n \<longrightarrow> \<not> CanScheduleWithStrategy (now j) s rid d (t + int j * Minute)"
    for n i
  proof (induction n arbitrary: i)
    case (Suc n)
    have step: "time_add (t + int i * Minute) Minute = t + int (Suc i) * Minute"
      by (simp add: time_add_def algebra_simps)
    show ?case
    proof (cases "CanScheduleWithStrategy (now i) s rid d (t + int i * Minute)")
      case True
      then show ?thesis by (auto intro!: exI [of _ i])
    next
      case False
      have split: "i \<le> j \<longleftrightarrow> j = i \<or> Suc i \<le> j" for j by auto
      show ?thesis using Suc.IH [of "Suc i"] False
        by (auto simp: step split split: option.splits simp del: of_nat_Suc)
    qed
  qed auto
  show ?thesis using loop [where n = 1440 and i = 0]
    by (auto simp: GetNextAvailableSlot_def time_add_def split: option.splits)
qed

lemma next_slot_first_fit_witness:
  "\<exists>k < (1440::nat). GetNextAvailableSlot (\<lambda>i. 0) NewRequestScheduler ''api'' (NewDiophantine 1 Hour [0]) 7
     = 7 + int k * Minute"
proof -
  have "CanScheduleWithStrategy 0 NewRequestScheduler ''api'' (NewDiophantine 1 Hour [0]) 7" by code_simp
  then show ?thesis
    using next_slot_first_fit [of "\<lambda>i. 0" NewRequestScheduler "''api''" "NewDiophantine 1 Hour [0]" 7]
    by force
qed

section \<open>The rate limit over the whole history\<close>









text \<open>
  Requests that live shorter than the window are forgotten too early: with the executor's fixed expiry
  of one hour and a window of two hours, a second request is accepted in the window of the first.
\<close>

lemma short_lived_request_forgotten:
  "CanScheduleWithStrategy (90 * Minute) \<lparr>rs_requests = [(''api'', [sample_request ''a'' 0])]\<rparr> ''api''
     (NewDiophantine 1 (2 * Hour) [0]) (90 * Minute)
   \<and> length (in_window (2 * Hour) 0 [0, 90 * Minute]) = 2"
  by code_simp






end
