(* ===== verification/DaemonClient.thy ===== *)
theory DaemonClient
  imports Scheduler GoJson
begin

text \<open>
  The client side of the daemon protocol: the message types of \<open>pkg/daemon/protocol.go\<close> and the
  methods of \<open>pkg/daemon/client.go\<close> the executor calls. The network is a record: whether each
  dial succeeds, what each request is answered with (\<open>None\<close> when writing, reading or decoding
  fails, otherwise the decoded JSON object), and the requests sent so far. \<open>parse_time\<close> stands
  for \<open>time.Parse(time.RFC3339, _)\<close>.
\<close>

record ScheduleRequest =
  sq_ResourceID :: string
  sq_RateLimit :: int
  sq_Window :: duration
  sq_RetryOffsets :: "duration list"
  sq_RequestTime :: instant

record ScheduleResponse =
  sp_CanSchedule :: bool
  sp_WaitUntil :: instant
  sp_Reason :: string

text \<open>The requests on the wire; instants are Unix seconds, durations milliseconds.\<close>

datatype request_msg =
    HandshakeMsg string string
  | ScheduleMsg string int int "int list" int
  | RegisterMsg "(string \<times> string \<times> int \<times> int) list"

type_synonym reply = "(string \<times> json) list"

record net =
  nt_dials :: "bool stream"
  nt_replies :: "reply option stream"
  nt_sent :: "request_msg list"

record DaemonClient =
  dc_socketPath :: string
  dc_connectionTimeout :: duration
  dc_conn :: bool

datatype client_error =
    CtxDone
  | DialFailed
  | HandshakeFailed
  | HandshakeRejected string
  | ScheduleFailed
  | RegisterFailed "string option"

definition NewDaemonClient :: "string \<Rightarrow> DaemonClient" where
  "NewDaemonClient socketPath =
     \<lparr>dc_socketPath = socketPath, dc_connectionTimeout = 5 * Second, dc_conn = False\<rparr>"

definition str_field :: "reply \<Rightarrow> string \<Rightarrow> string option" where
  "str_field r k = (case json_get r k of Some (JStr t) \<Rightarrow> Some t | _ \<Rightarrow> None)"

definition bool_field :: "reply \<Rightarrow> string \<Rightarrow> bool option" where
  "bool_field r k = (case json_get r k of Some (JBool b) \<Rightarrow> Some b | _ \<Rightarrow> None)"

definition sendRequest :: "request_msg \<Rightarrow> net \<Rightarrow> reply option \<times> net" where
  "sendRequest request n =
     (shd (nt_replies n), n\<lparr>nt_replies := stl (nt_replies n), nt_sent := nt_sent n @ [request]\<rparr>)"

definition performHandshake :: "net \<Rightarrow> client_error option \<times> net" where
  "performHandshake n =
     (case sendRequest (HandshakeMsg ''1.0'' ''patience-cli'') n of
        (None, n') \<Rightarrow> (Some HandshakeFailed, n')
      | (Some response, n') \<Rightarrow>
          let status = (case str_field response ''status'' of Some t \<Rightarrow> t | None \<Rightarrow> []);
              message = (case str_field response ''message'' of Some t \<Rightarrow> t | None \<Rightarrow> [])
          in (if status \<noteq> ''ok'' then Some (HandshakeRejected message) else None, n'))"

definition connect :: "DaemonClient \<Rightarrow> net \<Rightarrow> client_error option \<times> DaemonClient \<times> net" where
  "connect c n =
     (if dc_conn c then (None, c, n)
      else let n1 = n\<lparr>nt_dials := stl (nt_dials n)\<rparr>
           in if \<not> shd (nt_dials n) then (Some DialFailed, c, n1)
              else let c' = c\<lparr>dc_conn := True\<rparr>; (err, n2) = performHandshake n1
                   in (err, c', n2))"

definition convertDurationsToMs :: "duration list \<Rightarrow> int list" where
  "convertDurationsToMs durations = map (\<lambda>d. quo d Millisecond) durations"

definition Client_CanScheduleRequest ::
  "(string \<Rightarrow> instant option) \<Rightarrow> bool \<Rightarrow> DaemonClient \<Rightarrow> ScheduleRequest \<Rightarrow> net \<Rightarrow>
     (client_error + ScheduleResponse) \<times> DaemonClient \<times> net" where
  "Client_CanScheduleRequest parse_time ctx_done c req n =
     (if ctx_done then (Inl CtxDone, c, n)
      else case connect c n of
        (Some err, c', n1) \<Rightarrow> (Inl err, c', n1)
      | (None, c', n1) \<Rightarrow>
          (case sendRequest (ScheduleMsg (sq_ResourceID req) (sq_RateLimit req)
                   (quo (sq_Window req) Millisecond) (convertDurationsToMs (sq_RetryOffsets req))
                   (unix_seconds (sq_RequestTime req))) n1 of
             (None, n2) \<Rightarrow> (Inl ScheduleFailed, c', n2)
           | (Some response, n2) \<Rightarrow>
               (Inr \<lparr>sp_CanSchedule = (case bool_field response ''can_schedule'' of Some b \<Rightarrow> b | None \<Rightarrow> False),
                     sp_WaitUntil =
                       (case Option.bind (str_field response ''wait_until'') parse_time of
                          Some t \<Rightarrow> t
                        | None \<Rightarrow> time_add (sq_RequestTime req) Minute),
                     sp_Reason = (case str_field response ''reason'' of Some t \<Rightarrow> t | None \<Rightarrow> [])\<rparr>, c', n2)))"

definition RegisterScheduledRequests ::
  "bool \<Rightarrow> DaemonClient \<Rightarrow> ScheduledRequest list \<Rightarrow> net \<Rightarrow> client_error option \<times> DaemonClient \<times> net" where
  "RegisterScheduledRequests ctx_done c requests n =
     (if ctx_done then (Some CtxDone, c, n)
      else case connect c n of
        (Some err, c', n1) \<Rightarrow> (Some err, c', n1)
      | (None, c', n1) \<Rightarrow>
          (case sendRequest (RegisterMsg (map (\<lambda>req. (sr_ID req, sr_ResourceID req,
                   unix_seconds (sr_ScheduledAt req), unix_seconds (sr_ExpiresAt req))) requests)) n1 of
             (None, n2) \<Rightarrow> (Some (RegisterFailed None), c', n2)
           | (Some response, n2) \<Rightarrow>
               (if bool_field response ''success'' = Some True then None
                else Some (RegisterFailed (str_field response ''message'')), c', n2)))"

definition Close :: "DaemonClient \<Rightarrow> DaemonClient" where
  "Close c = (if dc_conn c then c\<lparr>dc_conn := False\<rparr> else c)"

lemma connect_sent:
  "connect c n = (err, c', n') \<Longrightarrow>
     nt_sent n' = nt_sent n \<or> nt_sent n' = nt_sent n @ [HandshakeMsg ''1.0'' ''patience-cli'']"
  by (auto simp: connect_def performHandshake_def sendRequest_def Let_def split: if_splits option.splits)

text \<open>A client whose handshake was refused skips the handshake from then on: the failed call leaves
  the connection in place, so the next call goes straight to its own request, although no
  handshake ever succeeded.\<close>

lemma refused_handshake_is_forgotten:
  assumes "\<not> dc_conn c" "shd (nt_dials n)" "shd (nt_replies n) = Some r" "str_field r ''status'' \<noteq> Some ''ok''"
  shows "\<exists>e c' n'. Client_CanScheduleRequest parse_time False c req n = (Inl (HandshakeRejected e), c', n')
      \<and> connect c' n' = (None, c', n')"
proof -
  have "(case str_field r ''status'' of Some t \<Rightarrow> t | None \<Rightarrow> []) \<noteq> ''ok''"
    using assms(4) by (auto split: option.splits)
  with assms(1-3) show ?thesis
    by (simp add: Client_CanScheduleRequest_def connect_def performHandshake_def sendRequest_def Let_def)
qed

lemma refused_handshake_is_forgotten_witness:
  "\<exists>e c' n'. Client_CanScheduleRequest (\<lambda>_. None) False (NewDaemonClient ''/tmp/s'')
       \<lparr>sq_ResourceID = ''r'', sq_RateLimit = 1, sq_Window = Second, sq_RetryOffsets = [], sq_RequestTime = 0\<rparr>
       \<lparr>nt_dials = sconst True, nt_replies = sconst (Some [(''status'', JStr ''error'')]), nt_sent = []\<rparr>
     = (Inl (HandshakeRejected e), c', n') \<and> connect c' n' = (None, c', n')"
  by (rule refused_handshake_is_forgotten [where r = "[(''status'', JStr ''error'')]"])
    (simp_all add: NewDaemonClient_def str_field_def json_get_def)

end
