(* ===== verification/Conditions.thy ===== *)
theory Conditions
  imports GoText
begin

text \<open>
  The success and failure conditions of \<open>pkg/conditions/conditions.go\<close>. Patterns are written
  by the user; \<open>compile\<close> stands for \<open>regexp.Compile\<close>, which gives an error or a compiled
  expression, here the predicate its \<open>MatchString\<close> decides.
\<close>

type_synonym regexp = "string \<Rightarrow> bool"
type_synonym compiler = "string \<Rightarrow> string + regexp"

record cond_Result =
  cr_Success :: bool
  cr_Reason :: string

record Checker =
  ck_successPattern :: "regexp option"
  ck_failurePattern :: "regexp option"
  ck_caseInsensitive :: bool

datatype checker_error = InvalidSuccessPattern string | InvalidFailurePattern string

text \<open>One pattern: absent when empty, compiled with \<open>(?i)\<close> in front when case is ignored.\<close>

definition compile_pattern :: "compiler \<Rightarrow> bool \<Rightarrow> string \<Rightarrow> string + regexp option" where
  "compile_pattern compile caseInsensitive pat =
     (if pat = [] then Inr None
      else case compile (if caseInsensitive then ''(?i)'' @ pat else pat) of
             Inl e \<Rightarrow> Inl e
           | Inr re \<Rightarrow> Inr (Some re))"

definition NewChecker :: "compiler \<Rightarrow> string \<Rightarrow> string \<Rightarrow> bool \<Rightarrow> checker_error + Checker" where
  "NewChecker compile successPattern failurePattern caseInsensitive =
     (case compile_pattern compile caseInsensitive successPattern of
        Inl e \<Rightarrow> Inl (InvalidSuccessPattern e)
      | Inr sp \<Rightarrow>
          (case compile_pattern compile caseInsensitive failurePattern of
             Inl e \<Rightarrow> Inl (InvalidFailurePattern e)
           | Inr fp \<Rightarrow> Inr \<lparr>ck_successPattern = sp, ck_failurePattern = fp,
                            ck_caseInsensitive = caseInsensitive\<rparr>))"

definition matches :: "regexp option \<Rightarrow> string \<Rightarrow> string \<Rightarrow> bool" where
  "matches pat stdout stderr \<longleftrightarrow> (case pat of None \<Rightarrow> False | Some re \<Rightarrow> re stdout \<or> re stderr)"

definition exit_code_result :: "int \<Rightarrow> cond_Result" where
  "exit_code_result exitCode =
     (if exitCode = 0 then \<lparr>cr_Success = True, cr_Reason = ''exit code 0''\<rparr>
      else \<lparr>cr_Success = False, cr_Reason = ''exit code '' @ itoa exitCode\<rparr>)"

definition CheckSuccess :: "Checker \<Rightarrow> int \<Rightarrow> string \<Rightarrow> string \<Rightarrow> cond_Result" where
  "CheckSuccess c exitCode stdout stderr =
     (if matches (ck_failurePattern c) stdout stderr
      then \<lparr>cr_Success = False, cr_Reason = ''failure pattern matched''\<rparr>
      else if matches (ck_successPattern c) stdout stderr
      then \<lparr>cr_Success = True, cr_Reason = ''success pattern matched''\<rparr>
      else exit_code_result exitCode)"

section \<open>What a verdict means\<close>

lemma exit_code_reason: "cr_Reason (exit_code_result n) \<noteq> ''failure pattern matched''"
  by (simp add: exit_code_result_def)

lemma CheckSuccess_success:
  "cr_Success (CheckSuccess c n out err) \<longleftrightarrow>
     \<not> matches (ck_failurePattern c) out err \<and> (matches (ck_successPattern c) out err \<or> n = 0)"
  by (simp add: CheckSuccess_def exit_code_result_def)

lemma CheckSuccess_failure_reason:
  "cr_Reason (CheckSuccess c n out err) = ''failure pattern matched'' \<longleftrightarrow>
     matches (ck_failurePattern c) out err"
  by (simp add: CheckSuccess_def exit_code_reason)

text \<open>A run is judged by the patterns the user gave, each tried on both streams: it is a success
  exactly when the failure pattern matches neither stream and the success pattern matches one
  of them or the exit code is 0; and the reason reads "failure pattern matched" exactly when
  the failure pattern matches, which is what the retry loop tests to stop at once.\<close>

lemma check_success_precedence:
  assumes "NewChecker compile sp fp ci = Inr c"
    and "sp \<noteq> []" "compile (if ci then ''(?i)'' @ sp else sp) = Inr s"
    and "fp \<noteq> []" "compile (if ci then ''(?i)'' @ fp else fp) = Inr f"
  shows "(cr_Success (CheckSuccess c n out err) \<longleftrightarrow> \<not> f out \<and> \<not> f err \<and> (s out \<or> s err \<or> n = 0))
    \<and> (cr_Reason (CheckSuccess c n out err) = ''failure pattern matched'' \<longleftrightarrow> f out \<or> f err)"
proof -
  have c: "c = \<lparr>ck_successPattern = Some s, ck_failurePattern = Some f, ck_caseInsensitive = ci\<rparr>"
    using assms by (auto simp: NewChecker_def compile_pattern_def split: if_splits)
  show ?thesis
    by (simp add: CheckSuccess_success CheckSuccess_failure_reason c matches_def)
qed

text \<open>A compiler for plain substrings, to evaluate on.\<close>

definition literal_compile :: compiler where
  "literal_compile pat = Inr (\<lambda>s. contains s pat)"

lemma check_success_precedence_witness:
  "\<exists>c. NewChecker literal_compile ''ok'' ''fatal'' False = Inr c
     \<and> \<not> cr_Success (CheckSuccess c 0 ''ok'' ''fatal'') \<and> cr_Success (CheckSuccess c 7 ''ok'' [])"
proof -
  let ?c = "\<lparr>ck_successPattern = Some (\<lambda>s. contains s ''ok''),
             ck_failurePattern = Some (\<lambda>s. contains s ''fatal''), ck_caseInsensitive = False\<rparr>"
  have new: "NewChecker literal_compile ''ok'' ''fatal'' False = Inr ?c"
    by (simp add: NewChecker_def compile_pattern_def literal_compile_def)
  show ?thesis
    using new check_success_precedence [OF new, of "\<lambda>s. contains s ''ok''" "\<lambda>s. contains s ''fatal''" 0 "''ok''" "''fatal''"]
      check_success_precedence [OF new, of "\<lambda>s. contains s ''ok''" "\<lambda>s. contains s ''fatal''" 7 "''ok''" "[]"]
    by (simp add: literal_compile_def)
qed

section \<open>The contract of a verdict\<close>

text \<open>
  What the retry loop relies on, for the user's checker and for the plain exit-code rule it
  uses when there is none: the reason that stops the loop is never given with a success, and
  a failure for any other reason comes with a nonzero exit code.
\<close>

locale verdict =
  fixes check :: "int \<Rightarrow> string \<Rightarrow> string \<Rightarrow> cond_Result"
  assumes stop_not_success:
      "cr_Reason (check n out err) = ''failure pattern matched'' \<Longrightarrow> \<not> cr_Success (check n out err)"
    and failure_exit:
      "\<not> cr_Success (check n out err) \<Longrightarrow> cr_Reason (check n out err) \<noteq> ''failure pattern matched'' \<Longrightarrow> n \<noteq> 0"
begin

lemma success_reason: "cr_Success (check n out err) \<Longrightarrow> cr_Reason (check n out err) \<noteq> ''failure pattern matched''"
  using stop_not_success by blast

lemma exit_0_cases: "cr_Success (check 0 out err) \<or> cr_Reason (check 0 out err) = ''failure pattern matched''"
  using failure_exit by blast

end

interpretation checker: verdict "CheckSuccess c" for c
  by unfold_locales (auto simp: CheckSuccess_success CheckSuccess_failure_reason)

interpretation exit_rule: verdict "\<lambda>n out err. exit_code_result n"
  by unfold_locales (auto simp: exit_code_result_def)

end
