(* ===== verification/Reporting.thy ===== *)
theory Reporting
  imports GoText
begin

text \<open>
  Status reports and statistics: \<open>pkg/ui/ui.go\<close> and the data side of
  \<open>pkg/metrics/metrics.go\<close>. A reporter method gives the text it writes to its writer; a
  method of \<open>RunStats\<close> gives the updated record. The hash function of the metrics
  (\<open>sha256\<close>, in hexadecimal) is a parameter.
\<close>

section \<open>Formatting a duration for the terminal\<close>

definition formatDuration :: "duration \<Rightarrow> string" where
  "formatDuration d =
     (if d = 0 then ''0s''
      else if d < Second then fmt_f 1 (fdiv (f64_of_int d) (f64_of_int Second)) @ ''s''
      else if d < Minute then
        (let seconds = fdiv (f64_of_int d) (f64_of_int Second)
         in if (case seconds of Fin x \<Rightarrow> feq seconds (f64_of_int (trunc x)) | _ \<Rightarrow> False)
            then fmt_f 0 seconds @ ''s''
            else trim_right (CHR ''.'') (trim_right (CHR ''0'') (fmt_f 2 seconds)) @ ''s'')
      else
        (let hours = d div Hour;
             minutes = d mod Hour div Minute;
             seconds = d mod Minute div Second
         in if 0 < hours then
              (if 0 < minutes \<and> 0 < seconds
               then itoa hours @ ''h'' @ itoa minutes @ ''m'' @ itoa seconds @ ''s''
               else if 0 < minutes then itoa hours @ ''h'' @ itoa minutes @ ''m''
               else if 0 < seconds then itoa hours @ ''h'' @ itoa seconds @ ''s''
               else itoa hours @ ''h'')
            else if 0 < minutes then
              (if 0 < seconds then itoa minutes @ ''m'' @ itoa seconds @ ''s''
               else itoa minutes @ ''m'')
            else itoa seconds @ ''s''))"

section \<open>Reporter\<close>

record Reporter =
  rp_quiet :: bool

definition newline :: string where
  "newline = [CHR 0x0A]"

definition NewReporter :: Reporter where
  "NewReporter = \<lparr>rp_quiet = False\<rparr>"

definition SetQuiet :: "Reporter \<Rightarrow> bool \<Rightarrow> Reporter" where
  "SetQuiet r quiet = r\<lparr>rp_quiet := quiet\<rparr>"

definition AttemptStart :: "Reporter \<Rightarrow> int \<Rightarrow> int \<Rightarrow> string" where
  "AttemptStart r attempt maxAttempts =
     (if rp_quiet r then []
      else ''[retry] Attempt '' @ itoa attempt @ ''/'' @ itoa maxAttempts @ '' starting...'' @ newline)"

definition AttemptFailure :: "Reporter \<Rightarrow> int \<Rightarrow> int \<Rightarrow> string \<Rightarrow> duration \<Rightarrow> string" where
  "AttemptFailure r attempt maxAttempts reason nextDelay =
     (if rp_quiet r then []
      else ''[retry] Attempt '' @ itoa attempt @ ''/'' @ itoa maxAttempts @ '' failed ('' @ reason @ '')''
        @ (if attempt = maxAttempts then ''.'' @ newline
           else ''. Retrying in '' @ formatDuration nextDelay @ ''.'' @ newline))"

definition ShowWarning :: "Reporter \<Rightarrow> string \<Rightarrow> string" where
  "ShowWarning r message = (if rp_quiet r then [] else ''[warning] '' @ message @ newline)"

definition ShowWaiting :: "Reporter \<Rightarrow> duration \<Rightarrow> string \<Rightarrow> string" where
  "ShowWaiting r d message =
     (if rp_quiet r then []
      else ''[waiting] '' @ message @ '' (waiting '' @ formatDuration d @ '')'' @ newline)"

section \<open>RunStats\<close>

record RunStats =
  st_TotalAttempts :: int
  st_SuccessfulRuns :: int
  st_FailedRuns :: int
  st_TotalDuration :: duration
  st_FinalReason :: string
  st_Success :: bool
  st_startTime :: instant
  st_attemptStartTime :: "instant option"

definition NewRunStats :: "instant \<Rightarrow> RunStats" where
  "NewRunStats now = \<lparr>st_TotalAttempts = 0, st_SuccessfulRuns = 0, st_FailedRuns = 0,
     st_TotalDuration = 0, st_FinalReason = [], st_Success = False, st_startTime = now,
     st_attemptStartTime = None\<rparr>"

definition RecordAttemptStart :: "instant \<Rightarrow> RunStats \<Rightarrow> RunStats" where
  "RecordAttemptStart now s =
     s\<lparr>st_attemptStartTime := Some now, st_TotalAttempts := st_TotalAttempts s + 1\<rparr>"

definition RecordAttemptEnd :: "bool \<Rightarrow> string \<Rightarrow> RunStats \<Rightarrow> RunStats" where
  "RecordAttemptEnd success reason s =
     (if success then s\<lparr>st_SuccessfulRuns := st_SuccessfulRuns s + 1\<rparr>
      else s\<lparr>st_FailedRuns := st_FailedRuns s + 1\<rparr>)"

definition Finalize :: "instant \<Rightarrow> bool \<Rightarrow> string \<Rightarrow> RunStats \<Rightarrow> RunStats" where
  "Finalize now success finalReason s =
     s\<lparr>st_Success := success, st_FinalReason := finalReason,
       st_TotalDuration := time_sub now (st_startTime s)\<rparr>"

definition check_mark :: string where
  "check_mark = [CHR 0xE2, CHR 0x9C, CHR 0x85]"

definition cross_mark :: string where
  "cross_mark = [CHR 0xE2, CHR 0x9D, CHR 0x8C]"

definition FinalSummary :: "RunStats \<Rightarrow> string" where
  "FinalSummary s =
     (if st_Success s
      then (if st_TotalAttempts s = 1
            then check_mark @ '' [retry] Command succeeded after 1 attempt.'' @ newline
            else check_mark @ '' [retry] Command succeeded after '' @ itoa (st_TotalAttempts s) @ '' attempts.'' @ newline)
      else (if st_TotalAttempts s = 1
            then cross_mark @ '' [retry] Command failed after 1 attempt.'' @ newline
            else cross_mark @ '' [retry] Command failed after '' @ itoa (st_TotalAttempts s) @ '' attempts.'' @ newline))
     @ newline @ ''Run Statistics:'' @ newline
     @ ''  Total Attempts: '' @ itoa (st_TotalAttempts s) @ newline
     @ ''  Successful Runs: '' @ itoa (st_SuccessfulRuns s) @ newline
     @ ''  Failed Runs: '' @ itoa (st_FailedRuns s) @ newline
     @ ''  Total Duration: '' @ formatDuration (st_TotalDuration s) @ newline
     @ ''  Final Reason: '' @ st_FinalReason s @ newline"

section \<open>Run metrics\<close>

record AttemptMetric =
  am_Duration :: duration
  am_ExitCode :: int
  am_Success :: bool

definition DurationSeconds :: "AttemptMetric \<Rightarrow> f64" where
  "DurationSeconds a = fdiv (f64_of_int (am_Duration a)) (f64_of_int Second)"

record RunMetrics =
  rm_Command :: string
  rm_CommandHash :: string
  rm_FinalStatus :: string
  rm_TotalDurationSeconds :: f64
  rm_TotalAttempts :: int
  rm_SuccessfulAttempts :: int
  rm_FailedAttempts :: int
  rm_Attempts :: "AttemptMetric list"
  rm_Timestamp :: int

definition generateCommandHash :: "(string \<Rightarrow> string) \<Rightarrow> string list \<Rightarrow> string" where
  "generateCommandHash sha256_hex command = take 8 (sha256_hex (join '' '' command))"

fun count_attempts :: "AttemptMetric list \<Rightarrow> int \<times> int" where
  "count_attempts [] = (0, 0)"
| "count_attempts (a # as) =
     (let (s, f) = count_attempts as in if am_Success a then (s + 1, f) else (s, f + 1))"

definition NewRunMetrics ::
  "(string \<Rightarrow> string) \<Rightarrow> instant \<Rightarrow> string list \<Rightarrow> bool \<Rightarrow> duration \<Rightarrow> AttemptMetric list \<Rightarrow> RunMetrics" where
  "NewRunMetrics sha256_hex now command success totalDuration attempts =
     (let (successfulAttempts, failedAttempts) = count_attempts attempts
      in \<lparr>rm_Command = join '' '' command,
          rm_CommandHash = generateCommandHash sha256_hex command,
          rm_FinalStatus = (if success then ''succeeded'' else ''failed''),
          rm_TotalDurationSeconds = fdiv (f64_of_int totalDuration) (f64_of_int Second),
          rm_TotalAttempts = int (length attempts),
          rm_SuccessfulAttempts = successfulAttempts,
          rm_FailedAttempts = failedAttempts,
          rm_Attempts = attempts,
          rm_Timestamp = now div Second\<rparr>)"

lemma count_attempts_eq:
  "count_attempts as = (int (length (filter am_Success as)), int (length (filter (\<lambda>a. \<not> am_Success a) as)))"
  by (induction as) auto

lemma NewRunMetrics_sums:
  "rm_SuccessfulAttempts (NewRunMetrics h t c ok d as) + rm_FailedAttempts (NewRunMetrics h t c ok d as)
     = rm_TotalAttempts (NewRunMetrics h t c ok d as)"
  using length_filter_add_length_filter_not [of am_Success as]
  by (simp add: NewRunMetrics_def count_attempts_eq flip: of_nat_add)

end
