(* ===== verification/Executor.thy ===== *)
theory Executor
  imports HTTPAware Diophantine DaemonClient Conditions Reporting
begin

text \<open>
  The retry executor, \<open>pkg/executor/executor.go\<close>: running the command with its output captured,
  the decision after each attempt, the waits between attempts, the coordination with the
  daemon, and the result. The outside world is a record: the clock, the processes the command
  will be, the random draws and map iteration orders, the network, and the logs of what was
  printed, waited for and started. The clock moves when a process runs and when the executor
  sleeps; the executor's own instructions take no time.

  \<open>strategy\<close> is the sum of the strategies the command line constructs, and its operations are
  the interface dispatch and the type assertions of the source. \<open>net/url\<close>'s host extraction and
  \<open>sha256\<close> are parameters, collected in \<open>env\<close>.
\<close>

section \<open>Capturing output\<close>

definition DefaultMaxBufferSize :: int where
  "DefaultMaxBufferSize = 10 * 1024 * 1024"

record limitedBuffer =
  lb_content :: string
  lb_limit :: int

definition limitedBuffer_Write :: "limitedBuffer \<Rightarrow> string \<Rightarrow> int \<times> limitedBuffer" where
  "limitedBuffer_Write lb p =
     (if lb_limit lb < int (length (lb_content lb)) + int (length p) then
        (let remaining = lb_limit lb - int (length (lb_content lb))
         in if 0 < remaining
            then (remaining, lb\<lparr>lb_content := lb_content lb @ take (nat remaining) p\<rparr>)
            else (int (length p), lb))
      else (int (length p), lb\<lparr>lb_content := lb_content lb @ p\<rparr>))"

text \<open>
  \<open>io.Copy\<close> of the chunks of a stream into \<open>io.MultiWriter(os.Stdout, buf)\<close>: a writer that takes
  fewer bytes than it was given is a short write, which ends the copy with an error.
\<close>

fun copy_output :: "limitedBuffer \<Rightarrow> string list \<Rightarrow> limitedBuffer \<times> bool" where
  "copy_output lb [] = (lb, False)"
| "copy_output lb (p # ps) =
     (case limitedBuffer_Write lb p of (n, lb') \<Rightarrow>
        if n \<noteq> int (length p) then (lb', True) else copy_output lb' ps)"

record CommandOutput =
  co_ExitCode :: int
  co_Stdout :: string
  co_Stderr :: string

datatype run_error = DeadlineExceeded | ErrShortWrite | ErrStart string

text \<open>
  A process: whether it starts, how long it runs by itself, how long it takes to end after the
  termination signal, the chunks its streams deliver, and its exit code, given whether one of
  its pipes was closed on it (\<open>-1\<close> stands for an end by a signal, as in \<open>ExitError.ExitCode\<close>).
\<close>

record process =
  pr_start_error :: "string option"
  pr_elapsed :: duration
  pr_term_delay :: duration
  pr_stdout :: "string list"
  pr_stderr :: "string list"
  pr_exit :: "bool \<Rightarrow> int"

text \<open>
  The runner: the elapsed time, the output and the error; \<open>deadline\<close> is the context's, if any, as the
  time left when the runner is called. Nothing is started for an empty command. A context that has
  expired before the call ends \<open>cmd.Start\<close> before the process exists, and since the runner asks the
  context for its error first, the result is \<open>DeadlineExceeded\<close> whatever else is wrong.
\<close>

definition reaches_start :: "duration option \<Rightarrow> string list \<Rightarrow> bool" where
  "reaches_start deadline command \<longleftrightarrow>
     command \<noteq> [] \<and> (case deadline of None \<Rightarrow> True | Some dl \<Rightarrow> 0 < dl)"

definition RunWithOutputAndContext ::
  "duration option \<Rightarrow> string list \<Rightarrow> process \<Rightarrow> duration \<times> CommandOutput \<times> run_error option" where
  "RunWithOutputAndContext deadline command pr =
     (if command = [] then (0, \<lparr>co_ExitCode = - 1, co_Stdout = [], co_Stderr = []\<rparr>, None)
      else if \<not> reaches_start deadline command
      then (0, \<lparr>co_ExitCode = - 1, co_Stdout = [], co_Stderr = []\<rparr>, Some DeadlineExceeded)
      else case pr_start_error pr of
        Some e \<Rightarrow> (0, \<lparr>co_ExitCode = - 1, co_Stdout = [], co_Stderr = []\<rparr>, Some (ErrStart e))
      | None \<Rightarrow>
          let (out, short1) = copy_output \<lparr>lb_content = [], lb_limit = DefaultMaxBufferSize\<rparr> (pr_stdout pr);
              (err, short2) = copy_output \<lparr>lb_content = [], lb_limit = DefaultMaxBufferSize\<rparr> (pr_stderr pr);
              result = (\<lambda>code. \<lparr>co_ExitCode = code, co_Stdout = lb_content out, co_Stderr = lb_content err\<rparr>);
              code = pr_exit pr (short1 \<or> short2)
          in case deadline of
               Some dl \<Rightarrow>
                 if dl \<le> pr_elapsed pr then (dl + pr_term_delay pr, result (- 1), Some DeadlineExceeded)
                 else if code \<noteq> 0 then (pr_elapsed pr, result code, None)
                 else if short1 \<or> short2 then (pr_elapsed pr, result (- 1), Some ErrShortWrite)
                 else (pr_elapsed pr, result 0, None)
             | None \<Rightarrow>
                 if code \<noteq> 0 then (pr_elapsed pr, result code, None)
                 else if short1 \<or> short2 then (pr_elapsed pr, result (- 1), Some ErrShortWrite)
                 else (pr_elapsed pr, result 0, None))"

section \<open>Strategies as the executor sees them\<close>

datatype strategy =
    SBase base_strategy
  | SDiophantine DiophantineStrategy
  | SAdaptive "base_strategy Adaptive"
  | SHTTPAware "base_strategy HTTPAware"

type_synonym rand = "rng \<times> ranking stream"

fun strategy_Delay :: "platform \<Rightarrow> strategy \<Rightarrow> int \<Rightarrow> rand \<Rightarrow> duration \<times> strategy \<times> rand" where
  "strategy_Delay p (SBase b) n (r, rks) = (case base_Delay p b n r of (d, b', r') \<Rightarrow> (d, SBase b', r', rks))"
| "strategy_Delay p (SDiophantine s) n rr = (Diophantine_Delay s n, SDiophantine s, rr)"
| "strategy_Delay p (SAdaptive a) n rr =
     (case Adaptive_Delay p (base_Delay p) a n rr of (d, a', rr') \<Rightarrow> (d, SAdaptive a', rr'))"
| "strategy_Delay p (SHTTPAware h) n (r, rks) =
     (case HTTPAware_Delay (base_Delay p) h n r of (d, h', r') \<Rightarrow> (d, SHTTPAware h', r', rks))"

section \<open>Executor, world and result\<close>

record env =
  en_platform :: platform
  en_sha256_hex :: "string \<Rightarrow> string"
  en_url_host :: "string \<Rightarrow> string option"
  en_parse_time :: "string \<Rightarrow> instant option"

record Executor =
  xr_MaxAttempts :: int
  xr_BackoffStrategy :: "strategy option"
  xr_Timeout :: duration
  xr_Conditions :: "Checker option"
  xr_Reporter :: "Reporter option"
  xr_DaemonClient :: "DaemonClient option"
  xr_ResourceID :: string

definition NewExecutorWithBackoffAndTimeout :: "int \<Rightarrow> strategy option \<Rightarrow> duration \<Rightarrow> Executor" where
  "NewExecutorWithBackoffAndTimeout maxAttempts strategy timeout =
     \<lparr>xr_MaxAttempts = maxAttempts, xr_BackoffStrategy = strategy, xr_Timeout = timeout,
      xr_Conditions = None, xr_Reporter = None, xr_DaemonClient = None, xr_ResourceID = []\<rparr>"

definition NewExecutor :: "int \<Rightarrow> Executor" where
  "NewExecutor maxAttempts =
     \<lparr>xr_MaxAttempts = maxAttempts, xr_BackoffStrategy = None, xr_Timeout = 0,
      xr_Conditions = None, xr_Reporter = None, xr_DaemonClient = None, xr_ResourceID = []\<rparr>"

definition NewExecutorWithBackoff :: "int \<Rightarrow> strategy option \<Rightarrow> Executor" where
  "NewExecutorWithBackoff maxAttempts strategy =
     \<lparr>xr_MaxAttempts = maxAttempts, xr_BackoffStrategy = strategy, xr_Timeout = 0,
      xr_Conditions = None, xr_Reporter = None, xr_DaemonClient = None, xr_ResourceID = []\<rparr>"

definition NewExecutorWithTimeout :: "int \<Rightarrow> duration \<Rightarrow> Executor" where
  "NewExecutorWithTimeout maxAttempts timeout =
     \<lparr>xr_MaxAttempts = maxAttempts, xr_BackoffStrategy = None, xr_Timeout = timeout,
      xr_Conditions = None, xr_Reporter = None, xr_DaemonClient = None, xr_ResourceID = []\<rparr>"

record Result =
  re_Success :: bool
  re_AttemptCount :: int
  re_ExitCode :: int
  re_TimedOut :: bool
  re_Reason :: string
  re_Stats :: RunStats
  re_Metrics :: RunMetrics

record world =
  w_now :: instant
  w_procs :: "process stream"
  w_rand :: rand
  w_net :: net
  w_out :: string
  w_slept :: "duration list"
  w_started :: "instant list"

definition Sleep :: "duration \<Rightarrow> world \<Rightarrow> world" where
  "Sleep d w = w\<lparr>w_now := w_now w + d, w_slept := w_slept w @ [d]\<rparr>"

definition report :: "Executor \<Rightarrow> (Reporter \<Rightarrow> string) \<Rightarrow> world \<Rightarrow> world" where
  "report e f w = (case xr_Reporter e of None \<Rightarrow> w | Some r \<Rightarrow> w\<lparr>w_out := w_out w @ f r\<rparr>)"

text \<open>
  Running the next process: if the runner gets as far as starting it and it starts, it starts now,
  and the clock moves by the time it took.
\<close>

definition run_process ::
  "duration option \<Rightarrow> string list \<Rightarrow> world \<Rightarrow> CommandOutput \<times> run_error option \<times> world" where
  "run_process deadline command w =
     (case RunWithOutputAndContext deadline command (shd (w_procs w)) of (elapsed, out, err) \<Rightarrow>
        (out, err,
         if reaches_start deadline command
         then w\<lparr>w_now := w_now w + elapsed, w_procs := stl (w_procs w),
                w_started := w_started w @ (if pr_start_error (shd (w_procs w)) = None then [w_now w] else [])\<rparr>
         else w))"

definition executeAttempt ::
  "Executor \<Rightarrow> string list \<Rightarrow> world \<Rightarrow> CommandOutput \<times> run_error option \<times> bool \<times> world" where
  "executeAttempt e command w =
     (if 0 < xr_Timeout e then
        (let adjustedTimeout = wrap64 (xr_Timeout e + 50 * Millisecond);
             (out, err, w') = run_process (Some adjustedTimeout) command w
         in if err = Some DeadlineExceeded
            then (\<lparr>co_ExitCode = - 1, co_Stdout = [], co_Stderr = []\<rparr>, None, True, w')
            else (out, err, False, w'))
      else (let (out, err, w') = run_process None command w in (out, err, False, w')))"

section \<open>Coordination with the daemon\<close>

fun curl_resource :: "(string \<Rightarrow> string option) \<Rightarrow> string list \<Rightarrow> string" where
  "curl_resource url_host [] = ''http-api''"
| "curl_resource url_host (arg # args) =
     (if \<not> has_prefix arg ''-'' then
        (if has_prefix arg ''http'' then
           (case url_host arg of Some h \<Rightarrow> ''http-'' @ h | None \<Rightarrow> ''http-'' @ arg)
         else ''http-'' @ arg)
      else curl_resource url_host args)"

definition deriveResourceID :: "(string \<Rightarrow> string option) \<Rightarrow> string list \<Rightarrow> string" where
  "deriveResourceID url_host command =
     (case command of [] \<Rightarrow> ''unknown''
      | c # args \<Rightarrow>
          if c = ''curl'' then curl_resource url_host args
          else if c = ''psql'' \<or> c = ''mysql'' then ''database''
          else if c = ''aws'' then ''aws-api''
          else if c = ''kubectl'' then ''kubernetes-api''
          else ''cmd-'' @ c)"

definition createPlannedRequests :: "string \<Rightarrow> instant \<Rightarrow> duration list \<Rightarrow> ScheduledRequest list" where
  "createPlannedRequests resourceID baseTime retryOffsets =
     map (\<lambda>i. let offset = retryOffsets ! i in
        \<lparr>sr_ID = resourceID @ ''-'' @ itoa (unix_seconds baseTime) @ ''-'' @ utoa i,
         sr_ResourceID = resourceID,
         sr_ScheduledAt = time_add baseTime offset,
         sr_ExpiresAt = time_add (time_add baseTime offset) Hour\<rparr>) [0..<length retryOffsets]"

definition coordinateWithDaemon ::
  "env \<Rightarrow> Executor \<Rightarrow> DiophantineStrategy \<Rightarrow> string list \<Rightarrow> world \<Rightarrow> Executor \<times> world" where
  "coordinateWithDaemon en e s command w =
     (case xr_DaemonClient e of None \<Rightarrow> (e, w)
      | Some c \<Rightarrow>
          let resourceID = (if xr_ResourceID e = [] then deriveResourceID (en_url_host en) command else xr_ResourceID e);
              requestTime = w_now w;
              req = \<lparr>sq_ResourceID = resourceID, sq_RateLimit = di_rateLimit s, sq_Window = di_window s,
                     sq_RetryOffsets = di_retryOffsets s, sq_RequestTime = requestTime\<rparr>;
              ctxDeadline = time_add (w_now w) (5 * Second);
              (answer, c1, n1) = Client_CanScheduleRequest (en_parse_time en) (ctxDeadline \<le> w_now w) c req (w_net w);
              e1 = e\<lparr>xr_DaemonClient := Some c1\<rparr>; w1 = w\<lparr>w_net := n1\<rparr>
          in case answer of
               Inl err \<Rightarrow> (e1, report e1 (\<lambda>r. ShowWarning r ''Daemon unavailable, using local scheduling'') w1)
             | Inr response \<Rightarrow>
                 let waitTime = time_sub (sp_WaitUntil response) (w_now w1);
                     w2 = (if \<not> sp_CanSchedule response \<and> 0 < waitTime
                           then Sleep waitTime (report e1 (\<lambda>r. ShowWaiting r waitTime ''Waiting for rate limit slot...'') w1)
                           else w1);
                     planned = createPlannedRequests resourceID requestTime (di_retryOffsets s);
                     (err, c2, n2) = RegisterScheduledRequests (ctxDeadline \<le> w_now w2) c1 planned (w_net w2);
                     e2 = e1\<lparr>xr_DaemonClient := Some c2\<rparr>; w3 = w2\<lparr>w_net := n2\<rparr>
                 in (e2, if err \<noteq> None
                         then report e2 (\<lambda>r. ShowWarning r ''Failed to register requests with daemon'') w3
                         else w3))"

definition coordinateDaemon :: "env \<Rightarrow> Executor \<Rightarrow> string list \<Rightarrow> world \<Rightarrow> Executor \<times> world" where
  "coordinateDaemon en e command w =
     (case xr_BackoffStrategy e of
        Some (SDiophantine s) \<Rightarrow> coordinateWithDaemon en e s command w
      | _ \<Rightarrow> (e, w))"

section \<open>After an attempt\<close>

definition processAttemptResult :: "Executor \<Rightarrow> CommandOutput \<Rightarrow> cond_Result \<times> bool" where
  "processAttemptResult e out =
     (let conditionResult =
            (case xr_Conditions e of
               Some c \<Rightarrow> CheckSuccess c (co_ExitCode out) (co_Stdout out) (co_Stderr out)
             | None \<Rightarrow>
                 if co_ExitCode out = 0 then \<lparr>cr_Success = True, cr_Reason = ''exit code 0''\<rparr>
                 else \<lparr>cr_Success = False, cr_Reason = ''exit code '' @ itoa (co_ExitCode out)\<rparr>);
          shouldStop = (cr_Success conditionResult \<or> cr_Reason conditionResult = ''failure pattern matched'')
      in (conditionResult, shouldStop))"

definition recordStrategyOutcome ::
  "env \<Rightarrow> Executor \<Rightarrow> int \<Rightarrow> bool \<Rightarrow> duration \<Rightarrow> world \<Rightarrow> Executor \<times> world" where
  "recordStrategyOutcome en e attempt success duration w =
     (case xr_BackoffStrategy e of
        Some (SAdaptive a) \<Rightarrow>
          let (actualDelay, a1, rr) =
                (if 1 < attempt then Adaptive_Delay (en_platform en) (base_Delay (en_platform en)) a (attempt - 1) (w_rand w)
                 else (0, a, w_rand w));
              (a2, rks) = RecordOutcome a1 actualDelay success duration (snd rr)
          in (e\<lparr>xr_BackoffStrategy := Some (SAdaptive a2)\<rparr>, w\<lparr>w_rand := (fst rr, rks)\<rparr>)
      | _ \<Rightarrow> (e, w))"

text \<open>The type assertion on \<open>ProcessCommandOutput\<close> in the main loop.\<close>

definition processHTTPOutput :: "env \<Rightarrow> CommandOutput \<Rightarrow> world \<Rightarrow> Executor \<Rightarrow> Executor" where
  "processHTTPOutput en out w e =
     (case xr_BackoffStrategy e of
        Some (SHTTPAware h) \<Rightarrow>
          e\<lparr>xr_BackoffStrategy := Some (SHTTPAware
             (ProcessCommandOutput (en_platform en) (w_now w) h (co_Stdout out) (co_Stderr out) (co_ExitCode out)))\<rparr>
      | _ \<Rightarrow> e)"

definition determineFinalReason :: "Executor \<Rightarrow> CommandOutput \<Rightarrow> bool \<Rightarrow> string" where
  "determineFinalReason e lastOutput timedOut =
     (if timedOut then (if xr_MaxAttempts e = 1 then ''timeout'' else ''max retries reached (timeout)'')
      else case xr_Conditions e of
        Some c \<Rightarrow>
          let reason = cr_Reason (CheckSuccess c (co_ExitCode lastOutput) (co_Stdout lastOutput) (co_Stderr lastOutput))
          in if xr_MaxAttempts e = 1 then reason else ''max retries reached ('' @ reason @ '')''
      | None \<Rightarrow>
          let exitReason = (if co_ExitCode lastOutput = 0 then ''exit code 0'' else ''exit code '' @ itoa (co_ExitCode lastOutput))
          in if xr_MaxAttempts e = 1 then exitReason else ''max retries reached ('' @ exitReason @ '')'')"

definition buildFinalResult ::
  "env \<Rightarrow> bool \<Rightarrow> int \<Rightarrow> CommandOutput \<Rightarrow> bool \<Rightarrow> string \<Rightarrow> RunStats \<Rightarrow> AttemptMetric list \<Rightarrow> instant
     \<Rightarrow> string list \<Rightarrow> world \<Rightarrow> Result" where
  "buildFinalResult en success attemptCount lastOutput timedOut reason stats attemptMetrics runStartTime command w =
     \<lparr>re_Success = success, re_AttemptCount = attemptCount, re_ExitCode = co_ExitCode lastOutput,
      re_TimedOut = timedOut, re_Reason = reason, re_Stats = stats,
      re_Metrics = NewRunMetrics (en_sha256_hex en) (w_now w) command success
                     (time_sub (w_now w) runStartTime) attemptMetrics\<rparr>"

section \<open>The retry loop\<close>

record loop_state =
  ls_exec :: Executor
  ls_world :: world
  ls_stats :: RunStats
  ls_metrics :: "AttemptMetric list"
  ls_lastOutput :: CommandOutput
  ls_timedOut :: bool

datatype outcome = Aborted run_error | Stopped Result | Exhausted | Continued

definition failure_text :: "Executor \<Rightarrow> cond_Result \<Rightarrow> bool \<Rightarrow> string" where
  "failure_text e conditionResult timedOut =
     (if timedOut then ''timeout: '' @ Duration_String (xr_Timeout e) else cr_Reason conditionResult)"

text \<open>\<open>BackoffStrategy.Delay(attempt)\<close>, or no delay without a strategy.\<close>

definition next_delay :: "env \<Rightarrow> Executor \<Rightarrow> int \<Rightarrow> world \<Rightarrow> duration \<times> Executor \<times> world" where
  "next_delay en e attempt w =
     (case xr_BackoffStrategy e of None \<Rightarrow> (0, e, w)
      | Some s \<Rightarrow> (case strategy_Delay (en_platform en) s attempt (w_rand w) of
                   (d, s', rr) \<Rightarrow> (d, e\<lparr>xr_BackoffStrategy := Some s'\<rparr>, w\<lparr>w_rand := rr\<rparr>)))"

text \<open>The end of an iteration that does not stop: the last one reports, the others wait.\<close>

definition wait_for_next :: "env \<Rightarrow> int \<Rightarrow> cond_Result \<Rightarrow> loop_state \<Rightarrow> outcome \<times> loop_state" where
  "wait_for_next en attempt cr ls =
     (let e = ls_exec ls; w = ls_world ls; reason = failure_text e cr (ls_timedOut ls)
      in if attempt = xr_MaxAttempts e
         then (Exhausted, ls\<lparr>ls_world := report e (\<lambda>r. AttemptFailure r attempt (xr_MaxAttempts e) reason 0) w\<rparr>)
         else let (delay, e1, w1) = next_delay en e attempt w;
                  w2 = report e1 (\<lambda>r. AttemptFailure r attempt (xr_MaxAttempts e1) reason delay) w1;
                  w3 = (if 0 < delay then Sleep delay w2 else w2)
              in (Continued, ls\<lparr>ls_exec := e1, ls_world := w3\<rparr>))"

definition run_attempt ::
  "env \<Rightarrow> string list \<Rightarrow> instant \<Rightarrow> int \<Rightarrow> loop_state \<Rightarrow> outcome \<times> loop_state" where
  "run_attempt en command runStartTime attempt ls =
     (let e = ls_exec ls;
          w1 = report e (\<lambda>r. AttemptStart r attempt (xr_MaxAttempts e)) (ls_world ls);
          stats1 = RecordAttemptStart (w_now w1) (ls_stats ls);
          (out, err, timeout, w2) = executeAttempt e command w1;
          timedOut = (timeout \<or> ls_timedOut ls);
          attemptDuration = time_sub (w_now w2) (w_now w1);
          ls1 = ls\<lparr>ls_world := w2, ls_stats := stats1, ls_lastOutput := out, ls_timedOut := timedOut\<rparr>
      in case err of
           Some x \<Rightarrow> (Aborted x, ls1)
         | None \<Rightarrow>
             let (cr, shouldStop) = processAttemptResult e out;
                 stats2 = RecordAttemptEnd (cr_Success cr) (cr_Reason cr) stats1;
                 metrics = ls_metrics ls @ [\<lparr>am_Duration = attemptDuration, am_ExitCode = co_ExitCode out,
                                             am_Success = cr_Success cr\<rparr>];
                 (e1, w3) = recordStrategyOutcome en e attempt (cr_Success cr) attemptDuration w2;
                 e2 = processHTTPOutput en out w3 e1;
                 ls2 = ls1\<lparr>ls_exec := e2, ls_world := w3, ls_stats := stats2, ls_metrics := metrics\<rparr>
             in if shouldStop
                then let stats3 = Finalize (w_now w3) (cr_Success cr) (cr_Reason cr) stats2
                     in (Stopped (buildFinalResult en (cr_Success cr) attempt out timedOut (cr_Reason cr)
                                    stats3 metrics runStartTime command w3),
                         ls2\<lparr>ls_stats := stats3\<rparr>)
                else wait_for_next en attempt cr ls2)"

definition all_failed :: "env \<Rightarrow> string list \<Rightarrow> instant \<Rightarrow> loop_state \<Rightarrow> Result" where
  "all_failed en command runStartTime ls =
     (let e = ls_exec ls; w = ls_world ls;
          finalReason = determineFinalReason e (ls_lastOutput ls) (ls_timedOut ls);
          stats = Finalize (w_now w) False finalReason (ls_stats ls)
      in buildFinalResult en False (xr_MaxAttempts e) (ls_lastOutput ls) (ls_timedOut ls) finalReason
           stats (ls_metrics ls) runStartTime command w)"

lemma report_frame [simp]:
  "w_now (report e f w) = w_now w" "w_procs (report e f w) = w_procs w" "w_rand (report e f w) = w_rand w"
  "w_net (report e f w) = w_net w" "w_slept (report e f w) = w_slept w" "w_started (report e f w) = w_started w"
  by (simp_all add: report_def split: option.split)

lemma recordStrategyOutcome_frame:
  assumes "recordStrategyOutcome en e n ok d w = (e', w')"
  shows "xr_MaxAttempts e' = xr_MaxAttempts e" "xr_Timeout e' = xr_Timeout e" "xr_Conditions e' = xr_Conditions e"
    "w_now w' = w_now w" "w_procs w' = w_procs w" "w_slept w' = w_slept w" "w_started w' = w_started w"
  using assms by (auto simp: recordStrategyOutcome_def Let_def split: option.splits strategy.splits prod.splits if_splits)

lemma processHTTPOutput_frame [simp]:
  "xr_MaxAttempts (processHTTPOutput en out w e) = xr_MaxAttempts e"
  "xr_Timeout (processHTTPOutput en out w e) = xr_Timeout e"
  "xr_Conditions (processHTTPOutput en out w e) = xr_Conditions e"
  by (simp_all add: processHTTPOutput_def split: option.split strategy.split)

lemma next_delay_frame:
  assumes "next_delay en e n w = (d, e', w')"
  shows "xr_MaxAttempts e' = xr_MaxAttempts e" "xr_Timeout e' = xr_Timeout e" "xr_Conditions e' = xr_Conditions e"
    "w_now w' = w_now w" "w_procs w' = w_procs w" "w_slept w' = w_slept w" "w_started w' = w_started w"
  using assms by (auto simp: next_delay_def split: option.splits prod.splits)

text \<open>
  The deadline the executor gives an attempt, and whether its attempts get as far as starting a
  process: not for an empty command, and not with a timeout so large that the extra 50 ms wrap it
  around to a negative one.
\<close>

definition attempt_deadline :: "Executor \<Rightarrow> duration option" where
  "attempt_deadline e = (if 0 < xr_Timeout e then Some (wrap64 (xr_Timeout e + 50 * Millisecond)) else None)"

definition starts_processes :: "Executor \<Rightarrow> string list \<Rightarrow> bool" where
  "starts_processes e command \<longleftrightarrow> command \<noteq> [] \<and>
     (xr_Timeout e \<le> 0 \<or> 0 < wrap64 (xr_Timeout e + 50 * Millisecond))"

lemma reaches_start_deadline: "reaches_start (attempt_deadline e) command = starts_processes e command"
  by (auto simp: reaches_start_def attempt_deadline_def starts_processes_def)

lemma executeAttempt_run:
  assumes "executeAttempt e command w = (out, err, timeout, w')"
  obtains out' err' where "run_process (attempt_deadline e) command w = (out', err', w')"
    "timeout = (err' = Some DeadlineExceeded \<and> 0 < xr_Timeout e)"
    "out = (if timeout then \<lparr>co_ExitCode = - 1, co_Stdout = [], co_Stderr = []\<rparr> else out')"
    "err = (if timeout then None else err')"
  using assms by (auto simp: executeAttempt_def attempt_deadline_def Let_def split: if_splits prod.splits)

lemma executeAttempt_frame:
  assumes "executeAttempt e command w = (out, err, timeout, w')"
  shows "w_slept w' = w_slept w" "w_rand w' = w_rand w" "w_net w' = w_net w"
    "w_procs w' = (if starts_processes e command then stl (w_procs w) else w_procs w)"
    "w_started w' = w_started w @
       (if starts_processes e command \<and> pr_start_error (shd (w_procs w)) = None then [w_now w] else [])"
  using assms by (elim executeAttempt_run; auto simp: run_process_def reaches_start_deadline split: prod.splits if_splits)+

text \<open>An attempt that is not aborted did not fail to start its process.\<close>

lemma executeAttempt_started:
  assumes "executeAttempt e command w = (out, None, timeout, w')" "starts_processes e command"
  shows "pr_start_error (shd (w_procs w)) = None"
  using assms(1)
proof (rule executeAttempt_run)
  fix out' err'
  assume "run_process (attempt_deadline e) command w = (out', err', w')"
    "timeout = (err' = Some DeadlineExceeded \<and> 0 < xr_Timeout e)" "None = (if timeout then None else err')"
  then show ?thesis
    using assms(2) by (auto simp: run_process_def RunWithOutputAndContext_def reaches_start_deadline starts_processes_def
        split: option.splits prod.splits if_splits)
qed

lemma wait_for_next_cases:
  assumes "wait_for_next en attempt cr ls = (o', ls')"
  shows "xr_MaxAttempts (ls_exec ls') = xr_MaxAttempts (ls_exec ls)
    \<and> xr_Conditions (ls_exec ls') = xr_Conditions (ls_exec ls) \<and> xr_Timeout (ls_exec ls') = xr_Timeout (ls_exec ls)
    \<and> ls_stats ls' = ls_stats ls \<and> ls_metrics ls' = ls_metrics ls \<and> ls_lastOutput ls' = ls_lastOutput ls
    \<and> ls_timedOut ls' = ls_timedOut ls \<and> w_started (ls_world ls') = w_started (ls_world ls)
    \<and> w_procs (ls_world ls') = w_procs (ls_world ls)
    \<and> (if attempt = xr_MaxAttempts (ls_exec ls) then o' = Exhausted \<and> w_slept (ls_world ls') = w_slept (ls_world ls)
       else o' = Continued \<and> (\<exists>d e1 w1. next_delay en (ls_exec ls) attempt (ls_world ls) = (d, e1, w1)
          \<and> ls_exec ls' = e1 \<and> w_rand (ls_world ls') = w_rand w1
          \<and> w_slept (ls_world ls') = w_slept (ls_world ls) @ (if 0 < d then [d] else [])))"
proof (cases "attempt = xr_MaxAttempts (ls_exec ls)")
  case True
  then show ?thesis using assms by (auto simp: wait_for_next_def Let_def)
next
  case False
  obtain d e1 w1 where nd: "next_delay en (ls_exec ls) attempt (ls_world ls) = (d, e1, w1)"
    by (metis prod_cases3)
  then have r: "o' = Continued" "ls' = ls\<lparr>ls_exec := e1, ls_world :=
      (let w2 = report e1 (\<lambda>r. AttemptFailure r attempt (xr_MaxAttempts e1)
            (failure_text (ls_exec ls) cr (ls_timedOut ls)) d) w1
       in if 0 < d then Sleep d w2 else w2)\<rparr>"
    using assms False by (simp_all add: wait_for_next_def Let_def)
  then show ?thesis using False nd next_delay_frame [OF nd] by (simp add: Let_def Sleep_def)
qed

section \<open>Captured output\<close>

text \<open>Some chunk begins before the limit \<open>L\<close> and ends after it.\<close>

fun chunk_straddles :: "int \<Rightarrow> string list \<Rightarrow> bool" where
  "chunk_straddles L [] = False"
| "chunk_straddles L (p # ps) = ((0 < L \<and> L < int (length p)) \<or> chunk_straddles (L - int (length p)) ps)"

lemma chunk_straddles_past: "L \<le> 0 \<Longrightarrow> \<not> chunk_straddles L ps"
  by (induction ps arbitrary: L) auto

lemma copy_output_spec:
  assumes "int (length (lb_content lb)) \<le> lb_limit lb" "copy_output lb ps = (lb', short)"
  shows "lb_content lb' = take (nat (lb_limit lb)) (lb_content lb @ concat ps)"
    and "short = chunk_straddles (lb_limit lb - int (length (lb_content lb))) ps"
proof -
  have "lb_content lb' = take (nat (lb_limit lb)) (lb_content lb @ concat ps)
      \<and> short = chunk_straddles (lb_limit lb - int (length (lb_content lb))) ps"
    using assms
  proof (induction ps arbitrary: lb)
    case Nil
    then show ?case by auto
  next
    case (Cons p ps)
    let ?c = "lb_content lb" and ?L = "lb_limit lb"
    let ?r = "?L - int (length ?c)"
    consider (fits) "int (length p) \<le> ?r" | (cut) "?r < int (length p)" "0 < ?r" | (full) "?r < int (length p)" "?r = 0"
      using Cons.prems(1) by linarith
    then show ?case
    proof cases
      case fits
      then have w: "limitedBuffer_Write lb p = (int (length p), lb\<lparr>lb_content := ?c @ p\<rparr>)"
        by (simp add: limitedBuffer_Write_def)
      with Cons.IH [of "lb\<lparr>lb_content := ?c @ p\<rparr>"] Cons.prems fits show ?thesis
        by (simp add: algebra_simps)
    next
      case cut
      then have "limitedBuffer_Write lb p = (?r, lb\<lparr>lb_content := ?c @ take (nat ?r) p\<rparr>)"
        by (simp add: limitedBuffer_Write_def Let_def)
      then have "short" "lb' = lb\<lparr>lb_content := ?c @ take (nat ?r) p\<rparr>" using Cons.prems(2) cut by simp_all
      moreover have "nat ?L = length ?c + nat ?r" using cut by linarith
      ultimately show ?thesis using cut by simp
    next
      case full
      then have "limitedBuffer_Write lb p = (int (length p), lb)" by (simp add: limitedBuffer_Write_def)
      with Cons.IH [of lb] Cons.prems full chunk_straddles_past [of "- int (length p)" ps]
        chunk_straddles_past [of 0 ps] show ?thesis by simp
    qed
  qed
  then show "lb_content lb' = take (nat (lb_limit lb)) (lb_content lb @ concat ps)"
    and "short = chunk_straddles (lb_limit lb - int (length (lb_content lb))) ps" by auto
qed

text \<open>
  What an attempt shows of its process, as a specification: nothing and exit code \<open>-1\<close> when no
  process could be started or it reached its deadline; else the exit code it had and the first ten
  megabytes of what it wrote, however the streams were cut into chunks.
\<close>

definition observed_output :: "Executor \<Rightarrow> string list \<Rightarrow> process \<Rightarrow> CommandOutput" where
  "observed_output e command pr =
     (if \<not> starts_processes e command \<or> (case attempt_deadline e of None \<Rightarrow> False | Some dl \<Rightarrow> dl \<le> pr_elapsed pr)
      then \<lparr>co_ExitCode = - 1, co_Stdout = [], co_Stderr = []\<rparr>
      else \<lparr>co_ExitCode = pr_exit pr (chunk_straddles DefaultMaxBufferSize (pr_stdout pr)
              \<or> chunk_straddles DefaultMaxBufferSize (pr_stderr pr)),
            co_Stdout = take (nat DefaultMaxBufferSize) (concat (pr_stdout pr)),
            co_Stderr = take (nat DefaultMaxBufferSize) (concat (pr_stderr pr))\<rparr>)"

lemma observed_output_cong: "xr_Timeout e = xr_Timeout e' \<Longrightarrow> observed_output e = observed_output e'"
  by (simp add: observed_output_def fun_eq_iff attempt_deadline_def starts_processes_def)

lemma observed_output_none:
  "\<not> starts_processes e command \<Longrightarrow>
     observed_output e command pr = \<lparr>co_ExitCode = - 1, co_Stdout = [], co_Stderr = []\<rparr>"
  by (simp add: observed_output_def)

lemma copy_output_new:
  "copy_output \<lparr>lb_content = [], lb_limit = DefaultMaxBufferSize\<rparr> ps = (lb, short) \<Longrightarrow>
     lb_content lb = take (nat DefaultMaxBufferSize) (concat ps) \<and> short = chunk_straddles DefaultMaxBufferSize ps"
  using copy_output_spec [of "\<lparr>lb_content = [], lb_limit = DefaultMaxBufferSize\<rparr>" ps lb short]
  by (simp add: DefaultMaxBufferSize_def)

lemma RunWithOutputAndContext_observed:
  assumes "RunWithOutputAndContext (attempt_deadline e) command pr = (t, out, err)"
    "err = None \<or> err = Some DeadlineExceeded"
  shows "(if err = Some DeadlineExceeded then \<lparr>co_ExitCode = - 1, co_Stdout = [], co_Stderr = []\<rparr> else out)
    = observed_output e command pr"
proof (cases "starts_processes e command")
  case False
  with assms show ?thesis
    by (auto simp: RunWithOutputAndContext_def observed_output_none reaches_start_deadline split: if_splits)
next
  case True
  obtain o1 s1 where c1: "copy_output \<lparr>lb_content = [], lb_limit = DefaultMaxBufferSize\<rparr> (pr_stdout pr) = (o1, s1)"
    by fastforce
  obtain o2 s2 where c2: "copy_output \<lparr>lb_content = [], lb_limit = DefaultMaxBufferSize\<rparr> (pr_stderr pr) = (o2, s2)"
    by fastforce
  from True assms copy_output_new [OF c1] copy_output_new [OF c2] show ?thesis
    by (auto simp: RunWithOutputAndContext_def observed_output_def reaches_start_deadline c1 c2 Let_def starts_processes_def
        split: option.splits if_splits)
qed

lemma executeAttempt_observed:
  assumes "executeAttempt e command w = (out, None, timeout, w')"
  shows "out = observed_output e command (shd (w_procs w))"
  using assms
proof (rule executeAttempt_run)
  fix out' err'
  assume a: "run_process (attempt_deadline e) command w = (out', err', w')"
    "timeout = (err' = Some DeadlineExceeded \<and> 0 < xr_Timeout e)" "None = (if timeout then None else err')"
    "out = (if timeout then \<lparr>co_ExitCode = - 1, co_Stdout = [], co_Stderr = []\<rparr> else out')"
  obtain t where r: "RunWithOutputAndContext (attempt_deadline e) command (shd (w_procs w)) = (t, out', err')"
    using a(1) by (auto simp: run_process_def split: prod.splits)
  have "timeout = (err' = Some DeadlineExceeded)" "err' = None \<or> err' = Some DeadlineExceeded"
    using a(2,3) by (auto split: if_splits)
  with RunWithOutputAndContext_observed [OF r] a(4) show ?thesis by simp
qed

section \<open>One iteration\<close>

text \<open>What one iteration does, in terms of what the command did.\<close>

definition attempt_of :: "Executor \<Rightarrow> string list \<Rightarrow> int \<Rightarrow> world \<Rightarrow> CommandOutput \<times> run_error option \<times> bool \<times> world" where
  "attempt_of e command attempt w =
     executeAttempt e command (report e (\<lambda>r. AttemptStart r attempt (xr_MaxAttempts e)) w)"

lemma attempt_of_frame:
  assumes "attempt_of e command n w = (out, err, timeout, w')"
  shows "w_slept w' = w_slept w" "w_rand w' = w_rand w" "w_net w' = w_net w"
    "w_procs w' = (if starts_processes e command then stl (w_procs w) else w_procs w)"
    "w_started w' = w_started w @
       (if starts_processes e command \<and> pr_start_error (shd (w_procs w)) = None then [w_now w] else [])"
  using executeAttempt_frame [OF assms [unfolded attempt_of_def]] by simp_all

lemma attempt_of_started:
  assumes "attempt_of e command n w = (out, None, timeout, w')"
  shows "w_started w' = w_started w @ (if starts_processes e command then [w_now w] else [])"
  using attempt_of_frame(5) [OF assms] executeAttempt_started [OF assms [unfolded attempt_of_def]] by auto

lemma attempt_of_observed:
  assumes "attempt_of e command n w = (out, None, timeout, w')"
  shows "out = observed_output e command (shd (w_procs w))"
  using executeAttempt_observed [OF assms [unfolded attempt_of_def]] by simp

lemma run_attempt_aborted:
  assumes "attempt_of (ls_exec ls) command n (ls_world ls) = (out, Some x, timeout, w2)"
  shows "\<exists>ls'. run_attempt en command start n ls = (Aborted x, ls') \<and> ls_exec ls' = ls_exec ls
    \<and> ls_world ls' = w2"
  using assms by (simp add: run_attempt_def attempt_of_def Let_def)

text \<open>The loop state once an attempt has been recorded.\<close>

definition recorded ::
  "CommandOutput \<Rightarrow> bool \<Rightarrow> cond_Result \<Rightarrow> duration \<Rightarrow> Executor \<Rightarrow> world \<Rightarrow> loop_state \<Rightarrow> loop_state" where
  "recorded out timeout cr d e w ls = ls\<lparr>ls_lastOutput := out, ls_timedOut := (timeout \<or> ls_timedOut ls),
     ls_exec := e, ls_world := w,
     ls_stats := RecordAttemptEnd (cr_Success cr) (cr_Reason cr) (RecordAttemptStart (w_now (ls_world ls)) (ls_stats ls)),
     ls_metrics := ls_metrics ls @ [\<lparr>am_Duration = d, am_ExitCode = co_ExitCode out, am_Success = cr_Success cr\<rparr>]\<rparr>"

lemma run_attempt_completed:
  assumes at: "attempt_of (ls_exec ls) command n (ls_world ls) = (out, None, timeout, w2)"
    and pr: "processAttemptResult (ls_exec ls) out = (cr, stop)"
    and rec: "recordStrategyOutcome en (ls_exec ls) n (cr_Success cr) (time_sub (w_now w2) (w_now (ls_world ls))) w2 = (e1, w3)"
  defines "ls2 \<equiv> recorded out timeout cr (time_sub (w_now w2) (w_now (ls_world ls))) (processHTTPOutput en out w3 e1) w3 ls"
  shows "run_attempt en command start n ls =
    (if stop then (let stats3 = Finalize (w_now w3) (cr_Success cr) (cr_Reason cr) (ls_stats ls2) in
        (Stopped (buildFinalResult en (cr_Success cr) n out (timeout \<or> ls_timedOut ls) (cr_Reason cr)
            stats3 (ls_metrics ls2) start command w3), ls2\<lparr>ls_stats := stats3\<rparr>))
     else wait_for_next en n cr ls2)"
  using at pr rec by (simp add: run_attempt_def attempt_of_def Let_def recorded_def ls2_def)

text \<open>Every iteration is one of these two.\<close>

lemma run_attempt_E:
  assumes "run_attempt en command start n ls = (o', ls')"
  obtains (aborted) out x timeout w2 where
      "attempt_of (ls_exec ls) command n (ls_world ls) = (out, Some x, timeout, w2)" "o' = Aborted x"
      "ls_exec ls' = ls_exec ls" "ls_world ls' = w2"
  | (completed) out timeout w2 cr stop e1 w3 where
      "attempt_of (ls_exec ls) command n (ls_world ls) = (out, None, timeout, w2)"
      "processAttemptResult (ls_exec ls) out = (cr, stop)"
      "recordStrategyOutcome en (ls_exec ls) n (cr_Success cr) (time_sub (w_now w2) (w_now (ls_world ls))) w2 = (e1, w3)"
      "(o', ls') = (let ls2 = recorded out timeout cr (time_sub (w_now w2) (w_now (ls_world ls)))
            (processHTTPOutput en out w3 e1) w3 ls in
         if stop then (let stats3 = Finalize (w_now w3) (cr_Success cr) (cr_Reason cr) (ls_stats ls2) in
           (Stopped (buildFinalResult en (cr_Success cr) n out (timeout \<or> ls_timedOut ls) (cr_Reason cr)
              stats3 (ls_metrics ls2) start command w3), ls2\<lparr>ls_stats := stats3\<rparr>))
         else wait_for_next en n cr ls2)"
proof -
  obtain out err timeout w2 where at: "attempt_of (ls_exec ls) command n (ls_world ls) = (out, err, timeout, w2)"
    by (metis prod_cases4)
  show thesis
  proof (cases err)
    case (Some x)
    with run_attempt_aborted [of ls command n out x timeout w2 en start] at assms show thesis
      by (auto intro: aborted)
  next
    case None
    obtain cr stop where pr: "processAttemptResult (ls_exec ls) out = (cr, stop)" by fastforce
    obtain e1 w3 where rec: "recordStrategyOutcome en (ls_exec ls) n (cr_Success cr)
        (time_sub (w_now w2) (w_now (ls_world ls))) w2 = (e1, w3)" by fastforce
    show thesis
      using completed [OF at [unfolded None] pr rec] run_attempt_completed [OF at [unfolded None] pr rec, of start] assms
      by (simp add: Let_def)
  qed
qed

lemma recorded_simps [simp]:
  "ls_exec (recorded out t cr d e w ls) = e" "ls_world (recorded out t cr d e w ls) = w"
  "ls_lastOutput (recorded out t cr d e w ls) = out" "ls_timedOut (recorded out t cr d e w ls) = (t \<or> ls_timedOut ls)"
  "ls_metrics (recorded out t cr d e w ls) =
     ls_metrics ls @ [\<lparr>am_Duration = d, am_ExitCode = co_ExitCode out, am_Success = cr_Success cr\<rparr>]"
  by (simp_all add: recorded_def)

lemma run_attempt_Max:
  assumes "run_attempt en command start n ls = (o', ls')"
  shows "xr_MaxAttempts (ls_exec ls') = xr_MaxAttempts (ls_exec ls)
    \<and> (o' = Continued \<longrightarrow> n \<noteq> xr_MaxAttempts (ls_exec ls))"
  using assms
proof (cases rule: run_attempt_E)
  case (completed out timeout w2 cr stop e1 w3)
  note frame = recordStrategyOutcome_frame(1) [OF completed(3)]
  show ?thesis
  proof (cases stop)
    case True
    then show ?thesis using completed(4) frame by (simp add: Let_def)
  next
    case False
    from wait_for_next_cases [OF completed(4) [unfolded Let_def, symmetric, simplified False, simplified]] frame
    show ?thesis by (simp split: if_splits)
  qed
qed simp

function run_loop :: "env \<Rightarrow> string list \<Rightarrow> instant \<Rightarrow> int \<Rightarrow> loop_state \<Rightarrow> (run_error + Result) \<times> loop_state" where
  "run_loop en command runStartTime attempt ls =
     (if attempt \<le> xr_MaxAttempts (ls_exec ls) then
        (case run_attempt en command runStartTime attempt ls of
           (Aborted x, ls') \<Rightarrow> (Inl x, ls')
         | (Stopped res, ls') \<Rightarrow> (Inr res, ls')
         | (Exhausted, ls') \<Rightarrow> (Inr (all_failed en command runStartTime ls'), ls')
         | (Continued, ls') \<Rightarrow> run_loop en command runStartTime (attempt + 1) ls')
      else (Inr (all_failed en command runStartTime ls), ls))"
  by pat_completeness auto
termination
  by (relation "measure (\<lambda>(en, command, start, attempt, ls). nat (xr_MaxAttempts (ls_exec ls) + 1 - attempt))")
    (auto dest!: run_attempt_Max [OF sym])

declare run_loop.simps [simp del]

definition no_output :: CommandOutput where
  "no_output = \<lparr>co_ExitCode = 0, co_Stdout = [], co_Stderr = []\<rparr>"

text \<open>\<open>initializeExecution\<close> and the zero values of \<open>lastOutput\<close> and \<open>timedOut\<close>.\<close>

definition initial_state :: "Executor \<Rightarrow> world \<Rightarrow> loop_state" where
  "initial_state e w = \<lparr>ls_exec = e, ls_world = w, ls_stats = NewRunStats (w_now w), ls_metrics = [],
     ls_lastOutput = no_output, ls_timedOut = False\<rparr>"

definition Run :: "env \<Rightarrow> Executor \<Rightarrow> string list \<Rightarrow> world \<Rightarrow> (run_error + Result) \<times> Executor \<times> world" where
  "Run en e command w =
     (let (e1, w1) = coordinateDaemon en e command w;
          (res, ls) = run_loop en command (w_now w1) 1 (initial_state e1 w1)
      in (res, ls_exec ls, ls_world ls))"

section \<open>Iterations as a step relation\<close>

text \<open>The loop states at the top of iteration \<open>n\<close>, from the state before the first.\<close>

inductive loop_reach :: "env \<Rightarrow> string list \<Rightarrow> instant \<Rightarrow> loop_state \<Rightarrow> int \<Rightarrow> loop_state \<Rightarrow> bool"
  for en command start ls0 where
  first: "loop_reach en command start ls0 1 ls0"
| again: "loop_reach en command start ls0 n ls \<Longrightarrow> n \<le> xr_MaxAttempts (ls_exec ls) \<Longrightarrow>
    run_attempt en command start n ls = (Continued, ls') \<Longrightarrow> loop_reach en command start ls0 (n + 1) ls'"

text \<open>How a run ends: in the iteration that stopped it, or with no iteration at all.\<close>

definition ends_in ::
  "env \<Rightarrow> string list \<Rightarrow> instant \<Rightarrow> int \<Rightarrow> loop_state \<Rightarrow> (run_error + Result) \<times> loop_state \<Rightarrow> bool" where
  "ends_in en command start n ls r \<longleftrightarrow> n \<le> xr_MaxAttempts (ls_exec ls) \<and>
     (case run_attempt en command start n ls of
        (Aborted x, ls') \<Rightarrow> r = (Inl x, ls')
      | (Stopped res, ls') \<Rightarrow> r = (Inr res, ls')
      | (Exhausted, ls') \<Rightarrow> r = (Inr (all_failed en command start ls'), ls')
      | (Continued, ls') \<Rightarrow> False)"

lemma run_loop_ends:
  assumes "loop_reach en command start ls0 n ls" "n \<le> xr_MaxAttempts (ls_exec ls)"
  shows "\<exists>m ls1. loop_reach en command start ls0 m ls1 \<and> ends_in en command start m ls1 (run_loop en command start n ls)"
  using assms
proof (induction en command start n ls rule: run_loop.induct)
  case (1 en command start n ls)
  obtain o' ls' where r: "run_attempt en command start n ls = (o', ls')" by fastforce
  show ?case
  proof (cases "o' = Continued")
    case True
    have M: "xr_MaxAttempts (ls_exec ls') = xr_MaxAttempts (ls_exec ls)" "n \<noteq> xr_MaxAttempts (ls_exec ls)"
      using run_attempt_Max [OF r] True by auto
    have "loop_reach en command start ls0 (n + 1) ls'"
      using "1.prems" r True by (auto intro: loop_reach.again)
    moreover have "n + 1 \<le> xr_MaxAttempts (ls_exec ls')" using M "1.prems"(2) by simp
    moreover have "run_loop en command start n ls = run_loop en command start (n + 1) ls'"
      using "1.prems"(2) r True by (simp add: run_loop.simps [of en command start n ls])
    ultimately show ?thesis using "1.IH" [OF "1.prems"(2) r [symmetric] True] by simp
  next
    case False
    then have "ends_in en command start n ls (run_loop en command start n ls)"
      using "1.prems"(2) r by (cases o') (simp_all add: ends_in_def run_loop.simps [of en command start n ls])
    with "1.prems"(1) show ?thesis by blast
  qed
qed

lemma RecordAttempt_counts:
  "st_TotalAttempts (RecordAttemptEnd ok r (RecordAttemptStart t s)) = st_TotalAttempts s + 1"
  "st_SuccessfulRuns (RecordAttemptEnd ok r (RecordAttemptStart t s)) = st_SuccessfulRuns s + (if ok then 1 else 0)"
  "st_FailedRuns (RecordAttemptEnd ok r (RecordAttemptStart t s)) = st_FailedRuns s + (if ok then 0 else 1)"
  by (simp_all add: RecordAttemptEnd_def RecordAttemptStart_def)

lemma Finalize_counts [simp]:
  "st_TotalAttempts (Finalize t ok r s) = st_TotalAttempts s"
  "st_SuccessfulRuns (Finalize t ok r s) = st_SuccessfulRuns s"
  "st_FailedRuns (Finalize t ok r s) = st_FailedRuns s"
  "st_Success (Finalize t ok r s) = ok"
  "st_FinalReason (Finalize t ok r s) = r"
  by (simp_all add: Finalize_def)

text \<open>The counters an iteration that was not aborted leaves behind.\<close>

definition counted :: "string list \<Rightarrow> loop_state \<Rightarrow> bool \<Rightarrow> CommandOutput \<Rightarrow> loop_state \<Rightarrow> bool" where
  "counted command ls ok out ls' \<longleftrightarrow>
     xr_MaxAttempts (ls_exec ls') = xr_MaxAttempts (ls_exec ls) \<and>
     xr_Conditions (ls_exec ls') = xr_Conditions (ls_exec ls) \<and>
     xr_Timeout (ls_exec ls') = xr_Timeout (ls_exec ls) \<and>
     (\<exists>d. ls_metrics ls' = ls_metrics ls @ [\<lparr>am_Duration = d, am_ExitCode = co_ExitCode out, am_Success = ok\<rparr>]) \<and>
     ls_lastOutput ls' = out \<and>
     st_TotalAttempts (ls_stats ls') = st_TotalAttempts (ls_stats ls) + 1 \<and>
     st_SuccessfulRuns (ls_stats ls') = st_SuccessfulRuns (ls_stats ls) + (if ok then 1 else 0) \<and>
     st_FailedRuns (ls_stats ls') = st_FailedRuns (ls_stats ls) + (if ok then 0 else 1) \<and>
     w_started (ls_world ls') = w_started (ls_world ls) @
       (if starts_processes (ls_exec ls) command then [w_now (ls_world ls)] else []) \<and>
     w_procs (ls_world ls') =
       (if starts_processes (ls_exec ls) command then stl (w_procs (ls_world ls)) else w_procs (ls_world ls)) \<and>
     observed_output (ls_exec ls) command (shd (w_procs (ls_world ls))) = out"

lemma counted_recorded:
  assumes "attempt_of (ls_exec ls) command n (ls_world ls) = (out, None, timeout, w2)"
    "recordStrategyOutcome en (ls_exec ls) n ok d w2 = (e1, w3)" "cr_Success cr = ok"
  shows "counted command ls ok out (recorded out timeout cr d' (processHTTPOutput en out w3 e1) w3 ls)"
  using recordStrategyOutcome_frame [OF assms(2)] attempt_of_frame(4) [OF assms(1)] attempt_of_started [OF assms(1)]
    attempt_of_observed [OF assms(1)] assms(3)
  by (simp add: counted_def recorded_def RecordAttempt_counts)

lemma run_attempt_counted:
  assumes "run_attempt en command start n ls = (o', ls')" "\<And>x. o' \<noteq> Aborted x"
  obtains out timeout w2 cr stop where
    "attempt_of (ls_exec ls) command n (ls_world ls) = (out, None, timeout, w2)"
    "processAttemptResult (ls_exec ls) out = (cr, stop)" "counted command ls (cr_Success cr) out ls'"
    "ls_timedOut ls' = (timeout \<or> ls_timedOut ls)"
    "stop \<Longrightarrow> o' = Stopped (buildFinalResult en (cr_Success cr) n out (ls_timedOut ls') (cr_Reason cr)
        (ls_stats ls') (ls_metrics ls') start command (ls_world ls')) \<and> st_Success (ls_stats ls') = cr_Success cr
        \<and> w_slept (ls_world ls') = w_slept (ls_world ls)"
    "\<not> stop \<Longrightarrow> o' = (if n = xr_MaxAttempts (ls_exec ls) then Exhausted else Continued)"
    "length (w_slept (ls_world ls')) \<le> length (w_slept (ls_world ls)) + (if o' = Continued then 1 else 0)"
  using assms(1)
proof (cases rule: run_attempt_E)
  case (completed out timeout w2 cr stop e1 w3)
  let ?d = "time_sub (w_now w2) (w_now (ls_world ls))"
  let ?ls2 = "recorded out timeout cr ?d (processHTTPOutput en out w3 e1) w3 ls"
  have cnt: "counted command ls (cr_Success cr) out ?ls2" by (rule counted_recorded [OF completed(1,3) refl])
  have sl: "w_slept w3 = w_slept (ls_world ls)"
    using recordStrategyOutcome_frame [OF completed(3)] attempt_of_frame(1) [OF completed(1)] by simp
  show thesis
  proof (cases stop)
    case True
    let ?st = "Finalize (w_now w3) (cr_Success cr) (cr_Reason cr) (ls_stats ?ls2)"
    have r: "o' = Stopped (buildFinalResult en (cr_Success cr) n out (timeout \<or> ls_timedOut ls) (cr_Reason cr)
        ?st (ls_metrics ?ls2) start command w3)" "ls' = ?ls2\<lparr>ls_stats := ?st\<rparr>"
      using completed(4) True by (simp_all add: Let_def)
    have "counted command ls (cr_Success cr) out ls'" using cnt r(2) by (simp add: counted_def)
    then show thesis using that [OF completed(1,2)] r sl True by simp
  next
    case False
    then have "wait_for_next en n cr ?ls2 = (o', ls')" using completed(4) by (simp add: Let_def)
    note wf = wait_for_next_cases [OF this]
    then have "counted command ls (cr_Success cr) out ls'" using cnt by (simp add: counted_def)
    moreover have "o' = (if n = xr_MaxAttempts (ls_exec ls) then Exhausted else Continued)"
      using wf recordStrategyOutcome_frame(1) [OF completed(3)] by (simp split: if_splits)
    moreover have "length (w_slept (ls_world ls')) \<le> length (w_slept (ls_world ls)) + (if o' = Continued then 1 else 0)"
      using wf sl by (auto split: if_splits)
    ultimately show thesis using that [OF completed(1,2)] wf False by simp
  qed
qed (use assms(2) in simp)

section \<open>Results and counters agree\<close>

text \<open>
  How an output is judged, as a specification: the failure pattern decides first, then the success
  pattern, each on both streams, then the exit code; without conditions only the exit code counts.
\<close>

definition failure_seen :: "Executor \<Rightarrow> CommandOutput \<Rightarrow> bool" where
  "failure_seen e out \<longleftrightarrow>
     (case xr_Conditions e of None \<Rightarrow> False | Some c \<Rightarrow> matches (ck_failurePattern c) (co_Stdout out) (co_Stderr out))"

definition success_seen :: "Executor \<Rightarrow> CommandOutput \<Rightarrow> bool" where
  "success_seen e out \<longleftrightarrow>
     (case xr_Conditions e of None \<Rightarrow> False | Some c \<Rightarrow> matches (ck_successPattern c) (co_Stdout out) (co_Stderr out))"

definition judged_success :: "Executor \<Rightarrow> CommandOutput \<Rightarrow> bool" where
  "judged_success e out \<longleftrightarrow> \<not> failure_seen e out \<and> (success_seen e out \<or> co_ExitCode out = 0)"

lemmas judged_defs = judged_success_def failure_seen_def success_seen_def

lemma judged_cong:
  "xr_Conditions e = xr_Conditions e' \<Longrightarrow> judged_success e = judged_success e' \<and> failure_seen e = failure_seen e'"
  by (simp add: judged_defs fun_eq_iff)

lemma processAttemptResult_judged:
  assumes "processAttemptResult e out = (cr, stop)"
  shows "cr_Success cr = judged_success e out" "stop = (judged_success e out \<or> failure_seen e out)"
proof -
  have "cr_Success cr = judged_success e out \<and> stop = (judged_success e out \<or> failure_seen e out)"
  proof (cases "xr_Conditions e")
    case None
    with assms exit_code_reason [of "co_ExitCode out"] show ?thesis
      by (cases "co_ExitCode out = 0") (auto simp: processAttemptResult_def judged_defs exit_code_result_def Let_def)
  next
    case (Some c)
    with assms show ?thesis
      by (auto simp: processAttemptResult_def judged_defs CheckSuccess_success CheckSuccess_failure_reason Let_def)
  qed
  then show "cr_Success cr = judged_success e out" "stop = (judged_success e out \<or> failure_seen e out)" by auto
qed

text \<open>The output of the attempt with index \<open>k\<close> of a run that starts in \<open>w\<close>, and that it lets the run go on.\<close>

definition nth_output :: "Executor \<Rightarrow> string list \<Rightarrow> world \<Rightarrow> nat \<Rightarrow> CommandOutput" where
  "nth_output e command w k = observed_output e command (w_procs w !! k)"

definition inconclusive :: "Executor \<Rightarrow> CommandOutput \<Rightarrow> bool" where
  "inconclusive e out \<longleftrightarrow> \<not> judged_success e out \<and> \<not> failure_seen e out"

definition loop_inv :: "Executor \<Rightarrow> string list \<Rightarrow> world \<Rightarrow> int \<Rightarrow> loop_state \<Rightarrow> bool" where
  "loop_inv e command w n ls \<longleftrightarrow> 1 \<le> n \<and> n \<le> xr_MaxAttempts e
     \<and> xr_MaxAttempts (ls_exec ls) = xr_MaxAttempts e \<and> xr_Conditions (ls_exec ls) = xr_Conditions e
     \<and> xr_Timeout (ls_exec ls) = xr_Timeout e
     \<and> int (length (ls_metrics ls)) = n - 1 \<and> (\<forall>m \<in> set (ls_metrics ls). \<not> am_Success m)
     \<and> st_TotalAttempts (ls_stats ls) = n - 1 \<and> st_SuccessfulRuns (ls_stats ls) = 0
     \<and> st_FailedRuns (ls_stats ls) = n - 1
     \<and> int (length (w_started (ls_world ls))) =
         int (length (w_started w)) + (if starts_processes e command then n - 1 else 0)
     \<and> w_procs (ls_world ls) = (if starts_processes e command then sdrop (nat (n - 1)) (w_procs w) else w_procs w)
     \<and> (\<forall>k < nat (n - 1). inconclusive e (nth_output e command w k))
     \<and> int (length (w_slept (ls_world ls))) \<le> int (length (w_slept w)) + (n - 1)"

lemma processAttemptResult_stop:
  "processAttemptResult e out = (cr, stop) \<Longrightarrow>
     stop = (cr_Success cr \<or> cr_Reason cr = ''failure pattern matched'')"
  by (auto simp: processAttemptResult_def Let_def)

lemma loop_inv_conditions:
  assumes "loop_inv e command w n ls"
  shows "judged_success (ls_exec ls) = judged_success e" "failure_seen (ls_exec ls) = failure_seen e"
    "starts_processes (ls_exec ls) command = starts_processes e command"
    "observed_output (ls_exec ls) command (shd (w_procs (ls_world ls))) = nth_output e command w (nat (n - 1))"
proof -
  have c: "xr_Conditions (ls_exec ls) = xr_Conditions e" "xr_Timeout (ls_exec ls) = xr_Timeout e"
    "w_procs (ls_world ls) = (if starts_processes e command then sdrop (nat (n - 1)) (w_procs w) else w_procs w)"
    using assms by (simp_all add: loop_inv_def)
  show "judged_success (ls_exec ls) = judged_success e" "failure_seen (ls_exec ls) = failure_seen e"
    using judged_cong [OF c(1)] by auto
  show "starts_processes (ls_exec ls) command = starts_processes e command" using c(2) by (simp add: starts_processes_def)
  show "observed_output (ls_exec ls) command (shd (w_procs (ls_world ls))) = nth_output e command w (nat (n - 1))"
    using observed_output_cong [OF c(2)] c(3) by (simp add: nth_output_def observed_output_none)
qed

lemma less_nat_int_Suc: "1 \<le> n \<Longrightarrow> k < nat n \<longleftrightarrow> k < nat (n - 1) \<or> k = nat (n - 1)" for k :: nat
  by linarith

lemma loop_inv_reach:
  assumes "loop_reach en command start (initial_state e w) n ls" "1 \<le> xr_MaxAttempts e"
  shows "loop_inv e command w n ls"
  using assms
proof (induction rule: loop_reach.induct)
  case first
  then show ?case by (simp add: loop_inv_def initial_state_def NewRunStats_def)
next
  case (again n ls ls')
  have inv: "loop_inv e command w n ls" using again by blast
  note ic = loop_inv_conditions [OF inv]
  from again.hyps(3) show ?case
  proof (rule run_attempt_counted)
    fix out timeout w2 cr stop
    assume c: "processAttemptResult (ls_exec ls) out = (cr, stop)" "counted command ls (cr_Success cr) out ls'"
      "stop \<Longrightarrow> Continued = Stopped (buildFinalResult en (cr_Success cr) n out (ls_timedOut ls') (cr_Reason cr)
        (ls_stats ls') (ls_metrics ls') start command (ls_world ls')) \<and> st_Success (ls_stats ls') = cr_Success cr
        \<and> w_slept (ls_world ls') = w_slept (ls_world ls)"
      "\<not> stop \<Longrightarrow> Continued = (if n = xr_MaxAttempts (ls_exec ls) then Exhausted else Continued)"
      "length (w_slept (ls_world ls')) \<le> length (w_slept (ls_world ls)) + (if Continued = Continued then 1 else 0)"
    then have ns: "\<not> stop" by auto
    then have n: "\<not> cr_Success cr" "n \<noteq> xr_MaxAttempts (ls_exec ls)"
      using processAttemptResult_stop [OF c(1)] c(4) by (auto split: if_splits)
    have out: "out = nth_output e command w (nat (n - 1))" using c(2) ic(4) by (simp add: counted_def)
    have "1 \<le> n" using inv by (simp add: loop_inv_def)
    then have "nat n = Suc (nat (n - 1))" by simp
    have "inconclusive e (nth_output e command w (nat (n - 1)))"
      using processAttemptResult_judged(2) [OF c(1)] ns ic(1,2) out by (simp add: inconclusive_def)
    moreover have "\<forall>k < nat (n - 1). inconclusive e (nth_output e command w k)" using inv by (simp add: loop_inv_def)
    ultimately have "\<forall>k < nat n. inconclusive e (nth_output e command w k)"
      using less_nat_int_Suc [OF \<open>1 \<le> n\<close>] by blast
    moreover have "w_procs (ls_world ls') = (if starts_processes e command then sdrop (nat n) (w_procs w) else w_procs w)"
      using inv c(2) ic(3) \<open>nat n = Suc (nat (n - 1))\<close> unfolding loop_inv_def counted_def
      by (simp del: sdrop.simps)
    ultimately show ?thesis using inv c(2,5) n ic(3) unfolding loop_inv_def counted_def by auto
  qed simp
qed

text \<open>The same counters at the end of a run that was not aborted.\<close>

definition final_ok :: "Executor \<Rightarrow> string list \<Rightarrow> world \<Rightarrow> Result \<Rightarrow> loop_state \<Rightarrow> bool" where
  "final_ok e command w res ls \<longleftrightarrow> 1 \<le> re_AttemptCount res \<and> re_AttemptCount res \<le> xr_MaxAttempts e
     \<and> int (length (w_started (ls_world ls))) =
         int (length (w_started w)) + (if starts_processes e command then re_AttemptCount res else 0)
     \<and> int (length (w_slept (ls_world ls))) \<le> int (length (w_slept w)) + (re_AttemptCount res - 1)
     \<and> (\<exists>ms m. rm_Attempts (re_Metrics res) = ms @ [m] \<and> int (length ms) = re_AttemptCount res - 1
          \<and> (\<forall>x \<in> set ms. \<not> am_Success x) \<and> am_Success m = re_Success res \<and> am_ExitCode m = re_ExitCode res)
     \<and> st_TotalAttempts (re_Stats res) = re_AttemptCount res
     \<and> st_SuccessfulRuns (re_Stats res) = (if re_Success res then 1 else 0)
     \<and> st_FailedRuns (re_Stats res) = re_AttemptCount res - (if re_Success res then 1 else 0)
     \<and> st_Success (re_Stats res) = re_Success res
     \<and> (let out = nth_output e command w (nat (re_AttemptCount res - 1)) in
          re_ExitCode res = co_ExitCode out \<and> re_Success res = judged_success e out
          \<and> (re_Success res \<or> failure_seen e out \<or> re_AttemptCount res = xr_MaxAttempts e))
     \<and> (\<forall>k < nat (re_AttemptCount res - 1). inconclusive e (nth_output e command w k))
     \<and> (re_Success res \<or> re_ExitCode res \<noteq> 0 \<or> re_Reason res = ''failure pattern matched'')
     \<and> re_ExitCode res = co_ExitCode (ls_lastOutput ls)"

lemma processAttemptResult_nonzero: "processAttemptResult e out = (cr, False) \<Longrightarrow> co_ExitCode out \<noteq> 0"
  by (auto simp: processAttemptResult_def CheckSuccess_def exit_code_result_def Let_def split: option.splits if_splits)

lemma rm_Attempts_NewRunMetrics [simp]: "rm_Attempts (NewRunMetrics h t c ok d as) = as"
  by (simp add: NewRunMetrics_def split: prod.split)

lemma ends_in_final_ok:
  assumes "loop_inv e command w n ls" "ends_in en command start n ls (Inr res, lsf)"
  shows "final_ok e command w res lsf"
proof -
  obtain o' ls' where r: "run_attempt en command start n ls = (o', ls')" by fastforce
  have ls': "ls' = lsf" and not_ab: "\<And>x. o' \<noteq> Aborted x" and not_c: "o' \<noteq> Continued"
    using assms(2) r by (cases o'; auto simp: ends_in_def)+
  from r not_ab show ?thesis
  proof (rule run_attempt_counted)
    fix out timeout w2 cr stop
    assume pr: "processAttemptResult (ls_exec ls) out = (cr, stop)" and cnt: "counted command ls (cr_Success cr) out ls'"
      and st: "stop \<Longrightarrow> o' = Stopped (buildFinalResult en (cr_Success cr) n out (ls_timedOut ls') (cr_Reason cr)
        (ls_stats ls') (ls_metrics ls') start command (ls_world ls')) \<and> st_Success (ls_stats ls') = cr_Success cr
        \<and> w_slept (ls_world ls') = w_slept (ls_world ls)"
      and nst: "\<not> stop \<Longrightarrow> o' = (if n = xr_MaxAttempts (ls_exec ls) then Exhausted else Continued)"
      and sl: "length (w_slept (ls_world ls')) \<le> length (w_slept (ls_world ls)) + (if o' = Continued then 1 else 0)"
    note ic = loop_inv_conditions [OF assms(1)]
    have out: "out = nth_output e command w (nat (n - 1))" using cnt ic(4) by (simp add: counted_def)
    have j: "cr_Success cr = judged_success e out" "stop = (judged_success e out \<or> failure_seen e out)"
      using processAttemptResult_judged [OF pr] ic(1,2) by simp_all
    show ?thesis
    proof (cases stop)
      case True
      then have "res = buildFinalResult en (cr_Success cr) n out (ls_timedOut lsf) (cr_Reason cr)
          (ls_stats lsf) (ls_metrics lsf) start command (ls_world lsf)"
        using assms(2) r st ls' by (simp add: ends_in_def)
      with assms(1) cnt st [OF True] j out ic(3) True ls' processAttemptResult_stop [OF pr] show ?thesis
        by (auto simp: final_ok_def buildFinalResult_def loop_inv_def counted_def Let_def)
    next
      case False
      then have n: "o' = Exhausted" "n = xr_MaxAttempts e" "\<not> cr_Success cr"
        using nst not_c assms(1) processAttemptResult_stop [OF pr] by (auto simp: loop_inv_def split: if_splits)
      then have "res = all_failed en command start lsf" using assms(2) r ls' by (simp add: ends_in_def)
      moreover have "co_ExitCode out \<noteq> 0" using processAttemptResult_nonzero pr False by simp
      ultimately show ?thesis using assms(1) cnt n j out ic(3) sl ls'
        by (auto simp: final_ok_def all_failed_def buildFinalResult_def loop_inv_def counted_def Let_def)
    qed
  qed
qed

lemma coordinateDaemon_frame:
  assumes "coordinateDaemon en e command w = (e', w')"
  shows "xr_MaxAttempts e' = xr_MaxAttempts e" "xr_Conditions e' = xr_Conditions e" "xr_Timeout e' = xr_Timeout e"
    "xr_BackoffStrategy e' = xr_BackoffStrategy e" "w_started w' = w_started w" "w_procs w' = w_procs w" "w_rand w' = w_rand w"
  using assms
  by (auto simp: coordinateDaemon_def coordinateWithDaemon_def Let_def Sleep_def
      split: option.splits strategy.splits prod.splits sum.splits if_splits)

text \<open>The coordination waits at most once, and only with a Diophantine strategy and a client.\<close>

lemma coordinateDaemon_slept:
  assumes "coordinateDaemon en e command w = (e', w')"
  obtains pre where "w_slept w' = w_slept w @ pre" "length pre \<le> 1" "\<forall>d \<in> set pre. 0 < d"
    "pre \<noteq> [] \<Longrightarrow> xr_DaemonClient e \<noteq> None \<and> (\<exists>s. xr_BackoffStrategy e = Some (SDiophantine s))"
proof (cases "w_slept w' = w_slept w")
  case True
  then show thesis using that [of "[]"] by simp
next
  case False
  with assms obtain d where "w_slept w' = w_slept w @ [d]" "0 < d"
      "xr_DaemonClient e \<noteq> None \<and> (\<exists>s. xr_BackoffStrategy e = Some (SDiophantine s))"
    by (auto simp: coordinateDaemon_def coordinateWithDaemon_def Let_def Sleep_def
        split: option.splits strategy.splits prod.splits sum.splits if_splits)
  then show thesis using that [of "[d]"] by simp
qed

lemma Run_E:
  assumes "Run en e command w = (r, e', w')" "1 \<le> xr_MaxAttempts e"
  obtains e1 w1 n ls lsf where "coordinateDaemon en e command w = (e1, w1)"
    "loop_reach en command (w_now w1) (initial_state e1 w1) n ls" "loop_inv e1 command w1 n ls"
    "ends_in en command (w_now w1) n ls (r, lsf)" "ls_exec lsf = e'" "ls_world lsf = w'"
proof -
  obtain e1 w1 where c: "coordinateDaemon en e command w = (e1, w1)" by fastforce
  let ?ls0 = "initial_state e1 w1"
  obtain lsf where l: "run_loop en command (w_now w1) 1 ?ls0 = (r, lsf)" "ls_exec lsf = e'" "ls_world lsf = w'"
    using assms(1) c by (auto simp: Run_def Let_def split: prod.splits)
  have M: "1 \<le> xr_MaxAttempts e1" using coordinateDaemon_frame(1) [OF c] assms(2) by simp
  then have "1 \<le> xr_MaxAttempts (ls_exec ?ls0)" by (simp add: initial_state_def)
  from run_loop_ends [OF loop_reach.first this] l(1) obtain n ls where
    "loop_reach en command (w_now w1) ?ls0 n ls" "ends_in en command (w_now w1) n ls (r, lsf)" by metis
  with that [OF c] loop_inv_reach [OF this(1) M] l(2,3) show thesis by blast
qed

lemma Run_final:
  assumes "Run en e command w = (Inr res, e', w')" "1 \<le> xr_MaxAttempts e"
  obtains e1 w1 lsf where "coordinateDaemon en e command w = (e1, w1)" "final_ok e1 command w1 res lsf" "ls_world lsf = w'"
  using assms by (elim Run_E) (auto intro: ends_in_final_ok)

section \<open>Properties\<close>

text \<open>A concrete run: the command fails once and then succeeds.\<close>

definition sample_process :: "int \<Rightarrow> process" where
  "sample_process code = \<lparr>pr_start_error = None, pr_elapsed = Second, pr_term_delay = 0,
     pr_stdout = [], pr_stderr = [], pr_exit = (\<lambda>_. code)\<rparr>"

definition sample_env :: env where
  "sample_env = \<lparr>en_platform = amd64, en_sha256_hex = id, en_url_host = (\<lambda>_. None), en_parse_time = (\<lambda>_. None)\<rparr>"

definition sample_world :: "process stream \<Rightarrow> world" where
  "sample_world ps = \<lparr>w_now = 0, w_procs = ps, w_rand = (half_draws, sconst (\<lambda>_. 0)),
     w_net = \<lparr>nt_dials = sconst False, nt_replies = sconst None, nt_sent = []\<rparr>,
     w_out = [], w_slept = [], w_started = []\<rparr>"

definition sample_exec :: Executor where
  "sample_exec = NewExecutorWithBackoff 3 (Some (SBase (BFixed (NewFixed Second))))"

lemma copy_output_Nil [simp]: "copy_output lb [] = (lb, False)"
  by simp

lemmas run_simps = Run_def coordinateDaemon_def run_loop.simps run_attempt_def executeAttempt_def run_process_def
  reaches_start_def RunWithOutputAndContext_def processAttemptResult_def recordStrategyOutcome_def processHTTPOutput_def
  wait_for_next_def next_delay_def initial_state_def report_def Sleep_def buildFinalResult_def all_failed_def
  determineFinalReason_def no_output_def Let_def

lemma sample_run:
  "\<exists>res e' w'. Run sample_env sample_exec [''true''] (sample_world (sample_process 1 ## sconst (sample_process 0))) = (Inr res, e', w')
     \<and> re_Success res \<and> re_AttemptCount res = 2 \<and> w_slept w' = [Second]"
  by (simp add: run_simps sample_env_def sample_exec_def NewExecutorWithBackoff_def sample_world_def
      sample_process_def strategy_defs Fixed_Delay_def Second_def)

lemma coordinateDaemon_specs:
  assumes "coordinateDaemon en e command w = (e', w')"
  shows "starts_processes e' = starts_processes e" "judged_success e' = judged_success e"
    "failure_seen e' = failure_seen e" "inconclusive e' = inconclusive e"
    "nth_output e' command w' = nth_output e command w"
  using coordinateDaemon_frame [OF assms] observed_output_cong [of e' e] judged_cong [of e' e]
  by (simp_all add: starts_processes_def fun_eq_iff nth_output_def inconclusive_def)

text \<open>C1. Result, statistics, metrics and what really happened agree. When a run with at least one
  attempt returns a result, with or without a daemon, the attempt count is between 1 and the maximum
  and is the number of attempts in the statistics and of entries in the metrics; as many processes
  were really started, or none at all when attempts cannot start one (an empty command, or a timeout
  that overflows when the 50 ms are added, so that its context has expired from the beginning);
  every attempt before the last failed; the last one has the result's exit code and its success is
  the result's; and there were fewer waits than attempts, but for one more that the daemon may ask
  for before the first attempt.\<close>

theorem run_counts_attempts:
  assumes "1 \<le> xr_MaxAttempts e" "Run en e command w = (Inr res, e', w')"
  defines "attempts \<equiv> rm_Attempts (re_Metrics res)"
  shows "(1 \<le> re_AttemptCount res \<and> re_AttemptCount res \<le> xr_MaxAttempts e)
    \<and> (int (length (w_started w')) =
         int (length (w_started w)) + (if starts_processes e command then re_AttemptCount res else 0))
    \<and> (int (length attempts) = re_AttemptCount res)
    \<and> (st_TotalAttempts (re_Stats res) = re_AttemptCount res)
    \<and> (\<forall>m \<in> set (butlast attempts). \<not> am_Success m)
    \<and> (am_Success (last attempts) = re_Success res)
    \<and> (am_ExitCode (last attempts) = re_ExitCode res)
    \<and> (int (length (w_slept w')) < int (length (w_slept w)) + re_AttemptCount res
         + (if xr_DaemonClient e = None then 0 else 1))"
proof -
  obtain e1 w1 lsf where c: "coordinateDaemon en e command w = (e1, w1)" and f: "final_ok e1 command w1 res lsf"
      and w': "ls_world lsf = w'" by (rule Run_final [OF assms(2,1)])
  note fr = coordinateDaemon_frame [OF c] and sp = coordinateDaemon_specs [OF c]
  obtain pre where pre: "w_slept w1 = w_slept w @ pre" "length pre \<le> 1" "pre \<noteq> [] \<Longrightarrow> xr_DaemonClient e \<noteq> None"
    by (rule coordinateDaemon_slept [OF c]) auto
  obtain ms m where a: "attempts = ms @ [m]" "int (length ms) = re_AttemptCount res - 1"
      "\<forall>x \<in> set ms. \<not> am_Success x" "am_Success m = re_Success res" "am_ExitCode m = re_ExitCode res"
    using f by (auto simp: final_ok_def attempts_def)
  have "int (length (w_slept w')) < int (length (w_slept w)) + re_AttemptCount res + (if xr_DaemonClient e = None then 0 else 1)"
    using f w' pre by (cases pre) (auto simp: final_ok_def)
  moreover have "1 \<le> re_AttemptCount res" "re_AttemptCount res \<le> xr_MaxAttempts e"
      "int (length (w_started w')) = int (length (w_started w)) + (if starts_processes e command then re_AttemptCount res else 0)"
      "st_TotalAttempts (re_Stats res) = re_AttemptCount res"
    using f w' fr(1,5) sp(1) by (simp_all add: final_ok_def)
  ultimately show ?thesis using a by simp
qed

theorem run_counts_attempts_witness:
  "\<exists>res e' w'. Run sample_env sample_exec [''true''] (sample_world (sample_process 1 ## sconst (sample_process 0))) = (Inr res, e', w')
     \<and> length (w_started w') = 2 \<and> int (length (rm_Attempts (re_Metrics res))) = 2
     \<and> am_Success (last (rm_Attempts (re_Metrics res)))"
proof -
  obtain res e' w' where r: "Run sample_env sample_exec [''true''] (sample_world (sample_process 1 ## sconst (sample_process 0))) = (Inr res, e', w')"
    "re_Success res" "re_AttemptCount res = 2" using sample_run by blast
  have "1 \<le> xr_MaxAttempts sample_exec" "starts_processes sample_exec [''true'']"
    by (simp_all add: sample_exec_def NewExecutorWithBackoff_def starts_processes_def)
  with run_counts_attempts [OF this(1) r(1)] r show ?thesis by (auto simp: sample_world_def)
qed

text \<open>C2. A run is judged by what its last process wrote and how it ended. The result's exit code is
  that of the last attempt; the run succeeds exactly when the failure pattern matches neither stream of
  that attempt's process (up to ten megabytes of each) and the success pattern matches one of them or
  the exit code is 0, which alone counts without patterns; a run that does not succeed either used up
  its attempts or stopped at once because the failure pattern matched that output; and the outputs of
  all earlier attempts, in the order of the processes, were judged neither a success nor matched by the
  failure pattern. An attempt that timed out or could start no process shows exit code -1 and nothing
  on its streams.\<close>

theorem run_success_means:
  assumes "1 \<le> xr_MaxAttempts e" "Run en e command w = (Inr res, e', w')"
  defines "out \<equiv> \<lambda>k. observed_output e command (w_procs w !! k)" and "last_k \<equiv> nat (re_AttemptCount res - 1)"
  shows "re_ExitCode res = co_ExitCode (out last_k)
    \<and> (re_Success res \<longleftrightarrow> \<not> failure_seen e (out last_k) \<and> (success_seen e (out last_k) \<or> re_ExitCode res = 0))
    \<and> (re_Success res \<or> failure_seen e (out last_k) \<or> re_AttemptCount res = xr_MaxAttempts e)
    \<and> (\<forall>k < last_k. \<not> failure_seen e (out k) \<and> \<not> success_seen e (out k) \<and> co_ExitCode (out k) \<noteq> 0)"
proof -
  obtain e1 w1 lsf where c: "coordinateDaemon en e command w = (e1, w1)" and f: "final_ok e1 command w1 res lsf"
    by (rule Run_final [OF assms(2,1)])
  have out: "nth_output e command w = out" by (simp add: nth_output_def out_def fun_eq_iff)
  from f show ?thesis
    by (simp add: final_ok_def coordinateDaemon_specs [OF c] coordinateDaemon_frame(1) [OF c] out last_k_def Let_def
        inconclusive_def) (auto simp: judged_success_def)
qed

text \<open>The command exits with code 1 until its error output says that it is ready.\<close>

definition sample_checker :: Checker where
  "sample_checker = \<lparr>ck_successPattern = Some (\<lambda>s. contains s ''ready''),
     ck_failurePattern = Some (\<lambda>s. contains s ''fatal''), ck_caseInsensitive = False\<rparr>"

definition ready_world :: world where
  "ready_world = sample_world ((sample_process 1)\<lparr>pr_stdout := [''wait'']\<rparr> ##
     sconst ((sample_process 1)\<lparr>pr_stderr := [''rea'', ''dy'']\<rparr>))"

lemma sample_checked_run:
  "\<exists>res e' w'. Run sample_env (sample_exec\<lparr>xr_Conditions := Some sample_checker\<rparr>) [''probe''] ready_world = (Inr res, e', w')
     \<and> re_AttemptCount res = 2"
  by (simp add: run_simps sample_env_def sample_exec_def NewExecutorWithBackoff_def sample_world_def ready_world_def
      sample_process_def strategy_defs Fixed_Delay_def Second_def sample_checker_def CheckSuccess_def matches_def
      limitedBuffer_Write_def DefaultMaxBufferSize_def exit_code_result_def)

theorem run_success_means_witness:
  "\<exists>res e' w'. Run sample_env (sample_exec\<lparr>xr_Conditions := Some sample_checker\<rparr>) [''probe''] ready_world = (Inr res, e', w')
     \<and> re_Success res \<and> re_ExitCode res = 1
     \<and> \<not> success_seen (sample_exec\<lparr>xr_Conditions := Some sample_checker\<rparr>) \<lparr>co_ExitCode = 1, co_Stdout = ''wait'', co_Stderr = []\<rparr>"
proof -
  let ?e = "sample_exec\<lparr>xr_Conditions := Some sample_checker\<rparr>"
  obtain res e' w' where r: "Run sample_env ?e [''probe''] ready_world = (Inr res, e', w')" "re_AttemptCount res = 2"
    using sample_checked_run by blast
  have e: "1 \<le> xr_MaxAttempts ?e" "starts_processes ?e [''probe'']" "attempt_deadline ?e = None"
    by (simp_all add: sample_exec_def NewExecutorWithBackoff_def starts_processes_def attempt_deadline_def)
  have o: "observed_output ?e [''probe''] (w_procs ready_world !! 0) = \<lparr>co_ExitCode = 1, co_Stdout = ''wait'', co_Stderr = []\<rparr>"
    "observed_output ?e [''probe''] (w_procs ready_world !! 1) = \<lparr>co_ExitCode = 1, co_Stdout = [], co_Stderr = ''ready''\<rparr>"
    using e(2,3) by (simp_all add: observed_output_def ready_world_def sample_world_def sample_process_def DefaultMaxBufferSize_def)
  have "success_seen ?e \<lparr>co_ExitCode = 1, co_Stdout = [], co_Stderr = ''ready''\<rparr>"
    "\<not> failure_seen ?e \<lparr>co_ExitCode = 1, co_Stdout = [], co_Stderr = ''ready''\<rparr>"
    by (simp_all add: success_seen_def failure_seen_def sample_checker_def matches_def)
  with run_success_means [OF e(1) r(1)] r o show ?thesis by auto
qed

section \<open>Contract: every strategy the executor uses is bounded\<close>

fun strategy_inv :: "platform \<Rightarrow> int \<Rightarrow> strategy \<Rightarrow> bool" where
  "strategy_inv p N (SBase b) = base_inv p N b"
| "strategy_inv p N (SDiophantine s) = (0 \<le> dio_baseDelay s \<and> dio_baseDelay s \<le> Hour)"
| "strategy_inv p N (SAdaptive a) = ad_client_inv (base_small_inv p N) a"
| "strategy_inv p N (SHTTPAware h) = ha_client_inv (base_inv p N) h"

fun strategy_bound :: "strategy \<Rightarrow> duration" where
  "strategy_bound (SBase b) = base_bound b"
| "strategy_bound (SDiophantine s) = Hour"
| "strategy_bound (SAdaptive a) = ad_bound base_bound a"
| "strategy_bound (SHTTPAware h) = ha_bound base_bound h"

lemma Diophantine_Delay_range:
  assumes "0 \<le> dio_baseDelay s" "dio_baseDelay s \<le> Hour" "1 \<le> n"
  shows "0 \<le> Diophantine_Delay s n \<and> Diophantine_Delay s n \<le> Hour"
proof -
  obtain k where n: "n = int (Suc k)" using int_Suc_ex [OF assms(3)] by blast
  have "Diophantine_Delay s n = min (dio_baseDelay s * 2 ^ k) Hour"
    using dio_delay_loop_min [OF assms(1,2), of n k] n by (simp add: Diophantine_Delay_def)
  with assms(1) show ?thesis by (simp add: Hour_def)
qed

interpretation strat: bounded_strategy "strategy_Delay p" "strategy_inv p N" strategy_bound "fst_ok rng_ok" N for p N
proof
  fix s rr n d s' rr'
  assume a: "strategy_inv p N s" "fst_ok rng_ok rr" "1 \<le> n" "n \<le> N" "strategy_Delay p s n rr = (d, s', rr')"
  obtain r rks where rr: "rr = (r, rks)" by (cases rr)
  have r: "rng_ok r" using a(2) rr by (simp add: fst_ok_def)
  show "0 \<le> d \<and> d \<le> strategy_bound s \<and> strategy_inv p N s' \<and> strategy_bound s' = strategy_bound s \<and> fst_ok rng_ok rr'"
  proof (cases s)
    case (SBase b)
    then obtain b' r' where "base_Delay p b n r = (d, b', r')" "s' = SBase b'" "rr' = (r', rks)"
      using a(5) rr by (auto split: prod.splits)
    with base.delay_step [of p N b r n d b' r'] a SBase r show ?thesis by (simp add: fst_ok_def)
  next
    case (SDiophantine q)
    with Diophantine_Delay_range [of q n] a show ?thesis by auto
  next
    case (SAdaptive q)
    then obtain q' where "Adaptive_Delay p (base_Delay p) q n rr = (d, q', rr')" "s' = SAdaptive q'"
      using a(5) by (auto split: prod.splits)
    with base_fb.adaptive.delay_step [of p N q rr n p d q' rr'] a SAdaptive show ?thesis by simp
  next
    case (SHTTPAware h)
    then obtain h' r' where "HTTPAware_Delay (base_Delay p) h n r = (d, h', r')" "s' = SHTTPAware h'" "rr' = (r', rks)"
      using a(5) rr by (auto split: prod.splits)
    with base_http.http.delay_step [of p N h r n d h' r'] a SHTTPAware r show ?thesis by (simp add: fst_ok_def)
  qed
qed

text \<open>The executor's strategy and randomness, as the loop keeps them.\<close>

definition waits_ok :: "platform \<Rightarrow> int \<Rightarrow> duration \<Rightarrow> Executor \<Rightarrow> rand \<Rightarrow> bool" where
  "waits_ok p N B e rr \<longleftrightarrow> fst_ok rng_ok rr \<and>
     (case xr_BackoffStrategy e of None \<Rightarrow> 0 \<le> B | Some s \<Rightarrow> strategy_inv p N s \<and> strategy_bound s = B)"

lemma waits_ok_next_delay:
  assumes "waits_ok p N B e (w_rand w)" "next_delay en e n w = (d, e', w')" "1 \<le> n" "n \<le> N" "en_platform en = p"
  shows "d \<le> B \<and> waits_ok p N B e' (w_rand w')"
proof (cases "xr_BackoffStrategy e")
  case (Some s)
  then obtain s' rr' where s': "strategy_Delay p s n (w_rand w) = (d, s', rr')"
      "e' = e\<lparr>xr_BackoffStrategy := Some s'\<rparr>" "w' = w\<lparr>w_rand := rr'\<rparr>"
    using assms(2,5) by (auto simp: next_delay_def split: prod.splits)
  with strat.delay_step [OF _ _ assms(3,4) s'(1)] assms(1) Some show ?thesis by (simp add: waits_ok_def)
qed (use assms in \<open>auto simp: next_delay_def waits_ok_def\<close>)

lemma waits_ok_record:
  assumes "waits_ok p N B e (w_rand w)" "recordStrategyOutcome en e n ok d w = (e', w')" "1 \<le> n" "n \<le> N + 1"
    "en_platform en = p"
  shows "waits_ok p N B e' (w_rand w')"
proof (cases "\<exists>a. xr_BackoffStrategy e = Some (SAdaptive a)")
  case True
  then obtain a where a: "xr_BackoffStrategy e = Some (SAdaptive a)" by blast
  obtain d1 a1 rr where s1: "(if 1 < n then Adaptive_Delay p (base_Delay p) a (n - 1) (w_rand w) else (0, a, w_rand w)) = (d1, a1, rr)"
    by (metis prod_cases3)
  have inv: "ad_client_inv (base_small_inv p N) a" "ad_bound base_bound a = B" "fst_ok rng_ok (w_rand w)"
    using assms(1) a by (simp_all add: waits_ok_def)
  have inv1: "ad_client_inv (base_small_inv p N) a1 \<and> ad_bound base_bound a1 = B \<and> fst_ok rng_ok rr"
  proof (cases "1 < n")
    case True
    with base_fb.adaptive.delay_step [of p N a "w_rand w" "n - 1" p d1 a1 rr] inv s1 assms(4) show ?thesis by simp
  qed (use inv s1 in auto)
  obtain a2 rks where rc: "RecordOutcome a1 d1 ok d (snd rr) = (a2, rks)" by fastforce
  have "e' = e\<lparr>xr_BackoffStrategy := Some (SAdaptive a2)\<rparr>" "w' = w\<lparr>w_rand := (fst rr, rks)\<rparr>"
    using assms(2,5) a s1 rc by (simp_all add: recordStrategyOutcome_def Let_def split: if_splits)
  then show ?thesis using inv1 ad_inv_RecordOutcome(1,2) [OF _ rc]
    by (simp add: waits_ok_def ad_client_inv_def ad_bound_def fst_ok_def)
next
  case False
  then have "e' = e" "w' = w"
    using assms(2) by (auto simp: recordStrategyOutcome_def split: option.splits strategy.splits)
  with assms(1) show ?thesis by simp
qed

lemma waits_ok_http:
  assumes "waits_ok p N B e rr"
  shows "waits_ok p N B (processHTTPOutput en out w e) rr"
proof (cases "\<exists>h. xr_BackoffStrategy e = Some (SHTTPAware h)")
  case True
  then obtain h where h: "xr_BackoffStrategy e = Some (SHTTPAware h)" by blast
  then have "ha_client_inv (base_inv p N) h" "0 < ha_maxRetryAfter h"
    using assms by (simp_all add: waits_ok_def ha_client_inv_def ha_inv_def)
  with h assms ha_inv_Process [of h "en_platform en" "w_now w" "co_Stdout out" "co_Stderr out" "co_ExitCode out"]
  show ?thesis
    by (simp add: waits_ok_def processHTTPOutput_def ha_client_inv_def ha_bound_def)
      (simp add: ProcessCommandOutput_eq)
next
  case False
  then have "processHTTPOutput en out w e = e"
    by (auto simp: processHTTPOutput_def split: option.splits strategy.splits)
  with assms show ?thesis by simp
qed

definition slept_since :: "duration \<Rightarrow> world \<Rightarrow> world \<Rightarrow> bool" where
  "slept_since B w w' \<longleftrightarrow> (\<exists>ds. w_slept w' = w_slept w @ ds \<and> (\<forall>d \<in> set ds. 0 < d \<and> d \<le> B))"

lemma slept_since_refl: "w_slept w = w_slept w' \<Longrightarrow> slept_since B w w'"
  by (simp add: slept_since_def)

lemma slept_since_trans: "slept_since B w w' \<Longrightarrow> slept_since B w' w'' \<Longrightarrow> slept_since B w w''"
  by (fastforce simp: slept_since_def)

lemma run_attempt_waits:
  assumes ok: "waits_ok p N B (ls_exec ls) (w_rand (ls_world ls))" and r: "run_attempt en command start n ls = (o', ls')"
    and n: "1 \<le> n" "n \<le> N" "en_platform en = p"
  shows "slept_since B (ls_world ls) (ls_world ls')
    \<and> (o' = Continued \<longrightarrow> waits_ok p N B (ls_exec ls') (w_rand (ls_world ls')))"
  using r
proof (cases rule: run_attempt_E)
  case (aborted out x timeout w2)
  then show ?thesis using attempt_of_frame(1) [OF aborted(1)] by (simp add: slept_since_refl)
next
  case (completed out timeout w2 cr stop e1 w3)
  have "waits_ok p N B (ls_exec ls) (w_rand w2)" using ok attempt_of_frame(2) [OF completed(1)] by simp
  from waits_ok_http [OF waits_ok_record [OF this completed(3) n(1) _ n(3)]] n(2)
  have ok2: "waits_ok p N B (processHTTPOutput en out w3 e1) (w_rand w3)" by simp
  have sl: "w_slept w3 = w_slept (ls_world ls)"
    using recordStrategyOutcome_frame [OF completed(3)] attempt_of_frame(1) [OF completed(1)] by simp
  let ?ls2 = "recorded out timeout cr (time_sub (w_now w2) (w_now (ls_world ls))) (processHTTPOutput en out w3 e1) w3 ls"
  show ?thesis
  proof (cases stop)
    case True
    then show ?thesis using completed(4) sl by (simp add: Let_def slept_since_refl)
  next
    case False
    then have "wait_for_next en n cr ?ls2 = (o', ls')" using completed(4) by (simp add: Let_def)
    note wf = wait_for_next_cases [OF this]
    show ?thesis
    proof (cases "n = xr_MaxAttempts (ls_exec ?ls2)")
      case True
      with wf sl show ?thesis by (simp add: slept_since_refl)
    next
      case False
      with wf obtain d e4 w4 where d: "next_delay en (ls_exec ?ls2) n (ls_world ?ls2) = (d, e4, w4)"
          "ls_exec ls' = e4" "w_rand (ls_world ls') = w_rand w4"
          "w_slept (ls_world ls') = w_slept (ls_world ?ls2) @ (if 0 < d then [d] else [])" by auto
      have "d \<le> B \<and> waits_ok p N B e4 (w_rand w4)"
        using waits_ok_next_delay [OF _ d(1) n] ok2 by simp
      with d(2-4) sl show ?thesis by (simp add: slept_since_def)
    qed
  qed
qed

lemma loop_reach_waits:
  assumes "loop_reach en command start (initial_state e w) n ls" "waits_ok p (xr_MaxAttempts e) B e (w_rand w)"
    "1 \<le> xr_MaxAttempts e" "en_platform en = p"
  shows "slept_since B w (ls_world ls) \<and> waits_ok p (xr_MaxAttempts e) B (ls_exec ls) (w_rand (ls_world ls))"
  using assms
proof (induction rule: loop_reach.induct)
  case first
  then show ?case by (simp add: initial_state_def slept_since_refl)
next
  case (again n ls ls')
  then have IH: "slept_since B w (ls_world ls)" "waits_ok p (xr_MaxAttempts e) B (ls_exec ls) (w_rand (ls_world ls))"
    by blast+
  have "loop_inv e command w n ls" using loop_inv_reach again by blast
  then have "1 \<le> n" "n \<le> xr_MaxAttempts e" by (simp_all add: loop_inv_def)
  from run_attempt_waits [OF IH(2) again.hyps(3) this again.prems(3)] IH(1)
  show ?case using slept_since_trans by blast
qed

text \<open>The wait for the daemon, if any, and the waits between the attempts.\<close>

lemma run_waits_split:
  assumes "1 \<le> xr_MaxAttempts e" "xr_BackoffStrategy e = Some s"
    "strategy_inv (en_platform en) (xr_MaxAttempts e) s" "rng_ok (fst (w_rand w))"
    "Run en e command w = (Inr res, e', w')"
  obtains pre waits where "w_slept w' = w_slept w @ pre @ waits"
    "length pre \<le> 1" "pre \<noteq> [] \<Longrightarrow> xr_DaemonClient e \<noteq> None \<and> (\<exists>q. s = SDiophantine q)"
    "\<forall>d \<in> set waits. 0 < d \<and> d \<le> strategy_bound s" "int (length waits) < re_AttemptCount res"
    "sum_list waits \<le> (re_AttemptCount res - 1) * strategy_bound s"
proof -
  let ?B = "strategy_bound s" and ?M = "xr_MaxAttempts e" and ?p = "en_platform en"
  obtain e1 w1 n ls lsf where l: "coordinateDaemon en e command w = (e1, w1)"
      "loop_reach en command (w_now w1) (initial_state e1 w1) n ls" "loop_inv e1 command w1 n ls"
      "ends_in en command (w_now w1) n ls (Inr res, lsf)" "ls_world lsf = w'"
    using assms(1,5) by (elim Run_E) auto
  note fr = coordinateDaemon_frame [OF l(1)] and f = ends_in_final_ok [OF l(3,4)]
  obtain pre where pre: "w_slept w1 = w_slept w @ pre" "length pre \<le> 1"
      "pre \<noteq> [] \<Longrightarrow> xr_DaemonClient e \<noteq> None \<and> (\<exists>q. s = SDiophantine q)"
    by (rule coordinateDaemon_slept [OF l(1)]) (use assms(2) in auto)
  have M: "xr_MaxAttempts e1 = ?M" "1 \<le> xr_MaxAttempts e1" using fr(1) assms(1) by simp_all
  have ok: "waits_ok ?p (xr_MaxAttempts e1) ?B e1 (w_rand w1)"
    using assms(2-4) fr by (simp add: waits_ok_def fst_ok_def)
  obtain o' where r: "run_attempt en command (w_now w1) n ls = (o', lsf)"
    using l(4) by (auto simp: ends_in_def split: prod.splits outcome.splits)
  have "1 \<le> n" "n \<le> xr_MaxAttempts e1" using l(3) by (simp_all add: loop_inv_def)
  from run_attempt_waits [OF _ r this refl] loop_reach_waits [OF l(2) ok M(2) refl]
  have "slept_since ?B w1 w'" using slept_since_trans l(5) by blast
  then obtain ds where ds: "w_slept w' = w_slept w1 @ ds" "\<forall>d \<in> set ds. 0 < d \<and> d \<le> ?B" by (auto simp: slept_since_def)
  have len: "int (length ds) \<le> re_AttemptCount res - 1" using f l(5) ds(1) by (simp add: final_ok_def)
  have B0: "0 \<le> ?B"
    using strat.delay_nonneg [of ?p ?M s "w_rand w" 1] strat.delay_le_bound [of ?p ?M s "w_rand w" 1]
      assms(1,3,4) by (simp add: fst_ok_def)
  have "sum_list ds \<le> int (length ds) * ?B"
    using ds(2) by (induction ds) (auto simp: distrib_right)
  also have "\<dots> \<le> (re_AttemptCount res - 1) * ?B" using len B0 by (rule mult_right_mono)
  finally have "sum_list ds \<le> (re_AttemptCount res - 1) * ?B" .
  with that [of pre ds] pre ds len show thesis by simp
qed

lemma run_waits_bounded:
  assumes "1 \<le> xr_MaxAttempts e" "xr_DaemonClient e = None" "xr_BackoffStrategy e = Some s"
    "strategy_inv (en_platform en) (xr_MaxAttempts e) s" "rng_ok (fst (w_rand w))"
    "Run en e command w = (Inr res, e', w')"
  shows "\<exists>waits. w_slept w' = w_slept w @ waits \<and> (\<forall>d \<in> set waits. 0 < d \<and> d \<le> strategy_bound s)
    \<and> int (length waits) < re_AttemptCount res
    \<and> sum_list waits \<le> (re_AttemptCount res - 1) * strategy_bound s"
proof (rule run_waits_split [OF assms(1,3-6)])
  fix pre waits
  assume a: "w_slept w' = w_slept w @ pre @ waits" "pre \<noteq> [] \<Longrightarrow> xr_DaemonClient e \<noteq> None \<and> (\<exists>q. s = SDiophantine q)"
    "\<forall>d \<in> set waits. 0 < d \<and> d \<le> strategy_bound s" "int (length waits) < re_AttemptCount res"
    "sum_list waits \<le> (re_AttemptCount res - 1) * strategy_bound s"
  have "pre = []" using a(2) assms(2) by blast
  with a show ?thesis by auto
qed

text \<open>C3. The waiting of a run is bounded. Take a strategy in its parameter range (the invariant of the
  strategy for the number of attempts and the platform) and random draws in [0, 1). For every sequence
  of processes, draws and map orders, the waits of a run that returns a result are at most one wait
  before the first attempt, which only a Diophantine strategy with a daemon client makes and whose
  length the daemon's answer decides, and then the waits between attempts: each of these is positive
  and at most the strategy's bound, there are fewer of them than attempts, and their sum is at most the
  bound times the attempts after the first.\<close>

theorem run_total_wait_bounded:
  assumes "1 \<le> xr_MaxAttempts e" "xr_BackoffStrategy e = Some s"
    "strategy_inv (en_platform en) (xr_MaxAttempts e) s" "rng_ok (fst (w_rand w))"
    "Run en e command w = (Inr res, e', w')"
  shows "\<exists>pre waits. w_slept w' = w_slept w @ pre @ waits
    \<and> length pre \<le> 1 \<and> (pre \<noteq> [] \<longrightarrow> xr_DaemonClient e \<noteq> None \<and> (\<exists>q. s = SDiophantine q))
    \<and> (\<forall>d \<in> set waits. 0 < d \<and> d \<le> strategy_bound s)
    \<and> int (length waits) < re_AttemptCount res
    \<and> sum_list waits \<le> (re_AttemptCount res - 1) * strategy_bound s"
  by (rule run_waits_split [OF assms]) blast

theorem run_total_wait_bounded_witness:
  "\<exists>res e' w'. Run sample_env sample_exec [''true''] (sample_world (sample_process 1 ## sconst (sample_process 0))) = (Inr res, e', w')
     \<and> sum_list (w_slept w') \<le> Second"
proof -
  let ?w = "sample_world (sample_process 1 ## sconst (sample_process 0))"
  obtain res e' w' where r: "Run sample_env sample_exec [''true''] ?w = (Inr res, e', w')" "re_AttemptCount res = 2"
    using sample_run by blast
  let ?s = "SBase (BFixed (NewFixed Second))"
  have e: "1 \<le> xr_MaxAttempts sample_exec" "xr_DaemonClient sample_exec = None" "xr_BackoffStrategy sample_exec = Some ?s"
    by (simp_all add: sample_exec_def NewExecutorWithBackoff_def)
  have "strategy_inv (en_platform sample_env) (xr_MaxAttempts sample_exec) ?s"
    by (simp add: strategy_defs Second_def)
  from run_total_wait_bounded [OF e(1,3) this _ r(1)] e(2) r show ?thesis
    by (auto simp: sample_world_def rng_ok_half_draws strategy_defs)
qed

section \<open>Captured output is a prefix\<close>

lemma captured_output_is_prefix_parts:
  assumes "command \<noteq> []" "pr_start_error pr = None" "RunWithOutputAndContext deadline command pr = (t, out, None)"
  shows "co_Stdout out = take (nat DefaultMaxBufferSize) (concat (pr_stdout pr))"
    and "co_Stderr out = take (nat DefaultMaxBufferSize) (concat (pr_stderr pr))"
proof -
  let ?lb = "\<lparr>lb_content = [], lb_limit = DefaultMaxBufferSize\<rparr>"
  obtain o1 s1 where c1: "copy_output ?lb (pr_stdout pr) = (o1, s1)" by fastforce
  obtain o2 s2 where c2: "copy_output ?lb (pr_stderr pr) = (o2, s2)" by fastforce
  have L: "int (length (lb_content ?lb)) \<le> lb_limit ?lb" by (simp add: DefaultMaxBufferSize_def)
  have "co_Stdout out = lb_content o1 \<and> co_Stderr out = lb_content o2"
    using assms c1 c2 by (auto simp: RunWithOutputAndContext_def Let_def split: option.splits if_splits)
  with copy_output_spec(1) [OF L c1] copy_output_spec(1) [OF L c2]
  show "co_Stdout out = take (nat DefaultMaxBufferSize) (concat (pr_stdout pr))"
    and "co_Stderr out = take (nat DefaultMaxBufferSize) (concat (pr_stderr pr))" by simp_all
qed

text \<open>What the checks and the HTTP parser see is a faithful prefix of what the command wrote: whenever
  the runner returns with the process's own exit code, the captured streams are the first ten
  megabytes of the streams, however they were cut into chunks.\<close>

lemma captured_output_is_prefix:
  assumes "command \<noteq> []" "pr_start_error pr = None" "RunWithOutputAndContext deadline command pr = (t, out, None)"
  shows "(co_Stdout out = take (nat DefaultMaxBufferSize) (concat (pr_stdout pr)))
    \<and> (co_Stderr out = take (nat DefaultMaxBufferSize) (concat (pr_stderr pr)))"
  using captured_output_is_prefix_parts [OF assms(1-3)] by blast

lemma captured_output_is_prefix_witness:
  "\<exists>t out. RunWithOutputAndContext None [''echo''] ((sample_process 0)\<lparr>pr_stdout := [''he'', ''llo'']\<rparr>) = (t, out, None)
     \<and> co_Stdout out = ''hello''"
proof -
  let ?p = "(sample_process 0)\<lparr>pr_stdout := [''he'', ''llo'']\<rparr>"
  have p: "pr_start_error ?p = None" "pr_stdout ?p = [''he'', ''llo'']" by (simp_all add: sample_process_def)
  obtain t out where r: "RunWithOutputAndContext None [''echo''] ?p = (t, out, None)"
    by (simp add: RunWithOutputAndContext_def reaches_start_def sample_process_def limitedBuffer_Write_def DefaultMaxBufferSize_def)
  have "co_Stdout out = take (nat DefaultMaxBufferSize) ''hello''"
    using captured_output_is_prefix [OF _ p(1) r] p(2) by simp
  with r show ?thesis by (simp add: DefaultMaxBufferSize_def)
qed

text \<open>C40. Output above the capture limit aborts the run: when a command exits with code 0 but a chunk of its
  output crosses the ten-megabyte limit, the buffer reports fewer bytes than it was given, the
  multi-writer turns that into a short write, and \<open>Run\<close> returns that error and no result, with no
  further attempt.\<close>

theorem large_output_aborts_run:
  assumes "1 \<le> xr_MaxAttempts e" "xr_DaemonClient e = None" "xr_Timeout e \<le> 0" "command \<noteq> []"
    "pr_start_error (shd (w_procs w)) = None" "pr_exit (shd (w_procs w)) True = 0"
    "chunk_straddles DefaultMaxBufferSize (pr_stdout (shd (w_procs w)))"
  shows "\<exists>e' w'. Run en e command w = (Inl ErrShortWrite, e', w') \<and> length (w_started w') = length (w_started w) + 1"
proof -
  let ?pr = "shd (w_procs w)" and ?lb = "\<lparr>lb_content = [], lb_limit = DefaultMaxBufferSize\<rparr>"
  have same: "coordinateDaemon en e command w = (e, w)"
    using assms(2) by (simp add: coordinateDaemon_def coordinateWithDaemon_def split: option.split strategy.split)
  obtain o1 s1 where c1: "copy_output ?lb (pr_stdout ?pr) = (o1, s1)" by fastforce
  obtain o2 s2 where c2: "copy_output ?lb (pr_stderr ?pr) = (o2, s2)" by fastforce
  have "s1" using copy_output_spec(2) [OF _ c1] assms(7) by (simp add: DefaultMaxBufferSize_def)
  with assms(4-6) c1 c2 obtain t out where
    run: "RunWithOutputAndContext None command ?pr = (t, out, Some ErrShortWrite)"
    by (simp add: RunWithOutputAndContext_def reaches_start_def Let_def)
  let ?ls = "initial_state e w"
  have "\<exists>w2. attempt_of (ls_exec ?ls) command 1 (ls_world ?ls) = (out, Some ErrShortWrite, False, w2)"
    using run assms(3) by (simp add: attempt_of_def executeAttempt_def run_process_def initial_state_def)
  then obtain w2 where at: "attempt_of (ls_exec ?ls) command 1 (ls_world ?ls) = (out, Some ErrShortWrite, False, w2)" ..
  obtain ls' where "run_attempt en command (w_now w) 1 ?ls = (Aborted ErrShortWrite, ls')" "ls_world ls' = w2"
    using run_attempt_aborted [OF at, of en "w_now w"] by blast
  moreover have "length (w_started w2) = length (w_started w) + 1"
    using attempt_of_frame(5) [OF at] assms(3-5) by (simp add: initial_state_def starts_processes_def)
  ultimately show ?thesis
    using assms(1) same by (simp add: Run_def run_loop.simps [of en command "w_now w" 1] initial_state_def)
qed

theorem large_output_aborts_run_witness:
  "\<exists>e' w'. Run sample_env sample_exec [''cat''] (sample_world (sconst ((sample_process 0)
      \<lparr>pr_stdout := [replicate (nat (DefaultMaxBufferSize + 1)) (CHR ''x'')]\<rparr>))) = (Inl ErrShortWrite, e', w')"
  using large_output_aborts_run [of sample_exec "[''cat'']" "sample_world (sconst ((sample_process 0)
      \<lparr>pr_stdout := [replicate (nat (DefaultMaxBufferSize + 1)) (CHR ''x'')]\<rparr>))" sample_env]
  by (simp add: sample_exec_def NewExecutorWithBackoff_def sample_world_def sample_process_def DefaultMaxBufferSize_def)
    blast

section \<open>Daemon coordination\<close>

lemma planned_ids_distinct: "distinct (map sr_ID (createPlannedRequests rid t offs))"
  by (auto simp: createPlannedRequests_def distinct_map inj_on_def comp_def Let_def)

lemma long_wait_not_registered_parts:
  assumes "xr_DaemonClient e = Some c"
    "Client_CanScheduleRequest (en_parse_time en) False c
       \<lparr>sq_ResourceID = (if xr_ResourceID e = [] then deriveResourceID (en_url_host en) command else xr_ResourceID e),
        sq_RateLimit = di_rateLimit s, sq_Window = di_window s, sq_RetryOffsets = di_retryOffsets s,
        sq_RequestTime = w_now w\<rparr> (w_net w) = (Inr response, c', n')"
    "\<not> sp_CanSchedule response" "5 * Second \<le> sp_WaitUntil response - w_now w" "in_i64 (sp_WaitUntil response - w_now w)"
    "coordinateWithDaemon en e s command w = (e', w')"
  shows "w_now w' = sp_WaitUntil response" and "nt_sent (w_net w') = nt_sent n'"
proof -
  let ?t = "sp_WaitUntil response - w_now w"
  have pos: "0 < ?t" using assms(4) by (simp add: Second_def)
  have "w_now w' = sp_WaitUntil response \<and> nt_sent (w_net w') = nt_sent n'"
    using assms pos
    by (simp add: coordinateWithDaemon_def Let_def time_add_def time_sub_exact Sleep_def RegisterScheduledRequests_def
        Second_def) auto
  then show "w_now w' = sp_WaitUntil response" "nt_sent (w_net w') = nt_sent n'" by auto
qed

text \<open>A plan that had to wait is never announced: when the daemon refuses the slot and names a time at
  least five seconds away, the executor sleeps until that time, but the context of the registration
  has expired by then, so no registration is sent at all.\<close>

lemma long_wait_not_registered:
  assumes "xr_DaemonClient e = Some c"
    "Client_CanScheduleRequest (en_parse_time en) False c
       \<lparr>sq_ResourceID = (if xr_ResourceID e = [] then deriveResourceID (en_url_host en) command else xr_ResourceID e),
        sq_RateLimit = di_rateLimit s, sq_Window = di_window s, sq_RetryOffsets = di_retryOffsets s,
        sq_RequestTime = w_now w\<rparr> (w_net w) = (Inr response, c', n')"
    "\<not> sp_CanSchedule response" "5 * Second \<le> sp_WaitUntil response - w_now w" "in_i64 (sp_WaitUntil response - w_now w)"
    "coordinateWithDaemon en e s command w = (e', w')"
  shows "(w_now w' = sp_WaitUntil response)
    \<and> (nt_sent (w_net w') = nt_sent n')"
  using long_wait_not_registered_parts [OF assms(1-6)] by blast

definition refusing_world :: world where
  "refusing_world = (sample_world (sconst (sample_process 0)))\<lparr>w_net :=
     \<lparr>nt_dials = sconst True, nt_replies = sconst (Some [(''can_schedule'', JBool False)]), nt_sent = []\<rparr>\<rparr>"

definition daemon_exec :: Executor where
  "daemon_exec = sample_exec\<lparr>xr_DaemonClient := Some ((NewDaemonClient ''/tmp/s'')\<lparr>dc_conn := True\<rparr>),
     xr_ResourceID := ''api''\<rparr>"

lemma long_wait_not_registered_witness:
  "\<exists>e' w'. coordinateWithDaemon sample_env daemon_exec (NewDiophantine 1 Hour [0]) [''curl''] refusing_world = (e', w')
     \<and> w_now w' = Minute \<and> nt_sent (w_net w') = [ScheduleMsg ''api'' 1 3600000 [0] 0]"
proof -
  let ?c = "(NewDaemonClient ''/tmp/s'')\<lparr>dc_conn := True\<rparr>" and ?s = "NewDiophantine 1 Hour [0]"
  obtain e' w' where r: "coordinateWithDaemon sample_env daemon_exec ?s [''curl''] refusing_world = (e', w')" by fastforce
  have c: "xr_DaemonClient daemon_exec = Some ?c" by (simp add: daemon_exec_def)
  let ?n = "(w_net refusing_world)\<lparr>nt_sent := [ScheduleMsg ''api'' 1 3600000 [0] 0]\<rparr>"
  let ?resp = "\<lparr>sp_CanSchedule = False, sp_WaitUntil = Minute, sp_Reason = []\<rparr>"
  have q: "Client_CanScheduleRequest (en_parse_time sample_env) False ?c
       \<lparr>sq_ResourceID = (if xr_ResourceID daemon_exec = [] then deriveResourceID (en_url_host sample_env) [''curl''] else xr_ResourceID daemon_exec),
        sq_RateLimit = di_rateLimit ?s, sq_Window = di_window ?s, sq_RetryOffsets = di_retryOffsets ?s,
        sq_RequestTime = w_now refusing_world\<rparr> (w_net refusing_world) = (Inr ?resp, ?c, ?n)"
    by (simp add: Client_CanScheduleRequest_def connect_def sendRequest_def refusing_world_def sample_world_def
        daemon_exec_def NewDiophantine_def NewDaemonClient_def bool_field_def str_field_def json_get_def
        time_add_def unix_seconds_def convertDurationsToMs_def quo_def unit_defs)
  have "\<not> sp_CanSchedule ?resp" "5 * Second \<le> sp_WaitUntil ?resp - w_now refusing_world"
      "in_i64 (sp_WaitUntil ?resp - w_now refusing_world)"
    by (simp_all add: refusing_world_def sample_world_def unit_defs in_i64_def)
  from long_wait_not_registered [OF c q this r] r show ?thesis by simp
qed

section \<open>Exit codes\<close>

text \<open>
  What the operating system gives: every process of the stream exits with a code up to 255, or
  with \<open>-1\<close>, which is how Go reports a process that was killed.
\<close>

definition exits_ok :: "world \<Rightarrow> bool" where
  "exits_ok w \<longleftrightarrow> (\<forall>pr \<in> sset (w_procs w). \<forall>short. - 1 \<le> pr_exit pr short \<and> pr_exit pr short \<le> 255)"

definition code_ok :: "CommandOutput \<Rightarrow> bool" where
  "code_ok out \<longleftrightarrow> - 1 \<le> co_ExitCode out \<and> co_ExitCode out \<le> 255"

lemma RunWithOutputAndContext_code:
  assumes "RunWithOutputAndContext deadline command pr = (t, out, err)" "\<And>b. - 1 \<le> pr_exit pr b \<and> pr_exit pr b \<le> 255"
  shows "code_ok out"
  using assms by (auto simp: RunWithOutputAndContext_def code_ok_def Let_def split: if_splits option.splits prod.splits)

lemma run_process_code:
  assumes "run_process deadline command w = (out, err, w')" "exits_ok w"
  shows "code_ok out \<and> exits_ok w'"
proof -
  have "shd (w_procs w) \<in> sset (w_procs w)" by (rule shd_sset)
  then have pr: "\<And>b. - 1 \<le> pr_exit (shd (w_procs w)) b \<and> pr_exit (shd (w_procs w)) b \<le> 255"
    using assms(2) by (simp add: exits_ok_def)
  obtain t out' err' where r: "RunWithOutputAndContext deadline command (shd (w_procs w)) = (t, out', err')" by (metis prod_cases3)
  then have "out = out'" "w_procs w' = stl (w_procs w) \<or> w_procs w' = w_procs w"
    using assms(1) by (auto simp: run_process_def)
  with RunWithOutputAndContext_code [OF r pr] assms(2) show ?thesis
    by (simp add: exits_ok_def) (metis stl_sset)
qed

lemma attempt_of_code:
  assumes "attempt_of e command n w = (out, err, timeout, w')" "exits_ok w"
  shows "code_ok out \<and> exits_ok w'"
proof -
  let ?w = "report e (\<lambda>r. AttemptStart r n (xr_MaxAttempts e)) w"
  let ?dl = "if 0 < xr_Timeout e then Some (wrap64 (xr_Timeout e + 50 * Millisecond)) else None"
  obtain out' err' where r: "run_process ?dl command ?w = (out', err', w')" "out = out' \<or> co_ExitCode out = - 1"
    using assms(1) by (cases "0 < xr_Timeout e")
      (auto simp: attempt_of_def executeAttempt_def Let_def split: prod.splits if_splits)
  moreover have "exits_ok ?w" using assms(2) by (simp add: exits_ok_def)
  ultimately show ?thesis using run_process_code by (fastforce simp: code_ok_def)
qed

lemma wait_for_next_procs:
  "wait_for_next en n cr ls = (o', ls') \<Longrightarrow>
     w_procs (ls_world ls') = w_procs (ls_world ls) \<and> ls_lastOutput ls' = ls_lastOutput ls"
  by (auto simp: wait_for_next_def Let_def Sleep_def split: if_splits prod.splits dest: next_delay_frame(5))

lemma run_attempt_codes:
  assumes "run_attempt en command start n ls = (o', ls')" "exits_ok (ls_world ls)" "\<And>x. o' \<noteq> Aborted x"
  shows "exits_ok (ls_world ls') \<and> code_ok (ls_lastOutput ls')"
  using assms(1)
proof (cases rule: run_attempt_E)
  case (completed out timeout w2 cr stop e1 w3)
  have c: "code_ok out" "exits_ok w3"
    using attempt_of_code [OF completed(1) assms(2)] recordStrategyOutcome_frame(5) [OF completed(3)]
    by (simp_all add: exits_ok_def)
  show ?thesis
  proof (cases stop)
    case True
    then show ?thesis using completed(4) c by (simp add: Let_def)
  next
    case False
    from wait_for_next_procs [OF completed(4) [unfolded Let_def, symmetric, simplified False, simplified]] c
    show ?thesis by (simp add: exits_ok_def)
  qed
qed (use assms(3) in simp)

lemma loop_reach_codes:
  "loop_reach en command start ls0 n ls \<Longrightarrow> exits_ok (ls_world ls0) \<Longrightarrow> exits_ok (ls_world ls)"
  by (induction rule: loop_reach.induct) (auto dest: run_attempt_codes)

lemma Run_exit_code:
  assumes "Run en e command w = (Inr res, e', w')" "1 \<le> xr_MaxAttempts e" "exits_ok w"
  shows "- 1 \<le> re_ExitCode res \<and> re_ExitCode res \<le> 255
    \<and> (re_Success res \<or> re_ExitCode res \<noteq> 0 \<or> re_Reason res = ''failure pattern matched'')"
  using assms(1,2)
proof (rule Run_E)
  fix e1 w1 n ls lsf
  assume c: "coordinateDaemon en e command w = (e1, w1)"
    and l: "loop_reach en command (w_now w1) (initial_state e1 w1) n ls" "loop_inv e1 command w1 n ls"
      "ends_in en command (w_now w1) n ls (Inr res, lsf)"
  have "exits_ok w1" using assms(3) coordinateDaemon_frame(6) [OF c] by (simp add: exits_ok_def)
  with loop_reach_codes [OF l(1)] have "exits_ok (ls_world ls)" by (simp add: initial_state_def)
  moreover obtain o' where "run_attempt en command (w_now w1) n ls = (o', lsf)" "\<And>x. o' \<noteq> Aborted x"
    using l(3) by (auto simp: ends_in_def split: prod.splits outcome.splits)
  ultimately have "code_ok (ls_lastOutput lsf)" using run_attempt_codes by blast
  with ends_in_final_ok [OF l(2,3)] show ?thesis by (simp add: final_ok_def code_ok_def)
qed

end
