(* ===== verification/Config.thy ===== *)
theory Config
  imports GoText
begin

text \<open>
  Configuration: \<open>pkg/config/config.go\<close>. The library that reads files and environment variables
  (viper) is the parameter record \<open>viper\<close>: what reading a file gives, what unmarshalling the
  defaults, the file and the environment into a \<open>Config\<close> gives, and its \<open>IsSet\<close> and \<open>Get\<close>.
  Validation gives the list of the validation errors, empty for a valid configuration; merging,
  precedence and the debug record are modelled as the code has them.
\<close>

section \<open>Data\<close>

record Config =
  cf_Attempts :: int
  cf_Delay :: duration
  cf_Timeout :: duration
  cf_BackoffType :: string
  cf_MaxDelay :: duration
  cf_Multiplier :: f64
  cf_SuccessPattern :: string
  cf_FailurePattern :: string
  cf_CaseInsensitive :: bool
  cf_DaemonEnabled :: bool
  cf_DaemonSocket :: string
  cf_DaemonTimeout :: duration
  cf_DaemonAutoStart :: bool

datatype cfg_value = VInt int | VDuration duration | VString string | VFloat f64 | VBool bool

record ValidationError =
  ve_Field :: string
  ve_Value :: cfg_value
  ve_Message :: string

datatype ConfigSource = SourceDefault | SourceConfigFile | SourceEnvironment | SourceCLIFlag

fun ConfigSource_String :: "ConfigSource \<Rightarrow> string" where
  "ConfigSource_String SourceDefault = ''default''"
| "ConfigSource_String SourceConfigFile = ''config file''"
| "ConfigSource_String SourceEnvironment = ''environment variable''"
| "ConfigSource_String SourceCLIFlag = ''CLI flag''"

record ConfigDebugInfo =
  dbg_Sources :: "string \<rightharpoonup> ConfigSource"
  dbg_Values :: "string \<rightharpoonup> cfg_value"

definition setDefaults :: Config where
  "setDefaults = \<lparr>cf_Attempts = 3, cf_Delay = 0, cf_Timeout = 0, cf_BackoffType = ''fixed'', cf_MaxDelay = 0,
     cf_Multiplier = Fin 2, cf_SuccessPattern = [], cf_FailurePattern = [], cf_CaseInsensitive = False,
     cf_DaemonEnabled = False, cf_DaemonSocket = ''/tmp/patience-daemon.sock'', cf_DaemonTimeout = 5 * Second,
     cf_DaemonAutoStart = True\<rparr>"

definition config_keys :: "string list" where
  "config_keys = [''attempts'', ''delay'', ''timeout'', ''backoff'', ''max_delay'', ''multiplier'',
     ''success_pattern'', ''failure_pattern'', ''case_insensitive'', ''daemon_enabled'', ''daemon_socket'',
     ''daemon_timeout'', ''daemon_auto_start'']"

text \<open>The field a configuration key names, through its \<open>mapstructure\<close> tag.\<close>

definition config_field :: "Config \<Rightarrow> string \<Rightarrow> cfg_value option" where
  "config_field c key =
     map_of [(''attempts'', VInt (cf_Attempts c)), (''delay'', VDuration (cf_Delay c)),
       (''timeout'', VDuration (cf_Timeout c)), (''backoff'', VString (cf_BackoffType c)),
       (''max_delay'', VDuration (cf_MaxDelay c)), (''multiplier'', VFloat (cf_Multiplier c)),
       (''success_pattern'', VString (cf_SuccessPattern c)), (''failure_pattern'', VString (cf_FailurePattern c)),
       (''case_insensitive'', VBool (cf_CaseInsensitive c)), (''daemon_enabled'', VBool (cf_DaemonEnabled c)),
       (''daemon_socket'', VString (cf_DaemonSocket c)), (''daemon_timeout'', VDuration (cf_DaemonTimeout c)),
       (''daemon_auto_start'', VBool (cf_DaemonAutoStart c))] key"

section \<open>Merging\<close>

definition MergeWithFlags :: "Config \<Rightarrow> Config \<Rightarrow> Config" where
  "MergeWithFlags c flags =
     c\<lparr>cf_Attempts := (if cf_Attempts flags \<noteq> 0 then cf_Attempts flags else cf_Attempts c),
       cf_Delay := (if cf_Delay flags \<noteq> 0 then cf_Delay flags else cf_Delay c),
       cf_Timeout := (if cf_Timeout flags \<noteq> 0 then cf_Timeout flags else cf_Timeout c),
       cf_BackoffType := (if cf_BackoffType flags \<noteq> [] then cf_BackoffType flags else cf_BackoffType c),
       cf_MaxDelay := (if cf_MaxDelay flags \<noteq> 0 then cf_MaxDelay flags else cf_MaxDelay c),
       cf_Multiplier := (if \<not> feq (cf_Multiplier flags) (Fin 0) then cf_Multiplier flags else cf_Multiplier c),
       cf_SuccessPattern := (if cf_SuccessPattern flags \<noteq> [] then cf_SuccessPattern flags else cf_SuccessPattern c),
       cf_FailurePattern := (if cf_FailurePattern flags \<noteq> [] then cf_FailurePattern flags else cf_FailurePattern c),
       cf_DaemonSocket := (if cf_DaemonSocket flags \<noteq> [] then cf_DaemonSocket flags else cf_DaemonSocket c),
       cf_DaemonTimeout := (if cf_DaemonTimeout flags \<noteq> 0 then cf_DaemonTimeout flags else cf_DaemonTimeout c)\<rparr>"

definition MergeWithExplicitFlags :: "Config \<Rightarrow> Config \<Rightarrow> (string \<Rightarrow> bool) \<Rightarrow> Config" where
  "MergeWithExplicitFlags c flags explicit =
     c\<lparr>cf_Attempts := (if explicit ''attempts'' then cf_Attempts flags else cf_Attempts c),
       cf_Delay := (if explicit ''delay'' then cf_Delay flags else cf_Delay c),
       cf_Timeout := (if explicit ''timeout'' then cf_Timeout flags else cf_Timeout c),
       cf_BackoffType := (if explicit ''backoff'' then cf_BackoffType flags else cf_BackoffType c),
       cf_MaxDelay := (if explicit ''max_delay'' then cf_MaxDelay flags else cf_MaxDelay c),
       cf_Multiplier := (if explicit ''multiplier'' then cf_Multiplier flags else cf_Multiplier c),
       cf_SuccessPattern := (if explicit ''success_pattern'' then cf_SuccessPattern flags else cf_SuccessPattern c),
       cf_FailurePattern := (if explicit ''failure_pattern'' then cf_FailurePattern flags else cf_FailurePattern c),
       cf_CaseInsensitive := (if explicit ''case_insensitive'' then cf_CaseInsensitive flags else cf_CaseInsensitive c),
       cf_DaemonEnabled := (if explicit ''daemon_enabled'' then cf_DaemonEnabled flags else cf_DaemonEnabled c),
       cf_DaemonSocket := (if explicit ''daemon_socket'' then cf_DaemonSocket flags else cf_DaemonSocket c),
       cf_DaemonTimeout := (if explicit ''daemon_timeout'' then cf_DaemonTimeout flags else cf_DaemonTimeout c),
       cf_DaemonAutoStart := (if explicit ''daemon_auto_start'' then cf_DaemonAutoStart flags else cf_DaemonAutoStart c)\<rparr>"

text \<open>\<open>FindConfigFile\<close>: \<open>exists\<close> is whether \<open>os.Stat\<close> succeeds on a path.\<close>

definition configNames :: "string list" where
  "configNames = [''.patience.toml'', ''patience.toml'', ''.patience.yaml'', ''patience.yaml'']"

definition FindConfigFile :: "(string \<Rightarrow> string \<Rightarrow> string) \<Rightarrow> (string \<Rightarrow> bool) \<Rightarrow> string \<Rightarrow> string" where
  "FindConfigFile filepath_Join exists dir =
     (case find (\<lambda>name. exists (filepath_Join dir name)) configNames of
        Some name \<Rightarrow> filepath_Join dir name | None \<Rightarrow> [])"

section \<open>Validation\<close>

definition verr :: "string \<Rightarrow> cfg_value \<Rightarrow> string \<Rightarrow> ValidationError" where
  "verr field v message = \<lparr>ve_Field = field, ve_Value = v, ve_Message = message\<rparr>"

definition exponentialStrategies :: "string list" where
  "exponentialStrategies = [''exponential'', ''jitter'', ''decorrelated-jitter'']"

definition validMaxDelayStrategies :: "string list" where
  "validMaxDelayStrategies = [''exponential'', ''jitter'', ''linear'', ''decorrelated-jitter'', ''fibonacci'']"

definition validateCombinations :: "Config \<Rightarrow> ValidationError list" where
  "validateCombinations c =
     (case find (\<lambda>strategy. cf_BackoffType c = strategy \<and> cf_Delay c = 0) exponentialStrategies of
        Some strategy \<Rightarrow> [verr ''delay'' (VDuration (cf_Delay c)) (strategy @ '' backoff requires --delay > 0'')]
      | None \<Rightarrow> [])
     @ (if \<not> feq (cf_Multiplier c) (Fin 2) \<and> cf_BackoffType c \<notin> set exponentialStrategies
        then [verr ''multiplier'' (VFloat (cf_Multiplier c))
                (''--multiplier only valid with: '' @ join '', '' exponentialStrategies)] else [])
     @ (if 0 < cf_MaxDelay c \<and> cf_BackoffType c \<notin> set validMaxDelayStrategies
        then [verr ''max_delay'' (VDuration (cf_MaxDelay c))
                (''--max-delay only valid with: '' @ join '', '' validMaxDelayStrategies)] else [])"

definition validBackoffTypes :: "string list" where
  "validBackoffTypes = [''fixed'', ''exponential'', ''jitter'', ''linear'', ''decorrelated-jitter'', ''fibonacci'',
     ''adaptive'', ''polynomial'', ''http-aware'']"

definition Config_Validate :: "Config \<Rightarrow> ValidationError list" where
  "Config_Validate c =
     (if cf_Attempts c < 1 \<or> 1000 < cf_Attempts c
      then [verr ''attempts'' (VInt (cf_Attempts c)) ''must be between 1 and 1000''] else [])
     @ (if cf_Delay c < 0 then [verr ''delay'' (VDuration (cf_Delay c)) ''must be non-negative''] else [])
     @ (if 24 * Hour < cf_Delay c then [verr ''delay'' (VDuration (cf_Delay c)) ''must be 24 hours or less''] else [])
     @ (if cf_Timeout c < 0
        then [verr ''timeout'' (VDuration (cf_Timeout c)) ''must be non-negative (0 means no timeout)''] else [])
     @ (if 24 * Hour < cf_Timeout c then [verr ''timeout'' (VDuration (cf_Timeout c)) ''must be 24 hours or less''] else [])
     @ (if cf_BackoffType c \<noteq> [] \<and> cf_BackoffType c \<notin> set validBackoffTypes
        then [verr ''backoff'' (VString (cf_BackoffType c)) (''must be one of: '' @ join '', '' validBackoffTypes)] else [])
     @ (if cf_MaxDelay c < 0
        then [verr ''max_delay'' (VDuration (cf_MaxDelay c)) ''must be non-negative (0 means no limit)''] else [])
     @ (if 24 * Hour < cf_MaxDelay c then [verr ''max_delay'' (VDuration (cf_MaxDelay c)) ''must be 24 hours or less''] else [])
     @ (if 0 < cf_MaxDelay c \<and> 0 < cf_Delay c \<and> cf_MaxDelay c < cf_Delay c
        then [verr ''max_delay'' (VDuration (cf_MaxDelay c)) ''must be greater than or equal to base delay''] else [])
     @ (if flt (cf_Multiplier c) (Fin 1) then [verr ''multiplier'' (VFloat (cf_Multiplier c)) ''must be 1.0 or greater''] else [])
     @ (if flt (Fin 10) (cf_Multiplier c)
        then [verr ''multiplier'' (VFloat (cf_Multiplier c)) ''must be 10.0 or less to prevent excessive delays''] else [])
     @ validateCombinations c"

section \<open>The debug record\<close>

definition record_key :: "string \<Rightarrow> ConfigSource \<Rightarrow> cfg_value \<Rightarrow> ConfigDebugInfo \<Rightarrow> ConfigDebugInfo" where
  "record_key key src v d = d\<lparr>dbg_Sources := (dbg_Sources d)(key \<mapsto> src), dbg_Values := (dbg_Values d)(key \<mapsto> v)\<rparr>"

definition note_field :: "Config \<Rightarrow> ConfigSource \<Rightarrow> string \<Rightarrow> ConfigDebugInfo \<Rightarrow> ConfigDebugInfo" where
  "note_field c src key d = (case config_field c key of Some v \<Rightarrow> record_key key src v d | None \<Rightarrow> d)"

definition recordDefaults :: "ConfigDebugInfo \<Rightarrow> ConfigDebugInfo" where
  "recordDefaults d = fold (note_field setDefaults SourceDefault) config_keys d"

fun zero_value :: "cfg_value \<Rightarrow> bool" where
  "zero_value (VInt n) = (n = 0)"
| "zero_value (VDuration n) = (n = 0)"
| "zero_value (VString s) = (s = [])"
| "zero_value (VFloat x) = feq x (Fin 0)"
| "zero_value (VBool b) = (\<not> b)"

definition merged_keys :: "string list" where
  "merged_keys = [''attempts'', ''delay'', ''timeout'', ''backoff'', ''max_delay'', ''multiplier'',
     ''success_pattern'', ''failure_pattern'', ''daemon_socket'', ''daemon_timeout'']"

definition recordFlags :: "ConfigDebugInfo \<Rightarrow> Config \<Rightarrow> ConfigDebugInfo" where
  "recordFlags d flags =
     fold (\<lambda>key d. case config_field flags key of
             Some v \<Rightarrow> if zero_value v then d else record_key key SourceCLIFlag v d | None \<Rightarrow> d) merged_keys d"

definition recordExplicitFlags :: "ConfigDebugInfo \<Rightarrow> Config \<Rightarrow> (string \<Rightarrow> bool) \<Rightarrow> ConfigDebugInfo" where
  "recordExplicitFlags d flags explicit =
     fold (\<lambda>key d. if explicit key then note_field flags SourceCLIFlag key d else d) config_keys d"

section \<open>Loading\<close>

record 'file viper =
  vp_read :: "string \<Rightarrow> string + 'file"
  vp_unmarshal :: "'file option \<Rightarrow> bool \<Rightarrow> string + Config"
  vp_isset :: "'file \<Rightarrow> string \<Rightarrow> bool"
  vp_get :: "'file \<Rightarrow> string \<Rightarrow> cfg_value"
  vp_getenv :: "string \<Rightarrow> string"

datatype load_error = ReadFailed string | UnmarshalFailed string | InvalidConfig "ValidationError list"

definition recordConfigFile :: "'file viper \<Rightarrow> 'file \<Rightarrow> ConfigDebugInfo \<Rightarrow> ConfigDebugInfo" where
  "recordConfigFile v f d =
     fold (\<lambda>key d. if vp_isset v f key then record_key key SourceConfigFile (vp_get v f key) d else d) config_keys d"

definition envMappings :: "(string \<times> string) list" where
  "envMappings =
     [(''PATIENCE_ATTEMPTS'', ''attempts''), (''PATIENCE_DELAY'', ''delay''), (''PATIENCE_TIMEOUT'', ''timeout''),
      (''PATIENCE_BACKOFF'', ''backoff''), (''PATIENCE_MAX_DELAY'', ''max_delay''), (''PATIENCE_MULTIPLIER'', ''multiplier''),
      (''PATIENCE_SUCCESS_PATTERN'', ''success_pattern''), (''PATIENCE_FAILURE_PATTERN'', ''failure_pattern''),
      (''PATIENCE_CASE_INSENSITIVE'', ''case_insensitive''), (''PATIENCE_DAEMON_ENABLED'', ''daemon_enabled''),
      (''PATIENCE_DAEMON_SOCKET'', ''daemon_socket''), (''PATIENCE_DAEMON_TIMEOUT'', ''daemon_timeout''),
      (''PATIENCE_DAEMON_AUTO_START'', ''daemon_auto_start'')]"

definition recordEnvironment :: "'file viper \<Rightarrow> ConfigDebugInfo \<Rightarrow> ConfigDebugInfo" where
  "recordEnvironment v d =
     fold (\<lambda>(envVar, key) d. if vp_getenv v envVar \<noteq> [] then record_key key SourceEnvironment (VString (vp_getenv v envVar)) d else d)
       envMappings d"

definition LoadFromFile :: "'file viper \<Rightarrow> string \<Rightarrow> load_error + Config" where
  "LoadFromFile v configFile =
     (case vp_read v configFile of Inl e \<Rightarrow> Inl (ReadFailed e)
      | Inr f \<Rightarrow> (case vp_unmarshal v (Some f) False of Inl e \<Rightarrow> Inl (UnmarshalFailed e)
                 | Inr c \<Rightarrow> if Config_Validate c \<noteq> [] then Inl (InvalidConfig (Config_Validate c)) else Inr c))"

definition LoadWithEnvironment :: "'file viper \<Rightarrow> load_error + Config" where
  "LoadWithEnvironment v =
     (case vp_unmarshal v None True of Inl e \<Rightarrow> Inl (UnmarshalFailed e)
      | Inr c \<Rightarrow> if Config_Validate c \<noteq> [] then Inl (InvalidConfig (Config_Validate c)) else Inr c)"

definition empty_debug :: ConfigDebugInfo where
  "empty_debug = \<lparr>dbg_Sources = Map.empty, dbg_Values = Map.empty\<rparr>"

text \<open>
  The two loaders with precedence share everything up to the flags. \<open>dbg\<close> is the debug record, when
  asked for; the result is an error or a configuration, and the debug record so far.
\<close>

definition load_layers ::
  "'file viper \<Rightarrow> string \<Rightarrow> bool \<Rightarrow> (load_error + Config) \<times> ConfigDebugInfo option" where
  "load_layers v configFile debug =
     (let dbg0 = (if debug then Some (recordDefaults empty_debug) else None)
      in case (if configFile = [] then Inr None else map_sum id Some (vp_read v configFile)) of
           Inl e \<Rightarrow> (Inl (ReadFailed e), dbg0)
         | Inr file \<Rightarrow>
             let dbg1 = (case file of None \<Rightarrow> dbg0 | Some f \<Rightarrow> map_option (recordConfigFile v f) dbg0);
                 dbg2 = map_option (recordEnvironment v) dbg1
             in (case vp_unmarshal v file True of Inl e \<Rightarrow> Inl (UnmarshalFailed e) | Inr c \<Rightarrow> Inr c, dbg2))"

definition checked :: "Config \<Rightarrow> load_error + Config" where
  "checked c = (if Config_Validate c \<noteq> [] then Inl (InvalidConfig (Config_Validate c)) else Inr c)"

definition LoadWithPrecedence ::
  "'file viper \<Rightarrow> string \<Rightarrow> Config option \<Rightarrow> bool \<Rightarrow> (load_error + Config) \<times> ConfigDebugInfo option" where
  "LoadWithPrecedence v configFile flagConfig debug =
     (case load_layers v configFile debug of
        (Inl e, dbg) \<Rightarrow> (Inl e, dbg)
      | (Inr c, dbg) \<Rightarrow>
          (case flagConfig of
             None \<Rightarrow> (checked c, dbg)
           | Some flags \<Rightarrow> (checked (MergeWithFlags c flags), map_option (\<lambda>d. recordFlags d flags) dbg)))"

definition LoadWithPrecedenceAndExplicitFlags ::
  "'file viper \<Rightarrow> string \<Rightarrow> Config option \<Rightarrow> (string \<Rightarrow> bool) option \<Rightarrow> bool
     \<Rightarrow> (load_error + Config) \<times> ConfigDebugInfo option" where
  "LoadWithPrecedenceAndExplicitFlags v configFile flagConfig explicitFields debug =
     (case load_layers v configFile debug of
        (Inl e, dbg) \<Rightarrow> (Inl e, dbg)
      | (Inr c, dbg) \<Rightarrow>
          (case (flagConfig, explicitFields) of
             (Some flags, Some explicit) \<Rightarrow>
               (checked (MergeWithExplicitFlags c flags explicit), map_option (\<lambda>d. recordExplicitFlags d flags explicit) dbg)
           | _ \<Rightarrow> (checked c, dbg)))"

section \<open>Properties\<close>

lemma find_case_Nil: "(case find P xs of Some x \<Rightarrow> [f x] | None \<Rightarrow> []) = [] \<longleftrightarrow> \<not> (\<exists>x \<in> set xs. P x)"
proof (cases "find P xs")
  case None
  then have "\<not> (\<exists>x \<in> set xs. P x)" by (auto simp: find_None_iff)
  with None show ?thesis by simp
next
  case (Some x)
  then have "x \<in> set xs \<and> P x" by (auto simp: find_Some_iff)
  with Some show ?thesis by auto
qed

text \<open>Validation accepts exactly the intended configurations: an empty error list means that every
  number is in its documented range, the strategy is known, the maximum is not below the base
  delay, and the multiplier, the maximum and the missing base delay fit the strategy. The
  multiplier test is written with comparisons, so a NaN would pass it where the strategy takes a
  multiplier.\<close>

lemma Config_Validate_Nil:
  "Config_Validate c = [] \<longleftrightarrow>
     1 \<le> cf_Attempts c \<and> cf_Attempts c \<le> 1000 \<and> 0 \<le> cf_Delay c \<and> cf_Delay c \<le> 24 * Hour
     \<and> 0 \<le> cf_Timeout c \<and> cf_Timeout c \<le> 24 * Hour \<and> 0 \<le> cf_MaxDelay c \<and> cf_MaxDelay c \<le> 24 * Hour
     \<and> (cf_BackoffType c = [] \<or> cf_BackoffType c \<in> set validBackoffTypes)
     \<and> \<not> (0 < cf_MaxDelay c \<and> 0 < cf_Delay c \<and> cf_MaxDelay c < cf_Delay c)
     \<and> \<not> flt (cf_Multiplier c) (Fin 1) \<and> \<not> flt (Fin 10) (cf_Multiplier c)
     \<and> \<not> (cf_BackoffType c \<in> set exponentialStrategies \<and> cf_Delay c = 0)
     \<and> (feq (cf_Multiplier c) (Fin 2) \<or> cf_BackoffType c \<in> set exponentialStrategies)
     \<and> (cf_MaxDelay c = 0 \<or> cf_BackoffType c \<in> set validMaxDelayStrategies)"
  unfolding Config_Validate_def validateCombinations_def append_is_Nil_conv find_case_Nil by auto

lemma MergeWithExplicitFlags_field:
  "key \<in> set config_keys \<Longrightarrow> config_field (MergeWithExplicitFlags c flags explicit) key =
     (if explicit key then config_field flags key else config_field c key)"
  by (auto simp: config_keys_def config_field_def MergeWithExplicitFlags_def)

lemma explicit_flags_precedence_parts:
  assumes "LoadWithPrecedenceAndExplicitFlags v configFile (Some flags) (Some explicit) debug = (Inr c, dbg)"
  shows "Config_Validate c = []"
    and "\<exists>base file. (if configFile = [] then file = None else \<exists>f. vp_read v configFile = Inr f \<and> file = Some f)
      \<and> vp_unmarshal v file True = Inr base \<and> (\<forall>key \<in> set config_keys.
        config_field c key = (if explicit key then config_field flags key else config_field base key))"
proof -
  obtain base dbg' where l: "load_layers v configFile debug = (Inr base, dbg')"
      "checked (MergeWithExplicitFlags base flags explicit) = Inr c"
    using assms by (auto simp: LoadWithPrecedenceAndExplicitFlags_def split: prod.splits sum.splits)
  then have c: "c = MergeWithExplicitFlags base flags explicit" "Config_Validate c = []"
    by (auto simp: checked_def split: if_splits)
  then show "Config_Validate c = []" by simp
  obtain src where "if configFile = [] then src = None else \<exists>f. vp_read v configFile = Inr f \<and> src = Some f"
      "vp_unmarshal v src True = Inr base"
    using l(1) by (cases "vp_read v configFile") (auto simp: load_layers_def Let_def split: sum.splits if_splits)
  with c(1) MergeWithExplicitFlags_field [of _ base flags explicit]
  show "\<exists>base file. (if configFile = [] then file = None else \<exists>f. vp_read v configFile = Inr f \<and> file = Some f)
      \<and> vp_unmarshal v file True = Inr base \<and> (\<forall>key \<in> set config_keys.
      config_field c key = (if explicit key then config_field flags key else config_field base key))" by blast
qed

text \<open>C7. Precedence: a configuration that loads is valid, and every key has the value of the command-line
  flag when that flag was given, a zero value included, and otherwise the value the file,
  environment and defaults resolve to.\<close>

theorem explicit_flags_precedence:
  assumes "LoadWithPrecedenceAndExplicitFlags v configFile (Some flags) (Some explicit) debug = (Inr c, dbg)"
  shows "(Config_Validate c = [])
    \<and> (\<exists>base file. (if configFile = [] then file = None else \<exists>f. vp_read v configFile = Inr f \<and> file = Some f)
      \<and> vp_unmarshal v file True = Inr base \<and> (\<forall>key \<in> set config_keys.
        config_field c key = (if explicit key then config_field flags key else config_field base key)))"
  using explicit_flags_precedence_parts [OF assms(1)] by blast

definition sample_viper :: "unit viper" where
  "sample_viper = \<lparr>vp_read = (\<lambda>_. Inr ()), vp_unmarshal = (\<lambda>_ _. Inr (setDefaults\<lparr>cf_Timeout := Minute\<rparr>)),
     vp_isset = (\<lambda>_ _. True), vp_get = (\<lambda>_ key. the (config_field setDefaults key)), vp_getenv = (\<lambda>_. [])\<rparr>"

theorem explicit_flags_precedence_witness:
  "\<exists>c dbg. LoadWithPrecedenceAndExplicitFlags sample_viper [] (Some (setDefaults\<lparr>cf_Attempts := 7\<rparr>))
       (Some (\<lambda>key. key = ''timeout'')) False = (Inr c, dbg) \<and> config_field c ''timeout'' = Some (VDuration 0)"
proof -
  let ?f = "setDefaults\<lparr>cf_Attempts := 7\<rparr>"
  obtain c dbg where l: "LoadWithPrecedenceAndExplicitFlags sample_viper [] (Some ?f) (Some (\<lambda>key. key = ''timeout'')) False = (Inr c, dbg)"
    by (simp add: LoadWithPrecedenceAndExplicitFlags_def load_layers_def sample_viper_def checked_def
        Config_Validate_Nil MergeWithExplicitFlags_def setDefaults_def validBackoffTypes_def exponentialStrategies_def Hour_def)
  from explicit_flags_precedence [OF l] have "config_field c ''timeout'' = config_field ?f ''timeout''"
    by (force simp: config_keys_def)
  with l show ?thesis by (simp add: config_field_def setDefaults_def)
qed

lemma fold_record_source:
  assumes "\<And>key d. g key d = (if P key then record_key key src (f key) d else d)"
  shows "dbg_Sources (fold g keys d) key = (if key \<in> set keys \<and> P key then Some src else dbg_Sources d key)"
  by (induction keys arbitrary: d) (auto simp: assms record_key_def)

lemma recordEnvironment_unset: "(\<And>x. vp_getenv v x = []) \<Longrightarrow> recordEnvironment v d = d"
proof -
  assume "\<And>x. vp_getenv v x = []"
  then have "fold (\<lambda>(envVar, key) d. if vp_getenv v envVar \<noteq> [] then record_key key SourceEnvironment (VString (vp_getenv v envVar)) d else d) ms d = d"
    for ms by (induction ms arbitrary: d) auto
  then show ?thesis by (simp add: recordEnvironment_def)
qed

text \<open>The debug record blames the file for everything: viper's \<open>IsSet\<close> also answers yes for a key that
  only has a default, so with any readable file, and no environment variable and no flag given,
  every key is reported as coming from the configuration file, whatever the file contains.\<close>

lemma debug_blames_config_file:
  assumes "configFile \<noteq> []" "vp_read v configFile = Inr f" "\<And>key. key \<in> set config_keys \<Longrightarrow> vp_isset v f key"
    "\<And>x. vp_getenv v x = []" "LoadWithPrecedenceAndExplicitFlags v configFile None None True = (r, Some d)"
    "key \<in> set config_keys"
  shows "dbg_Sources d key = Some SourceConfigFile"
proof -
  have "d = recordConfigFile v f (recordDefaults empty_debug)"
    using assms(1,2,5) recordEnvironment_unset [of v] assms(4)
    by (auto simp: LoadWithPrecedenceAndExplicitFlags_def load_layers_def Let_def split: sum.splits prod.splits)
  with assms(3,6) show ?thesis
    by (simp add: recordConfigFile_def fold_record_source [where P = "vp_isset v f" and src = SourceConfigFile and f = "vp_get v f"])
qed

lemma debug_blames_config_file_witness:
  "\<exists>r d. LoadWithPrecedenceAndExplicitFlags sample_viper ''empty.toml'' None None True = (r, Some d)
     \<and> dbg_Sources d ''attempts'' = Some SourceConfigFile"
proof -
  obtain r d where l: "LoadWithPrecedenceAndExplicitFlags sample_viper ''empty.toml'' None None True = (r, Some d)"
    by (simp add: LoadWithPrecedenceAndExplicitFlags_def load_layers_def sample_viper_def Let_def)
  have "dbg_Sources d ''attempts'' = Some SourceConfigFile"
    by (rule debug_blames_config_file [OF _ _ _ _ l]) (simp_all add: sample_viper_def config_keys_def)
  with l show ?thesis by blast
qed

end
