(* ===== verification/CLI.thy ===== *)
theory CLI
  imports Executor Config
begin

text \<open>
  The command line, \<open>cmd/patience/subcommands.go\<close> and \<open>cmd/patience/main.go\<close>: the configuration of
  every strategy and its validation, the creation of strategies and executors, the bodies of the
  subcommands and the exit status. Flag parsing is cobra's: a subcommand body gets its
  configuration records as the flags left them, the remaining arguments, and the predicate
  \<open>changed\<close> (\<open>cmd.Flags().Changed\<close>). Files, environment and working directory are in \<open>cli_env\<close>.
  What is printed to standard output (debug information, one warning) and the metrics handed to a
  goroutine nobody waits for are not part of the state.
\<close>

section \<open>Configuration records\<close>

record CommonConfig =
  cc_Attempts :: int
  cc_Timeout :: duration
  cc_SuccessPattern :: string
  cc_FailurePattern :: string
  cc_CaseInsensitive :: bool
  cc_ConfigFile :: string
  cc_DebugConfig :: bool
  cc_DaemonEnabled :: bool
  cc_DaemonSocket :: string
  cc_DaemonTimeout :: duration
  cc_DaemonAutoStart :: bool

datatype cli_error =
    NoCommand
  | NoSeparator
  | BadAttempts int
  | BadTimeout duration
  | BadSuccessPattern string
  | BadFailurePattern string
  | BadMaxDelay duration
  | BadBaseDelay duration
  | BadMultiplier f64
  | BadExponent f64
  | BaseAboveMaxDelay
  | UnknownFallback string
  | UnknownStrategy string
  | WrongConfigType
  | BadLearningRate f64
  | BadMemoryWindow int
  | BadRateLimit int
  | BadWindow duration
  | EmptyOffsets
  | BadOffset string
  | NegativeOffset duration
  | LoadFailed load_error
  | CheckerFailed checker_error
  | PolynomialFailed poly_error
  | AdaptiveFailed adaptive_error
  | ExecutionError run_error
  | CommandFailed string

definition CommonConfig_Validate :: "compiler \<Rightarrow> CommonConfig \<Rightarrow> cli_error option" where
  "CommonConfig_Validate compile c =
     (if cc_Attempts c < 1 \<or> 1000 < cc_Attempts c then Some (BadAttempts (cc_Attempts c))
      else if cc_Timeout c < 0 then Some (BadTimeout (cc_Timeout c))
      else case (if cc_SuccessPattern c \<noteq> [] then compile (cc_SuccessPattern c) else Inr (\<lambda>_. True)) of
        Inl e \<Rightarrow> Some (BadSuccessPattern e)
      | Inr _ \<Rightarrow>
          (case (if cc_FailurePattern c \<noteq> [] then compile (cc_FailurePattern c) else Inr (\<lambda>_. True)) of
             Inl e \<Rightarrow> Some (BadFailurePattern e)
           | Inr _ \<Rightarrow> None))"

definition NewCommonConfig :: CommonConfig where
  "NewCommonConfig = \<lparr>cc_Attempts = 3, cc_Timeout = 0, cc_SuccessPattern = [], cc_FailurePattern = [],
     cc_CaseInsensitive = False, cc_ConfigFile = [], cc_DebugConfig = False, cc_DaemonEnabled = False,
     cc_DaemonSocket = ''/tmp/patience-daemon.sock'', cc_DaemonTimeout = 5 * Second, cc_DaemonAutoStart = True\<rparr>"

record HTTPAwareConfig =
  hc_Fallback :: string
  hc_MaxDelay :: duration

definition validFallbacks :: "string list" where
  "validFallbacks = [''exponential'', ''exp'', ''linear'', ''lin'', ''fixed'', ''fix'', ''jitter'', ''jit'',
     ''decorrelated-jitter'', ''dj'', ''fibonacci'', ''fib'']"

definition HTTPAwareConfig_Validate :: "HTTPAwareConfig \<Rightarrow> cli_error option" where
  "HTTPAwareConfig_Validate h =
     (if hc_MaxDelay h < 0 then Some (BadMaxDelay (hc_MaxDelay h))
      else if hc_Fallback h \<in> set validFallbacks then None
      else Some (UnknownFallback (hc_Fallback h)))"

record ExponentialConfig =
  ec_BaseDelay :: duration
  ec_Multiplier :: f64
  ec_MaxDelay :: duration

definition ExponentialConfig_Validate :: "ExponentialConfig \<Rightarrow> cli_error option" where
  "ExponentialConfig_Validate e =
     (if ec_BaseDelay e < 0 then Some (BadBaseDelay (ec_BaseDelay e))
      else if fle (ec_Multiplier e) (Fin 0) then Some (BadMultiplier (ec_Multiplier e))
      else if ec_MaxDelay e < 0 then Some (BadMaxDelay (ec_MaxDelay e))
      else None)"

record LinearConfig =
  lc_Increment :: duration
  lc_MaxDelay :: duration

record FixedConfig =
  fc_Delay :: duration

record JitterConfig =
  jc_BaseDelay :: duration
  jc_Multiplier :: f64
  jc_MaxDelay :: duration

record DecorrelatedJitterConfig =
  djc_BaseDelay :: duration
  djc_Multiplier :: f64
  djc_MaxDelay :: duration

record FibonacciConfig =
  fbc_BaseDelay :: duration
  fbc_MaxDelay :: duration

record PolynomialConfig =
  pc_BaseDelay :: duration
  pc_Exponent :: f64
  pc_MaxDelay :: duration

record AdaptiveConfig =
  ac_LearningRate :: f64
  ac_MemoryWindow :: int
  ac_FallbackStrategy :: string

record DiophantineConfig =
  dic_RateLimit :: int
  dic_Window :: duration
  dic_RetryOffsets :: string
  dic_ResourceID :: string

section \<open>Parsing\<close>

fun parseCommandArgs :: "string list \<Rightarrow> cli_error + string list" where
  "parseCommandArgs [] = Inl NoSeparator"
| "parseCommandArgs (arg # args) =
     (if arg = ''--'' then (if args = [] then Inl NoCommand else Inr args) else parseCommandArgs args)"

fun parseArgsWithSeparator :: "string list \<Rightarrow> cli_error + string list" where
  "parseArgsWithSeparator [] = Inl NoSeparator"
| "parseArgsWithSeparator (arg # args) =
     (if arg = ''--'' then (if args = [] then Inl NoCommand else Inr args) else parseArgsWithSeparator args)"

definition parse_offset :: "string \<Rightarrow> cli_error + duration" where
  "parse_offset p =
     (let part = trim_space p
      in if part = ''0'' then Inr 0
         else case ParseDuration part of
                None \<Rightarrow> Inl (BadOffset part)
              | Some d \<Rightarrow> if d < 0 then Inl (NegativeOffset d) else Inr d)"

fun parse_offsets :: "string list \<Rightarrow> cli_error + duration list" where
  "parse_offsets [] = Inr []"
| "parse_offsets (p # ps) =
     (case parse_offset p of Inl e \<Rightarrow> Inl e
      | Inr d \<Rightarrow> (case parse_offsets ps of Inl e \<Rightarrow> Inl e | Inr ds \<Rightarrow> Inr (d # ds)))"

definition parseRetryOffsets :: "string \<Rightarrow> cli_error + duration list" where
  "parseRetryOffsets offsetsStr =
     (if offsetsStr = [] then Inl EmptyOffsets else parse_offsets (split_on (CHR '','') offsetsStr))"

definition DiophantineConfig_Validate :: "DiophantineConfig \<Rightarrow> cli_error option" where
  "DiophantineConfig_Validate c =
     (if dic_RateLimit c \<le> 0 then Some (BadRateLimit (dic_RateLimit c))
      else if dic_Window c \<le> 0 then Some (BadWindow (dic_Window c))
      else case parseRetryOffsets (dic_RetryOffsets c) of Inl e \<Rightarrow> Some e | Inr _ \<Rightarrow> None)"

section \<open>Strategies and executors\<close>

definition createFallbackStrategy :: "string \<Rightarrow> cli_error + base_strategy" where
  "createFallbackStrategy fallbackType =
     (if fallbackType = ''exponential'' \<or> fallbackType = ''exp''
      then Inr (BExponential (NewExponential (1 * Second) (Fin 2) (60 * Second)))
      else if fallbackType = ''linear'' \<or> fallbackType = ''lin'' then Inr (BLinear (NewLinear (1 * Second) (60 * Second)))
      else if fallbackType = ''fixed'' \<or> fallbackType = ''fix'' then Inr (BFixed (NewFixed (1 * Second)))
      else if fallbackType = ''jitter'' \<or> fallbackType = ''jit''
      then Inr (BJitter (NewJitter (1 * Second) (Fin 2) (60 * Second)))
      else if fallbackType = ''decorrelated-jitter'' \<or> fallbackType = ''dj''
      then Inr (BDecorrelatedJitter (NewDecorrelatedJitter (1 * Second) (Fin 2) (60 * Second)))
      else if fallbackType = ''fibonacci'' \<or> fallbackType = ''fib''
      then Inr (BFibonacci (NewFibonacci (1 * Second) (60 * Second)))
      else Inl (UnknownFallback fallbackType))"

datatype strategy_config = HTTPCfg HTTPAwareConfig | ExpCfg ExponentialConfig

definition createStrategyFromConfig :: "string \<Rightarrow> strategy_config \<Rightarrow> cli_error + strategy" where
  "createStrategyFromConfig strategyType config =
     (if strategyType = ''http-aware'' \<or> strategyType = ''ha'' then
        (case config of
           HTTPCfg h \<Rightarrow>
             let fallback =
                   (if hc_Fallback h = ''linear'' then BLinear (NewLinear (1 * Second) (60 * Second))
                    else if hc_Fallback h = ''fixed'' then BFixed (NewFixed (1 * Second))
                    else BExponential (NewExponential (1 * Second) (Fin 2) (60 * Second)))
             in Inr (SHTTPAware (NewHTTPAware fallback (hc_MaxDelay h)))
         | _ \<Rightarrow> Inl WrongConfigType)
      else if strategyType = ''exponential'' \<or> strategyType = ''exp'' then
        (case config of
           ExpCfg e \<Rightarrow> Inr (SBase (BExponential (NewExponential (ec_BaseDelay e) (ec_Multiplier e) (ec_MaxDelay e))))
         | _ \<Rightarrow> Inl WrongConfigType)
      else Inl (UnknownStrategy strategyType))"

definition createExecutorFromConfig ::
  "compiler \<Rightarrow> strategy option \<Rightarrow> CommonConfig \<Rightarrow> cli_error + Executor" where
  "createExecutorFromConfig compile strategy config =
     (let exec =
            (if strategy \<noteq> None \<and> 0 < cc_Timeout config
             then NewExecutorWithBackoffAndTimeout (cc_Attempts config) strategy (cc_Timeout config)
             else if strategy \<noteq> None then NewExecutorWithBackoff (cc_Attempts config) strategy
             else if 0 < cc_Timeout config then NewExecutorWithTimeout (cc_Attempts config) (cc_Timeout config)
             else NewExecutor (cc_Attempts config))
      in if cc_SuccessPattern config \<noteq> [] \<or> cc_FailurePattern config \<noteq> [] then
           (case NewChecker compile (cc_SuccessPattern config) (cc_FailurePattern config) (cc_CaseInsensitive config) of
              Inl e \<Rightarrow> Inl (CheckerFailed e)
            | Inr checker \<Rightarrow> Inr (exec\<lparr>xr_Conditions := Some checker, xr_Reporter := Some NewReporter\<rparr>))
         else Inr (exec\<lparr>xr_Reporter := Some NewReporter\<rparr>))"

section \<open>Running and exiting\<close>

text \<open>
  How a command body ends: it leaves the process with a code, or it returns an error or nothing,
  after which \<open>main\<close> exits with 1 or 0. The system keeps the low eight bits of a code.
\<close>

datatype finish = Exited int | Returned "cli_error option"

definition exit_status :: "finish \<Rightarrow> int" where
  "exit_status f = (case f of Exited code \<Rightarrow> code mod 256 | Returned (Some e) \<Rightarrow> 1 | Returned None \<Rightarrow> 0)"

record 'file cli_env =
  cl_env :: env
  cl_compile :: compiler
  cl_viper :: "'file viper"
  cl_getwd :: "string option"
  cl_home :: "string option"
  cl_join :: "string \<Rightarrow> string \<Rightarrow> string"
  cl_exists :: "string \<Rightarrow> bool"
  cl_testMode :: bool

definition summary :: "Executor \<Rightarrow> Result \<Rightarrow> world \<Rightarrow> world" where
  "summary exec result w = report exec (\<lambda>_. FinalSummary (re_Stats result)) w"

definition exit_code_for :: "Result \<Rightarrow> int" where
  "exit_code_for result =
     (if re_Success result then 0
      else if contains (re_Reason result) ''failure pattern matched'' then 1
      else re_ExitCode result)"

definition handleExecutionResult :: "bool \<Rightarrow> Result \<Rightarrow> Executor \<Rightarrow> world \<Rightarrow> finish \<times> world" where
  "handleExecutionResult testMode result exec w =
     (if \<not> testMode then Exited (exit_code_for result)
      else if \<not> re_Success result then Returned (Some (CommandFailed (re_Reason result)))
      else Returned None, summary exec result w)"

text \<open>The common end of the \<open>executeWith\<close> functions: run the command and handle the result.\<close>

definition run_and_handle :: "'file cli_env \<Rightarrow> Executor \<Rightarrow> string list \<Rightarrow> world \<Rightarrow> finish \<times> world" where
  "run_and_handle ce exec args w =
     (case Run (cl_env ce) exec args w of
        (Inl err, exec', w') \<Rightarrow> (Returned (Some (ExecutionError err)), w')
      | (Inr result, exec', w') \<Rightarrow> handleExecutionResult (cl_testMode ce) result exec' w')"

definition executeWithStrategy ::
  "'file cli_env \<Rightarrow> strategy \<Rightarrow> CommonConfig \<Rightarrow> string list \<Rightarrow> world \<Rightarrow> finish \<times> world" where
  "executeWithStrategy ce strategy commonConfig args w =
     (case createExecutorFromConfig (cl_compile ce) (Some strategy) commonConfig of
        Inl e \<Rightarrow> (Returned (Some e), w)
      | Inr exec \<Rightarrow> run_and_handle ce exec args w)"

definition executeWithHTTPAware ::
  "'file cli_env \<Rightarrow> HTTPAwareConfig \<Rightarrow> CommonConfig \<Rightarrow> string list \<Rightarrow> world \<Rightarrow> finish \<times> world" where
  "executeWithHTTPAware ce strategyConfig commonConfig args w =
     (case createFallbackStrategy (hc_Fallback strategyConfig) of
        Inl e \<Rightarrow> (Returned (Some e), w)
      | Inr fallback \<Rightarrow>
          (case createExecutorFromConfig (cl_compile ce)
                  (Some (SHTTPAware (NewHTTPAware fallback (hc_MaxDelay strategyConfig)))) commonConfig of
             Inl e \<Rightarrow> (Returned (Some e), w)
           | Inr exec \<Rightarrow> run_and_handle ce exec args w))"

definition executeWithExponential ::
  "'file cli_env \<Rightarrow> ExponentialConfig \<Rightarrow> CommonConfig \<Rightarrow> string list \<Rightarrow> world \<Rightarrow> finish \<times> world" where
  "executeWithExponential ce strategyConfig commonConfig args w =
     (case createExecutorFromConfig (cl_compile ce)
             (Some (SBase (BExponential (NewExponential (ec_BaseDelay strategyConfig)
                (ec_Multiplier strategyConfig) (ec_MaxDelay strategyConfig))))) commonConfig of
        Inl e \<Rightarrow> (Returned (Some e), w)
      | Inr exec \<Rightarrow> run_and_handle ce exec args w)"

section \<open>The daemon connection of the diophantine command\<close>

definition startDaemon :: "string \<Rightarrow> string option" where
  "startDaemon socketPath = Some (''daemon not running - please start it manually with: patienced -socket '' @ socketPath)"

datatype daemon_error = StartFailed string | ConnectFailed client_error | NotAvailable client_error

text \<open>The test request reads the clock only for its time field; the zero time is not the clock's.\<close>

definition zero_time :: instant where
  "zero_time = - 62135596800 * Second"

definition testReq :: ScheduleRequest where
  "testReq = \<lparr>sq_ResourceID = ''test-connection'', sq_RateLimit = 1, sq_Window = Second,
     sq_RetryOffsets = [], sq_RequestTime = zero_time\<rparr>"

definition configureDaemonClient ::
  "'file cli_env \<Rightarrow> Executor \<Rightarrow> CommonConfig \<Rightarrow> world \<Rightarrow> daemon_error option \<times> Executor \<times> world" where
  "configureDaemonClient ce exec config w =
     (let client = NewDaemonClient (cc_DaemonSocket config);
          ctx_done = (cc_DaemonTimeout config \<le> 0);
          (answer, client1, n1) = Client_CanScheduleRequest (en_parse_time (cl_env ce)) ctx_done client testReq (w_net w);
          w1 = w\<lparr>w_net := n1\<rparr>
      in case answer of
           Inr _ \<Rightarrow> (None, exec\<lparr>xr_DaemonClient := Some client1\<rparr>, w1)
         | Inl err \<Rightarrow>
             if cc_DaemonAutoStart config then
               (case startDaemon (cc_DaemonSocket config) of
                  Some e \<Rightarrow> (Some (StartFailed e), exec, w1)
                | None \<Rightarrow>
                    let (answer2, client2, n2) =
                          Client_CanScheduleRequest (en_parse_time (cl_env ce)) ctx_done client1 testReq n1;
                        w2 = w\<lparr>w_net := n2\<rparr>
                    in (case answer2 of
                          Inl err2 \<Rightarrow> (Some (ConnectFailed err2), exec, w2)
                        | Inr _ \<Rightarrow> (None, exec\<lparr>xr_DaemonClient := Some client2\<rparr>, w2)))
             else (Some (NotAvailable err), exec, w1))"

definition executeWithDiophantine ::
  "'file cli_env \<Rightarrow> DiophantineConfig \<Rightarrow> CommonConfig \<Rightarrow> string list \<Rightarrow> world \<Rightarrow> finish \<times> world" where
  "executeWithDiophantine ce strategyConfig commonConfig args w =
     (case parseRetryOffsets (dic_RetryOffsets strategyConfig) of
        Inl e \<Rightarrow> (Returned (Some e), w)
      | Inr retryOffsets \<Rightarrow>
          (case createExecutorFromConfig (cl_compile ce)
                  (Some (SDiophantine (NewDiophantine (dic_RateLimit strategyConfig) (dic_Window strategyConfig) retryOffsets)))
                  commonConfig of
             Inl e \<Rightarrow> (Returned (Some e), w)
           | Inr exec \<Rightarrow>
               let exec1 = (if dic_ResourceID strategyConfig \<noteq> []
                            then exec\<lparr>xr_ResourceID := dic_ResourceID strategyConfig\<rparr> else exec);
                   (exec2, w1) = (if cc_DaemonEnabled commonConfig
                                  then (case configureDaemonClient ce exec1 commonConfig w of (err, e, w') \<Rightarrow> (e, w'))
                                  else (exec1, w))
               in run_and_handle ce exec2 args w1))"

section \<open>Loading the configuration\<close>

definition common_flag_config :: "CommonConfig \<Rightarrow> Config" where
  "common_flag_config c = \<lparr>cf_Attempts = cc_Attempts c, cf_Delay = 0, cf_Timeout = cc_Timeout c, cf_BackoffType = [],
     cf_MaxDelay = 0, cf_Multiplier = Fin 0, cf_SuccessPattern = cc_SuccessPattern c,
     cf_FailurePattern = cc_FailurePattern c, cf_CaseInsensitive = cc_CaseInsensitive c,
     cf_DaemonEnabled = cc_DaemonEnabled c, cf_DaemonSocket = cc_DaemonSocket c,
     cf_DaemonTimeout = cc_DaemonTimeout c, cf_DaemonAutoStart = cc_DaemonAutoStart c\<rparr>"

definition flag_names :: "(string \<times> string) list" where
  "flag_names = [(''attempts'', ''attempts''), (''timeout'', ''timeout''), (''success_pattern'', ''success-pattern''),
     (''failure_pattern'', ''failure-pattern''), (''case_insensitive'', ''case-insensitive''),
     (''daemon_enabled'', ''daemon''), (''daemon_socket'', ''daemon-socket''),
     (''daemon_timeout'', ''daemon-timeout''), (''daemon_auto_start'', ''daemon-auto-start'')]"

text \<open>\<open>explicitFields\<close>: the configuration keys of the changed flags.\<close>

definition explicit_of :: "(string \<times> string) list \<Rightarrow> (string \<Rightarrow> bool) \<Rightarrow> string \<Rightarrow> bool" where
  "explicit_of names changed key = (case map_of names key of Some flag \<Rightarrow> changed flag | None \<Rightarrow> False)"

definition loadConfigWithPrecedence ::
  "'file cli_env \<Rightarrow> (string \<Rightarrow> bool) \<Rightarrow> CommonConfig \<Rightarrow> cli_error + Config" where
  "loadConfigWithPrecedence ce changed commonConfig =
     (let configPath =
            (if cc_ConfigFile commonConfig \<noteq> [] then cc_ConfigFile commonConfig
             else case cl_getwd ce of None \<Rightarrow> [] | Some cwd \<Rightarrow> FindConfigFile (cl_join ce) (cl_exists ce) cwd)
      in case fst (LoadWithPrecedenceAndExplicitFlags (cl_viper ce) configPath (Some (common_flag_config commonConfig))
                     (Some (explicit_of flag_names changed)) (cc_DebugConfig commonConfig)) of
           Inl e \<Rightarrow> Inl (LoadFailed e)
         | Inr finalConfig \<Rightarrow> Inr finalConfig)"

definition update_common :: "Config \<Rightarrow> CommonConfig \<Rightarrow> CommonConfig" where
  "update_common cfg c = c\<lparr>cc_Attempts := cf_Attempts cfg, cc_Timeout := cf_Timeout cfg,
     cc_SuccessPattern := cf_SuccessPattern cfg, cc_FailurePattern := cf_FailurePattern cfg,
     cc_CaseInsensitive := cf_CaseInsensitive cfg\<rparr>"

definition update_daemon :: "Config \<Rightarrow> CommonConfig \<Rightarrow> CommonConfig" where
  "update_daemon cfg c = c\<lparr>cc_DaemonEnabled := cf_DaemonEnabled cfg, cc_DaemonSocket := cf_DaemonSocket cfg,
     cc_DaemonTimeout := cf_DaemonTimeout cfg, cc_DaemonAutoStart := cf_DaemonAutoStart cfg\<rparr>"

section \<open>The subcommands\<close>

text \<open>A body fails with the first error, else goes on; \<open>require\<close> is the \<open>if err != nil\<close> of a validation.\<close>

definition require :: "cli_error option \<Rightarrow> world \<Rightarrow> finish \<times> world \<Rightarrow> finish \<times> world" where
  "require e w k = (case e of Some x \<Rightarrow> (Returned (Some x), w) | None \<Rightarrow> k)"

definition http_aware_RunE ::
  "'file cli_env \<Rightarrow> (string \<Rightarrow> bool) \<Rightarrow> HTTPAwareConfig \<Rightarrow> CommonConfig \<Rightarrow> string list \<Rightarrow> world \<Rightarrow> finish \<times> world" where
  "http_aware_RunE ce changed strategyConfig commonConfig args w =
     (if args = [] then (Returned (Some NoCommand), w)
      else case loadConfigWithPrecedence ce changed commonConfig of
        Inl e \<Rightarrow> (Returned (Some e), w)
      | Inr cfg \<Rightarrow>
          let common = update_common cfg commonConfig
          in require (CommonConfig_Validate (cl_compile ce) common) w
               (require (HTTPAwareConfig_Validate strategyConfig) w
                  (executeWithHTTPAware ce strategyConfig common args w)))"

definition exponential_RunE ::
  "'file cli_env \<Rightarrow> (string \<Rightarrow> bool) \<Rightarrow> ExponentialConfig \<Rightarrow> CommonConfig \<Rightarrow> string list \<Rightarrow> world \<Rightarrow> finish \<times> world" where
  "exponential_RunE ce changed strategyConfig commonConfig args w =
     (if args = [] then (Returned (Some NoCommand), w)
      else case loadConfigWithPrecedence ce changed commonConfig of
        Inl e \<Rightarrow> (Returned (Some e), w)
      | Inr cfg \<Rightarrow>
          let common = update_common cfg commonConfig
          in require (CommonConfig_Validate (cl_compile ce) common) w
               (require (ExponentialConfig_Validate strategyConfig) w
                  (executeWithExponential ce strategyConfig common args w)))"

definition diophantine_RunE ::
  "'file cli_env \<Rightarrow> (string \<Rightarrow> bool) \<Rightarrow> DiophantineConfig \<Rightarrow> CommonConfig \<Rightarrow> string list \<Rightarrow> world \<Rightarrow> finish \<times> world" where
  "diophantine_RunE ce changed strategyConfig commonConfig args w =
     (if args = [] then (Returned (Some NoCommand), w)
      else case loadConfigWithPrecedence ce changed commonConfig of
        Inl e \<Rightarrow> (Returned (Some e), w)
      | Inr cfg \<Rightarrow>
          let common = update_daemon cfg (update_common cfg commonConfig)
          in require (CommonConfig_Validate (cl_compile ce) common) w
               (require (DiophantineConfig_Validate strategyConfig) w
                  (executeWithDiophantine ce strategyConfig common args w)))"

text \<open>The other subcommands validate the common flags only and do not load a configuration.\<close>

definition simple_RunE ::
  "'file cli_env \<Rightarrow> strategy \<Rightarrow> CommonConfig \<Rightarrow> string list \<Rightarrow> world \<Rightarrow> finish \<times> world" where
  "simple_RunE ce strategy commonConfig args w =
     (if args = [] then (Returned (Some NoCommand), w)
      else require (CommonConfig_Validate (cl_compile ce) commonConfig) w
             (executeWithStrategy ce strategy commonConfig args w))"

definition linear_RunE :: "'file cli_env \<Rightarrow> LinearConfig \<Rightarrow> CommonConfig \<Rightarrow> string list \<Rightarrow> world \<Rightarrow> finish \<times> world" where
  "linear_RunE ce c = simple_RunE ce (SBase (BLinear (NewLinear (lc_Increment c) (lc_MaxDelay c))))"

definition fixed_RunE :: "'file cli_env \<Rightarrow> FixedConfig \<Rightarrow> CommonConfig \<Rightarrow> string list \<Rightarrow> world \<Rightarrow> finish \<times> world" where
  "fixed_RunE ce c = simple_RunE ce (SBase (BFixed (NewFixed (fc_Delay c))))"

definition jitter_RunE :: "'file cli_env \<Rightarrow> JitterConfig \<Rightarrow> CommonConfig \<Rightarrow> string list \<Rightarrow> world \<Rightarrow> finish \<times> world" where
  "jitter_RunE ce c = simple_RunE ce (SBase (BJitter (NewJitter (jc_BaseDelay c) (jc_Multiplier c) (jc_MaxDelay c))))"

definition decorrelated_jitter_RunE ::
  "'file cli_env \<Rightarrow> DecorrelatedJitterConfig \<Rightarrow> CommonConfig \<Rightarrow> string list \<Rightarrow> world \<Rightarrow> finish \<times> world" where
  "decorrelated_jitter_RunE ce c = simple_RunE ce
     (SBase (BDecorrelatedJitter (NewDecorrelatedJitter (djc_BaseDelay c) (djc_Multiplier c) (djc_MaxDelay c))))"

definition fibonacci_RunE :: "'file cli_env \<Rightarrow> FibonacciConfig \<Rightarrow> CommonConfig \<Rightarrow> string list \<Rightarrow> world \<Rightarrow> finish \<times> world" where
  "fibonacci_RunE ce c = simple_RunE ce (SBase (BFibonacci (NewFibonacci (fbc_BaseDelay c) (fbc_MaxDelay c))))"

definition polynomial_check :: "PolynomialConfig \<Rightarrow> cli_error option" where
  "polynomial_check c =
     (if pc_BaseDelay c \<le> 0 then Some (BadBaseDelay (pc_BaseDelay c))
      else if flt (pc_Exponent c) (Fin 0) then Some (BadExponent (pc_Exponent c))
      else if pc_MaxDelay c \<le> 0 then Some (BadMaxDelay (pc_MaxDelay c))
      else if pc_MaxDelay c < pc_BaseDelay c then Some BaseAboveMaxDelay
      else None)"

definition polynomial_RunE :: "'file cli_env \<Rightarrow> PolynomialConfig \<Rightarrow> CommonConfig \<Rightarrow> string list \<Rightarrow> world \<Rightarrow> finish \<times> world" where
  "polynomial_RunE ce c commonConfig args w =
     (if args = [] then (Returned (Some NoCommand), w)
      else require (CommonConfig_Validate (cl_compile ce) commonConfig) w
             (require (polynomial_check c) w
                (case NewPolynomial (pc_BaseDelay c) (pc_Exponent c) (pc_MaxDelay c) of
                   Inl e \<Rightarrow> (Returned (Some (PolynomialFailed e)), w)
                 | Inr s \<Rightarrow> executeWithStrategy ce (SBase (BPolynomial s)) commonConfig args w)))"

definition adaptive_check :: "AdaptiveConfig \<Rightarrow> cli_error option" where
  "adaptive_check c =
     (if fle (ac_LearningRate c) (Fin 0) \<or> flt (Fin 1) (ac_LearningRate c) then Some (BadLearningRate (ac_LearningRate c))
      else if ac_MemoryWindow c \<le> 0 \<or> 10000 < ac_MemoryWindow c then Some (BadMemoryWindow (ac_MemoryWindow c))
      else None)"

definition adaptive_fallback :: "string \<Rightarrow> poly_error + base_strategy" where
  "adaptive_fallback name =
     (if name = ''linear'' \<or> name = ''lin'' then Inr (BLinear (NewLinear (1 * Second) (60 * Second)))
      else if name = ''fixed'' \<or> name = ''fix'' then Inr (BFixed (NewFixed (1 * Second)))
      else if name = ''jitter'' \<or> name = ''jit'' then Inr (BJitter (NewJitter (1 * Second) (Fin 2) (60 * Second)))
      else if name = ''decorrelated-jitter'' \<or> name = ''dj''
      then Inr (BDecorrelatedJitter (NewDecorrelatedJitter (1 * Second) (Fin 2) (60 * Second)))
      else if name = ''fibonacci'' \<or> name = ''fib'' then Inr (BFibonacci (NewFibonacci (1 * Second) (60 * Second)))
      else if name = ''polynomial'' \<or> name = ''poly''
      then map_sum id BPolynomial (NewPolynomial (1 * Second) (Fin 2) (60 * Second))
      else Inr (BExponential (NewExponential (1 * Second) (Fin 2) (60 * Second))))"

definition adaptive_RunE :: "'file cli_env \<Rightarrow> AdaptiveConfig \<Rightarrow> CommonConfig \<Rightarrow> string list \<Rightarrow> world \<Rightarrow> finish \<times> world" where
  "adaptive_RunE ce c commonConfig args w =
     (if args = [] then (Returned (Some NoCommand), w)
      else require (CommonConfig_Validate (cl_compile ce) commonConfig) w
             (require (adaptive_check c) w
                (case adaptive_fallback (ac_FallbackStrategy c) of
                   Inl e \<Rightarrow> (Returned (Some (PolynomialFailed e)), w)
                 | Inr fallback \<Rightarrow>
                     (case NewAdaptive (Some fallback) (ac_LearningRate c) (ac_MemoryWindow c) of
                        Inl e \<Rightarrow> (Returned (Some (AdaptiveFailed e)), w)
                      | Inr s \<Rightarrow> executeWithStrategy ce (SAdaptive s) commonConfig args w))))"

text \<open>The flags' defaults, as the commands declare them.\<close>

definition default_HTTPAwareConfig :: HTTPAwareConfig where
  "default_HTTPAwareConfig = \<lparr>hc_Fallback = ''exponential'', hc_MaxDelay = 30 * Minute\<rparr>"

definition default_ExponentialConfig :: ExponentialConfig where
  "default_ExponentialConfig = \<lparr>ec_BaseDelay = 1 * Second, ec_Multiplier = Fin 2, ec_MaxDelay = 60 * Second\<rparr>"

definition default_PolynomialConfig :: PolynomialConfig where
  "default_PolynomialConfig = \<lparr>pc_BaseDelay = 1 * Second, pc_Exponent = Fin 2, pc_MaxDelay = 60 * Second\<rparr>"

definition default_DiophantineConfig :: DiophantineConfig where
  "default_DiophantineConfig = \<lparr>dic_RateLimit = 100, dic_Window = Hour, dic_RetryOffsets = ''0,10m,30m'', dic_ResourceID = []\<rparr>"

section \<open>The command without subcommands\<close>

text \<open>\<open>main.go\<close>; \<open>runRetry\<close> is what ties these together, though no command calls it.\<close>

definition config_strategy :: "Config \<Rightarrow> strategy option" where
  "config_strategy cfg =
     (if 0 < cf_Delay cfg then
        Some (SBase
          (if cf_BackoffType cfg = ''exponential''
           then BExponential (NewExponential (cf_Delay cfg) (cf_Multiplier cfg) (cf_MaxDelay cfg))
           else if cf_BackoffType cfg = ''jitter'' then BJitter (NewJitter (cf_Delay cfg) (cf_Multiplier cfg) (cf_MaxDelay cfg))
           else if cf_BackoffType cfg = ''linear'' then BLinear (NewLinear (cf_Delay cfg) (cf_MaxDelay cfg))
           else if cf_BackoffType cfg = ''decorrelated-jitter''
           then BDecorrelatedJitter (NewDecorrelatedJitter (cf_Delay cfg) (cf_Multiplier cfg) (cf_MaxDelay cfg))
           else if cf_BackoffType cfg = ''fibonacci'' then BFibonacci (NewFibonacci (cf_Delay cfg) (cf_MaxDelay cfg))
           else BFixed (NewFixed (cf_Delay cfg))))
      else None)"

definition createExecutor :: "compiler \<Rightarrow> Config \<Rightarrow> cli_error + Executor" where
  "createExecutor compile cfg =
     (let strategy = config_strategy cfg
      in case (if cf_SuccessPattern cfg \<noteq> [] \<or> cf_FailurePattern cfg \<noteq> []
               then map_sum id Some (NewChecker compile (cf_SuccessPattern cfg) (cf_FailurePattern cfg) (cf_CaseInsensitive cfg))
               else Inr None) of
           Inl e \<Rightarrow> Inl (CheckerFailed e)
         | Inr checker \<Rightarrow>
             let exec =
                   (if strategy \<noteq> None \<and> 0 < cf_Timeout cfg
                    then NewExecutorWithBackoffAndTimeout (cf_Attempts cfg) strategy (cf_Timeout cfg)
                    else if strategy \<noteq> None then NewExecutorWithBackoff (cf_Attempts cfg) strategy
                    else if 0 < cf_Timeout cfg then NewExecutorWithTimeout (cf_Attempts cfg) (cf_Timeout cfg)
                    else NewExecutor (cf_Attempts cfg))
             in Inr (exec\<lparr>xr_Conditions := checker, xr_Reporter := Some NewReporter\<rparr>))"

definition executeCommand :: "env \<Rightarrow> Executor \<Rightarrow> string list \<Rightarrow> world \<Rightarrow> finish \<times> world" where
  "executeCommand en exec args w =
     (case Run en exec args w of
        (Inl err, exec', w') \<Rightarrow> (Returned (Some (ExecutionError err)), w')
      | (Inr result, exec', w') \<Rightarrow> (Exited (exit_code_for result), summary exec' result w'))"

definition root_flag_names :: "(string \<times> string) list" where
  "root_flag_names = [(''attempts'', ''attempts''), (''delay'', ''delay''), (''timeout'', ''timeout''),
     (''backoff'', ''backoff''), (''max_delay'', ''max-delay''), (''multiplier'', ''multiplier''),
     (''success_pattern'', ''success-pattern''), (''failure_pattern'', ''failure-pattern''),
     (''case_insensitive'', ''case-insensitive'')]"

definition hasAnyFlagsSet :: "(string \<Rightarrow> bool) \<Rightarrow> bool" where
  "hasAnyFlagsSet changed \<longleftrightarrow> list_ex (\<lambda>(key, flag). changed flag) root_flag_names"

definition loadConfiguration ::
  "'file cli_env \<Rightarrow> (string \<Rightarrow> bool) \<Rightarrow> string \<Rightarrow> Config \<Rightarrow> bool \<Rightarrow> load_error + Config" where
  "loadConfiguration ce changed configFile flagConfig debugConfig =
     (let search = FindConfigFile (cl_join ce) (cl_exists ce);
          inCwd = search (case cl_getwd ce of Some cwd \<Rightarrow> cwd | None \<Rightarrow> []);
          configPath =
            (if configFile \<noteq> [] then configFile
             else if inCwd \<noteq> [] then inCwd
             else case cl_home ce of Some home \<Rightarrow> search home | None \<Rightarrow> []);
          (flags, explicit) =
            (if hasAnyFlagsSet changed then (Some flagConfig, Some (explicit_of root_flag_names changed)) else (None, None))
      in fst (LoadWithPrecedenceAndExplicitFlags (cl_viper ce) configPath flags explicit debugConfig))"

definition runRetry ::
  "'file cli_env \<Rightarrow> (string \<Rightarrow> bool) \<Rightarrow> string \<Rightarrow> Config \<Rightarrow> bool \<Rightarrow> string list \<Rightarrow> world \<Rightarrow> finish \<times> world" where
  "runRetry ce changed configFile flagConfig debugConfig args w =
     (case loadConfiguration ce changed configFile flagConfig debugConfig of
        Inl e \<Rightarrow> (Returned (Some (LoadFailed e)), w)
      | Inr cfg \<Rightarrow>
          (case createExecutor (cl_compile ce) cfg of
             Inl e \<Rightarrow> (Returned (Some e), w)
           | Inr exec \<Rightarrow> executeCommand (cl_env ce) exec args w))"

section \<open>Arguments and offsets\<close>

text \<open>The arguments are split at the first separator: exactly what follows it is the command, and a
  missing separator or an empty command is an error; the two splitting functions agree.\<close>

lemma separator_split:
  "(parseArgsWithSeparator args = Inr command \<longleftrightarrow>
      command \<noteq> [] \<and> (\<exists>opts. args = opts @ ''--'' # command \<and> ''--'' \<notin> set opts))
   \<and> (parseArgsWithSeparator args = Inl NoSeparator \<longleftrightarrow> ''--'' \<notin> set args)
   \<and> parseCommandArgs args = parseArgsWithSeparator args"
proof -
  have "parseCommandArgs args = parseArgsWithSeparator args" by (induction args) simp_all
  moreover have "parseArgsWithSeparator args = Inl NoSeparator \<longleftrightarrow> ''--'' \<notin> set args" by (induction args) auto
  moreover have "parseArgsWithSeparator args = Inr command \<longleftrightarrow>
      command \<noteq> [] \<and> (\<exists>opts. args = opts @ ''--'' # command \<and> ''--'' \<notin> set opts)"
  proof (induction args)
    case (Cons arg args)
    show ?case
    proof (cases "arg = ''--''")
      case True
      then show ?thesis by (auto simp: Cons_eq_append_conv)
    next
      case False
      then have "(\<exists>opts. arg # args = opts @ ''--'' # command \<and> ''--'' \<notin> set opts)
          \<longleftrightarrow> (\<exists>opts. args = opts @ ''--'' # command \<and> ''--'' \<notin> set opts)"
        by (auto simp: Cons_eq_append_conv intro: exI [of _ "arg # _"])
      with False Cons show ?thesis by simp
    qed
  qed simp
  ultimately show ?thesis by blast
qed

definition offset_of :: "string \<Rightarrow> duration option" where
  "offset_of p = (if trim_space p = ''0'' then Some 0 else ParseDuration (trim_space p))"

lemma parse_offset_iff: "parse_offset p = Inr d \<longleftrightarrow> offset_of p = Some d \<and> 0 \<le> d"
  by (cases "trim_space p = ''0''"; cases "ParseDuration (trim_space p)") (auto simp: parse_offset_def offset_of_def)

lemma parse_offsets_iff:
  "parse_offsets ps = Inr ds \<longleftrightarrow> list_all2 (\<lambda>p d. offset_of p = Some d \<and> 0 \<le> d) ps ds"
proof (induction ps arbitrary: ds)
  case (Cons p ps)
  show ?case
  proof (cases "parse_offset p")
    case (Inl e)
    then have "\<not> (\<exists>d. offset_of p = Some d \<and> 0 \<le> d)" using parse_offset_iff [of p] by auto
    with Inl show ?thesis by (auto simp: list_all2_Cons1)
  next
    case (Inr d)
    then have d: "offset_of p = Some d' \<and> 0 \<le> d' \<longleftrightarrow> d' = d" for d' using parse_offset_iff [of p d'] by auto
    have "parse_offsets (p # ps) = Inr ds \<longleftrightarrow> (\<exists>ds'. parse_offsets ps = Inr ds' \<and> ds = d # ds')"
      using Inr by (cases "parse_offsets ps") auto
    with Cons d show ?thesis by (auto simp: list_all2_Cons1)
  qed
qed auto

text \<open>Retry offsets are read part by part: the text is accepted exactly when it is not empty and every
  comma-separated part, trimmed, is \<open>0\<close> or a duration that is not negative, and the result is
  the list of these durations in order. Validation of the diophantine flags accepts exactly the
  positive limits and windows with such a text.\<close>

lemma retry_offsets_parsed:
  "(parseRetryOffsets s = Inr ds \<longleftrightarrow> s \<noteq> [] \<and>
      list_all2 (\<lambda>p d. offset_of p = Some d \<and> 0 \<le> d) (split_on (CHR '','') s) ds)
   \<and> (DiophantineConfig_Validate c = None \<longleftrightarrow> 0 < dic_RateLimit c \<and> 0 < dic_Window c
      \<and> (\<exists>ds. parseRetryOffsets (dic_RetryOffsets c) = Inr ds))"
proof -
  have "DiophantineConfig_Validate c = None \<longleftrightarrow> 0 < dic_RateLimit c \<and> 0 < dic_Window c
      \<and> (\<exists>ds. parseRetryOffsets (dic_RetryOffsets c) = Inr ds)"
    by (auto simp: DiophantineConfig_Validate_def split: sum.splits)
  then show ?thesis by (simp add: parseRetryOffsets_def parse_offsets_iff)
qed

section \<open>Exit status\<close>

lemma exit_code_for_zero:
  assumes "- 1 \<le> re_ExitCode res" "re_ExitCode res \<le> 255"
    "re_Success res \<or> re_ExitCode res \<noteq> 0 \<or> re_Reason res = ''failure pattern matched''"
  shows "exit_code_for res mod 256 = 0 \<longleftrightarrow> re_Success res"
proof (cases "re_Success res \<or> contains (re_Reason res) ''failure pattern matched''")
  case True
  then show ?thesis by (auto simp: exit_code_for_def)
next
  case False
  have "contains ''failure pattern matched'' ''failure pattern matched''" by code_simp
  then have "re_ExitCode res \<noteq> 0" using False assms(3) by auto
  then have "re_ExitCode res mod 256 \<noteq> 0" using assms(1,2) by presburger
  with False show ?thesis by (simp add: exit_code_for_def)
qed

text \<open>C4. The exit status of the program tells whether the command succeeded. With at least one attempt and
  process exit codes as the system gives them, every subcommand's run ends with status 0 exactly
  when the run returned a successful result: a failed command never exits with 0, not even when
  its own code was 0 and the failure pattern matched or when a signal ended it.\<close>

theorem exit_status_tells_success:
  assumes "\<not> cl_testMode ce" "1 \<le> xr_MaxAttempts exec" "exits_ok w"
  shows "exit_status (fst (run_and_handle ce exec args w)) = 0 \<longleftrightarrow>
    (\<exists>res. fst (Run (cl_env ce) exec args w) = Inr res \<and> re_Success res)"
proof -
  obtain r e' w' where r: "Run (cl_env ce) exec args w = (r, e', w')" by (metis prod_cases3)
  show ?thesis
  proof (cases r)
    case (Inl err)
    with r show ?thesis by (simp add: run_and_handle_def exit_status_def)
  next
    case (Inr res)
    from Run_exit_code [OF r [unfolded Inr] assms(2,3)]
    have "exit_code_for res mod 256 = 0 \<longleftrightarrow> re_Success res" by (intro exit_code_for_zero) simp_all
    with r Inr assms(1) show ?thesis by (simp add: run_and_handle_def handleExecutionResult_def exit_status_def)
  qed
qed

definition sample_cli :: "unit cli_env" where
  "sample_cli = \<lparr>cl_env = sample_env, cl_compile = literal_compile, cl_viper = sample_viper, cl_getwd = None,
     cl_home = None, cl_join = (\<lambda>d n. d @ ''/'' @ n), cl_exists = (\<lambda>_. False), cl_testMode = False\<rparr>"

lemma exits_ok_sample: "exits_ok (sample_world (sample_process 1 ## sconst (sample_process 0)))"
  by (simp add: exits_ok_def sample_world_def sample_process_def sset_sconst)

theorem exit_status_tells_success_witness:
  "exit_status (fst (run_and_handle sample_cli sample_exec [''true''] (sample_world (sample_process 1 ## sconst (sample_process 0))))) = 0"
proof -
  have "\<not> cl_testMode sample_cli" "1 \<le> xr_MaxAttempts sample_exec" "cl_env sample_cli = sample_env"
    by (simp_all add: sample_cli_def sample_exec_def NewExecutorWithBackoff_def)
  with exit_status_tells_success [OF this(1,2) exits_ok_sample, of "[''true'']"] sample_run show ?thesis by force
qed

section \<open>Fallback strategies\<close>

text \<open>Validation and creation agree: the HTTP-aware configuration is accepted exactly when its maximum is
  not negative and its fallback name is one that a strategy is created for.\<close>

lemma fallback_validated_iff_created:
  "HTTPAwareConfig_Validate h = None \<longleftrightarrow>
     0 \<le> hc_MaxDelay h \<and> (\<exists>s. createFallbackStrategy (hc_Fallback h) = Inr s)"
  by (auto simp: HTTPAwareConfig_Validate_def validFallbacks_def createFallbackStrategy_def)

text \<open>Exponential growth from one second fits in 63 bits up to the 34th attempt.\<close>

lemma second_doubles:
  assumes "pow_exact2 p" "1 \<le> n" "n \<le> 34"
  shows "\<exists>x. fmul (f64_of_int Second) (pow_fn p (Fin 2) (f64_of_int (n - 1))) = Fin x \<and> rep64 x \<and> 0 \<le> x \<and> x < 2 ^ 63"
proof -
  obtain k where n: "n = int (Suc k)" using int_Suc_ex [OF assms(2)] by blast
  with assms(3) have k: "k \<le> 33" by simp
  have "f64_of_int (n - 1) = Fin (of_nat k)" using k by (simp add: n f64_of_int_small)
  moreover have "pow_fn p (Fin 2) (Fin (of_nat k)) = Fin (2 ^ k)" using assms(1) k by (simp add: pow_exact2_def)
  moreover have "fmul (f64_of_int Second) (Fin (2 ^ k)) = Fin (of_int Second * 2 ^ k)"
    using k by (intro fmul_pow2) (simp_all add: Second_def)
  moreover have "rep64 (of_int Second * 2 ^ k)"
    by (rule rep64I [of Second "int k"]) (simp_all add: Second_def pow2_def)
  moreover have "(2 :: rat) ^ k \<le> 2 ^ 33" using k by (intro power_increasing) simp_all
  then have "(of_int Second * 2 ^ k :: rat) < 2 ^ 63" by (simp add: Second_def)
  ultimately show ?thesis by (simp add: Second_def)
qed

lemma fallback_contract:
  assumes "createFallbackStrategy name = Inr s" "pow_exact2 p" "1 \<le> N" "N \<le> 34"
  shows "base_inv p N s \<and> base_bound s \<le> 60 * Second"
proof -
  have ex: "\<exists>x. fmul (f64_of_int Second) (pow_fn p (Fin 2) (f64_of_int (n - 1))) = Fin x \<and> rep64 x \<and> 0 \<le> x \<and> x < 2 ^ 63"
    if "1 \<le> n" "n \<le> N" for n using that assms by (intro second_doubles) simp_all
  consider "s = BExponential (NewExponential Second (Fin 2) (60 * Second))" | "s = BLinear (NewLinear Second (60 * Second))"
    | "s = BFixed (NewFixed Second)" | "s = BJitter (NewJitter Second (Fin 2) (60 * Second))"
    | "s = BDecorrelatedJitter (NewDecorrelatedJitter Second (Fin 2) (60 * Second))"
    | "s = BFibonacci (NewFibonacci Second (60 * Second))"
    using assms(1) by (auto simp: createFallbackStrategy_def split: if_splits)
  then show ?thesis
  proof cases
    case 6
    have "fib (nat N) \<le> fib 34" using assms(4) by (intro fib_mono) simp
    also have "fib 34 = 5702887" by code_simp
    finally show ?thesis using 6 by (simp add: strategy_defs Second_def cap_def max_i64_def)
  qed (use ex assms(3,4) in \<open>force simp: strategy_defs cap_def max_i64_def ji_fits_def dj_inv_def Second_def\<close>)+
qed

lemma createExecutorFromConfig_facts:
  assumes "createExecutorFromConfig compile (Some s) c = Inr exec"
  shows "xr_MaxAttempts exec = cc_Attempts c" "xr_BackoffStrategy exec = Some s" "xr_DaemonClient exec = None"
    "xr_Timeout exec = max 0 (cc_Timeout c)"
  using assms
  by (auto simp: createExecutorFromConfig_def NewExecutorWithBackoffAndTimeout_def NewExecutorWithBackoff_def Let_def
      split: if_splits sum.splits)

lemma summary_frame [simp]: "w_slept (summary e res w) = w_slept w"
  by (simp add: summary_def)

lemma run_and_handle_exited:
  assumes "run_and_handle ce exec args w = (Exited code, w')"
  obtains res e' w1 where "Run (cl_env ce) exec args w = (Inr res, e', w1)" "w' = summary e' res w1"
    "code = exit_code_for res"
  using assms by (auto simp: run_and_handle_def handleExecutionResult_def split: prod.splits sum.splits if_splits)

lemma require_exited: "require e w k = (Exited code, w') \<longleftrightarrow> e = None \<and> k = (Exited code, w')"
  by (auto simp: require_def split: option.splits)

text \<open>C5. The HTTP-aware command from flags to waits: whenever it runs the command at all, with at most 34
  attempts and a positive maximum, every wait is positive and at most the larger of one minute
  and the maximum delay, whatever the fallback, the server's headers and the random draws are,
  and there are fewer waits than configured attempts.\<close>

theorem http_aware_command_waits:
  assumes "http_aware_RunE ce changed h common args w = (Exited code, w')"
    and "loadConfigWithPrecedence ce changed common = Inr cfg" "cf_Attempts cfg \<le> 34" "0 < hc_MaxDelay h"
    and "pow_exact2 (en_platform (cl_env ce))" "rng_ok (fst (w_rand w))"
  shows "\<exists>waits. w_slept w' = w_slept w @ waits \<and> int (length waits) < cf_Attempts cfg
    \<and> (\<forall>d \<in> set waits. 0 < d \<and> d \<le> max (60 * Second) (hc_MaxDelay h))"
proof -
  let ?c = "update_common cfg common" and ?p = "en_platform (cl_env ce)"
  have v: "CommonConfig_Validate (cl_compile ce) ?c = None" "executeWithHTTPAware ce h ?c args w = (Exited code, w')"
    using assms(1,2) by (auto simp: http_aware_RunE_def require_exited Let_def split: if_splits)
  then have N: "1 \<le> cf_Attempts cfg" by (simp add: CommonConfig_Validate_def update_common_def split: if_splits)
  obtain fb exec where e: "createFallbackStrategy (hc_Fallback h) = Inr fb"
      "createExecutorFromConfig (cl_compile ce) (Some (SHTTPAware (NewHTTPAware fb (hc_MaxDelay h)))) ?c = Inr exec"
      "run_and_handle ce exec args w = (Exited code, w')"
    using v(2) by (auto simp: executeWithHTTPAware_def split: sum.splits)
  obtain res e' w1 where r: "Run (cl_env ce) exec args w = (Inr res, e', w1)" "w_slept w' = w_slept w1"
    using run_and_handle_exited [OF e(3)] by (metis summary_frame)
  note x = createExecutorFromConfig_facts [OF e(2)]
  have M: "xr_MaxAttempts exec = cf_Attempts cfg" using x(1) by (simp add: update_common_def)
  have fb: "base_inv ?p (cf_Attempts cfg) fb" "base_bound fb \<le> 60 * Second"
    using fallback_contract [OF e(1) assms(5) N assms(3)] by simp_all
  then have "strategy_inv ?p (xr_MaxAttempts exec) (SHTTPAware (NewHTTPAware fb (hc_MaxDelay h)))"
    using assms(4) by (simp add: M NewHTTPAware_def ha_client_inv_def ha_inv_def)
  from run_waits_bounded [OF _ x(3,2) this assms(6) r(1)] N obtain waits where
    ws: "w_slept w1 = w_slept w @ waits" "int (length waits) < re_AttemptCount res"
      "\<forall>d \<in> set waits. 0 < d \<and> d \<le> max (base_bound fb) (hc_MaxDelay h)"
    by (auto simp: M ha_bound_def NewHTTPAware_def)
  obtain e1 w2 lsf where "coordinateDaemon (cl_env ce) exec args w = (e1, w2)" "final_ok e1 args w2 res lsf"
    by (rule Run_final [OF r(1)]) (use N M in auto)
  then have "re_AttemptCount res \<le> cf_Attempts cfg" using coordinateDaemon_frame(1) M by (fastforce simp: final_ok_def)
  with ws r(2) fb(2) show ?thesis by fastforce
qed

lemma sample_load: "loadConfigWithPrecedence sample_cli (\<lambda>_. False) NewCommonConfig = Inr (setDefaults\<lparr>cf_Timeout := Minute\<rparr>)"
  by (simp add: loadConfigWithPrecedence_def sample_cli_def NewCommonConfig_def LoadWithPrecedenceAndExplicitFlags_def
      load_layers_def sample_viper_def checked_def Config_Validate_Nil MergeWithExplicitFlags_def explicit_of_def flag_names_def
      setDefaults_def validBackoffTypes_def exponentialStrategies_def Hour_def Minute_def)

definition http_sample_exec :: Executor where
  "http_sample_exec = (NewExecutorWithBackoffAndTimeout 3
     (Some (SHTTPAware (NewHTTPAware (BExponential (NewExponential (1 * Second) (Fin 2) (60 * Second))) (30 * Minute)))) Minute)
       \<lparr>xr_Reporter := Some NewReporter\<rparr>"

lemma sample_http_exec: "createExecutorFromConfig literal_compile
    (Some (SHTTPAware (NewHTTPAware (BExponential (NewExponential (1 * Second) (Fin 2) (60 * Second))) (30 * Minute))))
    (update_common (setDefaults\<lparr>cf_Timeout := Minute\<rparr>) NewCommonConfig) = Inr http_sample_exec"
  by (simp add: createExecutorFromConfig_def update_common_def setDefaults_def NewCommonConfig_def http_sample_exec_def Minute_def)

lemma sample_http_attempt:
  "\<exists>res ls'. run_attempt sample_env [''true''] 0 1 (initial_state http_sample_exec (sample_world (sconst (sample_process 0)))) = (Stopped res, ls')
     \<and> re_Success res"
  by (simp add: run_attempt_def executeAttempt_def run_process_def reaches_start_def RunWithOutputAndContext_def processAttemptResult_def
      recordStrategyOutcome_def initial_state_def report_def buildFinalResult_def Let_def http_sample_exec_def
      NewExecutorWithBackoffAndTimeout_def sample_world_def sample_process_def Minute_def Millisecond_def Second_def in_i64_def)

lemma sample_http_run:
  "\<exists>w'. http_aware_RunE sample_cli (\<lambda>_. False) default_HTTPAwareConfig NewCommonConfig [''true''] (sample_world (sconst (sample_process 0))) = (Exited 0, w')"
proof -
  let ?w = "sample_world (sconst (sample_process 0))"
  obtain res ls' where a: "run_attempt sample_env [''true''] 0 1 (initial_state http_sample_exec ?w) = (Stopped res, ls')"
    "re_Success res" using sample_http_attempt by blast
  have "coordinateDaemon sample_env http_sample_exec [''true''] ?w = (http_sample_exec, ?w)" "w_now ?w = 0"
    "1 \<le> xr_MaxAttempts (ls_exec (initial_state http_sample_exec ?w))"
    by (simp_all add: coordinateDaemon_def http_sample_exec_def NewExecutorWithBackoffAndTimeout_def sample_world_def initial_state_def)
  then have "Run sample_env http_sample_exec [''true''] ?w = (Inr res, ls_exec ls', ls_world ls')"
    using a(1) by (simp add: Run_def run_loop.simps [of sample_env "[''true'']" 0 1])
  moreover have "CommonConfig_Validate literal_compile (update_common (setDefaults\<lparr>cf_Timeout := Minute\<rparr>) NewCommonConfig) = None"
    by (simp add: CommonConfig_Validate_def update_common_def setDefaults_def NewCommonConfig_def Minute_def)
  moreover have "HTTPAwareConfig_Validate default_HTTPAwareConfig = None"
    by (simp add: HTTPAwareConfig_Validate_def default_HTTPAwareConfig_def validFallbacks_def Minute_def)
  moreover have "createFallbackStrategy (hc_Fallback default_HTTPAwareConfig) =
      Inr (BExponential (NewExponential (1 * Second) (Fin 2) (60 * Second)))" "hc_MaxDelay default_HTTPAwareConfig = 30 * Minute"
    by (simp_all add: createFallbackStrategy_def default_HTTPAwareConfig_def)
  moreover have "cl_compile sample_cli = literal_compile" "cl_env sample_cli = sample_env" "\<not> cl_testMode sample_cli"
    by (simp_all add: sample_cli_def)
  ultimately show ?thesis using sample_http_exec a(2)
    by (simp add: http_aware_RunE_def sample_load require_def executeWithHTTPAware_def run_and_handle_def
        handleExecutionResult_def exit_code_for_def)
qed

theorem http_aware_command_waits_witness:
  "\<exists>w' waits. http_aware_RunE sample_cli (\<lambda>_. False) default_HTTPAwareConfig NewCommonConfig [''true'']
       (sample_world (sconst (sample_process 0))) = (Exited 0, w') \<and> w_slept w' = waits \<and> length waits < 3"
proof -
  let ?w = "sample_world (sconst (sample_process 0))"
  obtain w' where w': "http_aware_RunE sample_cli (\<lambda>_. False) default_HTTPAwareConfig NewCommonConfig [''true''] ?w = (Exited 0, w')"
    using sample_http_run by blast
  have "cf_Attempts (setDefaults\<lparr>cf_Timeout := Minute\<rparr>) \<le> 34" "0 < hc_MaxDelay default_HTTPAwareConfig"
    "pow_exact2 (en_platform (cl_env sample_cli))" "rng_ok (fst (w_rand ?w))"
    by (simp_all add: setDefaults_def default_HTTPAwareConfig_def Minute_def sample_cli_def sample_env_def
        pow_exact2_amd64 sample_world_def rng_ok_half_draws)
  from http_aware_command_waits [OF w' sample_load this] w' show ?thesis
    by (auto simp: sample_world_def setDefaults_def)
qed

section \<open>The daemon connection\<close>

text \<open>Auto-start never helps: when the daemon does not answer the first test request, configuring the
  client fails and leaves the executor without a daemon client, whether or not auto-start is on,
  because starting the daemon always reports an error; the run then goes on without coordination.\<close>

lemma auto_start_never_helps:
  assumes "fst (Client_CanScheduleRequest (en_parse_time (cl_env ce)) (cc_DaemonTimeout c \<le> 0)
      (NewDaemonClient (cc_DaemonSocket c)) testReq (w_net w)) = Inl err"
  shows "\<exists>e w'. configureDaemonClient ce exec c w = (Some e, exec, w')"
  using assms by (auto simp: configureDaemonClient_def startDaemon_def Let_def split: prod.splits)

lemma auto_start_never_helps_witness:
  "\<exists>e w'. configureDaemonClient sample_cli sample_exec NewCommonConfig (sample_world (sconst (sample_process 0))) = (Some e, sample_exec, w')"
  by (rule auto_start_never_helps [where err = DialFailed])
    (simp add: Client_CanScheduleRequest_def connect_def NewDaemonClient_def NewCommonConfig_def sample_world_def sample_cli_def Second_def)

end
