(* ===== verification/Effectiveness.thy ===== *)
theory Effectiveness
  imports Strategy "HOL-Library.AList"
begin

text \<open>
  The effectiveness tracker of \<open>pkg/backoff/effectiveness_tracker.go\<close>: attempts, successes, running
  average delay and success rate per strategy name. The map is an association list; the choice
  of the best strategy ranges over it in an arbitrary order.
\<close>

record StrategyMetrics =
  sm_TotalAttempts :: int
  sm_SuccessfulRetries :: int
  sm_AverageDelay :: duration
  sm_LastUpdated :: "instant option"
  sm_SuccessRate :: f64

record EffectivenessTracker =
  et_strategyMetrics :: "(string \<times> StrategyMetrics) list"

definition NewEffectivenessTracker :: EffectivenessTracker where
  "NewEffectivenessTracker = \<lparr>et_strategyMetrics = []\<rparr>"

definition zero_metrics :: StrategyMetrics where
  "zero_metrics = \<lparr>sm_TotalAttempts = 0, sm_SuccessfulRetries = 0, sm_AverageDelay = 0,
     sm_LastUpdated = None, sm_SuccessRate = Fin 0\<rparr>"

definition update_metrics :: "instant \<Rightarrow> bool \<Rightarrow> duration \<Rightarrow> StrategyMetrics \<Rightarrow> StrategyMetrics" where
  "update_metrics now success delay m =
     (let total = wrap64 (sm_TotalAttempts m + 1);
          succ = (if success then wrap64 (sm_SuccessfulRetries m + 1) else sm_SuccessfulRetries m);
          average = (if total = 1 then delay
                     else quo (wrap64 (wrap64 (sm_AverageDelay m * (total - 1)) + delay)) total)
      in \<lparr>sm_TotalAttempts = total, sm_SuccessfulRetries = succ, sm_AverageDelay = average,
          sm_LastUpdated = Some now, sm_SuccessRate = fdiv (f64_of_int succ) (f64_of_int total)\<rparr>)"

definition RecordAttempt ::
  "instant \<Rightarrow> EffectivenessTracker \<Rightarrow> string \<Rightarrow> bool \<Rightarrow> duration \<Rightarrow> EffectivenessTracker" where
  "RecordAttempt now et strategy success delay =
     (let m = (case map_of (et_strategyMetrics et) strategy of Some m \<Rightarrow> m | None \<Rightarrow> zero_metrics)
      in et\<lparr>et_strategyMetrics := AList.update strategy (update_metrics now success delay m) (et_strategyMetrics et)\<rparr>)"

definition GetMetrics :: "EffectivenessTracker \<Rightarrow> string \<Rightarrow> StrategyMetrics option" where
  "GetMetrics et strategy = map_of (et_strategyMetrics et) strategy"

definition GetAllMetrics :: "EffectivenessTracker \<Rightarrow> (string \<times> StrategyMetrics) list" where
  "GetAllMetrics et = et_strategyMetrics et"

fun best_loop ::
  "(string \<times> StrategyMetrics) list \<Rightarrow> string \<times> StrategyMetrics option \<Rightarrow> f64 \<Rightarrow> string \<times> StrategyMetrics option" where
  "best_loop [] best rate = best"
| "best_loop ((s, m) # ms) best rate =
     (if 3 \<le> sm_TotalAttempts m \<and> flt rate (sm_SuccessRate m)
      then best_loop ms (s, Some m) (sm_SuccessRate m) else best_loop ms best rate)"

definition GetBestStrategy :: "(string \<Rightarrow> nat) \<Rightarrow> EffectivenessTracker \<Rightarrow> string \<times> StrategyMetrics option" where
  "GetBestStrategy rk et = best_loop (map_range rk (et_strategyMetrics et)) ([], None) (Fin 0)"

definition Reset :: "EffectivenessTracker \<Rightarrow> EffectivenessTracker" where
  "Reset et = et\<lparr>et_strategyMetrics := []\<rparr>"

definition GetStrategyCount :: "EffectivenessTracker \<Rightarrow> int" where
  "GetStrategyCount et = int (length (et_strategyMetrics et))"

section \<open>What the tracker knows of a history\<close>

text \<open>Attempts as they are recorded: instant, strategy, success and delay.\<close>

type_synonym attempt = "instant \<times> string \<times> bool \<times> duration"

definition record_attempt :: "EffectivenessTracker \<Rightarrow> attempt \<Rightarrow> EffectivenessTracker" where
  "record_attempt et a = (case a of (now, s, ok, d) \<Rightarrow> RecordAttempt now et s ok d)"

lemma record_attempt_eq: "record_attempt et (now, s, ok, d) = RecordAttempt now et s ok d"
  by (simp add: record_attempt_def)

definition attempts_of :: "string \<Rightarrow> attempt list \<Rightarrow> (bool \<times> duration) list" where
  "attempts_of s h = map (\<lambda>(now, s', ok, d). (ok, d)) (filter (\<lambda>(now, s', ok, d). s' = s) h)"

text \<open>The metrics a list of attempts of one strategy determines, within bounds that do not overflow.\<close>

definition summarises :: "duration \<Rightarrow> duration \<Rightarrow> (bool \<times> duration) list \<Rightarrow> StrategyMetrics \<Rightarrow> bool" where
  "summarises lo hi as m \<longleftrightarrow> sm_TotalAttempts m = int (length as)
     \<and> sm_SuccessfulRetries m = int (length (filter fst as))
     \<and> lo \<le> sm_AverageDelay m \<and> sm_AverageDelay m \<le> hi
     \<and> sm_SuccessRate m = fdiv (f64_of_int (int (length (filter fst as)))) (f64_of_int (int (length as)))"

lemma average_between:
  assumes "0 \<le> lo" "lo \<le> a" "a \<le> hi" "lo \<le> d" "d \<le> hi" "0 < n" "(n + 1) * hi < 2 ^ 63"
  shows "lo \<le> quo (wrap64 (wrap64 (a * n) + d)) (n + 1) \<and> quo (wrap64 (wrap64 (a * n) + d)) (n + 1) \<le> hi"
proof -
  have lb: "lo * n \<le> a * n" and ub: "a * n \<le> hi * n" using assms(2,3,6) by (simp_all add: mult_right_mono)
  have "0 \<le> lo * n" using assms(1,6) by simp
  moreover have "0 \<le> hi" using assms by linarith
  moreover have "hi * n + hi < 2 ^ 63" using assms(7) by (simp add: algebra_simps)
  ultimately have "0 \<le> a * n" "a * n + d < 2 ^ 63" "0 \<le> d" using lb ub assms(1,4,5) by linarith+
  then have "in_i64 (a * n)" "in_i64 (a * n + d)" by (auto simp: in_i64_def)
  then have eq: "quo (wrap64 (wrap64 (a * n) + d)) (n + 1) = (a * n + d) div (n + 1)"
    using lb assms \<open>0 \<le> lo * n\<close> by (simp add: quo_nonneg)
  have "lo * (n + 1) \<le> a * n + d" "a * n + d \<le> hi * (n + 1)"
    using lb ub assms(4,5) by (simp_all add: distrib_left)
  then have "lo \<le> (a * n + d) div (n + 1)" "(a * n + d) div (n + 1) \<le> hi"
    using assms(6) zdiv_mono1 [of "lo * (n + 1)" "a * n + d" "n + 1"] zdiv_mono1 [of "a * n + d" "hi * (n + 1)" "n + 1"]
    by simp_all
  with eq show ?thesis by simp
qed

lemma update_metrics_summarises:
  assumes m: "as = [] \<and> m = zero_metrics \<or> as \<noteq> [] \<and> summarises lo hi as m"
    and d: "0 \<le> lo" "lo \<le> d" "d \<le> hi" and fit: "int (length as + 1) * hi < 2 ^ 63" "int (length as + 1) < 2 ^ 63"
  shows "summarises lo hi (as @ [(ok, d)]) (update_metrics now ok d m)"
proof (cases "as = []")
  case True
  with m have "m = zero_metrics" by simp
  with True d show ?thesis by (simp add: summarises_def update_metrics_def zero_metrics_def in_i64_def Let_def)
next
  case False
  with m have s: "summarises lo hi as m" by simp
  have len: "int (length (filter fst as)) \<le> int (length as)" by simp
  have "in_i64 (int (length as) + 1)" "in_i64 (int (length (filter fst as)) + 1)"
    using fit(2) len unfolding in_i64_def by linarith+
  moreover have "int (length as) + 1 \<noteq> 1" using False by simp
  moreover have "lo \<le> quo (wrap64 (wrap64 (sm_AverageDelay m * int (length as)) + d)) (int (length as) + 1)
      \<and> quo (wrap64 (wrap64 (sm_AverageDelay m * int (length as)) + d)) (int (length as) + 1) \<le> hi"
    using s d fit(1) False by (intro average_between) (simp_all add: summarises_def add.commute)
  ultimately show ?thesis using s by (simp add: summarises_def update_metrics_def Let_def add.commute)
qed

lemma GetMetrics_RecordAttempt:
  "GetMetrics (RecordAttempt now et s ok d) s' =
     (if s' = s then Some (update_metrics now ok d (case GetMetrics et s of Some m \<Rightarrow> m | None \<Rightarrow> zero_metrics))
      else GetMetrics et s')"
  by (simp add: GetMetrics_def RecordAttempt_def Let_def update_conv')

lemma tracker_history:
  assumes "\<forall>(now, s', ok, d) \<in> set h. lo \<le> d \<and> d \<le> hi" "0 \<le> lo" "lo \<le> hi" "int (length h) * hi < 2 ^ 63"
    "int (length h) < 2 ^ 63"
  shows "case GetMetrics (foldl record_attempt NewEffectivenessTracker h) s of
      None \<Rightarrow> attempts_of s h = []
    | Some m \<Rightarrow> attempts_of s h \<noteq> [] \<and> summarises lo hi (attempts_of s h) m"
  using assms(1,4,5)
proof (induction h rule: rev_induct)
  case Nil
  then show ?case by (simp add: GetMetrics_def NewEffectivenessTracker_def attempts_of_def)
next
  case (snoc a h)
  obtain now s' ok d where a: "a = (now, s', ok, d)" by (metis prod_cases4)
  let ?et = "foldl record_attempt NewEffectivenessTracker h" and ?as = "attempts_of s h"
  have hi0: "0 \<le> hi" using assms(2,3) by linarith
  have "int (length h) * hi \<le> int (length (h @ [a])) * hi" using hi0 by (intro mult_right_mono) simp_all
  with snoc have IH: "case GetMetrics ?et s of None \<Rightarrow> ?as = [] | Some m \<Rightarrow> ?as \<noteq> [] \<and> summarises lo hi ?as m"
    by simp
  have d: "lo \<le> d" "d \<le> hi" using snoc.prems(1) a by auto
  show ?case
  proof (cases "s' = s")
    case True
    then have as: "attempts_of s (h @ [a]) = ?as @ [(ok, d)]" by (simp add: attempts_of_def a)
    have len: "length ?as \<le> length h" by (simp add: attempts_of_def)
    have "int (length ?as + 1) * hi \<le> int (length (h @ [a])) * hi"
      using hi0 len by (intro mult_right_mono) simp_all
    then have "summarises lo hi (?as @ [(ok, d)]) (update_metrics now ok d
        (case GetMetrics ?et s of Some m \<Rightarrow> m | None \<Rightarrow> zero_metrics))"
      using IH snoc.prems(2,3) len d assms(2) by (intro update_metrics_summarises) (auto split: option.splits)
    with as True show ?thesis by (simp add: a record_attempt_eq GetMetrics_RecordAttempt)
  next
    case False
    then have as: "attempts_of s (h @ [a]) = ?as" by (simp add: attempts_of_def a)
    have "GetMetrics (foldl record_attempt NewEffectivenessTracker (h @ [a])) s = GetMetrics ?et s"
      using False by (simp add: a record_attempt_eq GetMetrics_RecordAttempt)
    with IH show ?thesis by (simp only: as)
  qed
qed

text \<open>C32. The tracker's metrics are those of the history: for any sequence of attempts whose delays lie
  between two bounds and do not overflow, a strategy has metrics exactly when it was attempted, its
  counters are the numbers of its attempts and successes, its success rate is their rounded
  quotient, and its running average, truncated at every step, stays between the bounds.\<close>

theorem tracker_counts_history:
  assumes "\<forall>(now, s', ok, d) \<in> set h. lo \<le> d \<and> d \<le> hi" "0 \<le> lo" "lo \<le> hi" "int (length h) * hi < 2 ^ 63"
    "int (length h) < 2 ^ 63"
  shows "case GetMetrics (foldl record_attempt NewEffectivenessTracker h) s of
      None \<Rightarrow> attempts_of s h = []
    | Some m \<Rightarrow> sm_TotalAttempts m = int (length (attempts_of s h))
        \<and> sm_SuccessfulRetries m = int (length (filter fst (attempts_of s h)))
        \<and> lo \<le> sm_AverageDelay m \<and> sm_AverageDelay m \<le> hi
        \<and> sm_SuccessRate m = fdiv (f64_of_int (int (length (filter fst (attempts_of s h)))))
            (f64_of_int (int (length (attempts_of s h))))"
  using tracker_history [OF assms, of s] by (auto simp: summarises_def split: option.splits)

theorem tracker_counts_history_witness:
  "case GetMetrics (foldl record_attempt NewEffectivenessTracker
      [(0, ''linear'', True, Second), (1, ''fixed'', False, Second), (2, ''linear'', False, 2 * Second)]) ''linear'' of
    None \<Rightarrow> False | Some m \<Rightarrow> sm_TotalAttempts m = 2 \<and> sm_AverageDelay m \<le> 2 * Second"
  using tracker_counts_history [of "[(0, ''linear'', True, Second), (1, ''fixed'', False, Second), (2, ''linear'', False, 2 * Second)]"
      Second "2 * Second" "''linear''"]
  by (simp add: attempts_of_def Second_def split: option.splits)

section \<open>The best strategy\<close>

text \<open>A tracked strategy with enough data whose success rate no other strategy with enough data beats.\<close>

definition unbeaten :: "(string \<times> StrategyMetrics) set \<Rightarrow> StrategyMetrics \<Rightarrow> bool" where
  "unbeaten ms m \<longleftrightarrow> 3 \<le> sm_TotalAttempts m \<and> (\<exists>s. (s, m) \<in> ms)
     \<and> (\<forall>m' \<in> snd ` ms. 3 \<le> sm_TotalAttempts m' \<longrightarrow> \<not> flt (sm_SuccessRate m) (sm_SuccessRate m'))"

lemma best_loop_spec:
  "(best_loop ms best r = best \<and> (\<forall>m \<in> snd ` set ms. 3 \<le> sm_TotalAttempts m \<longrightarrow> \<not> flt r (sm_SuccessRate m)))
   \<or> (\<exists>s m. best_loop ms best r = (s, Some m) \<and> (s, m) \<in> set ms \<and> unbeaten (set ms) m \<and> flt r (sm_SuccessRate m))"
proof (induction ms best r rule: best_loop.induct)
  case (2 s m ms best r)
  show ?case
  proof (cases "3 \<le> sm_TotalAttempts m \<and> flt r (sm_SuccessRate m)")
    case True
    then have step: "best_loop ((s, m) # ms) best r = best_loop ms (s, Some m) (sm_SuccessRate m)" by simp
    from "2.IH"(1) [OF True] show ?thesis
    proof (elim disjE exE conjE)
      assume "best_loop ms (s, Some m) (sm_SuccessRate m) = (s, Some m)"
        "\<forall>m' \<in> snd ` set ms. 3 \<le> sm_TotalAttempts m' \<longrightarrow> \<not> flt (sm_SuccessRate m) (sm_SuccessRate m')"
      with True show ?thesis by (intro disjI2 exI [of _ s] exI [of _ m]) (auto simp: step unbeaten_def)
    next
      fix s' m'
      assume b: "best_loop ms (s, Some m) (sm_SuccessRate m) = (s', Some m')" "(s', m') \<in> set ms"
        "unbeaten (set ms) m'" "flt (sm_SuccessRate m) (sm_SuccessRate m')"
      then have "\<not> flt (sm_SuccessRate m') (sm_SuccessRate m)" using flt_trans flt_irrefl by blast
      with b True show ?thesis
        by (intro disjI2 exI [of _ s'] exI [of _ m']) (auto simp: step unbeaten_def intro: flt_trans)
    qed
  next
    case False
    then have step: "best_loop ((s, m) # ms) best r = best_loop ms best r" by auto
    from "2.IH"(2) [OF False] show ?thesis
    proof (elim disjE exE conjE)
      assume "best_loop ms best r = best"
        "\<forall>m' \<in> snd ` set ms. 3 \<le> sm_TotalAttempts m' \<longrightarrow> \<not> flt r (sm_SuccessRate m')"
      with False step show ?thesis by (intro disjI1) simp
    next
      fix s' m'
      assume b: "best_loop ms best r = (s', Some m')" "(s', m') \<in> set ms"
        "unbeaten (set ms) m'" "flt r (sm_SuccessRate m')"
      then have "3 \<le> sm_TotalAttempts m \<Longrightarrow> \<not> flt (sm_SuccessRate m') (sm_SuccessRate m)"
        using False flt_trans by blast
      with b step show ?thesis
        by (intro disjI2 exI [of _ s'] exI [of _ m']) (auto simp only: unbeaten_def list.set image_insert snd_conv insert_iff)
    qed
  qed
qed simp

text \<open>Whatever order the runtime ranges over the map in, the best strategy is one of the tracked
  strategies with at least three attempts and a positive success rate that no other such
  strategy exceeds, returned with its own metrics; nothing is returned exactly when no strategy
  with three attempts has ever succeeded.\<close>

lemma best_strategy_unbeaten:
  "case GetBestStrategy rk et of
     (s, Some m) \<Rightarrow> (s, m) \<in> set (GetAllMetrics et) \<and> 3 \<le> sm_TotalAttempts m \<and> flt (Fin 0) (sm_SuccessRate m)
       \<and> \<not> (\<exists>(s', m') \<in> set (GetAllMetrics et). 3 \<le> sm_TotalAttempts m'
             \<and> flt (sm_SuccessRate m) (sm_SuccessRate m'))
   | (s, None) \<Rightarrow> s = [] \<and> \<not> (\<exists>(s', m') \<in> set (GetAllMetrics et). 3 \<le> sm_TotalAttempts m'
             \<and> flt (Fin 0) (sm_SuccessRate m'))"
proof -
  let ?r = "GetBestStrategy rk et" and ?ms = "et_strategyMetrics et"
  have "(?r = ([], None) \<and> (\<forall>m \<in> snd ` set ?ms. 3 \<le> sm_TotalAttempts m \<longrightarrow> \<not> flt (Fin 0) (sm_SuccessRate m)))
     \<or> (\<exists>s m. ?r = (s, Some m) \<and> (s, m) \<in> set ?ms \<and> unbeaten (set ?ms) m \<and> flt (Fin 0) (sm_SuccessRate m))"
    using best_loop_spec [of "map_range rk ?ms" "([], None)" "Fin 0"] by (simp add: GetBestStrategy_def)
  then show ?thesis
  proof (elim disjE exE conjE)
    assume "?r = ([], None)" "\<forall>m \<in> snd ` set ?ms. 3 \<le> sm_TotalAttempts m \<longrightarrow> \<not> flt (Fin 0) (sm_SuccessRate m)"
    then show ?thesis by (auto simp: GetAllMetrics_def)
  next
    fix s m
    assume "?r = (s, Some m)" "(s, m) \<in> set ?ms" "unbeaten (set ?ms) m" "flt (Fin 0) (sm_SuccessRate m)"
    then show ?thesis by (auto simp: GetAllMetrics_def unbeaten_def)
  qed
qed

end
