(* ===== verification/Storage.thy ===== *)
theory Storage
  imports Reporting "HOL-Library.AList" "HOL-Library.Sublist"
begin

text \<open>
  The metrics store of the daemon, \<open>pkg/storage/storage.go\<close>: a list of timestamped run metrics,
  trimmed by age and size at most every five minutes, with the queries over it. The clock is an
  argument; \<open>Store\<close> reads it twice, for the timestamp and for the cleanup. Maps are association
  lists, ranged over in an arbitrary order. \<open>time.Time.Format\<close> with RFC 3339, the key of the
  hourly map, is a parameter, and so is the platform's float conversion.
\<close>

section \<open>State and operations\<close>

record StoredMetric =
  sd_Timestamp :: instant
  sd_Metrics :: RunMetrics

record MetricsStorage =
  ms_metrics :: "StoredMetric list"
  ms_maxSize :: int
  ms_maxAge :: duration
  ms_lastCleanup :: instant

text \<open>\<open>make\<close> panics on a negative capacity; that is \<open>None\<close>.\<close>

definition NewMetricsStorage :: "instant \<Rightarrow> int \<Rightarrow> duration \<Rightarrow> MetricsStorage option" where
  "NewMetricsStorage now maxSize maxAge =
     (if maxSize < 0 then None
      else Some \<lparr>ms_metrics = [], ms_maxSize = maxSize, ms_maxAge = maxAge, ms_lastCleanup = now\<rparr>)"

definition cleanupIfNeeded :: "instant \<Rightarrow> MetricsStorage \<Rightarrow> MetricsStorage" where
  "cleanupIfNeeded now s =
     (if time_sub now (ms_lastCleanup s) < 5 * Minute then s
      else
        (let cutoff = time_add now (wrap64 (- ms_maxAge s));
             kept = filter (\<lambda>metric. cutoff < sd_Timestamp metric) (ms_metrics s);
             excess = int (length kept) - ms_maxSize s
         in s\<lparr>ms_lastCleanup := now,
              ms_metrics := (if ms_maxSize s < int (length kept) then drop (nat excess) kept else kept)\<rparr>))"

definition Store :: "instant \<Rightarrow> instant \<Rightarrow> MetricsStorage \<Rightarrow> RunMetrics \<Rightarrow> MetricsStorage" where
  "Store t now s metric =
     cleanupIfNeeded now (s\<lparr>ms_metrics := ms_metrics s @ [\<lparr>sd_Timestamp = t, sd_Metrics = metric\<rparr>]\<rparr>)"

definition GetRecent :: "MetricsStorage \<Rightarrow> int \<Rightarrow> StoredMetric list" where
  "GetRecent s limit =
     (let n = int (length (ms_metrics s));
          limit' = (if limit \<le> 0 \<or> n < limit then n else limit)
      in drop (nat (n - limit')) (ms_metrics s))"

definition GetByTimeRange :: "MetricsStorage \<Rightarrow> instant \<Rightarrow> instant \<Rightarrow> StoredMetric list" where
  "GetByTimeRange s start stop =
     filter (\<lambda>metric. start < sd_Timestamp metric \<and> sd_Timestamp metric < stop) (ms_metrics s)"

definition getMetricsInRange :: "MetricsStorage \<Rightarrow> instant \<Rightarrow> instant \<Rightarrow> StoredMetric list" where
  "getMetricsInRange s start stop =
     filter (\<lambda>metric. start < sd_Timestamp metric \<and> sd_Timestamp metric < stop) (ms_metrics s)"

definition Clear :: "MetricsStorage \<Rightarrow> MetricsStorage" where
  "Clear s = s\<lparr>ms_metrics := []\<rparr>"

record StorageStats =
  ss_total_metrics :: int
  ss_max_size :: int
  ss_max_age :: string
  ss_last_cleanup :: instant

definition GetStats :: "MetricsStorage \<Rightarrow> StorageStats" where
  "GetStats s = \<lparr>ss_total_metrics = int (length (ms_metrics s)), ss_max_size = ms_maxSize s,
     ss_max_age = Duration_String (ms_maxAge s), ss_last_cleanup = ms_lastCleanup s\<rparr>"

section \<open>Aggregation\<close>

record CommandStats =
  cs_Command :: string
  cs_Count :: int
  cs_SuccessRate :: f64
  cs_AvgDuration :: duration

record HourlyStats =
  hs_Hour :: instant
  hs_TotalRuns :: int
  hs_SuccessRate :: f64

record TimeRange =
  tr_Start :: instant
  tr_End :: instant

record AggregatedStats =
  as_TimeRange :: TimeRange
  as_TotalRuns :: int
  as_SuccessfulRuns :: int
  as_FailedRuns :: int
  as_SuccessRate :: f64
  as_AverageAttempts :: f64
  as_AverageDuration :: duration
  as_TopCommands :: "CommandStats list"
  as_HourlyBreakdown :: "HourlyStats list"

text \<open>The variables of the loop over the metrics in range.\<close>

record aggregation =
  ag_runs :: int
  ag_ok :: int
  ag_failed :: int
  ag_totalDuration :: duration
  ag_totalAttempts :: int
  ag_commandStats :: "(string \<times> CommandStats) list"
  ag_hourlyStats :: "(string \<times> HourlyStats) list"

definition run_success :: "RunMetrics \<Rightarrow> bool" where
  "run_success metric \<longleftrightarrow> rm_FinalStatus metric = ''succeeded''"

definition run_duration :: "platform \<Rightarrow> RunMetrics \<Rightarrow> duration" where
  "run_duration p metric = i64_of_f64 p (fmul (rm_TotalDurationSeconds metric) (f64_of_int Second))"

definition first_rate :: "bool \<Rightarrow> f64" where
  "first_rate success = (if success then Fin 1 else Fin 0)"

text \<open>The running rate after one more run, of which the count is the number, the new one included.\<close>

definition running_rate :: "bool \<Rightarrow> int \<Rightarrow> f64 \<Rightarrow> f64" where
  "running_rate success count rate =
     (if success then fdiv (fadd (fmul rate (f64_of_int (count - 1))) (Fin 1)) (f64_of_int count)
      else fdiv (fmul rate (f64_of_int (count - 1))) (f64_of_int count))"

definition command_step :: "platform \<Rightarrow> RunMetrics \<Rightarrow> (string \<times> CommandStats) list \<Rightarrow> (string \<times> CommandStats) list" where
  "command_step p metric m =
     (let cmdKey = rm_Command metric; success = run_success metric; d = run_duration p metric
      in case map_of m cmdKey of
           Some c \<Rightarrow>
             (let count = cs_Count c + 1
              in AList.update cmdKey
                   (c\<lparr>cs_Count := count,
                      cs_SuccessRate := running_rate success count (cs_SuccessRate c),
                      cs_AvgDuration := quo (wrap64 (wrap64 (cs_AvgDuration c * (count - 1)) + d)) count\<rparr>) m)
         | None \<Rightarrow>
             AList.update cmdKey \<lparr>cs_Command = cmdKey, cs_Count = 1,
               cs_SuccessRate = first_rate success, cs_AvgDuration = d\<rparr> m)"

definition truncate_hour :: "instant \<Rightarrow> instant" where
  "truncate_hour t = t - t mod Hour"

definition hour_step ::
  "(instant \<Rightarrow> string) \<Rightarrow> StoredMetric \<Rightarrow> (string \<times> HourlyStats) list \<Rightarrow> (string \<times> HourlyStats) list" where
  "hour_step fmt_hour stored m =
     (let hour = truncate_hour (sd_Timestamp stored); hourKey = fmt_hour hour;
          success = run_success (sd_Metrics stored)
      in case map_of m hourKey of
           Some h \<Rightarrow>
             (let runs = hs_TotalRuns h + 1
              in AList.update hourKey
                   (h\<lparr>hs_TotalRuns := runs, hs_SuccessRate := running_rate success runs (hs_SuccessRate h)\<rparr>) m)
         | None \<Rightarrow>
             AList.update hourKey \<lparr>hs_Hour = hour, hs_TotalRuns = 1, hs_SuccessRate = first_rate success\<rparr> m)"

definition aggregate_step ::
  "platform \<Rightarrow> (instant \<Rightarrow> string) \<Rightarrow> StoredMetric \<Rightarrow> aggregation \<Rightarrow> aggregation" where
  "aggregate_step p fmt_hour stored g =
     (let metric = sd_Metrics stored; success = run_success metric
      in \<lparr>ag_runs = ag_runs g + 1,
          ag_ok = (if success then ag_ok g + 1 else ag_ok g),
          ag_failed = (if success then ag_failed g else ag_failed g + 1),
          ag_totalDuration = wrap64 (ag_totalDuration g + run_duration p metric),
          ag_totalAttempts = ag_totalAttempts g + int (length (rm_Attempts metric)),
          ag_commandStats = command_step p metric (ag_commandStats g),
          ag_hourlyStats = hour_step fmt_hour stored (ag_hourlyStats g)\<rparr>)"

definition no_aggregation :: aggregation where
  "no_aggregation = \<lparr>ag_runs = 0, ag_ok = 0, ag_failed = 0, ag_totalDuration = 0, ag_totalAttempts = 0,
     ag_commandStats = [], ag_hourlyStats = []\<rparr>"

text \<open>
  The slices built from the maps. \<open>sort.Slice\<close> need not keep the order of equal elements; as the
  order they arrive in is arbitrary, a stable sort after an arbitrary ranking gives the same
  possible results.
\<close>

definition sortCommandStats :: "(string \<Rightarrow> nat) \<Rightarrow> (string \<times> CommandStats) list \<Rightarrow> CommandStats list" where
  "sortCommandStats rk commandStats =
     take 10 (sort_key (\<lambda>c. - cs_Count c) (map snd (map_range rk commandStats)))"

definition sortHourlyStats :: "(string \<Rightarrow> nat) \<Rightarrow> (string \<times> HourlyStats) list \<Rightarrow> HourlyStats list" where
  "sortHourlyStats rk hourlyStats = sort_key hs_Hour (map snd (map_range rk hourlyStats))"

definition GetAggregatedStats ::
  "platform \<Rightarrow> (instant \<Rightarrow> string) \<Rightarrow> (string \<Rightarrow> nat) \<Rightarrow> (string \<Rightarrow> nat) \<Rightarrow> MetricsStorage \<Rightarrow> instant \<Rightarrow> instant \<Rightarrow> AggregatedStats" where
  "GetAggregatedStats p fmt_hour rk rk' s start stop =
     (let metricsInRange = getMetricsInRange s start stop;
          range = \<lparr>tr_Start = start, tr_End = stop\<rparr>
      in if metricsInRange = []
         then \<lparr>as_TimeRange = range, as_TotalRuns = 0, as_SuccessfulRuns = 0, as_FailedRuns = 0,
               as_SuccessRate = Fin 0, as_AverageAttempts = Fin 0, as_AverageDuration = 0,
               as_TopCommands = [], as_HourlyBreakdown = []\<rparr>
         else
           (let g = fold (aggregate_step p fmt_hour) metricsInRange no_aggregation
            in \<lparr>as_TimeRange = range, as_TotalRuns = ag_runs g, as_SuccessfulRuns = ag_ok g,
                as_FailedRuns = ag_failed g,
                as_SuccessRate = fdiv (f64_of_int (ag_ok g)) (f64_of_int (ag_runs g)),
                as_AverageAttempts = fdiv (f64_of_int (ag_totalAttempts g)) (f64_of_int (ag_runs g)),
                as_AverageDuration = quo (ag_totalDuration g) (ag_runs g),
                as_TopCommands = sortCommandStats rk (ag_commandStats g),
                as_HourlyBreakdown = sortHourlyStats rk' (ag_hourlyStats g)\<rparr>))"

section \<open>What the store keeps of the history\<close>

text \<open>
  The runs of the store under a clock that never goes back: the state, the metrics stored since
  the last \<open>Clear\<close> and the last reading of the clock.
\<close>

inductive storage_run :: "MetricsStorage \<Rightarrow> StoredMetric list \<Rightarrow> instant \<Rightarrow> bool" where
  start: "NewMetricsStorage now maxSize maxAge = Some s \<Longrightarrow> storage_run s [] now"
| store: "storage_run s h c \<Longrightarrow> c \<le> t \<Longrightarrow> t \<le> now \<Longrightarrow>
    storage_run (Store t now s m) (h @ [\<lparr>sd_Timestamp = t, sd_Metrics = m\<rparr>]) now"
| clear: "storage_run s h c \<Longrightarrow> storage_run (Clear s) [] c"

inductive_cases storage_runE: "storage_run s h c"

text \<open>Of the metrics before position \<open>k\<close>, none is needed: they are too old, or enough newer ones are kept.\<close>

definition retained :: "duration \<Rightarrow> int \<Rightarrow> instant \<Rightarrow> StoredMetric list \<Rightarrow> nat \<Rightarrow> bool" where
  "retained maxAge maxSize c h k \<longleftrightarrow> (\<forall>x \<in> set (take k h). sd_Timestamp x \<le> c - maxAge)
     \<or> maxSize \<le> int (length h - k)"

definition storage_inv :: "MetricsStorage \<Rightarrow> StoredMetric list \<Rightarrow> instant \<Rightarrow> bool" where
  "storage_inv s h c \<longleftrightarrow> sorted (map sd_Timestamp h) \<and> (\<forall>x \<in> set h. sd_Timestamp x \<le> c) \<and> 0 \<le> ms_maxSize s
     \<and> (\<exists>k \<le> length h. ms_metrics s = drop k h \<and> retained (ms_maxAge s) (ms_maxSize s) c h k)"

text \<open>In a list sorted by time, what is newer than a cutoff is a suffix.\<close>

lemma newer_suffix:
  assumes "sorted (map sd_Timestamp xs)"
  shows "\<exists>j \<le> length xs. filter (\<lambda>x. cutoff < sd_Timestamp x) xs = drop j xs
    \<and> (\<forall>x \<in> set (take j xs). sd_Timestamp x \<le> cutoff)"
  using assms
proof (induction xs)
  case (Cons x xs)
  show ?case
  proof (cases "cutoff < sd_Timestamp x")
    case True
    then have "\<forall>y \<in> set (x # xs). cutoff < sd_Timestamp y" using Cons.prems by fastforce
    then have "filter (\<lambda>x. cutoff < sd_Timestamp x) (x # xs) = drop 0 (x # xs)" by (simp add: filter_id_conv)
    then show ?thesis by (intro exI [of _ 0]) simp
  next
    case False
    from Cons obtain j where j: "j \<le> length xs" "filter (\<lambda>x. cutoff < sd_Timestamp x) xs = drop j xs"
      "\<forall>x \<in> set (take j xs). sd_Timestamp x \<le> cutoff" by auto
    with False show ?thesis by (intro exI [of _ "Suc j"]) auto
  qed
qed simp

lemma retained_later:
  assumes "retained a n c h k" "k \<le> length h" "c \<le> c'"
  shows "retained a n c' (h @ [x]) k"
proof -
  have "sd_Timestamp y \<le> c' - a" if "sd_Timestamp y \<le> c - a" for y using that assms(3) by linarith
  moreover have "n \<le> int (length (h @ [x]) - k)" if "n \<le> int (length h - k)" using that assms(2) by simp
  ultimately show ?thesis using assms(1,2) unfolding retained_def by auto
qed

lemma retained_age_cut:
  assumes r: "retained a n c h k" and k: "k \<le> length h" and s: "sorted (map sd_Timestamp h)"
    and j: "j \<le> length (drop k h)" "\<forall>x \<in> set (take j (drop k h)). sd_Timestamp x \<le> c - a"
  shows "retained a n c h (k + j)"
proof (cases "j = 0")
  case True
  with r show ?thesis by simp
next
  case False
  then obtain y ys where y: "take j (drop k h) = y # ys" using j(1) by (cases "take j (drop k h)") auto
  have h: "h = take k h @ (y # ys) @ drop j (drop k h)" by (metis y append_take_drop_id)
  then have "sorted (map sd_Timestamp (take k h @ (y # ys) @ drop j (drop k h)))" using s by simp
  then have "\<forall>x \<in> set (take k h). sd_Timestamp x \<le> sd_Timestamp y" by (simp add: sorted_append)
  moreover have "sd_Timestamp y \<le> c - a" using j(2) y by simp
  ultimately have "\<forall>x \<in> set (take (k + j) h). sd_Timestamp x \<le> c - a"
    using j(2) by (fastforce simp: take_add)
  then show ?thesis by (simp add: retained_def)
qed

lemma cleanup_inv:
  assumes "storage_inv s h c" "0 \<le> ms_maxAge s" "ms_maxAge s < 2 ^ 63"
  shows "storage_inv (cleanupIfNeeded c s) h c \<and> ms_maxAge (cleanupIfNeeded c s) = ms_maxAge s"
proof (cases "time_sub c (ms_lastCleanup s) < 5 * Minute")
  case True
  with assms show ?thesis by (simp add: cleanupIfNeeded_def)
next
  case False
  from assms(1) obtain k where inv: "sorted (map sd_Timestamp h)" "\<forall>x \<in> set h. sd_Timestamp x \<le> c"
    "0 \<le> ms_maxSize s" "k \<le> length h" "ms_metrics s = drop k h" "retained (ms_maxAge s) (ms_maxSize s) c h k"
    by (auto simp: storage_inv_def)
  have cut: "time_add c (wrap64 (- ms_maxAge s)) = c - ms_maxAge s"
    using assms(2,3) by (simp add: in_i64_def time_add_def)
  have "sorted (map sd_Timestamp (drop k h))" using inv(1) by (simp add: sorted_wrt_drop flip: drop_map)
  from newer_suffix [OF this, of "c - ms_maxAge s"] obtain j where j: "j \<le> length (drop k h)"
    "filter (\<lambda>x. c - ms_maxAge s < sd_Timestamp x) (drop k h) = drop j (drop k h)"
    "\<forall>x \<in> set (take j (drop k h)). sd_Timestamp x \<le> c - ms_maxAge s" by auto
  have r: "retained (ms_maxAge s) (ms_maxSize s) c h (k + j)"
    by (rule retained_age_cut [OF inv(6,4,1) j(1,3)])
  define e where "e = (if ms_maxSize s < int (length h - (k + j)) then nat (int (length h - (k + j)) - ms_maxSize s) else 0)"
  have e: "k + j + e \<le> length h" using j(1) inv(3,4) by (auto simp: e_def)
  have "ms_metrics (cleanupIfNeeded c s) = drop (k + j + e) h"
    using False cut j(2) inv(5) by (simp add: cleanupIfNeeded_def Let_def e_def add.commute add.left_commute)
  moreover have "retained (ms_maxAge s) (ms_maxSize s) c h (k + j + e)"
    using r e inv(3) by (cases "e = 0") (auto simp: retained_def e_def split: if_splits)
  moreover have "ms_maxSize (cleanupIfNeeded c s) = ms_maxSize s" "ms_maxAge (cleanupIfNeeded c s) = ms_maxAge s"
    by (simp_all add: cleanupIfNeeded_def Let_def)
  ultimately show ?thesis using inv(1-3) e by (auto simp: storage_inv_def)
qed

lemma storage_run_inv:
  "storage_run s h c \<Longrightarrow> 0 \<le> ms_maxAge s \<and> ms_maxAge s < 2 ^ 63 \<Longrightarrow> storage_inv s h c"
proof (induction rule: storage_run.induct)
  case (start now maxSize maxAge s)
  then show ?case by (auto simp: NewMetricsStorage_def storage_inv_def retained_def split: if_splits)
next
  case (store s h c t now m)
  let ?x = "\<lparr>sd_Timestamp = t, sd_Metrics = m\<rparr>" and ?s = "s\<lparr>ms_metrics := ms_metrics s @ [\<lparr>sd_Timestamp = t, sd_Metrics = m\<rparr>]\<rparr>"
  have age: "ms_maxAge (Store t now s m) = ms_maxAge s" by (simp add: Store_def cleanupIfNeeded_def Let_def)
  with store obtain k where inv: "sorted (map sd_Timestamp h)" "\<forall>x \<in> set h. sd_Timestamp x \<le> c"
    "0 \<le> ms_maxSize s" "k \<le> length h" "ms_metrics s = drop k h" "retained (ms_maxAge s) (ms_maxSize s) c h k"
    by (auto simp: storage_inv_def)
  have "retained (ms_maxAge s) (ms_maxSize s) now (h @ [?x]) k"
    by (rule retained_later [OF inv(6,4)]) (use store in linarith)
  moreover have "sorted (map sd_Timestamp (h @ [?x]))" "\<forall>x \<in> set (h @ [?x]). sd_Timestamp x \<le> now"
    using inv(1,2) store(2,3) by (fastforce simp: sorted_append)+
  ultimately have "storage_inv ?s (h @ [?x]) now"
    unfolding storage_inv_def using inv(3-5) by (auto intro!: exI [of _ k])
  from cleanup_inv [OF this] show ?case using age store.prems by (simp add: Store_def)
next
  case (clear s h c)
  then show ?case by (auto simp: Clear_def storage_inv_def retained_def)
qed

text \<open>C8. Whatever sequence of stores and clears the daemon makes, under a clock that never goes back
  the store holds the newest part of what was stored since the last clear, in order, and a metric
  is missing only when its age has reached the maximum or as many newer ones as the maximal size
  are held.\<close>

theorem storage_keeps_newest:
  assumes "storage_run s h c" "0 \<le> ms_maxAge s" "ms_maxAge s < 2 ^ 63"
  shows "\<exists>k \<le> length h. ms_metrics s = drop k h \<and>
    ((\<forall>x \<in> set (take k h). sd_Timestamp x \<le> c - ms_maxAge s) \<or> ms_maxSize s \<le> int (length (ms_metrics s)))"
  using storage_run_inv [OF assms(1)] assms(2,3) by (auto simp: storage_inv_def retained_def)

definition sample_metrics :: "string \<Rightarrow> bool \<Rightarrow> RunMetrics" where
  "sample_metrics cmd success = \<lparr>rm_Command = cmd, rm_CommandHash = [],
     rm_FinalStatus = (if success then ''succeeded'' else ''failed''), rm_TotalDurationSeconds = Fin 1,
     rm_TotalAttempts = 0, rm_SuccessfulAttempts = 0, rm_FailedAttempts = 0, rm_Attempts = [], rm_Timestamp = 0\<rparr>"

definition sample_storage :: MetricsStorage where
  "sample_storage = \<lparr>ms_metrics = [], ms_maxSize = 1, ms_maxAge = Hour, ms_lastCleanup = 0\<rparr>"

definition two_stored :: MetricsStorage where
  "two_stored = Store 2 2 (Store 1 1 sample_storage (sample_metrics ''a'' True)) (sample_metrics ''b'' False)"

lemma two_stored_run: "storage_run two_stored
    [\<lparr>sd_Timestamp = 1, sd_Metrics = sample_metrics ''a'' True\<rparr>, \<lparr>sd_Timestamp = 2, sd_Metrics = sample_metrics ''b'' False\<rparr>] 2"
proof -
  have "storage_run sample_storage [] 0"
    by (rule storage_run.start [of 0 1 Hour]) (simp add: NewMetricsStorage_def sample_storage_def)
  from storage_run.store [OF storage_run.store [OF this, of 1 1 "sample_metrics ''a'' True"], of 2 2 "sample_metrics ''b'' False"]
  show ?thesis by (simp add: two_stored_def)
qed

lemma two_stored_eq: "two_stored = \<lparr>ms_metrics =
    [\<lparr>sd_Timestamp = 1, sd_Metrics = sample_metrics ''a'' True\<rparr>, \<lparr>sd_Timestamp = 2, sd_Metrics = sample_metrics ''b'' False\<rparr>],
    ms_maxSize = 1, ms_maxAge = Hour, ms_lastCleanup = 0\<rparr>"
  by (simp add: two_stored_def Store_def cleanupIfNeeded_def sample_storage_def time_sub_def Minute_def)

theorem storage_keeps_newest_witness:
  "\<exists>k \<le> 2. ms_metrics two_stored = drop k
     [\<lparr>sd_Timestamp = 1, sd_Metrics = sample_metrics ''a'' True\<rparr>, \<lparr>sd_Timestamp = 2, sd_Metrics = sample_metrics ''b'' False\<rparr>]"
  using storage_keeps_newest [OF two_stored_run] by (auto simp: two_stored_eq Hour_def)

text \<open>When five minutes have passed since the last cleanup, a store leaves at most the maximal number of
  metrics, all of them younger than the maximal age, and remembers the time of the cleanup;
  before that it only appends.\<close>

lemma store_cleanup_bounds:
  assumes "0 \<le> ms_maxSize s" "0 \<le> ms_maxAge s" "ms_maxAge s < 2 ^ 63"
  shows "if 5 * Minute \<le> time_sub now (ms_lastCleanup s)
    then int (length (ms_metrics (Store t now s m))) \<le> ms_maxSize s
      \<and> (\<forall>x \<in> set (ms_metrics (Store t now s m)). now - ms_maxAge s < sd_Timestamp x)
      \<and> ms_lastCleanup (Store t now s m) = now
    else Store t now s m = s\<lparr>ms_metrics := ms_metrics s @ [\<lparr>sd_Timestamp = t, sd_Metrics = m\<rparr>]\<rparr>"
proof -
  have "time_add now (wrap64 (- ms_maxAge s)) = now - ms_maxAge s"
    using assms(2,3) by (simp add: in_i64_def time_add_def)
  then show ?thesis using assms(1)
    by (auto simp: Store_def cleanupIfNeeded_def Let_def dest!: in_set_dropD split: if_splits)
qed

lemma store_cleanup_bounds_witness:
  "int (length (ms_metrics (Store (5 * Minute) (5 * Minute) two_stored (sample_metrics ''c'' True)))) \<le> 1"
  using store_cleanup_bounds [of two_stored "5 * Minute" "5 * Minute" "sample_metrics ''c'' True"]
  by (simp add: two_stored_eq time_sub_def Minute_def Hour_def)

text \<open>Between cleanups the maximal size is not kept: a store created for one metric holds two after two
  stores in its first five minutes.\<close>

lemma storage_exceeds_max_size:
  "\<exists>s h c. storage_run s h c \<and> ms_maxSize s < int (length (ms_metrics s))"
  using two_stored_run by (intro exI) (auto simp: two_stored_eq)

section \<open>Aggregation\<close>

definition start_command :: "platform \<Rightarrow> StoredMetric \<Rightarrow> CommandStats" where
  "start_command p x = \<lparr>cs_Command = rm_Command (sd_Metrics x), cs_Count = 1,
     cs_SuccessRate = first_rate (run_success (sd_Metrics x)), cs_AvgDuration = run_duration p (sd_Metrics x)\<rparr>"

definition next_command :: "platform \<Rightarrow> StoredMetric \<Rightarrow> CommandStats \<Rightarrow> CommandStats" where
  "next_command p x c = c\<lparr>cs_Count := cs_Count c + 1,
     cs_SuccessRate := running_rate (run_success (sd_Metrics x)) (cs_Count c + 1) (cs_SuccessRate c),
     cs_AvgDuration := quo (wrap64 (wrap64 (cs_AvgDuration c * cs_Count c) + run_duration p (sd_Metrics x))) (cs_Count c + 1)\<rparr>"

interpretation by_command: grouping "\<lambda>x. rm_Command (sd_Metrics x)" "start_command p" "next_command p"
    "\<lambda>x. command_step p (sd_Metrics x)" for p
  by unfold_locales (simp add: command_step_def start_command_def next_command_def Let_def split: option.splits)

definition start_hour :: "StoredMetric \<Rightarrow> HourlyStats" where
  "start_hour x = \<lparr>hs_Hour = truncate_hour (sd_Timestamp x), hs_TotalRuns = 1,
     hs_SuccessRate = first_rate (run_success (sd_Metrics x))\<rparr>"

definition next_hour :: "StoredMetric \<Rightarrow> HourlyStats \<Rightarrow> HourlyStats" where
  "next_hour x h = h\<lparr>hs_TotalRuns := hs_TotalRuns h + 1,
     hs_SuccessRate := running_rate (run_success (sd_Metrics x)) (hs_TotalRuns h + 1) (hs_SuccessRate h)\<rparr>"

interpretation by_hour: grouping "\<lambda>x. fmt_hour (truncate_hour (sd_Timestamp x))" start_hour next_hour
    "hour_step fmt_hour" for fmt_hour
  by unfold_locales (simp add: hour_step_def start_hour_def next_hour_def Let_def split: option.splits)

lemma aggregate_fold:
  "fold (aggregate_step p fmt_hour) xs no_aggregation =
    \<lparr>ag_runs = int (length xs), ag_ok = int (length (filter (\<lambda>x. run_success (sd_Metrics x)) xs)),
     ag_failed = int (length (filter (\<lambda>x. \<not> run_success (sd_Metrics x)) xs)),
     ag_totalDuration = ag_totalDuration (fold (aggregate_step p fmt_hour) xs no_aggregation),
     ag_totalAttempts = (\<Sum>x \<leftarrow> xs. int (length (rm_Attempts (sd_Metrics x)))),
     ag_commandStats = fold (\<lambda>x. command_step p (sd_Metrics x)) xs [],
     ag_hourlyStats = fold (hour_step fmt_hour) xs []\<rparr>"
proof (induction xs rule: rev_induct)
  case (snoc x xs)
  show ?case unfolding fold_append comp_apply fold_simps
    by (subst (1) snoc.IH, subst (2) snoc.IH) (simp add: aggregate_step_def Let_def)
qed (simp add: no_aggregation_def)

lemma rate_quotient:
  assumes "rep64 y" "0 \<le> y" "y \<le> of_int n" "1 \<le> n" "n \<le> 2 ^ 53"
  shows "unit_rate (fdiv (Fin y) (f64_of_int n))"
proof -
  have "\<exists>q. f64_round (y / of_int n) = Fin q \<and> rep64 q \<and> 0 \<le> q \<and> q \<le> 1"
    using assms rep64_of_int [of 0] rep64_of_int [of 1] rep64_pow2_1024 [of 1]
    by (intro f64_round_between) (simp_all add: divide_le_eq)
  with assms(4,5) show ?thesis by (auto simp: f64_of_int_small unit_rate_def)
qed

lemma running_rate_unit:
  assumes "unit_rate r" "1 \<le> n" "n + 1 \<le> 2 ^ 53"
  shows "unit_rate (running_rate ok (n + 1) r)"
proof -
  obtain x where x: "r = Fin x" "0 \<le> x" "x \<le> 1" using assms(1) by (auto simp: unit_rate_def)
  have lim: "\<bar>of_int k :: rat\<bar> < f64_limit" if "0 \<le> k" "k \<le> 2 ^ 53" for k
    using that of_int_le_iff [of k "2 ^ 53", where 'a = rat] by (intro rep64_pow2_1024) simp
  have rep: "rep64 (of_int n)" "rep64 (of_int (n + 1))" "rep64 0" "rep64 1"
    using assms rep64_of_int [of 0] rep64_of_int [of 1] by (simp_all del: of_int_add add: rep64_of_int)
  have "x * of_int n \<le> of_int n" using x assms(2) mult_right_mono [of x 1 "of_int n :: rat"] by simp
  then have "\<exists>y. f64_round (x * of_int n) = Fin y \<and> rep64 y \<and> 0 \<le> y \<and> y \<le> of_int n"
    using rep lim [of n] lim [of 0] x assms(2,3) by (intro f64_round_between) simp_all
  then obtain y where y: "fmul r (f64_of_int n) = Fin y" "rep64 y" "0 \<le> y" "y \<le> of_int n"
    using x(1) assms(2,3) by (auto simp: f64_of_int_small)
  then have "\<exists>z. f64_round (y + 1) = Fin z \<and> rep64 z \<and> 0 \<le> z \<and> z \<le> of_int (n + 1)"
    using rep lim [of "n + 1"] lim [of 0] assms(2,3) by (intro f64_round_between) simp_all
  then obtain z where z: "fadd (Fin y) (Fin 1) = Fin z" "rep64 z" "0 \<le> z" "z \<le> of_int (n + 1)" by auto
  have "y \<le> of_int (n + 1)" using y(4) by simp
  with rate_quotient [OF y(2,3) this] rate_quotient [OF z(2-4)] y z assms(2,3)
  show ?thesis by (simp add: running_rate_def)
qed

lemma running_rate_extreme:
  assumes "1 \<le> n" "n + 1 \<le> 2 ^ 53"
  shows "running_rate True (n + 1) (Fin 1) = Fin 1" "running_rate False (n + 1) (Fin 0) = Fin 0"
proof -
  have f: "f64_round (of_int k) = Fin (of_int k)" if "0 \<le> k" "k \<le> 2 ^ 53" for k
    using that f64_of_int_small [of k] by (simp add: f64_of_int_def)
  from f [of n] f [of "n + 1"] f [of 1] f [of 0] assms
  show "running_rate True (n + 1) (Fin 1) = Fin 1" "running_rate False (n + 1) (Fin 0) = Fin 0"
    by (simp_all add: running_rate_def f64_of_int_small)
qed

text \<open>What a running rate says of the runs it was computed from.\<close>

definition rate_of :: "StoredMetric list \<Rightarrow> f64 \<Rightarrow> bool" where
  "rate_of xs r \<longleftrightarrow> (int (length xs) \<le> 2 ^ 53 \<longrightarrow> unit_rate r
     \<and> (list_all (\<lambda>x. run_success (sd_Metrics x)) xs \<longrightarrow> r = Fin 1)
     \<and> (list_all (\<lambda>x. \<not> run_success (sd_Metrics x)) xs \<longrightarrow> r = Fin 0))"

lemma rate_of_first: "rate_of [x] (first_rate (run_success (sd_Metrics x)))"
  by (simp add: rate_of_def first_rate_def unit_rate_0 unit_rate_1)

lemma rate_of_running:
  assumes "rate_of xs r" "xs \<noteq> []"
  shows "rate_of (xs @ [x]) (running_rate (run_success (sd_Metrics x)) (int (length xs) + 1) r)"
proof -
  have "1 \<le> int (length xs)" using assms(2) by (cases xs) simp_all
  with assms(1) running_rate_unit [of r "int (length xs)"] running_rate_extreme [of "int (length xs)"]
  show ?thesis by (auto simp: rate_of_def)
qed

lemma command_entry:
  assumes "(k, c) \<in> set (fold (\<lambda>x. command_step p (sd_Metrics x)) xs [])"
  defines "ys \<equiv> filter (\<lambda>x. rm_Command (sd_Metrics x) = k) xs"
  shows "cs_Command c = k \<and> cs_Count c = int (length ys) \<and> ys \<noteq> [] \<and> rate_of ys (cs_SuccessRate c)"
proof -
  let ?Q = "\<lambda>ys c. cs_Command c = rm_Command (sd_Metrics (hd ys)) \<and> cs_Count c = int (length ys)
    \<and> rate_of ys (cs_SuccessRate c)"
  have lookup: "map_of (fold (\<lambda>x. command_step p (sd_Metrics x)) xs []) k = Some c"
    by (rule by_command.group_entry [OF assms(1)])
  then have "ys \<noteq> []" using by_command.group_none [of p xs k] by (simp add: ys_def)
  moreover have "?Q ys c" unfolding ys_def
    by (rule by_command.group_invariant [where Q = ?Q, OF _ _ lookup])
      (auto simp: start_command_def next_command_def rate_of_first intro!: rate_of_running)
  moreover have "rm_Command (sd_Metrics (hd ys)) = k" using hd_in_set [OF \<open>ys \<noteq> []\<close>] by (simp add: ys_def)
  ultimately show ?thesis by simp
qed

lemma hour_entry:
  assumes "(k, h) \<in> set (fold (hour_step fmt_hour) xs [])"
  defines "ys \<equiv> filter (\<lambda>x. fmt_hour (truncate_hour (sd_Timestamp x)) = k) xs"
  shows "fmt_hour (hs_Hour h) = k \<and> hs_TotalRuns h = int (length ys) \<and> ys \<noteq> [] \<and> rate_of ys (hs_SuccessRate h)"
proof -
  let ?Q = "\<lambda>ys h. hs_Hour h = truncate_hour (sd_Timestamp (hd ys)) \<and> hs_TotalRuns h = int (length ys)
    \<and> rate_of ys (hs_SuccessRate h)"
  have lookup: "map_of (fold (hour_step fmt_hour) xs []) k = Some h" by (rule by_hour.group_entry [OF assms(1)])
  then have "ys \<noteq> []" using by_hour.group_none [of fmt_hour xs k] by (simp add: ys_def)
  moreover have "?Q ys h" unfolding ys_def
    by (rule by_hour.group_invariant [where Q = ?Q, OF _ _ lookup])
      (auto simp: start_hour_def next_hour_def rate_of_first intro!: rate_of_running)
  moreover have "fmt_hour (truncate_hour (sd_Timestamp (hd ys))) = k" using hd_in_set [OF \<open>ys \<noteq> []\<close>] by (simp add: ys_def)
  ultimately show ?thesis by simp
qed

lemma aggregate_sel:
  fixes p fmt_hour xs
  defines "g \<equiv> fold (aggregate_step p fmt_hour) xs no_aggregation"
  shows "ag_runs g = int (length xs)" "ag_ok g = int (length (filter (\<lambda>x. run_success (sd_Metrics x)) xs))"
    "ag_failed g = int (length (filter (\<lambda>x. \<not> run_success (sd_Metrics x)) xs))"
    "ag_commandStats g = fold (\<lambda>x. command_step p (sd_Metrics x)) xs []"
    "ag_hourlyStats g = fold (hour_step fmt_hour) xs []"
  by (subst g_def, subst aggregate_fold, simp)+

definition runs_of :: "string \<Rightarrow> StoredMetric list \<Rightarrow> int" where
  "runs_of cmd xs = int (length (filter (\<lambda>x. rm_Command (sd_Metrics x) = cmd) xs))"

lemma take_sort_key_rest:
  fixes f :: "'a \<Rightarrow> int"
  assumes "y \<in> set l" "y \<notin> set (take n (sort_key f l))"
  shows "length (take n (sort_key f l)) = n \<and> (\<forall>c \<in> set (take n (sort_key f l)). f c \<le> f y)"
proof -
  let ?l = "sort_key f l"
  have "y \<in> set ?l" using assms(1) by simp
  then have y: "y \<in> set (drop n ?l)" using assms(2) by (metis UnE append_take_drop_id set_append)
  then have "n < length ?l" by (cases "n < length ?l") simp_all
  moreover have "sorted (map f (take n ?l @ drop n ?l))" by simp
  then have "\<forall>c \<in> set (take n ?l). \<forall>d \<in> set (drop n ?l). f c \<le> f d"
    unfolding map_append sorted_append by simp
  ultimately show ?thesis using y by simp
qed

lemma top_commands:
  fixes p xs rk
  defines "tops \<equiv> sortCommandStats rk (fold (\<lambda>x. command_step p (sd_Metrics x)) xs [])"
  shows "length tops \<le> 10" and "sorted_wrt (\<lambda>c d. cs_Count d \<le> cs_Count c) tops"
    and "distinct (map cs_Command tops)"
    and "c \<in> set tops \<Longrightarrow> cs_Count c = runs_of (cs_Command c) xs \<and> 0 < cs_Count c"
    and "x \<in> set xs \<Longrightarrow> rm_Command (sd_Metrics x) \<notin> cs_Command ` set tops \<Longrightarrow>
      length tops = 10 \<and> (\<forall>c \<in> set tops. runs_of (rm_Command (sd_Metrics x)) xs \<le> cs_Count c)"
proof -
  let ?m = "fold (\<lambda>x. command_step p (sd_Metrics x)) xs []"
  let ?l = "map snd (map_range rk ?m)" and ?f = "\<lambda>c. - cs_Count c"
  have entry: "\<exists>k. (k, c) \<in> set ?m" if "c \<in> set ?l" for c using that by force
  have stats: "cs_Count c = runs_of (cs_Command c) xs \<and> 0 < cs_Count c" if "c \<in> set ?l" for c
    using entry [OF that] command_entry [of _ c p xs] by (auto simp: runs_of_def)
  have tops: "set tops \<subseteq> set ?l" unfolding tops_def sortCommandStats_def by (force dest: in_set_takeD)
  show "length tops \<le> 10" by (simp add: tops_def sortCommandStats_def)
  have "sorted (map ?f (sort_key ?f ?l))" by simp
  then have "sorted_wrt (\<lambda>c d. cs_Count d \<le> cs_Count c) (sort_key ?f ?l)" by (simp add: sorted_wrt_map)
  then show "sorted_wrt (\<lambda>c d. cs_Count d \<le> cs_Count c) tops"
    unfolding tops_def sortCommandStats_def by (rule sorted_wrt_take)
  have "map cs_Command ?l = map fst (map_range rk ?m)" using command_entry [of _ _ p xs] by auto
  then have "distinct (map cs_Command ?l)" using by_command.distinct_keys [of p xs] by (simp del: map_map)
  then have "distinct ?l \<and> inj_on cs_Command (set ?l)" by (simp only: distinct_map)
  then have "distinct (map cs_Command (sort_key ?f ?l))" by (simp only: distinct_map distinct_sort set_sort)
  then show "distinct (map cs_Command tops)"
    unfolding tops_def sortCommandStats_def take_map [symmetric] by (rule distinct_take)
  show "cs_Count c = runs_of (cs_Command c) xs \<and> 0 < cs_Count c" if "c \<in> set tops" using that tops stats by blast
  assume x: "x \<in> set xs" "rm_Command (sd_Metrics x) \<notin> cs_Command ` set tops"
  then obtain d where d: "map_of ?m (rm_Command (sd_Metrics x)) = Some d"
    using by_command.group_none [of p xs "rm_Command (sd_Metrics x)"] by (cases "map_of ?m (rm_Command (sd_Metrics x))") (auto simp: filter_empty_conv)
  then have dl: "d \<in> set ?l" "cs_Command d = rm_Command (sd_Metrics x)"
    using map_of_SomeD [OF d] command_entry [OF map_of_SomeD [OF d]] by (force, simp)
  then have "d \<notin> set tops" using x(2) by force
  from take_sort_key_rest [OF dl(1) this [unfolded tops_def sortCommandStats_def]] stats [OF dl(1)] dl(2)
  show "length tops = 10 \<and> (\<forall>c \<in> set tops. runs_of (rm_Command (sd_Metrics x)) xs \<le> cs_Count c)"
    unfolding tops_def sortCommandStats_def by auto
qed

text \<open>C9. Aggregation is exact about the runs it covers: for any time range and any order of the maps, the
  totals are the numbers of runs, of successes and of the others in the range, the list of top
  commands has at most ten distinct commands, each with its number of runs, in decreasing order,
  and a command of the range that is not listed has no more runs than any of ten that are.\<close>

theorem aggregation_exact:
  fixes p fmt_hour rk rk' s start stop
  defines "xs \<equiv> GetByTimeRange s start stop" and "st \<equiv> GetAggregatedStats p fmt_hour rk rk' s start stop"
  shows "as_TotalRuns st = int (length xs)
    \<and> as_SuccessfulRuns st = int (length (filter (\<lambda>x. run_success (sd_Metrics x)) xs))
    \<and> as_SuccessfulRuns st + as_FailedRuns st = as_TotalRuns st
    \<and> length (as_TopCommands st) \<le> 10 \<and> distinct (map cs_Command (as_TopCommands st))
    \<and> sorted_wrt (\<lambda>c d. cs_Count d \<le> cs_Count c) (as_TopCommands st)
    \<and> (\<forall>c \<in> set (as_TopCommands st). cs_Count c = runs_of (cs_Command c) xs)
    \<and> (\<forall>x \<in> set xs. rm_Command (sd_Metrics x) \<in> cs_Command ` set (as_TopCommands st)
        \<or> length (as_TopCommands st) = 10
          \<and> (\<forall>c \<in> set (as_TopCommands st). runs_of (rm_Command (sd_Metrics x)) xs \<le> cs_Count c))"
proof (cases "xs = []")
  case True
  then have "getMetricsInRange s start stop = []" by (simp add: xs_def GetByTimeRange_def getMetricsInRange_def)
  then show ?thesis using True by (simp add: st_def GetAggregatedStats_def Let_def)
next
  case False
  let ?tops = "sortCommandStats rk (fold (\<lambda>x. command_step p (sd_Metrics x)) xs [])"
  have xs: "getMetricsInRange s start stop = xs" by (simp add: xs_def GetByTimeRange_def getMetricsInRange_def)
  have g: "as_TotalRuns st = int (length xs)"
    "as_SuccessfulRuns st = int (length (filter (\<lambda>x. run_success (sd_Metrics x)) xs))"
    "as_FailedRuns st = int (length (filter (\<lambda>x. \<not> run_success (sd_Metrics x)) xs))"
    "as_TopCommands st = ?tops"
    using False by (simp_all add: st_def GetAggregatedStats_def xs Let_def aggregate_sel)
  then have "as_SuccessfulRuns st + as_FailedRuns st = as_TotalRuns st"
    using length_filter_add_length_filter_not [of "\<lambda>x. run_success (sd_Metrics x)" xs] by linarith
  moreover note tops = top_commands [where rk = rk and p = p and xs = xs, folded g(4)]
  ultimately show ?thesis using g(1,2) tops(1-3)
    by (intro conjI ballI) (auto dest: tops(4) tops(5))
qed

theorem aggregation_exact_witness:
  "as_TotalRuns (GetAggregatedStats amd64 itoa (\<lambda>_. 0) (\<lambda>_. 0) two_stored 0 3) = 2"
  using aggregation_exact [where p = amd64 and fmt_hour = itoa and rk = "\<lambda>_. 0" and rk' = "\<lambda>_. 0" and s = two_stored and start = 0 and stop = 3]
  by (simp add: GetByTimeRange_def two_stored_eq)

text \<open>C36. The success rates that aggregation updates run by run stay rates under float rounding: up to
  \<open>2^53\<close> runs, every command's and every hour's rate is between zero and one, exactly one when all
  its runs succeeded and exactly zero when none did.\<close>

theorem running_rates_are_rates:
  fixes p fmt_hour rk rk' s start stop
  defines "xs \<equiv> GetByTimeRange s start stop" and "st \<equiv> GetAggregatedStats p fmt_hour rk rk' s start stop"
  assumes "int (length xs) \<le> 2 ^ 53"
  shows "(\<forall>c \<in> set (as_TopCommands st). let ys = filter (\<lambda>x. rm_Command (sd_Metrics x) = cs_Command c) xs
      in unit_rate (cs_SuccessRate c)
        \<and> (list_all (\<lambda>x. run_success (sd_Metrics x)) ys \<longrightarrow> cs_SuccessRate c = Fin 1)
        \<and> (list_all (\<lambda>x. \<not> run_success (sd_Metrics x)) ys \<longrightarrow> cs_SuccessRate c = Fin 0))
    \<and> (\<forall>h \<in> set (as_HourlyBreakdown st). unit_rate (hs_SuccessRate h))"
proof (cases "xs = []")
  case True
  then have "getMetricsInRange s start stop = []" by (simp add: xs_def GetByTimeRange_def getMetricsInRange_def)
  then show ?thesis by (simp add: st_def GetAggregatedStats_def Let_def)
next
  case False
  have xs: "getMetricsInRange s start stop = xs" by (simp add: xs_def GetByTimeRange_def getMetricsInRange_def)
  have len: "int (length (filter P xs)) \<le> 2 ^ 53" for P
    using assms(3) length_filter_le [of P xs] by linarith
  have "\<exists>k. (k, c) \<in> set (fold (\<lambda>x. command_step p (sd_Metrics x)) xs [])" if "c \<in> set (as_TopCommands st)" for c
    using that False by (force simp: st_def GetAggregatedStats_def xs Let_def aggregate_sel sortCommandStats_def dest: in_set_takeD)
  then have c: "rate_of (filter (\<lambda>x. rm_Command (sd_Metrics x) = cs_Command c) xs) (cs_SuccessRate c)"
    if "c \<in> set (as_TopCommands st)" for c using that command_entry [of _ c p xs] by blast
  have "\<exists>k. (k, h) \<in> set (fold (hour_step fmt_hour) xs [])" if "h \<in> set (as_HourlyBreakdown st)" for h
    using that False by (force simp: st_def GetAggregatedStats_def xs Let_def aggregate_sel sortHourlyStats_def)
  then have "unit_rate (hs_SuccessRate h)" if "h \<in> set (as_HourlyBreakdown st)" for h
    using that hour_entry [of _ h fmt_hour xs] len by (force simp: rate_of_def)
  then show ?thesis using c len by (simp add: rate_of_def Let_def)
qed

theorem running_rates_are_rates_witness:
  "list_all (\<lambda>h. unit_rate (hs_SuccessRate h)) (as_HourlyBreakdown (GetAggregatedStats amd64 itoa (\<lambda>_. 0) (\<lambda>_. 0) two_stored 0 3))
   \<and> list_all (\<lambda>c. unit_rate (cs_SuccessRate c)) (as_TopCommands (GetAggregatedStats amd64 itoa (\<lambda>_. 0) (\<lambda>_. 0) two_stored 0 3))
   \<and> map cs_Command (as_TopCommands (GetAggregatedStats amd64 itoa (\<lambda>_. 0) (\<lambda>_. 0) two_stored 0 3)) \<noteq> []"
proof -
  have "map cs_Command (as_TopCommands (GetAggregatedStats amd64 itoa (\<lambda>_. 0) (\<lambda>_. 0) two_stored 0 3)) \<noteq> []"
    by code_simp
  then show ?thesis
    using running_rates_are_rates [where p = amd64 and fmt_hour = itoa and rk = "\<lambda>_. 0" and rk' = "\<lambda>_. 0" and s = two_stored and start = 0 and stop = 3]
    by (simp add: GetByTimeRange_def two_stored_eq list_all_iff Let_def)
qed

text \<open>A metric that is younger than the maximal age when it is stored is the last one of the store.\<close>

lemma Store_last:
  assumes "1 \<le> ms_maxSize s" "in_i64 (- ms_maxAge s)" "now - ms_maxAge s < t"
  shows "\<exists>xs. ms_metrics (Store t now s m) = xs @ [\<lparr>sd_Timestamp = t, sd_Metrics = m\<rparr>]"
proof -
  let ?x = "\<lparr>sd_Timestamp = t, sd_Metrics = m\<rparr>"
  let ?kept = "filter (\<lambda>y. now - ms_maxAge s < sd_Timestamp y) (ms_metrics s)"
  have cut: "time_add now (wrap64 (- ms_maxAge s)) = now - ms_maxAge s" using assms(2) by (simp add: time_add_def)
  have "nat (1 + int (length ?kept) - ms_maxSize s) - length ?kept = 0" using assms(1) by simp
  then show ?thesis using assms(3) cut by (auto simp: Store_def cleanupIfNeeded_def Let_def)
qed

end
