(* ===== verification/JsonStruct.thy ===== *)
theory JsonStruct
  imports GoJson
begin

text \<open>
  Decoding of JSON into Go structs by \<open>encoding/json\<close>, as the daemon uses it. A key names the
  field with that name, or else the first field equal to it under case folding; the Kelvin sign
  and the long s are the only characters outside ASCII that fold to ASCII letters. \<open>null\<close>
  leaves a field as it is, unknown keys are skipped, a later value of a repeated key replaces an
  earlier one, and a value of the wrong type makes \<open>Unmarshal\<close> return an error (\<open>None\<close>).
\<close>

section \<open>Field names\<close>

definition upper_ascii :: "char \<Rightarrow> char" where
  "upper_ascii c = (let n = (of_char c :: nat) in if 97 \<le> n \<and> n \<le> 122 then char_of (n - 32) else c)"

fun fold_name :: "string \<Rightarrow> string" where
  "fold_name [] = []"
| "fold_name (c # r) =
     (if has_prefix (c # r) [CHR 0xC5, CHR 0xBF] then CHR ''S'' # fold_name (drop 1 r)
      else if has_prefix (c # r) [CHR 0xE2, CHR 0x84, CHR 0xAA] then CHR ''K'' # fold_name (drop 2 r)
      else upper_ascii c # fold_name r)"

definition field_name :: "string list \<Rightarrow> string \<Rightarrow> string option" where
  "field_name names k =
     (if k \<in> set names then Some k
      else List.find (\<lambda>n. fold_name n = fold_name k) names)"

section \<open>Values\<close>

definition decode_string :: "json \<Rightarrow> string \<Rightarrow> string option" where
  "decode_string v old = (case v of JNull \<Rightarrow> Some old | JStr t \<Rightarrow> Some t | _ \<Rightarrow> None)"

definition decode_bool :: "json \<Rightarrow> bool \<Rightarrow> bool option" where
  "decode_bool v old = (case v of JNull \<Rightarrow> Some old | JBool b \<Rightarrow> Some b | _ \<Rightarrow> None)"

text \<open>An integer field takes the text of the number: a fraction or an exponent is an error.\<close>

definition decode_int :: "json \<Rightarrow> int \<Rightarrow> int option" where
  "decode_int v old = (case v of JNull \<Rightarrow> Some old | JNum l x \<Rightarrow> parse_int l | _ \<Rightarrow> None)"

definition decode_float :: "json \<Rightarrow> f64 \<Rightarrow> f64 option" where
  "decode_float v old =
     (case v of JNull \<Rightarrow> Some old | JNum l x \<Rightarrow> if is_fin x then Some x else None | _ \<Rightarrow> None)"

fun all_some :: "'a option list \<Rightarrow> 'a list option" where
  "all_some [] = Some []"
| "all_some (x # xs) = (case x of None \<Rightarrow> None | Some y \<Rightarrow> map_option ((#) y) (all_some xs))"

text \<open>A slice field; \<open>null\<close> makes it \<open>nil\<close>. Each element is decoded into a zero value.\<close>

definition decode_list :: "(json \<Rightarrow> 'a option) \<Rightarrow> json \<Rightarrow> 'a list option" where
  "decode_list elem v =
     (case v of JNull \<Rightarrow> Some [] | JArr vs \<Rightarrow> all_some (map elem vs) | _ \<Rightarrow> None)"

section \<open>Structs\<close>

text \<open>\<open>upd n v r\<close> stores the value of field \<open>n\<close>.\<close>

fun decode_fields :: "string list \<Rightarrow> (string \<Rightarrow> json \<Rightarrow> 'r \<Rightarrow> 'r option) \<Rightarrow> (string \<times> json) list \<Rightarrow> 'r \<Rightarrow> 'r option" where
  "decode_fields names upd [] r = Some r"
| "decode_fields names upd ((k, v) # ms) r =
     (case field_name names k of
        None \<Rightarrow> decode_fields names upd ms r
      | Some n \<Rightarrow> (case upd n v r of None \<Rightarrow> None | Some r' \<Rightarrow> decode_fields names upd ms r'))"

definition decode_struct :: "string list \<Rightarrow> (string \<Rightarrow> json \<Rightarrow> 'r \<Rightarrow> 'r option) \<Rightarrow> 'r \<Rightarrow> json \<Rightarrow> 'r option" where
  "decode_struct names upd zero v =
     (case v of JNull \<Rightarrow> Some zero | JObj ms \<Rightarrow> decode_fields names upd ms zero | _ \<Rightarrow> None)"

definition unmarshal_struct :: "string list \<Rightarrow> (string \<Rightarrow> json \<Rightarrow> 'r \<Rightarrow> 'r option) \<Rightarrow> 'r \<Rightarrow> string \<Rightarrow> 'r option" where
  "unmarshal_struct names upd zero s = Option.bind (json_decode s) (decode_struct names upd zero)"

text \<open>A field that the document never names keeps its value.\<close>

lemma decode_fields_untouched:
  assumes "decode_fields names upd ms r = Some r'"
    and "\<And>k v. (k, v) \<in> set ms \<Longrightarrow> field_name names k \<noteq> Some f"
    and "\<And>n v r r'. upd n v r = Some r' \<Longrightarrow> n \<noteq> f \<Longrightarrow> get r' = get r"
  shows "get r' = get r"
  using assms(1,2)
proof (induction ms arbitrary: r)
  case (Cons kv ms)
  obtain k v where kv: "kv = (k, v)" by (cases kv)
  have IH: "get r' = get r1" if "decode_fields names upd ms r1 = Some r'" for r1
    by (rule Cons.IH [OF that]) (use Cons.prems(2) in auto)
  show ?case
  proof (cases "field_name names k")
    case None
    then show ?thesis using IH [of r] Cons.prems(1) kv by simp
  next
    case (Some n)
    then obtain r1 where u: "upd n v r = Some r1" and d: "decode_fields names upd ms r1 = Some r'"
      using Cons.prems(1) kv by (auto split: option.splits)
    have "n \<noteq> f" using Cons.prems(2) [of k v] Some kv by auto
    then show ?thesis using IH [OF d] assms(3) [OF u] by simp
  qed
qed simp

end
