(* ===== verification/Transitions.thy ===== *)
theory Transitions
  imports Main
begin

text \<open>
  Labelled transition systems for the concurrent parts of the daemon: runs as lists of events, and
  the two contracts the components prove of their step relations. \<open>kept\<close> is an invariant that
  every step preserves; \<open>measured\<close> adds a measure that every step with an event of a chosen kind
  lowers, which bounds the length of runs of such events and gives a state where they all are
  disabled.
\<close>

inductive run :: "('s \<Rightarrow> 'e \<Rightarrow> 's \<Rightarrow> bool) \<Rightarrow> 's \<Rightarrow> 'e list \<Rightarrow> 's \<Rightarrow> bool" for step where
  run_Nil [intro]: "run step s [] s"
| run_Cons: "step s e t \<Longrightarrow> run step t es u \<Longrightarrow> run step s (e # es) u"

inductive_simps run_Nil_iff [simp]: "run step s [] t"
inductive_simps run_Cons_iff: "run step s (e # es) t"

lemma run_append: "run step s (es @ fs) u \<longleftrightarrow> (\<exists>t. run step s es t \<and> run step t fs u)"
  by (induction es arbitrary: s) (auto simp: run_Cons_iff)

lemma run_snoc: "run step s (es @ [e]) u \<longleftrightarrow> (\<exists>t. run step s es t \<and> step t e u)"
  by (simp add: run_append run_Cons_iff)

text \<open>Induction from the front of the run: a property of the events so far and the state.\<close>

lemma run_induct [consumes 1, case_names init step]:
  assumes "run step s es t" "P [] s"
    and "\<And>es t e u. run step s es t \<Longrightarrow> P es t \<Longrightarrow> step t e u \<Longrightarrow> P (es @ [e]) u"
  shows "P es t"
  using assms(1)
proof (induction es arbitrary: t rule: rev_induct)
  case (snoc e es)
  then show ?case using assms(3) by (auto simp: run_snoc)
qed (use assms(2) in simp)

lemma remove1_length [simp]: "c \<in> set xs \<Longrightarrow> Suc (i + length (remove1 c xs)) = i + length xs"
  by (induction xs) auto

locale kept =
  fixes step :: "'s \<Rightarrow> 'e \<Rightarrow> 's \<Rightarrow> bool" and inv :: "'s \<Rightarrow> bool"
  assumes step_kept: "inv s \<Longrightarrow> step s e t \<Longrightarrow> inv t"
begin

lemma run_kept: "run step s es t \<Longrightarrow> inv s \<Longrightarrow> inv t"
  by (induction rule: run.induct) (auto intro: step_kept)

end

locale measured = kept step inv
  for step :: "'s \<Rightarrow> 'e \<Rightarrow> 's \<Rightarrow> bool" and inv :: "'s \<Rightarrow> bool" +
  fixes allowed :: "'e \<Rightarrow> bool" and size_of :: "'s \<Rightarrow> nat"
  assumes step_lowers: "inv s \<Longrightarrow> allowed e \<Longrightarrow> step s e t \<Longrightarrow> size_of t < size_of s"
begin

definition at_rest :: "'s \<Rightarrow> bool" where
  "at_rest s \<longleftrightarrow> (\<forall>e t. allowed e \<longrightarrow> \<not> step s e t)"

lemma run_bounded:
  "run step s es t \<Longrightarrow> inv s \<Longrightarrow> list_all allowed es \<Longrightarrow> length es + size_of t \<le> size_of s"
proof (induction rule: run.induct)
  case (run_Cons s e t es u)
  then have "inv t" by (blast intro: step_kept)
  moreover have "size_of t < size_of s" using run_Cons step_lowers [of s e t] by simp
  ultimately show ?case using run_Cons by simp
qed simp

lemma reaches_rest:
  "inv s \<Longrightarrow> \<exists>es t. run step s es t \<and> list_all allowed es \<and> at_rest t"
proof (induction "size_of s" arbitrary: s rule: less_induct)
  case less
  show ?case
  proof (cases "at_rest s")
    case True
    then show ?thesis by (intro exI [of _ "[]"] exI [of _ s]) auto
  next
    case False
    then obtain e t where e: "allowed e" "step s e t" by (auto simp: at_rest_def)
    then obtain es u where "run step t es u" "list_all allowed es" "at_rest u"
      using less.hyps [of t] step_lowers step_kept less.prems by blast
    with e show ?thesis
      by (intro exI [of _ "e # es"] exI [of _ u]) (auto simp: run_Cons_iff)
  qed
qed

end

end
