(* ===== verification/WorkerPool.thy ===== *)
theory WorkerPool
  imports Storage JsonStruct Transitions "HOL-Library.Multiset"
begin

text \<open>
  The worker pool of the daemon, \<open>pkg/daemon/worker_pool.go\<close>, and the decoding of the run metrics
  it stores. \<open>pool_step\<close> interleaves the goroutines at their points of synchronisation: the two
  critical sections of \<open>Start\<close> and \<open>Stop\<close>, the check and the \<open>select\<close> of
  \<open>SubmitConnection\<close>, and the \<open>select\<close> of each worker. A \<open>select\<close> with several ready
  cases takes any of them. Connections carry what reading them gives; logging is not modelled.
\<close>

section \<open>Metrics on the wire\<close>

definition zero_attempt :: AttemptMetric where
  "zero_attempt = \<lparr>am_Duration = 0, am_ExitCode = 0, am_Success = False\<rparr>"

text \<open>The duration of an attempt is tagged \<open>json:"-"\<close> and has no field name.\<close>

definition attempt_names :: "string list" where
  "attempt_names = [''exit_code'', ''success'']"

definition set_attempt :: "string \<Rightarrow> json \<Rightarrow> AttemptMetric \<Rightarrow> AttemptMetric option" where
  "set_attempt n v a =
     (if n = ''exit_code'' then map_option (\<lambda>x. a\<lparr>am_ExitCode := x\<rparr>) (decode_int v (am_ExitCode a))
      else map_option (\<lambda>x. a\<lparr>am_Success := x\<rparr>) (decode_bool v (am_Success a)))"

definition zero_run :: RunMetrics where
  "zero_run = \<lparr>rm_Command = [], rm_CommandHash = [], rm_FinalStatus = [], rm_TotalDurationSeconds = Fin 0,
     rm_TotalAttempts = 0, rm_SuccessfulAttempts = 0, rm_FailedAttempts = 0, rm_Attempts = [], rm_Timestamp = 0\<rparr>"

definition run_names :: "string list" where
  "run_names = [''command'', ''command_hash'', ''final_status'', ''total_duration_seconds'', ''total_attempts'',
     ''successful_attempts'', ''failed_attempts'', ''attempts'', ''timestamp'']"

definition set_run :: "string \<Rightarrow> json \<Rightarrow> RunMetrics \<Rightarrow> RunMetrics option" where
  "set_run n v m =
     (if n = ''command'' then map_option (\<lambda>x. m\<lparr>rm_Command := x\<rparr>) (decode_string v (rm_Command m))
      else if n = ''command_hash'' then map_option (\<lambda>x. m\<lparr>rm_CommandHash := x\<rparr>) (decode_string v (rm_CommandHash m))
      else if n = ''final_status'' then map_option (\<lambda>x. m\<lparr>rm_FinalStatus := x\<rparr>) (decode_string v (rm_FinalStatus m))
      else if n = ''total_duration_seconds''
      then map_option (\<lambda>x. m\<lparr>rm_TotalDurationSeconds := x\<rparr>) (decode_float v (rm_TotalDurationSeconds m))
      else if n = ''total_attempts'' then map_option (\<lambda>x. m\<lparr>rm_TotalAttempts := x\<rparr>) (decode_int v (rm_TotalAttempts m))
      else if n = ''successful_attempts''
      then map_option (\<lambda>x. m\<lparr>rm_SuccessfulAttempts := x\<rparr>) (decode_int v (rm_SuccessfulAttempts m))
      else if n = ''failed_attempts'' then map_option (\<lambda>x. m\<lparr>rm_FailedAttempts := x\<rparr>) (decode_int v (rm_FailedAttempts m))
      else if n = ''attempts''
      then map_option (\<lambda>x. m\<lparr>rm_Attempts := x\<rparr>) (decode_list (decode_struct attempt_names set_attempt zero_attempt) v)
      else map_option (\<lambda>x. m\<lparr>rm_Timestamp := x\<rparr>) (decode_int v (rm_Timestamp m)))"

definition unmarshal_RunMetrics :: "string \<Rightarrow> RunMetrics option" where
  "unmarshal_RunMetrics = unmarshal_struct run_names set_run zero_run"

section \<open>The pool\<close>

record conn =
  cn_id :: nat
  cn_read :: "string option"

record WorkerPool =
  wp_workers :: int
  wp_jobQueue :: "conn list"
  wp_queueCap :: int
  wp_cancelled :: bool
  wp_storage :: MetricsStorage
  wp_started :: bool

definition NewWorkerPool :: "int \<Rightarrow> MetricsStorage \<Rightarrow> WorkerPool" where
  "NewWorkerPool workers st =
     (let workers1 = (if workers \<le> 0 then 10 else workers);
          workers2 = (if 1000 < workers1 then 1000 else workers1)
      in \<lparr>wp_workers = workers2, wp_jobQueue = [], wp_queueCap = workers2 * 2, wp_cancelled = False,
          wp_storage = st, wp_started = False\<rparr>)"

text \<open>\<open>Start\<close>: the pool and the number of workers launched.\<close>

definition Pool_Start :: "WorkerPool \<Rightarrow> WorkerPool \<times> nat" where
  "Pool_Start wp = (if wp_started wp then (wp, 0) else (wp\<lparr>wp_started := True\<rparr>, nat (wp_workers wp)))"

text \<open>\<open>Stop\<close>: the critical section, which tells whether to go on, and the cancellation.\<close>

definition Stop_mark :: "WorkerPool \<Rightarrow> bool \<times> WorkerPool" where
  "Stop_mark wp = (if \<not> wp_started wp then (False, wp) else (True, wp\<lparr>wp_started := False\<rparr>))"

definition Stop_cancel :: "WorkerPool \<Rightarrow> WorkerPool" where
  "Stop_cancel wp = wp\<lparr>wp_cancelled := True\<rparr>"

text \<open>\<open>SubmitConnection\<close> after its check: the ready cases of the \<open>select\<close>.\<close>

datatype submit_case = Queued | Cancelled | QueueFull

definition submit_cases :: "WorkerPool \<Rightarrow> submit_case list" where
  "submit_cases wp =
     (let ready = (if int (length (wp_jobQueue wp)) < wp_queueCap wp then [Queued] else [])
                  @ (if wp_cancelled wp then [Cancelled] else [])
      in if ready = [] then [QueueFull] else ready)"

definition submit_select :: "submit_case \<Rightarrow> conn \<Rightarrow> WorkerPool \<Rightarrow> bool \<times> WorkerPool" where
  "submit_select k c wp =
     (if k = Queued then (True, wp\<lparr>wp_jobQueue := wp_jobQueue wp @ [c]\<rparr>) else (False, wp))"

text \<open>The \<open>select\<close> of a worker: a job, or the end.\<close>

definition worker_cases :: "WorkerPool \<Rightarrow> conn option list" where
  "worker_cases wp =
     (case wp_jobQueue wp of [] \<Rightarrow> [] | c # q \<Rightarrow> [Some c]) @ (if wp_cancelled wp then [None] else [])"

definition handleConnection :: "instant \<Rightarrow> instant \<Rightarrow> conn \<Rightarrow> WorkerPool \<Rightarrow> WorkerPool" where
  "handleConnection t now c wp =
     (case cn_read c of
        None \<Rightarrow> wp
      | Some data \<Rightarrow>
          if data = [] then wp
          else case unmarshal_RunMetrics data of
                 None \<Rightarrow> wp
               | Some runMetrics \<Rightarrow> wp\<lparr>wp_storage := Store t now (wp_storage wp) runMetrics\<rparr>)"

record PoolStats =
  po_workers :: int
  po_queue_capacity :: int
  po_queue_length :: int
  po_started :: bool

definition Pool_GetStats :: "WorkerPool \<Rightarrow> PoolStats" where
  "Pool_GetStats wp = \<lparr>po_workers = wp_workers wp, po_queue_capacity = wp_queueCap wp,
     po_queue_length = int (length (wp_jobQueue wp)), po_started = wp_started wp\<rparr>"

section \<open>The goroutines around the pool\<close>

record pool_sys =
  ps_pool :: WorkerPool
  ps_idle :: nat
  ps_handling :: "conn list"
  ps_submitting :: "conn list"
  ps_stopping :: nat
  ps_closed :: "conn list"

datatype pool_event =
    EStart
  | EStop
  | ECancel
  | ESubmit conn
  | ESelect submit_case conn
  | ETake conn
  | EDone conn instant instant
  | EExit

text \<open>
  A call of \<open>Start\<close> or \<open>Stop\<close> that finds nothing to do changes nothing and is no step.
\<close>

inductive pool_step :: "pool_sys \<Rightarrow> pool_event \<Rightarrow> pool_sys \<Rightarrow> bool" where
  start: "Pool_Start (ps_pool s) = (wp, n) \<Longrightarrow> \<not> wp_started (ps_pool s) \<Longrightarrow>
    pool_step s EStart (s\<lparr>ps_pool := wp, ps_idle := ps_idle s + n\<rparr>)"
| stop: "Stop_mark (ps_pool s) = (True, wp) \<Longrightarrow>
    pool_step s EStop (s\<lparr>ps_pool := wp, ps_stopping := Suc (ps_stopping s)\<rparr>)"
| cancel: "ps_stopping s = Suc n \<Longrightarrow>
    pool_step s ECancel (s\<lparr>ps_pool := Stop_cancel (ps_pool s), ps_stopping := n\<rparr>)"
| submit: "wp_started (ps_pool s) \<Longrightarrow>
    pool_step s (ESubmit c) (s\<lparr>ps_submitting := c # ps_submitting s\<rparr>)"
| refuse: "\<not> wp_started (ps_pool s) \<Longrightarrow>
    pool_step s (ESubmit c) (s\<lparr>ps_closed := c # ps_closed s\<rparr>)"
| select: "c \<in> set (ps_submitting s) \<Longrightarrow> k \<in> set (submit_cases (ps_pool s)) \<Longrightarrow>
    submit_select k c (ps_pool s) = (ok, wp) \<Longrightarrow>
    pool_step s (ESelect k c)
      (s\<lparr>ps_pool := wp, ps_submitting := remove1 c (ps_submitting s),
         ps_closed := (if ok then ps_closed s else c # ps_closed s)\<rparr>)"
| take_job: "ps_idle s = Suc n \<Longrightarrow> Some c \<in> set (worker_cases (ps_pool s)) \<Longrightarrow>
    pool_step s (ETake c)
      (s\<lparr>ps_pool := (ps_pool s)\<lparr>wp_jobQueue := tl (wp_jobQueue (ps_pool s))\<rparr>,
         ps_idle := n, ps_handling := c # ps_handling s\<rparr>)"
| done_job: "c \<in> set (ps_handling s) \<Longrightarrow>
    pool_step s (EDone c t now)
      (s\<lparr>ps_pool := handleConnection t now c (ps_pool s),
         ps_idle := Suc (ps_idle s), ps_handling := remove1 c (ps_handling s), ps_closed := c # ps_closed s\<rparr>)"
| leave: "ps_idle s = Suc n \<Longrightarrow> None \<in> set (worker_cases (ps_pool s)) \<Longrightarrow>
    pool_step s EExit (s\<lparr>ps_idle := n\<rparr>)"

inductive_cases pool_stepE: "pool_step s e t"

inductive_simps pool_step_simps:
  "pool_step s EStart t" "pool_step s EStop t" "pool_step s ECancel t" "pool_step s (ESubmit c) t"
  "pool_step s (ESelect k c) t" "pool_step s (ETake c) t" "pool_step s (EDone c t1 t2) t" "pool_step s EExit t"

definition initial_pool :: "int \<Rightarrow> MetricsStorage \<Rightarrow> pool_sys" where
  "initial_pool workers st = \<lparr>ps_pool = NewWorkerPool workers st, ps_idle = 0, ps_handling = [],
     ps_submitting = [], ps_stopping = 0, ps_closed = []\<rparr>"

text \<open>What a run submitted, and what it handled with the clock readings of the store.\<close>

definition submitted :: "pool_event list \<Rightarrow> conn list" where
  "submitted es = List.map_filter (\<lambda>e. case e of ESubmit c \<Rightarrow> Some c | _ \<Rightarrow> None) es"

definition handled :: "pool_event list \<Rightarrow> (conn \<times> instant \<times> instant) list" where
  "handled es = List.map_filter (\<lambda>e. case e of EDone c t now \<Rightarrow> Some (c, t, now) | _ \<Rightarrow> None) es"

text \<open>What handling connections one after the other stores.\<close>

definition stored_after :: "(conn \<times> instant \<times> instant) list \<Rightarrow> WorkerPool \<Rightarrow> MetricsStorage" where
  "stored_after hs wp = wp_storage (fold (\<lambda>(c, t, now). handleConnection t now c) hs wp)"

section \<open>Invariants\<close>

definition pool_inv :: "pool_sys \<Rightarrow> bool" where
  "pool_inv s \<longleftrightarrow>
     (let wp = ps_pool s; alive = ps_idle s + length (ps_handling s)
      in 1 \<le> wp_workers wp \<and> wp_workers wp \<le> 1000 \<and> wp_queueCap wp = 2 * wp_workers wp
         \<and> int (length (wp_jobQueue wp)) \<le> wp_queueCap wp
         \<and> (ps_stopping s = 0 \<and> \<not> wp_cancelled wp \<longrightarrow>
              alive = (if wp_started wp then nat (wp_workers wp) else 0)))"

lemma handleConnection_fields [simp]:
  "wp_workers (handleConnection t now c wp) = wp_workers wp"
  "wp_jobQueue (handleConnection t now c wp) = wp_jobQueue wp"
  "wp_queueCap (handleConnection t now c wp) = wp_queueCap wp"
  "wp_cancelled (handleConnection t now c wp) = wp_cancelled wp"
  "wp_started (handleConnection t now c wp) = wp_started wp"
  by (simp_all add: handleConnection_def split: option.splits)

lemma initial_pool_inv: "pool_inv (initial_pool workers st)"
  by (simp add: pool_inv_def initial_pool_def NewWorkerPool_def Let_def)

lemma worker_cases_Some:
  "Some c \<in> set (worker_cases wp) \<longleftrightarrow> (\<exists>q. wp_jobQueue wp = c # q)"
  by (cases "wp_jobQueue wp") (auto simp: worker_cases_def)

lemma worker_cases_None: "None \<in> set (worker_cases wp) \<longleftrightarrow> wp_cancelled wp"
  by (auto simp: worker_cases_def split: list.splits)

lemma submit_cases_mem:
  "k \<in> set (submit_cases wp) \<longleftrightarrow>
     (case k of Queued \<Rightarrow> int (length (wp_jobQueue wp)) < wp_queueCap wp
      | Cancelled \<Rightarrow> wp_cancelled wp
      | QueueFull \<Rightarrow> wp_queueCap wp \<le> int (length (wp_jobQueue wp)) \<and> \<not> wp_cancelled wp)"
  by (auto simp: submit_cases_def split: submit_case.splits)

lemmas pool_ops = Pool_Start_def Stop_mark_def Stop_cancel_def submit_select_def
  worker_cases_Some worker_cases_None submit_cases_mem

lemma pool_step_inv: "pool_inv s \<Longrightarrow> pool_step s e t \<Longrightarrow> pool_inv t"
  by (erule pool_stepE)
    (auto simp: pool_inv_def pool_ops Let_def split: if_splits submit_case.splits)

interpretation pool: kept pool_step pool_inv
  by unfold_locales (rule pool_step_inv)

text \<open>Every connection is in exactly one place.\<close>

definition connections :: "pool_sys \<Rightarrow> conn multiset" where
  "connections s = mset (ps_submitting s) + mset (wp_jobQueue (ps_pool s)) + mset (ps_handling s) + mset (ps_closed s)"

lemma submitted_simps [simp]:
  "submitted [] = []" "submitted (es @ fs) = submitted es @ submitted fs"
  "submitted [e] = (case e of ESubmit c \<Rightarrow> [c] | _ \<Rightarrow> [])"
  by (simp_all add: submitted_def map_filter_def split: pool_event.splits)

lemma handled_simps [simp]:
  "handled [] = []" "handled (es @ fs) = handled es @ handled fs"
  "handled [e] = (case e of EDone c t now \<Rightarrow> [(c, t, now)] | _ \<Rightarrow> [])"
  by (simp_all add: handled_def map_filter_def split: pool_event.splits)

lemma pool_step_connections:
  "pool_step s e t \<Longrightarrow> connections t = connections s + mset (submitted [e])"
  by (erule pool_stepE) (auto simp: connections_def pool_ops split: if_splits)

lemma run_connections: "run pool_step s es t \<Longrightarrow> connections t = connections s + mset (submitted es)"
  by (induction rule: run_induct) (auto simp: pool_step_connections)

lemma handleConnection_storage:
  "wp_storage wp = wp_storage wp' \<Longrightarrow> wp_storage (handleConnection t now c wp) = wp_storage (handleConnection t now c wp')"
  by (auto simp: handleConnection_def split: option.splits)

lemma pool_step_storage:
  "pool_step s e t \<Longrightarrow> wp_storage (ps_pool t) =
     (case e of EDone c t1 t2 \<Rightarrow> wp_storage (handleConnection t1 t2 c (ps_pool s)) | _ \<Rightarrow> wp_storage (ps_pool s))"
  by (erule pool_stepE) (auto simp: pool_ops split: if_splits)

lemma run_storage: "run pool_step s es t \<Longrightarrow> wp_storage (ps_pool t) = stored_after (handled es) (ps_pool s)"
proof (induction rule: run_induct)
  case (step es t e u)
  show ?case
  proof (cases e)
    case (EDone c t1 t2)
    have "wp_storage (ps_pool t) = wp_storage (fold (\<lambda>(c, t, now). handleConnection t now c) (handled es) (ps_pool s))"
      using step.IH by (simp add: stored_after_def)
    from handleConnection_storage [OF this, of t1 t2 c] EDone pool_step_storage [OF step.hyps(2)] show ?thesis
      by (simp add: stored_after_def)
  qed (use pool_step_storage [OF step.hyps(2)] step.IH in auto)
qed (simp add: stored_after_def)

lemma pool_step_closed:
  "pool_step s e t \<Longrightarrow> mset (ps_closed s) + mset (map fst (handled [e])) \<subseteq># mset (ps_closed t)"
  by (erule pool_stepE) simp_all

lemma run_closed:
  "run pool_step s es t \<Longrightarrow> mset (ps_closed s) + mset (map fst (handled es)) \<subseteq># mset (ps_closed t)"
proof (induction rule: run_induct)
  case (step es t e u)
  have "mset (ps_closed s) + mset (map fst (handled es)) + mset (map fst (handled [e])) \<subseteq># mset (ps_closed u)"
    by (rule subset_mset.order_trans [OF subset_mset.add_right_mono [OF step.IH] pool_step_closed [OF step.hyps(2)]])
  then show ?case by (simp only: handled_simps(2) map_append mset_append add.assoc)
qed simp

text \<open>C10. Whatever the interleaving of starts, stops, submissions and workers, the queue of the pool never
  exceeds twice its workers (between 1 and 1000), every submitted connection is in exactly one of
  four places - being submitted, queued, being handled, closed - so that none is handled or closed
  twice or lost, every handled one is closed, and the store holds what handling the handled
  connections one after the other stores.\<close>

theorem pool_conserves_connections:
  assumes "run pool_step (initial_pool workers st) es s"
  shows "int (length (wp_jobQueue (ps_pool s))) \<le> 2 * wp_workers (ps_pool s)
     \<and> 1 \<le> wp_workers (ps_pool s) \<and> wp_workers (ps_pool s) \<le> 1000
     \<and> mset (submitted es) = mset (ps_submitting s) + mset (wp_jobQueue (ps_pool s)) + mset (ps_handling s) + mset (ps_closed s)
     \<and> mset (map fst (handled es)) \<subseteq># mset (ps_closed s)
     \<and> wp_storage (ps_pool s) = stored_after (handled es) (NewWorkerPool workers st)"
proof (intro conjI)
  have inv: "pool_inv s" using pool.run_kept [OF assms initial_pool_inv] .
  then show "int (length (wp_jobQueue (ps_pool s))) \<le> 2 * wp_workers (ps_pool s)"
    and "1 \<le> wp_workers (ps_pool s)" and "wp_workers (ps_pool s) \<le> 1000"
    by (auto simp: pool_inv_def Let_def)
  show "mset (submitted es) = mset (ps_submitting s) + mset (wp_jobQueue (ps_pool s)) + mset (ps_handling s) + mset (ps_closed s)"
    using run_connections [OF assms] by (simp add: connections_def initial_pool_def NewWorkerPool_def Let_def)
  show "mset (map fst (handled es)) \<subseteq># mset (ps_closed s)"
    using run_closed [OF assms] by (simp add: initial_pool_def)
  show "wp_storage (ps_pool s) = stored_after (handled es) (NewWorkerPool workers st)"
    using run_storage [OF assms] by (simp add: initial_pool_def)
qed

text \<open>The event determines the step, so runs can be computed.\<close>

fun pool_exec :: "pool_sys \<Rightarrow> pool_event \<Rightarrow> pool_sys option" where
  "pool_exec s EStart =
     (if wp_started (ps_pool s) then None
      else Some (s\<lparr>ps_pool := fst (Pool_Start (ps_pool s)), ps_idle := ps_idle s + snd (Pool_Start (ps_pool s))\<rparr>))"
| "pool_exec s EStop =
     (if fst (Stop_mark (ps_pool s))
      then Some (s\<lparr>ps_pool := snd (Stop_mark (ps_pool s)), ps_stopping := Suc (ps_stopping s)\<rparr>) else None)"
| "pool_exec s ECancel =
     (if ps_stopping s = 0 then None
      else Some (s\<lparr>ps_pool := Stop_cancel (ps_pool s), ps_stopping := ps_stopping s - 1\<rparr>))"
| "pool_exec s (ESubmit c) =
     Some (if wp_started (ps_pool s) then s\<lparr>ps_submitting := c # ps_submitting s\<rparr>
           else s\<lparr>ps_closed := c # ps_closed s\<rparr>)"
| "pool_exec s (ESelect k c) =
     (if c \<in> set (ps_submitting s) \<and> k \<in> set (submit_cases (ps_pool s))
      then Some (s\<lparr>ps_pool := snd (submit_select k c (ps_pool s)), ps_submitting := remove1 c (ps_submitting s),
                   ps_closed := (if fst (submit_select k c (ps_pool s)) then ps_closed s else c # ps_closed s)\<rparr>)
      else None)"
| "pool_exec s (ETake c) =
     (if ps_idle s \<noteq> 0 \<and> Some c \<in> set (worker_cases (ps_pool s))
      then Some (s\<lparr>ps_pool := (ps_pool s)\<lparr>wp_jobQueue := tl (wp_jobQueue (ps_pool s))\<rparr>,
                   ps_idle := ps_idle s - 1, ps_handling := c # ps_handling s\<rparr>)
      else None)"
| "pool_exec s (EDone c t now) =
     (if c \<in> set (ps_handling s)
      then Some (s\<lparr>ps_pool := handleConnection t now c (ps_pool s), ps_idle := Suc (ps_idle s),
                   ps_handling := remove1 c (ps_handling s), ps_closed := c # ps_closed s\<rparr>)
      else None)"
| "pool_exec s EExit =
     (if ps_idle s \<noteq> 0 \<and> None \<in> set (worker_cases (ps_pool s)) then Some (s\<lparr>ps_idle := ps_idle s - 1\<rparr>) else None)"

lemma pool_exec_step: "pool_exec s e = Some t \<Longrightarrow> pool_step s e t"
  by (cases e) (force simp: pool_step_simps Let_def prod_eq_iff split: if_splits)+

fun pool_execs :: "pool_sys \<Rightarrow> pool_event list \<Rightarrow> pool_sys option" where
  "pool_execs s [] = Some s"
| "pool_execs s (e # es) = (case pool_exec s e of None \<Rightarrow> None | Some t \<Rightarrow> pool_execs t es)"

lemma pool_exec_run: "pool_execs s es = Some t \<Longrightarrow> run pool_step s es t"
  by (induction es arbitrary: s) (auto simp: run_Cons_iff split: option.splits dest: pool_exec_step)

text \<open>One worker, one connection, from the start to its end.\<close>

definition sample_conn :: conn where
  "sample_conn = \<lparr>cn_id = 1, cn_read = Some ''{}''\<rparr>"

definition sample_events :: "pool_event list" where
  "sample_events = [EStart, ESubmit sample_conn, ESelect Queued sample_conn, ETake sample_conn, EDone sample_conn 5 5]"

definition sample_end :: pool_sys where
  "sample_end = \<lparr>ps_pool = \<lparr>wp_workers = 1, wp_jobQueue = [], wp_queueCap = 2, wp_cancelled = False,
       wp_storage = Store 5 5 sample_storage zero_run, wp_started = True\<rparr>,
     ps_idle = 1, ps_handling = [], ps_submitting = [], ps_stopping = 0, ps_closed = [sample_conn]\<rparr>"

lemma sample_decodes: "unmarshal_RunMetrics ''{}'' = Some zero_run"
  by code_simp

lemma sample_pool_run: "run pool_step (initial_pool 1 sample_storage) sample_events sample_end"
  by (rule pool_exec_run)
    (simp add: sample_events_def sample_end_def initial_pool_def NewWorkerPool_def
      Let_def pool_ops handleConnection_def sample_decodes sample_conn_def)

theorem pool_conserves_connections_witness:
  "mset (submitted sample_events) = mset (ps_closed sample_end)
     \<and> wp_storage (ps_pool sample_end) = stored_after (handled sample_events) (NewWorkerPool 1 sample_storage)"
  using pool_conserves_connections [OF sample_pool_run] by (simp add: sample_end_def)

section \<open>Draining and stopping\<close>

text \<open>The events of the pool itself: nobody starts or stops it and nobody submits a connection.\<close>

fun internal :: "pool_event \<Rightarrow> bool" where
  "internal EStart = False"
| "internal EStop = False"
| "internal (ESubmit c) = False"
| "internal _ = True"

definition pool_work :: "pool_sys \<Rightarrow> nat" where
  "pool_work s = 4 * length (ps_submitting s) + 3 * length (wp_jobQueue (ps_pool s))
     + 2 * length (ps_handling s) + ps_idle s + ps_stopping s"

lemma internal_step_works:
  assumes "internal e" "pool_step s e t"
  shows "pool_work t < pool_work s"
  using assms(2,1)
proof (cases rule: pool_step.cases)
  case (select c k ok wp)
  then show ?thesis using remove1_length [of c "ps_submitting s" 0]
    by (auto simp: pool_work_def pool_ops split: if_splits)
next
  case (done_job c t now)
  then show ?thesis using remove1_length [of c "ps_handling s" 0] by (simp add: pool_work_def)
qed (use assms(1) in \<open>auto simp: pool_work_def pool_ops\<close>)

interpretation pool: measured pool_step pool_inv internal pool_work
  by unfold_locales (rule internal_step_works)

text \<open>A state in which the pool itself can do nothing more.\<close>

lemma pool_at_rest:
  assumes rest: "\<nexists>e t. internal e \<and> pool_step s e t"
  shows "ps_submitting s = []" and "ps_handling s = []" and "ps_stopping s = 0"
    and "ps_idle s = 0 \<or> wp_jobQueue (ps_pool s) = [] \<and> \<not> wp_cancelled (ps_pool s)"
proof -
  have no: "\<not> pool_step s e t" if "internal e" for e t using rest that by blast
  show "ps_submitting s = []"
  proof (rule ccontr)
    assume "ps_submitting s \<noteq> []"
    then have c: "hd (ps_submitting s) \<in> set (ps_submitting s)" by simp
    define k where "k = hd (submit_cases (ps_pool s))"
    have "submit_cases (ps_pool s) \<noteq> []" by (simp add: submit_cases_def Let_def)
    then have k: "k \<in> set (submit_cases (ps_pool s))" by (simp add: k_def)
    obtain ok wp where sel: "submit_select k (hd (ps_submitting s)) (ps_pool s) = (ok, wp)" by fastforce
    show False using pool_step.select [OF c k sel] no [of "ESelect k (hd (ps_submitting s))"] by simp
  qed
  show "ps_handling s = []"
    using pool_step.done_job [of "hd (ps_handling s)" s 0 0] no [of "EDone (hd (ps_handling s)) 0 0"]
    by (cases "ps_handling s") auto
  show "ps_stopping s = 0"
    using pool_step.cancel [of s] no [of ECancel] by (cases "ps_stopping s") auto
  show "ps_idle s = 0 \<or> wp_jobQueue (ps_pool s) = [] \<and> \<not> wp_cancelled (ps_pool s)"
  proof (cases "ps_idle s")
    case (Suc n)
    have "wp_jobQueue (ps_pool s) = []"
      using pool_step.take_job [OF Suc, of "hd (wp_jobQueue (ps_pool s))"] no [of "ETake _"]
      by (cases "wp_jobQueue (ps_pool s)") (auto simp: worker_cases_Some)
    moreover have "\<not> wp_cancelled (ps_pool s)"
      using pool_step.leave [OF Suc] no [of EExit] by (auto simp: worker_cases_None)
    ultimately show ?thesis by simp
  qed simp
qed

lemma internal_keeps_started:
  "pool_step s e t \<Longrightarrow> internal e \<Longrightarrow> wp_started (ps_pool t) = wp_started (ps_pool s)"
  by (erule pool_stepE) (auto simp: pool_ops split: if_splits)

lemma internal_run_started:
  "run pool_step s es t \<Longrightarrow> list_all internal es \<Longrightarrow> wp_started (ps_pool t) = wp_started (ps_pool s)"
  by (induction rule: run.induct) (auto dest: internal_keeps_started)

lemma internal_submits_nothing: "list_all internal es \<Longrightarrow> submitted es = []"
proof (induction es rule: rev_induct)
  case (snoc e es)
  then show ?case by (cases e) auto
qed simp

definition stop_called :: "pool_sys \<Rightarrow> bool" where
  "stop_called s \<longleftrightarrow> wp_cancelled (ps_pool s) \<or> ps_stopping s \<noteq> 0"

lemma stop_called_stays: "pool_step s e t \<Longrightarrow> stop_called s \<Longrightarrow> stop_called t"
  by (erule pool_stepE) (auto simp: stop_called_def pool_ops split: if_splits)

lemma stop_called_from_stop: "pool_step s e t \<Longrightarrow> e \<noteq> EStop \<Longrightarrow> stop_called t \<Longrightarrow> stop_called s"
  by (erule pool_stepE) (auto simp: stop_called_def pool_ops split: if_splits)

lemma run_stop_called: "run pool_step s es t \<Longrightarrow> stop_called s \<Longrightarrow> stop_called t"
  by (induction rule: run.induct) (auto dest: stop_called_stays)

lemma run_not_stopped: "run pool_step s es t \<Longrightarrow> EStop \<notin> set es \<Longrightarrow> stop_called t \<Longrightarrow> stop_called s"
  by (induction rule: run.induct) (auto dest: stop_called_from_stop)

text \<open>C11. Stopping ends. Once \<open>Stop\<close> has marked a pool that is not started again and no connection
  is submitted, every run of the pool has at most \<open>pool_work\<close> further steps (four for a pending
  submission, three for a queued connection, two for one being handled, one for an idle worker),
  and a run that cannot go on has left no worker, so the wait of \<open>Stop\<close> returns.\<close>

theorem stop_terminates:
  assumes "run pool_step (initial_pool workers st) es s" "\<not> wp_started (ps_pool s)" "EStop \<in> set es"
    and "run pool_step s fs t" "list_all internal fs"
  shows "length fs \<le> pool_work s
     \<and> (ps_idle t = 0 \<and> ps_handling t = [] \<and> ps_submitting t = [] \<and> wp_cancelled (ps_pool t)
        \<or> (\<exists>e u. internal e \<and> pool_step t e u))"
proof (rule conjI [OF _ disjCI])
  have inv: "pool_inv s" using pool.run_kept [OF assms(1) initial_pool_inv] .
  show "length fs \<le> pool_work s" using pool.run_bounded [OF assms(4) inv assms(5)] by simp
  assume "\<nexists>e u. internal e \<and> pool_step t e u"
  note rest = pool_at_rest [OF this]
  obtain es1 es2 where "es = es1 @ EStop # es2" using split_list [OF assms(3)] by blast
  then obtain a b where "pool_step a EStop b" "run pool_step b es2 s"
    using assms(1) by (auto simp: run_append run_Cons_iff)
  moreover from this have "stop_called b" by (auto simp: pool_step_simps stop_called_def)
  ultimately have "stop_called t" using run_stop_called assms(4) by blast
  with rest show "ps_idle t = 0 \<and> ps_handling t = [] \<and> ps_submitting t = [] \<and> wp_cancelled (ps_pool t)"
    by (auto simp: stop_called_def)
qed

text \<open>C12. A running pool serves everybody. As long as nobody calls \<open>Stop\<close>, a started pool to which no
  more connections are submitted comes to rest within \<open>pool_work\<close> steps, and when it can do nothing
  more every connection ever submitted has been closed: handled, or rejected because the
  queue was full.\<close>

theorem pool_drains:
  assumes "run pool_step (initial_pool workers st) es s" "wp_started (ps_pool s)" "EStop \<notin> set es"
    and "run pool_step s fs t" "list_all internal fs"
  shows "length fs \<le> pool_work s
     \<and> (mset (ps_closed t) = mset (submitted es) \<or> (\<exists>e u. internal e \<and> pool_step t e u))"
proof (rule conjI [OF _ disjCI])
  have inv: "pool_inv s" using pool.run_kept [OF assms(1) initial_pool_inv] .
  show "length fs \<le> pool_work s" using pool.run_bounded [OF assms(4) inv assms(5)] by simp
  assume "\<nexists>e u. internal e \<and> pool_step t e u"
  note rest = pool_at_rest [OF this]
  have whole: "run pool_step (initial_pool workers st) (es @ fs) t" using assms(1,4) by (auto simp: run_append)
  have "EStop \<notin> set (es @ fs)" using assms(3,5) by (auto simp: list_all_iff)
  then have "\<not> stop_called t"
    using run_not_stopped [OF whole] by (auto simp: stop_called_def initial_pool_def NewWorkerPool_def Let_def)
  moreover have "wp_started (ps_pool t)" using internal_run_started [OF assms(4,5)] assms(2) by simp
  moreover have "pool_inv t" using pool.run_kept [OF whole initial_pool_inv] .
  ultimately have "ps_idle t \<noteq> 0" using rest(2) by (auto simp: pool_inv_def stop_called_def Let_def)
  then have "connections t = mset (ps_closed t)" using rest by (auto simp: connections_def)
  then show "mset (ps_closed t) = mset (submitted es)"
    using run_connections [OF whole] internal_submits_nothing [OF assms(5)]
    by (simp add: connections_def initial_pool_def NewWorkerPool_def Let_def)
qed

text \<open>A stopped pool abandons its queue: once its workers are gone, connections left in the queue
  stay there, neither handled nor closed, in every further run without a restart; all that is
  closed are connections submitted later.\<close>

lemma stopped_pool_abandons_queue:
  assumes "\<not> wp_started (ps_pool s)" "ps_idle s = 0" "ps_handling s = []" "ps_submitting s = []"
    and "run pool_step s fs t" "EStart \<notin> set fs"
  shows "wp_jobQueue (ps_pool t) = wp_jobQueue (ps_pool s)
     \<and> mset (ps_closed t) = mset (ps_closed s) + mset (submitted fs)
     \<and> wp_storage (ps_pool t) = wp_storage (ps_pool s)"
proof -
  have "wp_jobQueue (ps_pool t) = wp_jobQueue (ps_pool s) \<and> wp_storage (ps_pool t) = wp_storage (ps_pool s)
      \<and> \<not> wp_started (ps_pool t) \<and> ps_idle t = 0 \<and> ps_handling t = [] \<and> ps_submitting t = []"
    using assms(5,6,1-4)
  proof (induction rule: run.induct)
    case (run_Cons s e t es u)
    have "wp_jobQueue (ps_pool t) = wp_jobQueue (ps_pool s) \<and> wp_storage (ps_pool t) = wp_storage (ps_pool s)
      \<and> \<not> wp_started (ps_pool t) \<and> ps_idle t = 0 \<and> ps_handling t = [] \<and> ps_submitting t = []"
      using run_Cons.hyps(1) run_Cons.prems by (cases rule: pool_step.cases) (auto simp: pool_ops split: if_splits)
    then show ?case using run_Cons by simp
  qed simp
  then show ?thesis using run_connections [OF assms(5)] assms(3,4) by (simp add: connections_def)
qed

section \<open>Example runs\<close>

definition queued_events :: "pool_event list" where
  "queued_events = [EStart, ESubmit sample_conn, ESelect Queued sample_conn]"

definition sample_queued :: pool_sys where
  "sample_queued = \<lparr>ps_pool = \<lparr>wp_workers = 1, wp_jobQueue = [sample_conn], wp_queueCap = 2, wp_cancelled = False,
       wp_storage = sample_storage, wp_started = True\<rparr>,
     ps_idle = 1, ps_handling = [], ps_submitting = [], ps_stopping = 0, ps_closed = []\<rparr>"

definition sample_cancelled :: pool_sys where
  "sample_cancelled = sample_queued\<lparr>ps_pool := (ps_pool sample_queued)\<lparr>wp_started := False, wp_cancelled := True\<rparr>\<rparr>"

definition sample_stopped :: pool_sys where
  "sample_stopped = sample_cancelled\<lparr>ps_idle := 0\<rparr>"

lemmas sample_defs = queued_events_def sample_queued_def sample_cancelled_def sample_stopped_def sample_end_def
  initial_pool_def NewWorkerPool_def handleConnection_def sample_decodes sample_conn_def

lemma queued_run: "run pool_step (initial_pool 1 sample_storage) queued_events sample_queued"
  by (rule pool_exec_run) (simp add: sample_defs pool_ops)

lemma cancelled_run: "run pool_step (initial_pool 1 sample_storage) (queued_events @ [EStop, ECancel]) sample_cancelled"
  by (rule pool_exec_run) (simp add: sample_defs pool_ops)

lemma stopped_run: "run pool_step sample_cancelled [EExit] sample_stopped"
  by (rule pool_exec_run) (simp add: sample_defs pool_ops)

lemma drained_run: "run pool_step sample_queued [ETake sample_conn, EDone sample_conn 5 5] sample_end"
  by (rule pool_exec_run) (simp add: sample_defs pool_ops)

theorem stop_terminates_witness:
  "length [EExit] \<le> pool_work sample_cancelled
     \<and> (ps_idle sample_stopped = 0 \<and> ps_handling sample_stopped = [] \<and> ps_submitting sample_stopped = []
          \<and> wp_cancelled (ps_pool sample_stopped)
        \<or> (\<exists>e u. internal e \<and> pool_step sample_stopped e u))"
  by (rule stop_terminates [OF cancelled_run _ _ stopped_run]) (simp_all add: sample_defs)

theorem pool_drains_witness:
  "length [ETake sample_conn, EDone sample_conn 5 5] \<le> pool_work sample_queued
     \<and> (mset (ps_closed sample_end) = mset (submitted queued_events)
        \<or> (\<exists>e u. internal e \<and> pool_step sample_end e u))"
  by (rule pool_drains [OF queued_run _ _ drained_run]) (simp_all add: sample_defs)

text \<open>The stopped pool of the example is reached with a connection in its queue.\<close>

lemma stopped_pool_abandons_queue_witness:
  "run pool_step (initial_pool 1 sample_storage) (queued_events @ [EStop, ECancel] @ [EExit]) sample_stopped
     \<and> wp_jobQueue (ps_pool sample_stopped) = [sample_conn]
     \<and> (\<exists>t. run pool_step sample_stopped [ESubmit \<lparr>cn_id = 2, cn_read = None\<rparr>] t
          \<and> wp_jobQueue (ps_pool t) = [sample_conn] \<and> ps_closed t = [\<lparr>cn_id = 2, cn_read = None\<rparr>])"
proof -
  let ?c = "\<lparr>cn_id = 2, cn_read = None\<rparr>"
  let ?t = "sample_stopped\<lparr>ps_closed := [?c]\<rparr>"
  have r: "run pool_step sample_stopped [ESubmit ?c] ?t"
    by (rule pool_exec_run) (simp add: sample_defs pool_ops)
  have "wp_jobQueue (ps_pool ?t) = [sample_conn] \<and> ps_closed ?t = [?c]"
    using stopped_pool_abandons_queue [OF _ _ _ _ r] by (simp add: sample_defs)
  moreover have "run pool_step (initial_pool 1 sample_storage) ((queued_events @ [EStop, ECancel]) @ [EExit]) sample_stopped"
    using cancelled_run stopped_run unfolding run_append [of _ _ "queued_events @ [EStop, ECancel]"] by blast
  ultimately show ?thesis using r by (auto simp: sample_defs)
qed

section \<open>Lost durations\<close>

text \<open>Whatever is sent, the attempts of decoded metrics have no durations.\<close>

lemma set_attempt_duration: "set_attempt n v a = Some b \<Longrightarrow> am_Duration b = am_Duration a"
  by (auto simp: set_attempt_def split: if_splits)

lemma decoded_attempt_duration:
  assumes "decode_struct attempt_names set_attempt zero_attempt v = Some a"
  shows "am_Duration a = 0"
proof -
  have fields: "am_Duration b = am_Duration a"
    if "decode_fields attempt_names set_attempt ms a = Some b" for ms a b
    using decode_fields_untouched [OF that, of "''duration''" am_Duration]
    by (auto simp: field_name_def attempt_names_def find_Some_iff set_attempt_duration)
  show ?thesis using assms
    by (cases v) (auto simp: decode_struct_def zero_attempt_def dest!: fields)
qed

lemma all_some_set: "all_some xs = Some ys \<Longrightarrow> y \<in> set ys \<Longrightarrow> Some y \<in> set xs"
  by (induction xs arbitrary: ys) (auto split: option.splits)

lemma set_run_attempts:
  assumes "set_run n v m = Some m'" "a \<in> set (rm_Attempts m')"
  shows "a \<in> set (rm_Attempts m) \<or> am_Duration a = 0"
  using assms
  by (auto simp: set_run_def decode_list_def decoded_attempt_duration
      split: if_splits json.splits dest!: all_some_set)

lemma stored_attempts_lose_duration:
  "unmarshal_RunMetrics s = Some m \<Longrightarrow> a \<in> set (rm_Attempts m) \<Longrightarrow> am_Duration a = 0"
proof -
  have "decode_fields run_names set_run ms m0 = Some m \<Longrightarrow> \<forall>a \<in> set (rm_Attempts m0). am_Duration a = 0 \<Longrightarrow>
      \<forall>a \<in> set (rm_Attempts m). am_Duration a = 0" for ms m0
  proof (induction ms arbitrary: m0)
    case (Cons kv ms)
    then show ?case by (cases kv) (auto split: option.splits dest: set_run_attempts)
  qed simp
  from this [of _ zero_run] show "unmarshal_RunMetrics s = Some m \<Longrightarrow> a \<in> set (rm_Attempts m) \<Longrightarrow> am_Duration a = 0"
    by (auto simp: unmarshal_RunMetrics_def unmarshal_struct_def decode_struct_def zero_run_def
        split: bind_splits json.splits)
qed

end
