(* ===== verification/GoFloat.thy ===== *)
theory GoFloat
  imports GoText
begin

text \<open>
  \<open>strconv.ParseFloat(s, 64)\<close> and \<open>strconv.ParseBool\<close>. A number is decimal or, with the prefix
  \<open>0x\<close> and a binary exponent, hexadecimal; underscores may separate digits; the value is correctly rounded
  and one out of range is an error. Infinities and not-a-number are written out.
\<close>

definition lower :: "char \<Rightarrow> char" where
  "lower c = (let n = (of_char c :: nat) in if 65 \<le> n \<and> n \<le> 90 then char_of (n + 32) else c)"

definition float_special :: "string \<Rightarrow> f64 option" where
  "float_special s =
     (let t = map lower s in
      if t \<in> set [''inf'', ''infinity'', ''+inf'', ''+infinity''] then Some PInf
      else if t \<in> set [''-inf'', ''-infinity''] then Some NInf
      else if t = ''nan'' then Some NaN
      else None)"

definition float_digit :: "bool \<Rightarrow> char \<Rightarrow> nat option" where
  "float_digit hex c =
     (if is_digit c then Some (digit_val c)
      else let n = (of_char (lower c) :: nat) in if hex \<and> 97 \<le> n \<and> n \<le> 102 then Some (n - 87) else None)"

text \<open>
  The mantissa: its digits as a number, how many of them follow the point, whether there are any,
  and the rest.
\<close>

fun mantissa :: "bool \<Rightarrow> bool \<Rightarrow> nat \<Rightarrow> nat \<Rightarrow> bool \<Rightarrow> string \<Rightarrow> nat \<times> nat \<times> bool \<times> string" where
  "mantissa hex dot m k seen [] = (m, k, seen, [])"
| "mantissa hex dot m k seen (c # r) =
     (if c = CHR ''_'' then mantissa hex dot m k seen r
      else if c = CHR ''.'' then (if dot then (m, k, seen, c # r) else mantissa hex True m k seen r)
      else case float_digit hex c of
             None \<Rightarrow> (m, k, seen, c # r)
           | Some d \<Rightarrow> mantissa hex dot ((if hex then 16 else 10) * m + d) (if dot then k + 1 else k) True r)"

fun exponent_digits :: "nat \<Rightarrow> string \<Rightarrow> nat \<times> string" where
  "exponent_digits e [] = (e, [])"
| "exponent_digits e (c # r) =
     (if c = CHR ''_'' then exponent_digits e r
      else if is_digit c then exponent_digits (if e < 10000 then e * 10 + digit_val c else e) r
      else (e, c # r))"

text \<open>An exponent after its letter.\<close>

definition exponent :: "string \<Rightarrow> (int \<times> string) option" where
  "exponent s =
     (let (neg, t) = (case s of c # r \<Rightarrow> if c = CHR ''+'' then (False, r) else if c = CHR ''-'' then (True, r) else (False, s)
                      | [] \<Rightarrow> (False, s))
      in case t of
           c # _ \<Rightarrow> if is_digit c
                    then (case exponent_digits 0 t of (e, r) \<Rightarrow> Some (if neg then - int e else int e, r))
                    else None
         | [] \<Rightarrow> None)"

definition strip_sign :: "string \<Rightarrow> bool \<times> string" where
  "strip_sign s = (case s of c # r \<Rightarrow> if c = CHR ''-'' then (True, r) else if c = CHR ''+'' then (False, r) else (False, s)
     | [] \<Rightarrow> (False, s))"

text \<open>Underscores only between digits, a base prefix counting as one.\<close>

fun underscores :: "bool \<Rightarrow> char \<Rightarrow> string \<Rightarrow> bool" where
  "underscores hex saw [] = (saw \<noteq> CHR ''_'')"
| "underscores hex saw (c # r) =
     (if float_digit hex c \<noteq> None then underscores hex (CHR ''0'') r
      else if c = CHR ''_'' then saw = CHR ''0'' \<and> underscores hex (CHR ''_'') r
      else saw \<noteq> CHR ''_'' \<and> underscores hex (CHR ''!'') r)"

definition underscoreOK :: "string \<Rightarrow> bool" where
  "underscoreOK s =
     (case snd (strip_sign s) of
        a # b # r \<Rightarrow> if a = CHR ''0'' \<and> lower b \<in> set ''box'' then underscores (lower b = CHR ''x'') (CHR ''0'') r
                     else underscores False (CHR ''^'') (a # b # r)
      | t \<Rightarrow> underscores False (CHR ''^'') t)"

definition pow_rat :: "rat \<Rightarrow> int \<Rightarrow> rat" where
  "pow_rat b e = (if 0 \<le> e then b ^ nat e else 1 / b ^ nat (- e))"

definition float_number :: "string \<Rightarrow> f64 option" where
  "float_number s =
     (let (neg, t) = strip_sign s;
          hex = (case t of a # b # c # _ \<Rightarrow> a = CHR ''0'' \<and> lower b = CHR ''x'' | _ \<Rightarrow> False);
          (m, k, seen, r) = mantissa hex False 0 0 False (if hex then drop 2 t else t);
          tail = (case r of
                    c # r1 \<Rightarrow> if lower c = (if hex then CHR ''p'' else CHR ''e'') then exponent r1 else None
                  | [] \<Rightarrow> if hex then None else Some (0, []))
      in if \<not> seen then None
         else case tail of
                Some (e, []) \<Rightarrow>
                  if CHR ''_'' \<in> set s \<and> \<not> underscoreOK s then None
                  else (let v = (if hex then of_nat m * pow_rat 2 (e - 4 * int k) else of_nat m * pow_rat 10 (e - int k))
                        in case f64_round (if neg then - v else v) of Fin x \<Rightarrow> Some (Fin x) | _ \<Rightarrow> None)
              | _ \<Rightarrow> None)"

definition ParseFloat :: "string \<Rightarrow> f64 option" where
  "ParseFloat s = (case float_special s of Some v \<Rightarrow> Some v | None \<Rightarrow> float_number s)"

definition ParseBool :: "string \<Rightarrow> bool option" where
  "ParseBool s =
     (if s \<in> set [''1'', ''t'', ''T'', ''true'', ''TRUE'', ''True''] then Some True
      else if s \<in> set [''0'', ''f'', ''F'', ''false'', ''FALSE'', ''False''] then Some False
      else None)"

text \<open>\<open>strings.Split\<close> at a separator of several characters.\<close>

function split_str :: "string \<Rightarrow> string \<Rightarrow> string list" where
  "split_str sep [] = [[]]"
| "split_str sep (c # r) =
     (if sep \<noteq> [] \<and> has_prefix (c # r) sep then [] # split_str sep (drop (length sep) (c # r))
      else (case split_str sep r of [] \<Rightarrow> [[c]] | w # ws \<Rightarrow> (c # w) # ws))"
  by pat_completeness auto
termination
  by (relation "measure (\<lambda>(sep, s). length s)") auto

lemma split_str_nonempty [simp]: "split_str sep s \<noteq> []"
  by (cases s) (auto split: list.splits)

lemma join_split_str: "sep \<noteq> [] \<Longrightarrow> join sep (split_str sep s) = s"
proof (induction sep s rule: split_str.induct)
  case (2 sep c r)
  show ?case
  proof (cases "has_prefix (c # r) sep")
    case True
    then obtain t where "c # r = sep @ t" by (auto simp: has_prefix_iff)
    moreover have "split_str sep (c # r) = [] # split_str sep (drop (length sep) (c # r))" using 2 True by simp
    ultimately show ?thesis using 2 True by (cases "split_str sep t") (simp_all del: split_str.simps)
  next
    case False
    then show ?thesis using 2 by (cases "split_str sep r"; cases "tl (split_str sep r)") auto
  qed
qed simp

lemma float_examples:
  "ParseFloat ''2.5'' = Some (Fin (5 / 2))" "ParseFloat ''-1_0e1'' = Some (Fin (- 100))"
  "ParseFloat ''0x1p-1'' = Some (Fin (1 / 2))" "ParseFloat ''1__0'' = None" "ParseFloat ''.'' = None"
  "ParseFloat ''-Inf'' = Some NInf"
  by code_simp+

lemma split_str_example: "split_str '' == '' ''$.a == x == y'' = [''$.a'', ''x'', ''y'']"
  by code_simp

end
