(* ===== verification/Daemon.thy ===== *)
theory Daemon
  imports WorkerPool GoFloat
begin

text \<open>
  The daemon process: \<open>pkg/daemon/daemon.go\<close> and \<open>cmd/patienced/main.go\<close>. The operating system is a
  record with the files the daemon touches, which operations succeed, and the live processes. The
  metrics that arrive are the business of the worker pool; here it is start-up, configuration and
  the two ways down: \<open>Stop\<close>, which cleans up, and a signal, which only cancels the context.
  The HTTP server is in \<open>HttpServer\<close>, the accept loop and the other commands of the program in \<open>DaemonOps\<close>; the
  calls of the logger are left out.
\<close>

section \<open>Configuration\<close>

record DaemonConfig =
  dg_SocketPath :: string
  dg_HTTPPort :: int
  dg_MaxMetrics :: int
  dg_MetricsMaxAge :: duration
  dg_LogLevel :: string
  dg_PidFile :: string
  dg_EnableHTTP :: bool
  dg_EnableProfiling :: bool
  dg_MaxConnections :: int

definition DefaultConfig :: DaemonConfig where
  "DefaultConfig = \<lparr>dg_SocketPath = ''/tmp/retry-daemon.sock'', dg_HTTPPort = 8080, dg_MaxMetrics = 10000,
     dg_MetricsMaxAge = 24 * Hour, dg_LogLevel = ''info'', dg_PidFile = ''/tmp/retry-daemon.pid'',
     dg_EnableHTTP = True, dg_EnableProfiling = False, dg_MaxConnections = 100\<rparr>"

definition config_names :: "string list" where
  "config_names = [''socket_path'', ''http_port'', ''max_metrics'', ''metrics_max_age'', ''log_level'', ''pid_file'',
     ''enable_http'', ''enable_profiling'', ''max_connections'']"

definition set_config :: "string \<Rightarrow> json \<Rightarrow> DaemonConfig \<Rightarrow> DaemonConfig option" where
  "set_config n v c =
     (if n = ''socket_path'' then map_option (\<lambda>x. c\<lparr>dg_SocketPath := x\<rparr>) (decode_string v (dg_SocketPath c))
      else if n = ''http_port'' then map_option (\<lambda>x. c\<lparr>dg_HTTPPort := x\<rparr>) (decode_int v (dg_HTTPPort c))
      else if n = ''max_metrics'' then map_option (\<lambda>x. c\<lparr>dg_MaxMetrics := x\<rparr>) (decode_int v (dg_MaxMetrics c))
      else if n = ''metrics_max_age'' then map_option (\<lambda>x. c\<lparr>dg_MetricsMaxAge := x\<rparr>) (decode_int v (dg_MetricsMaxAge c))
      else if n = ''log_level'' then map_option (\<lambda>x. c\<lparr>dg_LogLevel := x\<rparr>) (decode_string v (dg_LogLevel c))
      else if n = ''pid_file'' then map_option (\<lambda>x. c\<lparr>dg_PidFile := x\<rparr>) (decode_string v (dg_PidFile c))
      else if n = ''enable_http'' then map_option (\<lambda>x. c\<lparr>dg_EnableHTTP := x\<rparr>) (decode_bool v (dg_EnableHTTP c))
      else if n = ''enable_profiling'' then map_option (\<lambda>x. c\<lparr>dg_EnableProfiling := x\<rparr>) (decode_bool v (dg_EnableProfiling c))
      else map_option (\<lambda>x. c\<lparr>dg_MaxConnections := x\<rparr>) (decode_int v (dg_MaxConnections c)))"

text \<open>The flags of \<open>patienced\<close> that reach the configuration, with their defaults.\<close>

record DaemonFlags =
  fl_configFile :: string
  fl_socketPath :: string
  fl_httpPort :: int
  fl_maxMetrics :: int
  fl_maxAge :: duration
  fl_pidFile :: string
  fl_logLevel :: string
  fl_enableHTTP :: bool
  fl_enableProf :: bool

definition default_flags :: DaemonFlags where
  "default_flags = \<lparr>fl_configFile = [], fl_socketPath = ''/var/run/patience/daemon.sock'', fl_httpPort = 8080,
     fl_maxMetrics = 10000, fl_maxAge = 24 * Hour, fl_pidFile = ''/var/run/patience/daemon.pid'',
     fl_logLevel = ''info'', fl_enableHTTP = True, fl_enableProf = False\<rparr>"

section \<open>The operating system\<close>

datatype os_op = MkdirFor string | WriteFile string | RemoveFile string | Listen string | Chmod string

record osys =
  os_files :: "string \<Rightarrow> string option"
  os_ok :: "os_op \<Rightarrow> bool"
  os_readable :: "string \<Rightarrow> bool"
  os_pid :: int
  os_alive :: "int \<Rightarrow> bool"

definition loadConfigFromFile :: "osys \<Rightarrow> string \<Rightarrow> DaemonConfig \<Rightarrow> DaemonConfig option" where
  "loadConfigFromFile os filename c =
     (case os_files os filename of
        None \<Rightarrow> None
      | Some data \<Rightarrow> if os_readable os filename then unmarshal_struct config_names set_config c data else None)"

definition override :: "DaemonFlags \<Rightarrow> 'a \<Rightarrow> 'a \<Rightarrow> 'a \<Rightarrow> 'a" where
  "override fl flag dflt old = (if fl_configFile fl = [] \<or> flag \<noteq> dflt then flag else old)"

definition daemon_loadConfiguration :: "osys \<Rightarrow> DaemonFlags \<Rightarrow> DaemonConfig option" where
  "daemon_loadConfiguration os fl =
     (case (if fl_configFile fl \<noteq> [] then loadConfigFromFile os (fl_configFile fl) DefaultConfig else Some DefaultConfig) of
        None \<Rightarrow> None
      | Some c \<Rightarrow> Some (c\<lparr>
          dg_SocketPath := override fl (fl_socketPath fl) (fl_socketPath default_flags) (dg_SocketPath c),
          dg_HTTPPort := override fl (fl_httpPort fl) (fl_httpPort default_flags) (dg_HTTPPort c),
          dg_MaxMetrics := override fl (fl_maxMetrics fl) (fl_maxMetrics default_flags) (dg_MaxMetrics c),
          dg_MetricsMaxAge := override fl (fl_maxAge fl) (fl_maxAge default_flags) (dg_MetricsMaxAge c),
          dg_PidFile := override fl (fl_pidFile fl) (fl_pidFile default_flags) (dg_PidFile c),
          dg_LogLevel := override fl (fl_logLevel fl) (fl_logLevel default_flags) (dg_LogLevel c),
          dg_EnableHTTP := override fl (fl_enableHTTP fl) (fl_enableHTTP default_flags) (dg_EnableHTTP c),
          dg_EnableProfiling := override fl (fl_enableProf fl) (fl_enableProf default_flags) (dg_EnableProfiling c)\<rparr>))"

section \<open>The daemon\<close>

record Daemon =
  dm_config :: DaemonConfig
  dm_workerPool :: WorkerPool
  dm_listening :: bool
  dm_server :: bool
  dm_cancelled :: bool
  dm_goroutines :: nat

text \<open>\<open>None\<close> is the panic of the store's \<open>make\<close> on a negative size.\<close>

definition NewDaemon :: "instant \<Rightarrow> DaemonConfig option \<Rightarrow> Daemon option" where
  "NewDaemon now config =
     (let c0 = (case config of Some c \<Rightarrow> c | None \<Rightarrow> DefaultConfig);
          c1 = (if dg_MaxConnections c0 \<le> 0 then c0\<lparr>dg_MaxConnections := 100\<rparr> else c0);
          c2 = (if 10000 < dg_MaxConnections c1 then c1\<lparr>dg_MaxConnections := 10000\<rparr> else c1)
      in case NewMetricsStorage now (dg_MaxMetrics c2) (dg_MetricsMaxAge c2) of
           None \<Rightarrow> None
         | Some st \<Rightarrow> Some \<lparr>dm_config = c2, dm_workerPool = NewWorkerPool (dg_MaxConnections c2) st,
             dm_listening = False, dm_server = False, dm_cancelled = False, dm_goroutines = 0\<rparr>)"

datatype daemon_error = PidFileFailed | SocketCleanupFailed | ListenFailed

definition pid_text :: "osys \<Rightarrow> string" where
  "pid_text os = itoa (os_pid os) @ [CHR 0x0A]"

definition writePidFile :: "DaemonConfig \<Rightarrow> osys \<Rightarrow> bool \<times> osys" where
  "writePidFile c os =
     (if dg_PidFile c = [] then (True, os)
      else if \<not> os_ok os (MkdirFor (dg_PidFile c)) \<or> \<not> os_ok os (WriteFile (dg_PidFile c)) then (False, os)
      else (True, os\<lparr>os_files := (os_files os)(dg_PidFile c \<mapsto> pid_text os)\<rparr>))"

definition remove_file :: "string \<Rightarrow> osys \<Rightarrow> bool \<times> osys" where
  "remove_file path os =
     (if os_files os path \<noteq> None \<and> os_ok os (RemoveFile path) then (True, os\<lparr>os_files := (os_files os)(path := None)\<rparr>)
      else (False, os))"

definition removePidFile :: "DaemonConfig \<Rightarrow> osys \<Rightarrow> osys" where
  "removePidFile c os = (if dg_PidFile c \<noteq> [] then snd (remove_file (dg_PidFile c) os) else os)"

definition cleanupSocket :: "DaemonConfig \<Rightarrow> osys \<Rightarrow> bool \<times> osys" where
  "cleanupSocket c os = (if os_files os (dg_SocketPath c) \<noteq> None then remove_file (dg_SocketPath c) os else (True, os))"

text \<open>Listening creates the socket file; a failing \<open>Chmod\<close> is only logged.\<close>

definition Daemon_Start :: "Daemon \<Rightarrow> osys \<Rightarrow> daemon_error option \<times> Daemon \<times> osys" where
  "Daemon_Start d os =
     (let c = dm_config d; (pid_ok, os1) = writePidFile c os
      in if \<not> pid_ok then (Some PidFileFailed, d, os1)
         else let (clean_ok, os2) = cleanupSocket c os1
              in if \<not> clean_ok then (Some SocketCleanupFailed, d, os2)
                 else if \<not> os_ok os2 (Listen (dg_SocketPath c)) then (Some ListenFailed, d, os2)
                 else (None,
                       d\<lparr>dm_listening := True, dm_workerPool := fst (Pool_Start (dm_workerPool d)),
                         dm_server := dg_EnableHTTP c,
                         dm_goroutines := (if dg_EnableHTTP c then 1 else 0) + 2\<rparr>,
                       os2\<lparr>os_files := (os_files os2)(dg_SocketPath c \<mapsto> [])\<rparr>))"

text \<open>Closing a Unix listener removes its socket file.\<close>

definition close_listener :: "Daemon \<Rightarrow> osys \<Rightarrow> osys" where
  "close_listener d os =
     (if dm_listening d then os\<lparr>os_files := (os_files os)(dg_SocketPath (dm_config d) := None)\<rparr> else os)"

text \<open>
  The goroutines the daemon waits for (the accept loop, the HTTP server, the signal handler) end
  once the context is cancelled.
\<close>

definition Daemon_Stop :: "Daemon \<Rightarrow> osys \<Rightarrow> Daemon \<times> osys" where
  "Daemon_Stop d os =
     (let os1 = close_listener d os;
          wp = (case Stop_mark (dm_workerPool d) of (True, wp) \<Rightarrow> Stop_cancel wp | (False, wp) \<Rightarrow> wp);
          os2 = snd (cleanupSocket (dm_config d) os1)
      in (d\<lparr>dm_cancelled := True, dm_listening := False, dm_workerPool := wp, dm_goroutines := 0\<rparr>,
          removePidFile (dm_config d) os2))"

definition Daemon_Close :: "Daemon \<Rightarrow> osys \<Rightarrow> Daemon \<times> osys" where
  "Daemon_Close d os = (d\<lparr>dm_cancelled := True, dm_listening := False, dm_goroutines := 0\<rparr>, close_listener d os)"

text \<open>SIGINT or SIGTERM.\<close>

definition handle_signal :: "Daemon \<Rightarrow> Daemon" where
  "handle_signal d = d\<lparr>dm_cancelled := True\<rparr>"

text \<open>\<open>Wait\<close> returns when the goroutines have ended, which they do after a cancellation.\<close>

definition Daemon_Wait :: "Daemon \<Rightarrow> Daemon option" where
  "Daemon_Wait d = (if dm_cancelled d \<or> dm_goroutines d = 0 then Some (d\<lparr>dm_goroutines := 0\<rparr>) else None)"

section \<open>Is it running?\<close>

text \<open>\<open>Sscanf(s, "%d")\<close>: blanks, a sign and digits; what follows is not read.\<close>

definition sscan_int :: "string \<Rightarrow> int option" where
  "sscan_int s =
     (let t = dropWhile (\<lambda>c. c = CHR '' '' \<or> c = CHR 0x09) s;
          (sign, u) = (case t of c # r \<Rightarrow> if c = CHR ''-'' \<or> c = CHR ''+'' then ([c], r) else ([], t) | [] \<Rightarrow> ([], t))
      in parse_int (sign @ takeWhile is_digit u))"

datatype running = NotRunning int | RunningAs int | BadPidFile

definition IsRunning :: "osys \<Rightarrow> string \<Rightarrow> running" where
  "IsRunning os pidFile =
     (if pidFile = [] then NotRunning 0
      else case os_files os pidFile of
             None \<Rightarrow> NotRunning 0
           | Some data \<Rightarrow>
               if \<not> os_readable os pidFile then BadPidFile
               else (case sscan_int data of
                       None \<Rightarrow> BadPidFile
                     | Some pid \<Rightarrow> if os_alive os pid then RunningAs pid else NotRunning pid))"

section \<open>The main program\<close>

datatype main_end = Refused | Crashed | StartFailed daemon_error | Ended

text \<open>
  \<open>main\<close> without the flags that only print: it exits with status 1 unless the daemon starts, and
  otherwise waits, here until the signal. An unreadable or malformed PID file counts as not running.
\<close>

definition daemon_main :: "instant \<Rightarrow> DaemonFlags \<Rightarrow> osys \<Rightarrow> main_end \<times> osys" where
  "daemon_main now fl os =
     (case daemon_loadConfiguration os fl of
        None \<Rightarrow> (Refused, os)
      | Some config \<Rightarrow>
          (case IsRunning os (dg_PidFile config) of
             RunningAs _ \<Rightarrow> (Refused, os)
           | _ \<Rightarrow>
             (case NewDaemon now (Some config) of
                None \<Rightarrow> (Crashed, os)
              | Some d \<Rightarrow>
                  (case Daemon_Start d os of
                     (Some err, d', os') \<Rightarrow> (StartFailed err, os')
                   | (None, d', os') \<Rightarrow>
                       (case Daemon_Wait (handle_signal d') of Some _ \<Rightarrow> (Ended, os') | None \<Rightarrow> (Crashed, os'))))))"

section \<open>Properties\<close>

lemma sscan_pid: "in_i64 n \<Longrightarrow> sscan_int (itoa n @ [CHR 0x0A]) = Some n"
proof -
  assume n: "in_i64 n"
  have tw: "takeWhile is_digit (utoa k @ [CHR 0x0A]) = utoa k" for k
    using utoa_digits [of k] by (simp add: list_all_iff is_digit_def takeWhile_append2)
  have first: "\<exists>c r. utoa k = c # r \<and> c \<noteq> CHR '' '' \<and> c \<noteq> CHR 0x09 \<and> c \<noteq> CHR ''-'' \<and> c \<noteq> CHR ''+''" for k
    using utoa_digits [of k] by (cases "utoa k") (auto simp: is_digit_def)
  show ?thesis
  proof (cases "n < 0")
    case True
    have "parse_int (CHR ''-'' # utoa (nat (- n))) = Some n"
      using True n utoa_digits [of "nat (- n)"] by (simp add: parse_int_def)
    with True show ?thesis by (simp add: sscan_int_def itoa_def tw)
  next
    case False
    obtain c r where c: "utoa (nat n) = c # r" "c \<noteq> CHR '' ''" "c \<noteq> CHR 0x09" "c \<noteq> CHR ''-''" "c \<noteq> CHR ''+''"
      using first by blast
    have "int (digits_val (c # r)) = n" using False digits_val_utoa [of "nat n"] c(1) by simp
    then have "parse_int (utoa (nat n)) = Some n"
      using n utoa_digits [of "nat n"] c by (simp add: parse_int_def)
    with False c tw [of "nat n"] show ?thesis by (simp add: sscan_int_def itoa_def)
  qed
qed

text \<open>The PID file written at the start is the one \<open>IsRunning\<close> reads.\<close>

lemma pid_file_roundtrip:
  assumes "writePidFile c os = (True, os')" "dg_PidFile c \<noteq> []" "in_i64 (os_pid os)" "os_readable os (dg_PidFile c)"
  shows "IsRunning os' (dg_PidFile c) = (if os_alive os (os_pid os) then RunningAs (os_pid os) else NotRunning (os_pid os))"
  using assms sscan_pid [OF assms(3)] by (auto simp: writePidFile_def IsRunning_def pid_text_def split: if_splits)

lemma started_files:
  assumes "Daemon_Start d os = (None, d', os')" "dg_PidFile (dm_config d) \<noteq> []"
    "dg_PidFile (dm_config d) \<noteq> dg_SocketPath (dm_config d)"
  shows "os_files os' (dg_PidFile (dm_config d)) = Some (pid_text os)"
    and "os_files os' (dg_SocketPath (dm_config d)) = Some []"
    and "dm_config d' = dm_config d" and "dm_listening d'" and "os_ok os' = os_ok os"
  using assms
  by (auto simp: Daemon_Start_def writePidFile_def cleanupSocket_def remove_file_def Let_def split: if_splits prod.splits)

text \<open>Only \<open>Stop\<close> cleans up. A daemon that started and is stopped leaves neither its PID file nor its
  socket, provided the PID file can be removed; but the main program never calls \<open>Stop\<close>: when a signal ends it, both
  files are still there, the PID file naming a process that is gone.\<close>

lemma only_stop_cleans_up:
  assumes "daemon_loadConfiguration os fl = Some config" "IsRunning os (dg_PidFile config) = NotRunning n"
    and "NewDaemon now (Some config) = Some d" "Daemon_Start d os = (None, d', os')"
    and "dg_PidFile config \<noteq> []" "dg_PidFile config \<noteq> dg_SocketPath config" "os_ok os (RemoveFile (dg_PidFile config))"
  shows "os_files (snd (Daemon_Stop d' os')) (dg_PidFile config) = None
    \<and> os_files (snd (Daemon_Stop d' os')) (dg_SocketPath config) = None
    \<and> daemon_main now fl os = (Ended, os')
    \<and> os_files (snd (daemon_main now fl os)) (dg_PidFile config) = Some (pid_text os)
    \<and> os_files (snd (daemon_main now fl os)) (dg_SocketPath config) = Some []"
proof -
  have files: "dg_PidFile (dm_config d) = dg_PidFile config \<and> dg_SocketPath (dm_config d) = dg_SocketPath config"
    using assms(3) by (auto simp: NewDaemon_def Let_def split: option.splits if_splits)
  note st = started_files [OF assms(4)] files assms(5,6)
  have "daemon_main now fl os = (Ended, os')"
    using assms(1-4) by (simp add: daemon_main_def Daemon_Wait_def handle_signal_def)
  moreover have "os_files (snd (Daemon_Stop d' os')) (dg_PidFile config) = None
      \<and> os_files (snd (Daemon_Stop d' os')) (dg_SocketPath config) = None"
    using st assms(7) by (simp add: Daemon_Stop_def close_listener_def cleanupSocket_def removePidFile_def remove_file_def Let_def)
  ultimately show ?thesis using st by simp
qed

definition sample_os :: osys where
  "sample_os = \<lparr>os_files = (\<lambda>_. None), os_ok = (\<lambda>_. True), os_readable = (\<lambda>_. True), os_pid = 42, os_alive = (\<lambda>_. False)\<rparr>"

definition sample_config :: DaemonConfig where
  "sample_config = DefaultConfig\<lparr>dg_SocketPath := ''/var/run/patience/daemon.sock'', dg_PidFile := ''/var/run/patience/daemon.pid''\<rparr>"

lemma only_stop_cleans_up_witness:
  "\<exists>os'. daemon_main 0 default_flags sample_os = (Ended, os')
     \<and> os_files os' ''/var/run/patience/daemon.pid'' = Some (pid_text sample_os)"
proof -
  have c: "daemon_loadConfiguration sample_os default_flags = Some sample_config"
    by (simp add: daemon_loadConfiguration_def default_flags_def sample_config_def override_def DefaultConfig_def)
  have r: "IsRunning sample_os (dg_PidFile sample_config) = NotRunning 0"
    by (simp add: IsRunning_def sample_os_def sample_config_def)
  obtain d where d: "NewDaemon 0 (Some sample_config) = Some d" "dm_config d = sample_config"
    by (simp add: NewDaemon_def NewMetricsStorage_def sample_config_def DefaultConfig_def)
  obtain d' os' where s: "Daemon_Start d sample_os = (None, d', os')"
    using d(2) by (simp add: Daemon_Start_def writePidFile_def cleanupSocket_def sample_os_def sample_config_def Let_def)
  have "dg_PidFile sample_config \<noteq> []" "dg_PidFile sample_config \<noteq> dg_SocketPath sample_config"
    "os_ok sample_os (RemoveFile (dg_PidFile sample_config))"
    by (simp_all add: sample_config_def sample_os_def)
  from only_stop_cleans_up [OF c r d(1) s this] show ?thesis by (auto simp: sample_config_def)
qed

text \<open>
  Precedence: without a configuration file the flags are the configuration; with one, a flag
  wins exactly when it differs from its default, so a default given explicitly does not.
\<close>

lemma daemon_flags_precedence:
  "fl_configFile fl = [] \<Longrightarrow> daemon_loadConfiguration os fl = Some
     \<lparr>dg_SocketPath = fl_socketPath fl, dg_HTTPPort = fl_httpPort fl, dg_MaxMetrics = fl_maxMetrics fl,
      dg_MetricsMaxAge = fl_maxAge fl, dg_LogLevel = fl_logLevel fl, dg_PidFile = fl_pidFile fl,
      dg_EnableHTTP = fl_enableHTTP fl, dg_EnableProfiling = fl_enableProf fl, dg_MaxConnections = 100\<rparr>"
  "fl_configFile fl \<noteq> [] \<Longrightarrow> loadConfigFromFile os (fl_configFile fl) DefaultConfig = Some c \<Longrightarrow>
     \<exists>c'. daemon_loadConfiguration os fl = Some c'
       \<and> dg_HTTPPort c' = (if fl_httpPort fl = 8080 then dg_HTTPPort c else fl_httpPort fl)
       \<and> dg_MaxConnections c' = dg_MaxConnections c"
  by (simp_all add: daemon_loadConfiguration_def override_def default_flags_def DefaultConfig_def)

text \<open>The pool of the daemon: its workers are the configured connections between 1 and 1000.\<close>

lemma NewDaemon_pool:
  "NewDaemon now (Some c) = Some d \<Longrightarrow>
     wp_workers (dm_workerPool d) = (if dg_MaxConnections c \<le> 0 then 100 else min 1000 (dg_MaxConnections c))
     \<and> ms_metrics (wp_storage (dm_workerPool d)) = []"
  by (auto simp: NewDaemon_def NewWorkerPool_def NewMetricsStorage_def Let_def split: option.splits if_splits)

end
