(* ===== verification/JsonPrint.thy ===== *)
theory JsonPrint
  imports JsonStruct
begin

text \<open>
  The printer of \<open>encoding/json\<close> for the messages of the daemon protocol, and that the decoder
  reads back what it prints. Quotes, backslashes and control characters are escaped, and, as
  \<open>Marshal\<close> does by default, the characters \<open><\<close>, \<open>>\<close>, \<open>&\<close> and the line separators
  U+2028 and U+2029. A byte that begins no well-formed UTF-8 sequence is printed as the escape of
  U+FFFD, so what is read back is the value with all its strings made well-formed (\<open>clean\<close>), which
  is the value itself when they are. Numbers are printed by their text, which for an integer is its
  decimal form.
\<close>

section \<open>Printing\<close>

definition hex_digit :: "nat \<Rightarrow> char" where
  "hex_digit d = (if d < 10 then char_of (48 + d) else char_of (87 + d))"

definition u00 :: "char \<Rightarrow> string" where
  "u00 c = [CHR 0x5C, CHR ''u'', CHR ''0'', CHR ''0'', hex_digit (of_char c div 16), hex_digit (of_char c mod 16)]"

definition short_escape :: "char \<Rightarrow> char option" where
  "short_escape = map_of [(CHR 0x22, CHR 0x22), (CHR 0x5C, CHR 0x5C), (CHR 0x08, CHR ''b''), (CHR 0x0C, CHR ''f''),
     (CHR 0x0A, CHR ''n''), (CHR 0x0D, CHR ''r''), (CHR 0x09, CHR ''t'')]"

definition print_char :: "char \<Rightarrow> string" where
  "print_char c =
     (case short_escape c of
        Some d \<Rightarrow> [CHR 0x5C, d]
      | None \<Rightarrow> if (of_char c :: nat) < 32 \<or> c = CHR ''<'' \<or> c = CHR ''>'' \<or> c = CHR ''&'' then u00 c else [c])"

function print_chars :: "string \<Rightarrow> string" where
  "print_chars [] = []"
| "print_chars (c # r) =
     (if (of_char c :: nat) < 128 then print_char c @ print_chars r
      else let n = rune_len (c # r); rune = take n (c # r)
           in (if n = 0 then CHR 0x5C # ''ufffd''
               else if rune = [CHR 0xE2, CHR 0x80, CHR 0xA8] then CHR 0x5C # ''u2028''
               else if rune = [CHR 0xE2, CHR 0x80, CHR 0xA9] then CHR 0x5C # ''u2029''
               else rune) @ print_chars (drop (n - 1) r))"
  by pat_completeness auto
termination
  by (relation "measure length") auto

definition print_string :: "string \<Rightarrow> string" where
  "print_string t = CHR 0x22 # print_chars t @ [CHR 0x22]"

fun print_json :: "json \<Rightarrow> string" and print_elems :: "json list \<Rightarrow> string"
  and print_members :: "(string \<times> json) list \<Rightarrow> string" where
  "print_json JNull = ''null''"
| "print_json (JBool b) = (if b then ''true'' else ''false'')"
| "print_json (JNum l x) = l"
| "print_json (JStr t) = print_string t"
| "print_json (JArr vs) = CHR ''['' # print_elems vs @ '']''"
| "print_json (JObj ms) = CHR ''{'' # print_members ms @ ''}''"
| "print_elems [] = []"
| "print_elems (v # vs) = print_json v @ (if vs = [] then [] else CHR '','' # print_elems vs)"
| "print_members [] = []"
| "print_members ((k, v) # ms) =
     print_string k @ CHR '':'' # print_json v @ (if ms = [] then [] else CHR '','' # print_members ms)"

definition jint :: "int \<Rightarrow> json" where
  "jint n = JNum (itoa n) (f64_round (of_int n))"

text \<open>
  The same with white space: \<open>nl\<close> before every element or member and before the closing bracket,
  depending on the depth, and \<open>sp\<close> after the colons. With \<open>new_line\<close> and one blank this is
  \<open>MarshalIndent\<close> with two blanks for a level.
\<close>

fun render_json :: "(nat \<Rightarrow> string) \<Rightarrow> string \<Rightarrow> nat \<Rightarrow> json \<Rightarrow> string"
  and render_elems :: "(nat \<Rightarrow> string) \<Rightarrow> string \<Rightarrow> nat \<Rightarrow> json list \<Rightarrow> string"
  and render_members :: "(nat \<Rightarrow> string) \<Rightarrow> string \<Rightarrow> nat \<Rightarrow> (string \<times> json) list \<Rightarrow> string" where
  "render_json nl sp d (JArr vs) =
     CHR ''['' # (if vs = [] then [] else render_elems nl sp (Suc d) vs @ nl d) @ '']''"
| "render_json nl sp d (JObj ms) =
     CHR ''{'' # (if ms = [] then [] else render_members nl sp (Suc d) ms @ nl d) @ ''}''"
| "render_json nl sp d v = print_json v"
| "render_elems nl sp d [] = []"
| "render_elems nl sp d (v # vs) =
     nl d @ render_json nl sp d v @ (if vs = [] then [] else CHR '','' # render_elems nl sp d vs)"
| "render_members nl sp d [] = []"
| "render_members nl sp d ((k, v) # ms) =
     nl d @ print_string k @ CHR '':'' # sp @ render_json nl sp d v
       @ (if ms = [] then [] else CHR '','' # render_members nl sp d ms)"

definition new_line :: "nat \<Rightarrow> string" where
  "new_line d = CHR 0x0A # replicate (2 * d) (CHR '' '')"

lemma render_compact:
  "render_json (\<lambda>_. []) [] d v = print_json v"
  "render_elems (\<lambda>_. []) [] d vs = print_elems vs"
  "render_members (\<lambda>_. []) [] d ms = print_members ms"
  by (induction v and vs and ms arbitrary: d and d and d rule: print_json_print_elems_print_members.induct) auto

section \<open>Reading strings back\<close>

lemma hex_val_hex_digit: "d < 16 \<Longrightarrow> hex_val (hex_digit d) = Some d"
  by (auto simp: hex_val_def hex_digit_def of_char_of Let_def)

lemma hex4_u00:
  assumes "(of_char c :: nat) < 128"
  shows "hex4 (CHR ''0'' # CHR ''0'' # hex_digit (of_char c div 16) # hex_digit (of_char c mod 16) # r)
    = Some (of_char c, r)"
proof -
  have "hex_val CHR ''0'' = Some 0" by (simp add: hex_val_def)
  moreover have "(of_char c :: nat) div 16 < 16" using assms by simp
  ultimately show ?thesis by (simp add: hex_val_hex_digit)
qed

lemma u_escape_small: "hex4 s = Some (u, r) \<Longrightarrow> u < 128 \<Longrightarrow> u_escape s = Some ([char_of u], r)"
  by (simp add: u_escape_def utf8_def)

lemma escape_u00:
  "(of_char c :: nat) < 128 \<Longrightarrow>
     escape (CHR ''u'' # CHR ''0'' # CHR ''0'' # hex_digit (of_char c div 16) # hex_digit (of_char c mod 16) # r) = Some ([c], r)"
  using u_escape_small [OF hex4_u00] by simp

lemma escape_short: "short_escape c = Some d \<Longrightarrow> escape (d # x) = Some ([c], x)"
  by (auto simp: short_escape_def split: if_splits)

lemma short_escape_None: "short_escape c = None \<Longrightarrow> c \<noteq> CHR 0x22 \<and> c \<noteq> CHR 0x5C"
  by (auto simp: short_escape_def split: if_splits)

lemma str_body_print_char:
  assumes "(of_char c :: nat) < 128"
  shows "str_body (print_char c @ x) = map_option (\<lambda>(t, r). (c # t, r)) (str_body x)"
proof (cases "short_escape c")
  case None
  show ?thesis
  proof (cases "(of_char c :: nat) < 32 \<or> c = CHR ''<'' \<or> c = CHR ''>'' \<or> c = CHR ''&''")
    case True
    from escape_u00 [OF assms, of x] None True show ?thesis
      by (simp add: print_char_def u00_def split: option.splits)
  next
    case False
    with None short_escape_None [OF None] assms show ?thesis by (simp add: print_char_def split: option.splits)
  qed
next
  case (Some d)
  with escape_short [OF Some, of x] show ?thesis by (simp add: print_char_def split: option.splits)
qed

lemma escape_bytes: "utf8 8232 = [CHR 0xE2, CHR 0x80, CHR 0xA8]" "utf8 8233 = [CHR 0xE2, CHR 0x80, CHR 0xA9]"
  "utf8 65533 = replacement"
  by (simp_all add: utf8_def char_of_eq_iff replacement_def)

lemma hex4_escapes:
  "hex4 (CHR ''2'' # CHR ''0'' # CHR ''2'' # CHR ''8'' # x) = Some (8232, x)"
  "hex4 (CHR ''2'' # CHR ''0'' # CHR ''2'' # CHR ''9'' # x) = Some (8233, x)"
  "hex4 (CHR ''f'' # CHR ''f'' # CHR ''f'' # CHR ''d'' # x) = Some (65533, x)"
  by (simp_all add: hex_val_def)

lemma escape_runes:
  "escape (CHR ''u'' # CHR ''2'' # CHR ''0'' # CHR ''2'' # CHR ''8'' # x) = Some ([CHR 0xE2, CHR 0x80, CHR 0xA8], x)"
  "escape (CHR ''u'' # CHR ''2'' # CHR ''0'' # CHR ''2'' # CHR ''9'' # x) = Some ([CHR 0xE2, CHR 0x80, CHR 0xA9], x)"
  "escape (CHR ''u'' # CHR ''f'' # CHR ''f'' # CHR ''f'' # CHR ''d'' # x) = Some (replacement, x)"
  by (simp_all add: u_escape_def hex4_escapes escape_bytes del: hex4.simps)

lemma str_body_escape:
  "escape s = Some (b, x) \<Longrightarrow> str_body (CHR 0x5C # s) = map_option (\<lambda>(t, r). (b @ t, r)) (str_body x)"
  by (simp split: option.splits)

lemmas str_body_runes = escape_runes [THEN str_body_escape]

text \<open>A sequence outside ASCII is copied.\<close>

lemma str_body_copy:
  assumes "rune_len s = n" "0 < n" "128 \<le> (of_char (hd s) :: nat)"
  shows "str_body (take n s @ x) = map_option (\<lambda>(t, r). (take n s @ t, r)) (str_body x)"
proof -
  obtain c r where s: "s = c # r" using assms by (cases s) auto
  obtain m where m: "n = Suc m" using assms(2) by (cases n) auto
  have "length (take m r) = m" using rune_len_le [of s] assms m s by simp
  moreover have "c \<noteq> CHR 0x22" "c \<noteq> CHR 0x5C" "\<not> (of_char c :: nat) < 32" using assms(3) s by auto
  ultimately show ?thesis using rune_len_append [OF assms(1,2), of x] s m by (simp split: option.splits)
qed

lemma str_body_print_chars: "str_body (print_chars t @ CHR 0x22 # r) = Some (to_valid t, r)"
proof (induction t rule: print_chars.induct)
  case (2 c t)
  let ?n = "rune_len (c # t)" and ?rest = "print_chars (drop (rune_len (c # t) - 1) t) @ CHR 0x22 # r"
  show ?case
  proof (cases "(of_char c :: nat) < 128")
    case True
    then show ?thesis using 2(1) by (simp add: str_body_print_char del: str_body.simps)
  next
    case False
    have IH: "str_body ?rest = Some (to_valid (drop (?n - 1) t), r)" using 2(2) False by simp
    have v: "to_valid (c # t) = (if ?n = 0 then replacement else take ?n (c # t)) @ to_valid (drop (?n - 1) t)"
      by (cases ?n) (simp_all add: to_valid.simps(2) Let_def)
    have p: "print_chars (c # t) @ CHR 0x22 # r =
       (if ?n = 0 then CHR 0x5C # ''ufffd''
        else if take ?n (c # t) = [CHR 0xE2, CHR 0x80, CHR 0xA8] then CHR 0x5C # ''u2028''
        else if take ?n (c # t) = [CHR 0xE2, CHR 0x80, CHR 0xA9] then CHR 0x5C # ''u2029''
        else take ?n (c # t)) @ ?rest"
      using False by (simp add: Let_def)
    show ?thesis
    proof (cases "?n = 0")
      case True
      then show ?thesis unfolding p v using IH by (simp add: str_body_runes del: str_body.simps)
    next
      case False
      then have copy: "str_body (take ?n (c # t) @ ?rest) = Some (take ?n (c # t) @ to_valid (drop (?n - 1) t), r)"
        using str_body_copy [of "c # t" ?n ?rest] IH \<open>\<not> (of_char c :: nat) < 128\<close> by simp
      show ?thesis unfolding p v using IH False copy by (simp add: str_body_runes del: str_body.simps take_Suc_Cons)
    qed
  qed
qed simp

section \<open>Reading integers back\<close>

text \<open>What can follow a value.\<close>

definition delimited :: "string \<Rightarrow> bool" where
  "delimited r \<longleftrightarrow> (case r of [] \<Rightarrow> True | c # _ \<Rightarrow> c = CHR '','' \<or> c = CHR '']'' \<or> c = CHR ''}'' \<or> c = CHR 0x0A)"

lemma utoa_head: "\<exists>c ds. utoa n = c # ds \<and> is_digit c \<and> (c = CHR ''0'' \<longrightarrow> n = 0)"
proof (induction n rule: utoa.induct)
  case (1 n)
  show ?case
  proof (cases "n < 10")
    case True
    then have "digit_char n = CHR ''0'' \<longleftrightarrow> n = 0"
      by (auto simp: digit_char_def char_of_eq_iff take_bit_eq_mod)
    with True show ?thesis by (simp add: utoa.simps [of n])
  next
    case False
    then obtain c ds where "utoa (n div 10) = c # ds" "is_digit c" "c = CHR ''0'' \<longrightarrow> n div 10 = 0"
      using 1 by blast
    with False show ?thesis by (auto simp: utoa.simps [of n])
  qed
qed

lemma utoa_0: "utoa 0 = ''0''"
  by (simp add: utoa.simps digit_char_def char_of_eq_iff)

lemma delimited_not_digit: "delimited (c # r) \<Longrightarrow> \<not> is_digit c"
  by (auto simp: delimited_def is_digit_def)

lemma span_digits_append: "list_all is_digit ds \<Longrightarrow> delimited r \<Longrightarrow> span_digits (ds @ r) = (ds, r)"
  by (induction ds) (cases r, auto simp: span_digits_def delimited_not_digit)

lemma num_int_utoa: "delimited r \<Longrightarrow> num_int (utoa n @ r) = Some (of_nat n, r)"
proof -
  assume r: "delimited r"
  obtain c ds where u: "utoa n = c # ds" "is_digit c" "c = CHR ''0'' \<longrightarrow> n = 0" using utoa_head by blast
  show ?thesis
  proof (cases "n = 0")
    case True
    then show ?thesis by (simp add: num_int_def utoa_0)
  next
    case False
    then have "num_int (utoa n @ r) = (case span_digits (utoa n @ r) of (ds, r') \<Rightarrow> Some (of_nat (digits_val ds), r'))"
      using u by (simp add: num_int_def)
    then show ?thesis using span_digits_append [OF utoa_digits r] by simp
  qed
qed

lemma num_tail: "delimited r \<Longrightarrow> num_frac r = Some (0, r) \<and> num_exp r = Some (0, r)"
  by (cases r) (auto simp: delimited_def num_frac_def num_exp_def)

lemma jnumber_itoa: "delimited r \<Longrightarrow> jnumber (itoa n @ r) = Some (jint n, r)"
proof -
  assume r: "delimited r"
  obtain c ds where u: "utoa (nat n) = c # ds" "is_digit c" using utoa_head by blast
  from u(2) have c: "c \<noteq> CHR ''-''" by (auto simp: is_digit_def)
  have pos: "num_int (c # ds @ r) = Some (of_nat (nat n), r)" using num_int_utoa [OF r, of "nat n"] u(1) by simp
  show ?thesis
  proof (cases "n < 0")
    case True
    then show ?thesis using num_int_utoa [OF r, of "nat (- n)"] num_tail [OF r]
      by (simp add: jnumber_def itoa_def jint_def Let_def of_nat_nat)
  next
    case False
    then show ?thesis using pos num_tail [OF r] u(1) c
      by (simp add: jnumber_def itoa_def jint_def Let_def of_nat_nat)
  qed
qed

section \<open>Reading values back\<close>

text \<open>A text of a number that the decoder reads back, whatever value delimiter follows.\<close>

definition number_text :: "string \<Rightarrow> f64 \<Rightarrow> bool" where
  "number_text l x \<longleftrightarrow> l \<noteq> [] \<and> (is_digit (hd l) \<or> hd l = CHR ''-'') \<and> CHR 0x0A \<notin> set l
     \<and> (\<forall>r. delimited r \<longrightarrow> jnumber (l @ r) = Some (JNum l x, r))"

text \<open>The value with every string and key made well-formed.\<close>

fun clean :: "json \<Rightarrow> json" where
  "clean (JStr t) = JStr (to_valid t)"
| "clean (JArr vs) = JArr (map clean vs)"
| "clean (JObj ms) = JObj (map (\<lambda>kv. (to_valid (fst kv), clean (snd kv))) ms)"
| "clean v = v"

abbreviation clean_members :: "(string \<times> json) list \<Rightarrow> (string \<times> json) list" where
  "clean_members \<equiv> map (\<lambda>kv. (to_valid (fst kv), clean (snd kv)))"

lemma clean_jint [simp]: "clean (jint n) = jint n"
  by (simp add: jint_def)

fun printable :: "json \<Rightarrow> bool" where
  "printable (JNum l x) = number_text l x"
| "printable (JArr vs) = list_all printable vs"
| "printable (JObj ms) = list_all (\<lambda>kv. printable (snd kv)) ms"
| "printable _ = True"

lemma itoa_head: "\<exists>c ds. itoa n = c # ds \<and> (is_digit c \<or> c = CHR ''-'')"
  using utoa_head [of "nat n"] by (cases "n < 0") (auto simp: itoa_def)

lemma itoa_chars: "c \<in> set (itoa n) \<Longrightarrow> is_digit c \<or> c = CHR ''-''"
  using utoa_digits [of "nat n"] utoa_digits [of "nat (- n)"]
  by (auto simp: itoa_def list_all_iff split: if_splits)

lemma printable_jint [simp]: "printable (jint n)"
proof -
  obtain c ds where "itoa n = c # ds" "is_digit c \<or> c = CHR ''-''" using itoa_head by blast
  then show ?thesis using jnumber_itoa [of _ n] itoa_chars [of "CHR 0x0A" n] by (auto simp: number_text_def jint_def is_digit_def)
qed

lemma jkey_print: "jkey (print_string k @ CHR '':'' # r) = Some (to_valid k, r)"
  by (simp add: jkey_def print_string_def json_ws_def str_body_print_chars)

text \<open>White space before a value, an element or a member is skipped.\<close>

definition blank_text :: "string \<Rightarrow> bool" where
  "blank_text w \<longleftrightarrow> list_all (\<lambda>c. c = CHR '' '' \<or> c = CHR 0x0A) w"

lemma json_ws_blank [simp]: "blank_text w \<Longrightarrow> json_ws (w @ s) = json_ws s"
  by (induction w) (auto simp: json_ws_def blank_text_def)

lemma jkey_blank [simp]: "blank_text w \<Longrightarrow> jkey (w @ s) = jkey s"
  by (simp add: jkey_def)

lemma skip_blank [simp]:
  "blank_text w \<Longrightarrow> jvalue n (w @ s) = jvalue n s"
  "blank_text w \<Longrightarrow> jelems n (w @ s) = jelems n s"
  "blank_text w \<Longrightarrow> jmembers n (w @ s) = jmembers n s"
proof -
  assume w: "blank_text w"
  have v: "jvalue k (w @ s) = jvalue k s" for k using w by (cases k) simp_all
  then show "jvalue n (w @ s) = jvalue n s" .
  show "jelems n (w @ s) = jelems n s" using v by (cases n) simp_all
  show "jmembers n (w @ s) = jmembers n s" using w by (cases n) simp_all
qed

text \<open>The first character of a printed value is no white space and no closing bracket.\<close>

lemma render_head:
  "printable v \<Longrightarrow> \<exists>c s. render_json nl sp d v = c # s \<and> (\<forall>t. json_ws (c # t) = c # t) \<and> c \<noteq> CHR '']''"
proof (cases v)
  case (JNum l x)
  assume "printable v"
  then obtain c ds where "l = c # ds" "is_digit c \<or> c = CHR ''-''" using JNum by (cases l) (auto simp: number_text_def)
  then show ?thesis using JNum by (auto simp: json_ws_def is_digit_def)
qed (auto simp: json_ws_def print_string_def)

text \<open>
  A layout: the white space before elements is empty or begins with a new line, and what follows a colon is blank.
\<close>

locale layout =
  fixes nl :: "nat \<Rightarrow> string" and sp :: string
  assumes nl_blank: "blank_text (nl d)"
    and nl_line: "nl d = [] \<or> (\<exists>t. nl d = CHR 0x0A # t)"
    and sp_blank: "blank_text sp"
begin

lemma blanks [simp]: "blank_text (nl d)" "blank_text sp"
  by (rule nl_blank sp_blank)+

lemma delimited_nl: "delimited r \<Longrightarrow> delimited (nl d @ r)"
  using nl_line [of d] by (auto simp: delimited_def)

lemma ws_close [simp]: "json_ws (CHR '']'' # r) = CHR '']'' # r" "json_ws (CHR ''}'' # r) = CHR ''}'' # r"
  "json_ws (CHR '','' # r) = CHR '','' # r"
  by (simp_all add: json_ws_def)

text \<open>What is left after the white space before the first element.\<close>

lemma elems_head:
  assumes "list_all printable vs" "vs \<noteq> []"
  shows "\<exists>c s. render_elems nl sp d vs @ r = nl d @ c # s \<and> json_ws (c # s) = c # s \<and> c \<noteq> CHR '']''"
proof -
  obtain v ws where vs: "vs = v # ws" using assms(2) by (cases vs) auto
  then obtain c s where "render_json nl sp d v = c # s" "\<forall>t. json_ws (c # t) = c # t" "c \<noteq> CHR '']''"
    using render_head [of v nl sp d] assms(1) by auto
  then show ?thesis using vs by auto
qed

lemma members_head:
  "ms \<noteq> [] \<Longrightarrow> \<exists>s. render_members nl sp d ms @ r = nl d @ CHR 0x22 # s \<and> json_ws (CHR 0x22 # s) = CHR 0x22 # s"
  by (cases ms) (auto simp: print_string_def json_ws_def)

lemma jelems_step:
  assumes v: "\<And>r k. delimited r \<Longrightarrow> 2 * length (render_json nl sp d v @ r) < k \<Longrightarrow> jvalue k (render_json nl sp d v @ r) = Some (clean v, r)"
    and vs: "\<And>k. vs \<noteq> [] \<Longrightarrow> 2 * length (render_elems nl sp d vs @ nl e @ CHR '']'' # r) + 1 < k \<Longrightarrow>
      jelems k (render_elems nl sp d vs @ nl e @ CHR '']'' # r) = Some (map clean vs, r)"
    and n: "2 * length (render_elems nl sp d (v # vs) @ nl e @ CHR '']'' # r) + 1 < n"
  shows "jelems n (render_elems nl sp d (v # vs) @ nl e @ CHR '']'' # r) = Some (map clean (v # vs), r)"
proof -
  obtain k where k: "n = Suc k" using n by (cases n) auto
  let ?rest = "if vs = [] then nl e @ CHR '']'' # r else CHR '','' # render_elems nl sp d vs @ nl e @ CHR '']'' # r"
  have "delimited ?rest" using delimited_nl [of "CHR '']'' # r" e] by (auto simp: delimited_def)
  then have "jvalue k (render_json nl sp d v @ ?rest) = Some (clean v, ?rest)" using n k by (intro v) auto
  then show ?thesis using k n vs [of k] by auto
qed

lemma jmembers_step:
  assumes v: "\<And>r k. delimited r \<Longrightarrow> 2 * length (render_json nl sp d v @ r) < k \<Longrightarrow> jvalue k (render_json nl sp d v @ r) = Some (clean v, r)"
    and ms: "\<And>k. ms \<noteq> [] \<Longrightarrow> 2 * length (render_members nl sp d ms @ nl e @ CHR ''}'' # r) < k \<Longrightarrow>
      jmembers k (render_members nl sp d ms @ nl e @ CHR ''}'' # r) = Some (clean_members ms, r)"
    and n: "2 * length (render_members nl sp d ((key, v) # ms) @ nl e @ CHR ''}'' # r) < n"
  shows "jmembers n (render_members nl sp d ((key, v) # ms) @ nl e @ CHR ''}'' # r) = Some (clean_members ((key, v) # ms), r)"
proof -
  obtain k where k: "n = Suc k" using n by (cases n) auto
  let ?rest = "if ms = [] then nl e @ CHR ''}'' # r else CHR '','' # render_members nl sp d ms @ nl e @ CHR ''}'' # r"
  have "delimited ?rest" using delimited_nl [of "CHR ''}'' # r" e] by (auto simp: delimited_def)
  then have "jvalue k (render_json nl sp d v @ ?rest) = Some (clean v, ?rest)" using n k by (intro v) auto
  then show ?thesis using k n ms [of k] jkey_print [of key "sp @ render_json nl sp d v @ ?rest"] by auto
qed

lemma jarray_step:
  assumes "list_all printable vs"
    and "\<And>k. vs \<noteq> [] \<Longrightarrow> 2 * length (render_elems nl sp (Suc d) vs @ nl d @ CHR '']'' # r) + 1 < k \<Longrightarrow>
      jelems k (render_elems nl sp (Suc d) vs @ nl d @ CHR '']'' # r) = Some (map clean vs, r)"
    and "2 * length (render_json nl sp d (JArr vs) @ r) < n"
  shows "jvalue n (render_json nl sp d (JArr vs) @ r) = Some (clean (JArr vs), r)"
proof -
  obtain k where k: "n = Suc k" using assms(3) by (cases n) auto
  have w: "json_ws (CHR ''['' # s) = CHR ''['' # s" for s by (simp add: json_ws_def)
  show ?thesis
  proof (cases "vs = []")
    case False
    then obtain c s where cs: "render_elems nl sp (Suc d) vs @ nl d @ CHR '']'' # r = nl (Suc d) @ c # s"
        "json_ws (c # s) = c # s" "c \<noteq> CHR '']''"
      using elems_head [OF assms(1)] by blast
    have "jelems k (c # s) = Some (map clean vs, r)" using assms(2) [of k] assms(3) False k cs(1) by simp
    then show ?thesis using k w cs False by simp
  qed (use k w in simp)
qed

lemma jobject_step:
  assumes "\<And>k. ms \<noteq> [] \<Longrightarrow> 2 * length (render_members nl sp (Suc d) ms @ nl d @ CHR ''}'' # r) < k \<Longrightarrow>
      jmembers k (render_members nl sp (Suc d) ms @ nl d @ CHR ''}'' # r) = Some (clean_members ms, r)"
    and "2 * length (render_json nl sp d (JObj ms) @ r) < n"
  shows "jvalue n (render_json nl sp d (JObj ms) @ r) = Some (clean (JObj ms), r)"
proof -
  obtain k where k: "n = Suc k" using assms(2) by (cases n) auto
  have w: "json_ws (CHR ''{'' # s) = CHR ''{'' # s" for s by (simp add: json_ws_def)
  show ?thesis
  proof (cases "ms = []")
    case False
    then obtain s where cs: "render_members nl sp (Suc d) ms @ nl d @ CHR ''}'' # r = nl (Suc d) @ CHR 0x22 # s"
        "json_ws (CHR 0x22 # s) = CHR 0x22 # s"
      using members_head by blast
    have "jmembers k (CHR 0x22 # s) = Some (clean_members ms, r)" using assms(1) [of k] assms(2) False k cs(1) by simp
    then show ?thesis using k w cs False by simp
  qed (use k w in simp)
qed

lemma jnumber_step:
  assumes "number_text l x" "delimited r" "0 < n"
  shows "jvalue n (l @ r) = Some (JNum l x, r)"
proof -
  obtain c ds where c: "l = c # ds" "is_digit c \<or> c = CHR ''-''" using assms(1) by (cases l) (auto simp: number_text_def)
  have "json_ws (c # ds @ r) = c # ds @ r" using c by (auto simp: json_ws_def is_digit_def)
  moreover have "c \<notin> set ''{[tfn'' \<and> c \<noteq> CHR 0x22" using c(2) by (auto simp: is_digit_def)
  moreover have "jnumber (c # ds @ r) = Some (JNum l x, r)" using assms(1,2) c(1) unfolding number_text_def by auto
  moreover have "l @ r = c # ds @ r" using c(1) by simp
  moreover obtain k where "n = Suc k" using assms(3) by (cases n) auto
  ultimately show ?thesis by (simp only: jvalue.simps list.case) simp
qed

lemma jvalue_render:
  "printable v \<Longrightarrow> delimited r \<Longrightarrow> 2 * length (render_json nl sp d v @ r) < n \<Longrightarrow>
     jvalue n (render_json nl sp d v @ r) = Some (clean v, r)"
  and jelems_render:
  "list_all printable vs \<Longrightarrow> vs \<noteq> [] \<Longrightarrow> 2 * length (render_elems nl sp d vs @ nl e @ CHR '']'' # r) + 1 < n \<Longrightarrow>
     jelems n (render_elems nl sp d vs @ nl e @ CHR '']'' # r) = Some (map clean vs, r)"
  and jmembers_render:
  "list_all (\<lambda>kv. printable (snd kv)) ms \<Longrightarrow> ms \<noteq> [] \<Longrightarrow> 2 * length (render_members nl sp d ms @ nl e @ CHR ''}'' # r) < n \<Longrightarrow>
     jmembers n (render_members nl sp d ms @ nl e @ CHR ''}'' # r) = Some (clean_members ms, r)"
proof (induction v and vs and ms arbitrary: d n r and d e n r and d e n r
    rule: print_json_print_elems_print_members.induct)
  case 1
  then show ?case by (cases n) (auto simp: json_ws_def literal_def)
next
  case (2 b)
  then show ?case by (cases n) (auto simp: json_ws_def literal_def)
next
  case (3 l x)
  then show ?case using jnumber_step [of l x r n] by simp
next
  case (4 t)
  then show ?case by (cases n) (auto simp: json_ws_def print_string_def str_body_print_chars)
next
  case (5 vs)
  then show ?case by (intro jarray_step) simp_all
next
  case (6 ms)
  then show ?case by (intro jobject_step) simp_all
next
  case (8 v vs)
  then show ?case by (intro jelems_step) simp_all
next
  case (10 key v ms)
  then show ?case by (intro jmembers_step) simp_all
qed auto

lemma render_read_back: "printable v \<Longrightarrow> blank_text w \<Longrightarrow> w = [] \<or> hd w = CHR 0x0A \<Longrightarrow> json_decode (render_json nl sp d v @ w) = Some (clean v)"
  using jvalue_render [of v w d "2 * length (render_json nl sp d v @ w) + 1"] json_ws_blank [of w "[]"]
  by (cases w) (auto simp: json_decode_def delimited_def json_ws_def)

end

interpretation compact: layout "\<lambda>_. []" "[]"
  by unfold_locales (simp_all add: blank_text_def)

interpretation indented: layout new_line "'' ''"
  by unfold_locales (auto simp: blank_text_def new_line_def list_all_iff)

lemma json_roundtrip: "printable v \<Longrightarrow> json_decode (print_json v) = Some (clean v)"
  using compact.render_read_back [of v "[]" 0] by (simp add: render_compact blank_text_def)

text \<open>A value on a line of its own.\<close>

lemma json_line_roundtrip: "printable v \<Longrightarrow> json_decode (print_json v @ [CHR 0x0A]) = Some (clean v)"
  using compact.render_read_back [of v "[CHR 0x0A]" 0] by (simp add: render_compact blank_text_def)

lemma indent_roundtrip: "printable v \<Longrightarrow> json_decode (render_json new_line '' '' d v) = Some (clean v)"
  using indented.render_read_back [of v "[]" d] by (simp add: blank_text_def)

text \<open>Cleaning keeps what the decoders look at and does nothing the second time.\<close>

lemma clean_idem [simp]: "clean (clean v) = clean v"
  by (induction v rule: clean.induct) auto

lemma printable_clean [simp]: "printable (clean v) = printable v"
  by (induction v rule: clean.induct) (auto simp: list_all_iff)

lemma finite_clean [simp]: "finite_json (clean v) = finite_json v"
  by (induction v rule: clean.induct) (auto simp: list_all_iff)

lemma trim_object: "trim_space (print_json (JObj ms) @ [CHR 0x0A]) = print_json (JObj ms)"
  by (simp add: trim_space_def is_space_def)

end
