(* ===== verification/UnixServer.thy ===== *)
theory UnixServer
  imports DaemonClient JsonPrint Transitions "HOL-Library.List_Lexorder" "HOL-Library.Multiset"
begin

text \<open>
  The Unix socket server of \<open>pkg/daemon/unix_server.go\<close> with the message types of
  \<open>pkg/daemon/protocol_types.go\<close>, the bytes the client of \<open>pkg/daemon/client.go\<close> puts on the
  wire, and the two sides together. A line of the protocol is the JSON text of a message and a newline. The
  clock is a stream of readings; formatting and parsing of RFC 3339 timestamps (\<open>fmt_time\<close>,
  \<open>parse_time\<close>) are parameters. Creating and removing the socket file is
  in \<open>DaemonOps\<close>.
\<close>

section \<open>Messages\<close>

record HandshakeRequestJSON =
  hq_Type :: string
  hq_Version :: string
  hq_Client :: string

record HandshakeResponseJSON =
  hr_Type :: string
  hr_Status :: string
  hr_Message :: string

record ScheduleRequestJSON =
  jq_Type :: string
  jq_ResourceID :: string
  jq_Command :: "string list"
  jq_RequestedAt :: instant

record ScheduleResponseJSON =
  jp_Type :: string
  jp_Status :: string
  jp_CanSchedule :: bool
  jp_Reason :: string
  jp_Message :: string
  jp_ScheduledAt :: instant
  jp_ExpiresAt :: instant

record RequestInfoJSON =
  ri_RequestedAt :: instant
  ri_Command :: "string list"

record RegisterRequestJSON =
  rq_Type :: string
  rq_ResourceID :: string
  rq_Requests :: "RequestInfoJSON list"

record RegisterResponseJSON =
  rr_Type :: string
  rr_Status :: string
  rr_Success :: bool
  rr_Message :: string

record ErrorResponseJSON =
  er_Type :: string
  er_Error :: string

datatype ProtocolMessageJSON =
    HandshakeResp HandshakeResponseJSON
  | ScheduleResp ScheduleResponseJSON
  | RegisterResp RegisterResponseJSON
  | ErrorResp ErrorResponseJSON

fun GetType :: "ProtocolMessageJSON \<Rightarrow> string" where
  "GetType (HandshakeResp m) = hr_Type m"
| "GetType (ScheduleResp m) = jp_Type m"
| "GetType (RegisterResp m) = rr_Type m"
| "GetType (ErrorResp m) = er_Type m"

subsection \<open>Decoding of requests\<close>

text \<open>The zero \<open>time.Time\<close>, 1 January of the year 1 in UTC, as nanoseconds of the Unix epoch.\<close>

definition zero_time :: instant where
  "zero_time = - 62135596800 * Second"

definition decode_time :: "(string \<Rightarrow> instant option) \<Rightarrow> json \<Rightarrow> instant \<Rightarrow> instant option" where
  "decode_time parse_time v old = (case v of JNull \<Rightarrow> Some old | JStr t \<Rightarrow> parse_time t | _ \<Rightarrow> None)"

definition decode_type :: "string \<Rightarrow> string option" where
  "decode_type = unmarshal_struct [''type''] (\<lambda>n v r. decode_string v r) []"

definition set_handshake :: "string \<Rightarrow> json \<Rightarrow> HandshakeRequestJSON \<Rightarrow> HandshakeRequestJSON option" where
  "set_handshake n v r =
     (if n = ''type'' then map_option (\<lambda>x. r\<lparr>hq_Type := x\<rparr>) (decode_string v (hq_Type r))
      else if n = ''version'' then map_option (\<lambda>x. r\<lparr>hq_Version := x\<rparr>) (decode_string v (hq_Version r))
      else map_option (\<lambda>x. r\<lparr>hq_Client := x\<rparr>) (decode_string v (hq_Client r)))"

definition decode_handshake :: "string \<Rightarrow> HandshakeRequestJSON option" where
  "decode_handshake = unmarshal_struct [''type'', ''version'', ''client''] set_handshake
     \<lparr>hq_Type = [], hq_Version = [], hq_Client = []\<rparr>"

definition set_schedule ::
  "(string \<Rightarrow> instant option) \<Rightarrow> string \<Rightarrow> json \<Rightarrow> ScheduleRequestJSON \<Rightarrow> ScheduleRequestJSON option" where
  "set_schedule parse_time n v r =
     (if n = ''type'' then map_option (\<lambda>x. r\<lparr>jq_Type := x\<rparr>) (decode_string v (jq_Type r))
      else if n = ''resource_id'' then map_option (\<lambda>x. r\<lparr>jq_ResourceID := x\<rparr>) (decode_string v (jq_ResourceID r))
      else if n = ''command'' then map_option (\<lambda>x. r\<lparr>jq_Command := x\<rparr>) (decode_list (\<lambda>e. decode_string e []) v)
      else map_option (\<lambda>x. r\<lparr>jq_RequestedAt := x\<rparr>) (decode_time parse_time v (jq_RequestedAt r)))"

definition decode_schedule :: "(string \<Rightarrow> instant option) \<Rightarrow> string \<Rightarrow> ScheduleRequestJSON option" where
  "decode_schedule parse_time =
     unmarshal_struct [''type'', ''resource_id'', ''command'', ''requested_at''] (set_schedule parse_time)
       \<lparr>jq_Type = [], jq_ResourceID = [], jq_Command = [], jq_RequestedAt = zero_time\<rparr>"

definition set_info :: "(string \<Rightarrow> instant option) \<Rightarrow> string \<Rightarrow> json \<Rightarrow> RequestInfoJSON \<Rightarrow> RequestInfoJSON option" where
  "set_info parse_time n v r =
     (if n = ''requested_at'' then map_option (\<lambda>x. r\<lparr>ri_RequestedAt := x\<rparr>) (decode_time parse_time v (ri_RequestedAt r))
      else map_option (\<lambda>x. r\<lparr>ri_Command := x\<rparr>) (decode_list (\<lambda>e. decode_string e []) v))"

definition set_register ::
  "(string \<Rightarrow> instant option) \<Rightarrow> string \<Rightarrow> json \<Rightarrow> RegisterRequestJSON \<Rightarrow> RegisterRequestJSON option" where
  "set_register parse_time n v r =
     (if n = ''type'' then map_option (\<lambda>x. r\<lparr>rq_Type := x\<rparr>) (decode_string v (rq_Type r))
      else if n = ''resource_id'' then map_option (\<lambda>x. r\<lparr>rq_ResourceID := x\<rparr>) (decode_string v (rq_ResourceID r))
      else map_option (\<lambda>x. r\<lparr>rq_Requests := x\<rparr>)
             (decode_list (decode_struct [''requested_at'', ''command''] (set_info parse_time)
                \<lparr>ri_RequestedAt = zero_time, ri_Command = []\<rparr>) v))"

definition decode_register :: "(string \<Rightarrow> instant option) \<Rightarrow> string \<Rightarrow> RegisterRequestJSON option" where
  "decode_register parse_time =
     unmarshal_struct [''type'', ''resource_id'', ''requests''] (set_register parse_time)
       \<lparr>rq_Type = [], rq_ResourceID = [], rq_Requests = []\<rparr>"

subsection \<open>Encoding of responses\<close>

definition omitempty :: "string \<Rightarrow> string \<Rightarrow> (string \<times> json) list" where
  "omitempty k t = (if t = [] then [] else [(k, JStr t)])"

text \<open>The fields \<open>Marshal\<close> writes for a response; \<open>omitempty\<close> does not apply to a struct such as \<open>time.Time\<close>.\<close>

fun response_fields :: "(instant \<Rightarrow> string) \<Rightarrow> ProtocolMessageJSON \<Rightarrow> reply" where
  "response_fields fmt_time (HandshakeResp m) =
     [(''type'', JStr (hr_Type m)), (''status'', JStr (hr_Status m))] @ omitempty ''message'' (hr_Message m)"
| "response_fields fmt_time (ScheduleResp m) =
     [(''type'', JStr (jp_Type m)), (''status'', JStr (jp_Status m)), (''can_schedule'', JBool (jp_CanSchedule m))]
     @ omitempty ''reason'' (jp_Reason m) @ omitempty ''message'' (jp_Message m)
     @ [(''scheduled_at'', JStr (fmt_time (jp_ScheduledAt m))), (''expires_at'', JStr (fmt_time (jp_ExpiresAt m)))]"
| "response_fields fmt_time (RegisterResp m) =
     [(''type'', JStr (rr_Type m)), (''status'', JStr (rr_Status m)), (''success'', JBool (rr_Success m))]
     @ omitempty ''message'' (rr_Message m)"
| "response_fields fmt_time (ErrorResp m) = [(''type'', JStr (er_Type m)), (''error'', JStr (er_Error m))]"

section \<open>Handlers\<close>

definition error_resp :: "string \<Rightarrow> ProtocolMessageJSON" where
  "error_resp e = ErrorResp \<lparr>er_Type = ''error'', er_Error = e\<rparr>"

definition handleHandshakeTypeSafe :: "HandshakeRequestJSON \<Rightarrow> ProtocolMessageJSON" where
  "handleHandshakeTypeSafe req =
     (if hq_Version req \<noteq> [] \<and> hq_Version req \<noteq> ''1.0''
      then error_resp (''unsupported protocol version: '' @ hq_Version req)
      else HandshakeResp \<lparr>hr_Type = ''handshake_response'', hr_Status = ''ok'', hr_Message = ''handshake successful''\<rparr>)"

definition handleScheduleRequestTypeSafe :: "instant \<Rightarrow> instant \<Rightarrow> ScheduleRequestJSON \<Rightarrow> ScheduleResponseJSON" where
  "handleScheduleRequestTypeSafe now1 now2 req =
     \<lparr>jp_Type = ''schedule_response'', jp_Status = ''ok'', jp_CanSchedule = True, jp_Reason = ''request scheduled'',
      jp_Message = ''request scheduled'', jp_ScheduledAt = now1, jp_ExpiresAt = time_add now2 Hour\<rparr>"

definition handleRegisterRequestTypeSafe :: "RegisterRequestJSON \<Rightarrow> RegisterResponseJSON" where
  "handleRegisterRequestTypeSafe req =
     \<lparr>rr_Type = ''register_response'', rr_Status = ''ok'', rr_Success = True, rr_Message = ''requests registered successfully''\<rparr>"

definition handleProtocolMessageTypeSafe ::
  "(string \<Rightarrow> instant option) \<Rightarrow> instant \<Rightarrow> instant \<Rightarrow> string \<Rightarrow> ProtocolMessageJSON" where
  "handleProtocolMessageTypeSafe parse_time now1 now2 message =
     (case decode_type message of
        None \<Rightarrow> error_resp ''invalid JSON''
      | Some t \<Rightarrow>
          if t = ''handshake'' then
            (case decode_handshake message of
               None \<Rightarrow> error_resp ''invalid handshake request format''
             | Some request \<Rightarrow> handleHandshakeTypeSafe request)
          else if t = ''schedule_request'' then
            (case decode_schedule parse_time message of
               None \<Rightarrow> error_resp ''invalid schedule request format''
             | Some request \<Rightarrow> ScheduleResp (handleScheduleRequestTypeSafe now1 now2 request))
          else if t = ''register_request'' then
            (case decode_register parse_time message of
               None \<Rightarrow> error_resp ''invalid register request format''
             | Some request \<Rightarrow> RegisterResp (handleRegisterRequestTypeSafe request))
          else error_resp ''unknown message type'')"

text \<open>
  \<open>handleProtocolMessage\<close> marshals the response and decodes it into a map; the map is then
  marshalled with its keys in order.
\<close>

definition handleProtocolMessage ::
  "(instant \<Rightarrow> string) \<Rightarrow> (string \<Rightarrow> instant option) \<Rightarrow> instant \<Rightarrow> instant \<Rightarrow> string \<Rightarrow> reply" where
  "handleProtocolMessage fmt_time parse_time now1 now2 message =
     (case unmarshal_map (print_json (JObj (response_fields fmt_time
             (handleProtocolMessageTypeSafe parse_time now1 now2 message)))) of
        None \<Rightarrow> [(''type'', JStr ''error''), (''error'', JStr ''failed to convert response'')]
      | Some responseMap \<Rightarrow> responseMap)"

definition marshal_map :: "reply \<Rightarrow> string" where
  "marshal_map m = print_json (JObj (sort_key (\<lambda>kv. map of_char (fst kv) :: nat list) m))"

text \<open>The older handlers over untyped maps, which nothing calls any more.\<close>

definition handleHandshake :: "reply \<Rightarrow> reply" where
  "handleHandshake request =
     (case str_field request ''version'' of
        None \<Rightarrow> [(''type'', JStr ''error''), (''error'', JStr ''missing version'')]
      | Some version \<Rightarrow>
          if version \<noteq> ''1.0'' then [(''type'', JStr ''error''), (''error'', JStr ''unsupported protocol version'')]
          else [(''type'', JStr ''handshake_response''), (''status'', JStr ''ok''), (''version'', JStr ''1.0'')])"

definition handleScheduleRequest :: "(instant \<Rightarrow> string) \<Rightarrow> instant \<Rightarrow> reply \<Rightarrow> reply" where
  "handleScheduleRequest fmt_seconds now request =
     [(''type'', JStr ''schedule_response''), (''can_schedule'', JBool True),
      (''wait_until'', JStr (fmt_seconds now)), (''reason'', JStr ''test implementation'')]"

definition handleRegisterRequest :: "reply \<Rightarrow> reply" where
  "handleRegisterRequest request =
     [(''type'', JStr ''register_response''), (''success'', JBool True),
      (''message'', JStr ''requests registered successfully'')]"

section \<open>A connection\<close>

text \<open>\<open>ReadString('\n')\<close>: the line with its newline, or the end of the input.\<close>

fun read_line :: "string \<Rightarrow> (string \<times> string) option" where
  "read_line [] = None"
| "read_line (c # r) =
     (if c = CHR 0x0A then Some ([c], r) else map_option (\<lambda>(l, t). (c # l, t)) (read_line r))"

lemma read_line_length: "read_line s = Some (l, r) \<Longrightarrow> length r < length s"
  by (induction s arbitrary: l) (auto split: if_splits)

text \<open>What a connection is answered, given everything it sends before it ends.\<close>

function serve_connection ::
  "(instant \<Rightarrow> string) \<Rightarrow> (string \<Rightarrow> instant option) \<Rightarrow> instant stream \<Rightarrow> string \<Rightarrow> string" where
  "serve_connection fmt_time parse_time clock s =
     (case read_line s of
        None \<Rightarrow> []
      | Some (line, rest) \<Rightarrow>
          marshal_map (handleProtocolMessage fmt_time parse_time (shd clock) (shd (stl clock)) (trim_space line))
          @ [CHR 0x0A] @ serve_connection fmt_time parse_time (stl (stl clock)) rest)"
  by pat_completeness auto
termination
  by (relation "measure (\<lambda>(_, _, _, s). length s)") (auto simp: read_line_length)

declare serve_connection.simps [simp del]

section \<open>The client's side of the wire\<close>

text \<open>The maps the client marshals; \<open>Marshal\<close> writes the keys of a map in order.\<close>

fun encode_request :: "request_msg \<Rightarrow> json" where
  "encode_request (HandshakeMsg version client) =
     JObj [(''client'', JStr client), (''type'', JStr ''handshake''), (''version'', JStr version)]"
| "encode_request (ScheduleMsg resourceID rateLimit window_ms retry_offsets request_time) =
     JObj [(''rate_limit'', jint rateLimit), (''request_time'', jint request_time), (''resource_id'', JStr resourceID),
           (''retry_offsets'', JArr (map jint retry_offsets)), (''type'', JStr ''schedule_request''),
           (''window_ms'', jint window_ms)]"
| "encode_request (RegisterMsg requests) =
     JObj [(''requests'', JArr (map (\<lambda>(i, resourceID, scheduled_at, expires_at).
              JObj [(''expires_at'', jint expires_at), (''id'', JStr i), (''resource_id'', JStr resourceID),
                    (''scheduled_at'', jint scheduled_at)]) requests)),
           (''type'', JStr ''register_request'')]"

definition request_line :: "request_msg \<Rightarrow> string" where
  "request_line m = print_json (encode_request m) @ [CHR 0x0A]"

text \<open>\<open>bufio.Scanner\<close>: the next line without its end.\<close>

definition scan_line :: "string \<Rightarrow> string option" where
  "scan_line s = (if s = [] then None
     else let l = takeWhile (\<lambda>c. c \<noteq> CHR 0x0A) s
          in Some (if l \<noteq> [] \<and> last l = CHR 0x0D then butlast l else l))"

definition client_reply :: "string \<Rightarrow> reply option" where
  "client_reply s = Option.bind (scan_line s) unmarshal_map"

text \<open>What the client gets back when the server answers its request.\<close>

definition wire_reply ::
  "(instant \<Rightarrow> string) \<Rightarrow> (string \<Rightarrow> instant option) \<Rightarrow> instant stream \<Rightarrow> request_msg \<Rightarrow> reply option" where
  "wire_reply fmt_time parse_time clock m = client_reply (serve_connection fmt_time parse_time clock (request_line m))"

section \<open>Framing\<close>

lemma hex_digit_not_newline: "d < 16 \<Longrightarrow> hex_digit d \<noteq> CHR 0x0A"
  by (auto simp: hex_digit_def char_of_eq_iff take_bit_eq_mod)

lemma print_char_not_newline: "CHR 0x0A \<notin> set (print_char c)"
proof (cases "short_escape c")
  case None
  then have "c \<noteq> CHR 0x0A" by (auto simp: short_escape_def split: if_splits)
  moreover have "(of_char c :: nat) div 16 < 16" if "(of_char c :: nat) < 32 \<or> c \<in> set ''<>&''" using that by auto
  ultimately show ?thesis using None hex_digit_not_newline [of "of_char c div 16"] hex_digit_not_newline [of "of_char c mod 16"]
    by (auto simp: print_char_def u00_def)
next
  case (Some d)
  then show ?thesis by (auto simp: print_char_def short_escape_def split: if_splits)
qed

lemma print_chars_not_newline: "CHR 0x0A \<notin> set (print_chars t)"
proof (induction t rule: print_chars.induct)
  case (2 c r)
  have "CHR 0x0A \<notin> set (take (rune_len (c # r)) (c # r))" if "\<not> (of_char c :: nat) < 128"
    using rune_bytes_high [of c "CHR 0x0A" r] that by auto
  with 2 print_char_not_newline [of c] show ?case by (auto simp: Let_def)
qed simp

lemma print_json_not_newline: "printable v \<Longrightarrow> CHR 0x0A \<notin> set (print_json v)"
  and "list_all printable vs \<Longrightarrow> CHR 0x0A \<notin> set (print_elems vs)"
  and "list_all (\<lambda>kv. printable (snd kv)) ms \<Longrightarrow> CHR 0x0A \<notin> set (print_members ms)"
proof (induction v and vs and ms rule: print_json_print_elems_print_members.induct)
  case (3 l x)
  then show ?case by (simp add: number_text_def)
qed (auto simp: print_string_def print_chars_not_newline)

lemma read_line_append: "CHR 0x0A \<notin> set s \<Longrightarrow> read_line (s @ CHR 0x0A # r) = Some (s @ [CHR 0x0A], r)"
  by (induction s) auto

lemma takeWhile_line: "CHR 0x0A \<notin> set s \<Longrightarrow> takeWhile (\<lambda>c. c \<noteq> CHR 0x0A) (s @ CHR 0x0A # r) = s"
  by (induction s) auto

lemma scan_object:
  "printable (JObj ms) \<Longrightarrow> scan_line (print_json (JObj ms) @ CHR 0x0A # r) = Some (print_json (JObj ms))"
  using takeWhile_line [OF print_json_not_newline [of "JObj ms"]] by (simp add: scan_line_def Let_def)

text \<open>A reply with distinct keys in ASCII.\<close>

definition plain_reply :: "reply \<Rightarrow> bool" where
  "plain_reply r \<longleftrightarrow> distinct (map fst r)
     \<and> list_all (\<lambda>kv. to_valid (fst kv) = fst kv \<and> printable (snd kv) \<and> finite_json (snd kv)) r"

lemma plain_keys: "plain_reply r \<Longrightarrow> map fst (clean_members r) = map fst r"
  by (auto simp: plain_reply_def list_all_iff)

lemma plain_roundtrip: "plain_reply r \<Longrightarrow> unmarshal_map (print_json (JObj r)) = Some (clean_members r)"
  using json_roundtrip [of "JObj r"] by (auto simp: unmarshal_map_def plain_reply_def list_all_iff)

lemma plain_clean:
  assumes "plain_reply r"
  shows "plain_reply (clean_members r)"
proof -
  have "distinct (map fst (clean_members r))" using plain_keys [OF assms] assms by (simp only: plain_reply_def)
  then show ?thesis using assms by (simp add: plain_reply_def list_all_iff)
qed

lemma response_plain: "plain_reply (response_fields fmt_time m)"
  by (cases m) (auto simp: plain_reply_def omitempty_def)

lemma plain_sorted: "plain_reply r \<Longrightarrow> plain_reply (sort_key f r)"
  by (auto simp: plain_reply_def list_all_iff distinct_map)

lemma json_get_sorted: "distinct (map fst r) \<Longrightarrow> json_get (sort_key f r) k = json_get r k"
  unfolding json_get_def by (rule fun_cong [OF map_of_inject_set [THEN iffD2]]) (auto simp: distinct_map rev_map)

lemma json_get_clean:
  assumes "plain_reply r"
  shows "json_get (clean_members r) k = map_option clean (json_get r k)"
proof -
  have "clean_members r = map (\<lambda>(k, v). (k, clean v)) r" using assms by (auto simp: plain_reply_def list_all_iff)
  then show ?thesis by (simp only: json_get_def rev_map map_of_map comp_apply)
qed

lemma json_get_twice:
  fixes r :: reply and f :: "string \<times> json \<Rightarrow> nat list"
  assumes "plain_reply r"
  shows "json_get (clean_members (sort_key f (clean_members r))) k = map_option clean (json_get r k)"
proof -
  have p: "plain_reply (clean_members r)" "plain_reply (sort_key f (clean_members r))"
    using plain_sorted [OF plain_clean [OF assms]] plain_clean [OF assms] by auto
  then have "json_get (clean_members (sort_key f (clean_members r))) k = map_option clean (json_get (clean_members r) k)"
    using json_get_clean [OF p(2)] json_get_sorted [of "clean_members r" f k] by (simp only: plain_reply_def)
  then show ?thesis using json_get_clean [OF assms, of k] by (simp add: option.map_comp comp_def)
qed

lemma encode_request_obj: "\<exists>ms. encode_request m = JObj ms \<and> printable (JObj ms)"
  by (cases m) (auto simp: list_all_iff)

section \<open>Client and server together\<close>

lemma jint_inject [simp]: "jint m = jint n \<longleftrightarrow> m = n"
proof
  assume "jint m = jint n"
  then have "itoa m = itoa n" by (simp add: jint_def)
  moreover have "utoa k \<noteq> CHR ''-'' # s" for k s using utoa_head [of k] by (auto simp: is_digit_def)
  then have "utoa k \<noteq> CHR ''-'' # s" "CHR ''-'' # s \<noteq> utoa k" for k s by metis+
  ultimately show "m = n" by (auto simp: itoa_def split: if_splits)
qed simp

lemma encode_request_inject: "encode_request m = encode_request m' \<Longrightarrow> m = m'"
proof -
  have maps: "map jint xs = map jint ys \<Longrightarrow> xs = ys" for xs ys by (rule map_injective) (auto intro: injI)
  let ?f = "\<lambda>(i, resourceID, scheduled_at, expires_at).
    JObj [(''expires_at'', jint expires_at), (''id'', JStr i), (''resource_id'', JStr resourceID), (''scheduled_at'', jint scheduled_at)]"
  have "inj ?f" by (auto intro: injI)
  then have regs: "map ?f xs = map ?f ys \<Longrightarrow> xs = ys" for xs ys by (rule map_injective [rotated])
  show "encode_request m = encode_request m' \<Longrightarrow> m = m'"
    by (cases m; cases m') (auto dest: maps regs)
qed

text \<open>The request with its names made well-formed UTF-8, which is what the other side can know of it.\<close>

fun valid_request :: "request_msg \<Rightarrow> request_msg" where
  "valid_request (HandshakeMsg version client) = HandshakeMsg (to_valid version) (to_valid client)"
| "valid_request (ScheduleMsg resourceID rateLimit window_ms retry_offsets request_time) =
     ScheduleMsg (to_valid resourceID) rateLimit window_ms retry_offsets request_time"
| "valid_request (RegisterMsg requests) =
     RegisterMsg (map (\<lambda>(i, resourceID, scheduled_at, expires_at).
       (to_valid i, to_valid resourceID, scheduled_at, expires_at)) requests)"

lemma clean_request: "clean (encode_request m) = encode_request (valid_request m)"
  by (cases m) auto

lemma request_read:
  "read_line (request_line m @ r) = Some (request_line m, r)"
  "trim_space (request_line m) = print_json (encode_request m)"
  "json_decode (print_json (encode_request m)) = Some (encode_request (valid_request m))"
proof -
  obtain ms where ms: "encode_request m = JObj ms" "printable (JObj ms)" using encode_request_obj by blast
  show "read_line (request_line m @ r) = Some (request_line m, r)"
    using read_line_append [OF print_json_not_newline [OF ms(2)], of r] by (simp add: request_line_def ms(1) del: print_json.simps)
  show "trim_space (request_line m) = print_json (encode_request m)"
    by (simp add: request_line_def ms(1) trim_object del: print_json.simps)
  show "json_decode (print_json (encode_request m)) = Some (encode_request (valid_request m))"
    using json_roundtrip [OF ms(2)] by (simp only: clean_request flip: ms(1))
qed

text \<open>One line of the client, answered by the server.\<close>

lemma served_object:
  assumes "printable (JObj ms)"
  shows "client_reply (serve_connection fmt_time parse_time clock (print_json (JObj ms) @ [CHR 0x0A])) =
     Some (clean_members (sort_key (\<lambda>kv. map of_char (fst kv) :: nat list) (clean_members
       (response_fields fmt_time (handleProtocolMessageTypeSafe parse_time (shd clock) (shd (stl clock)) (print_json (JObj ms)))))))"
proof -
  let ?line = "print_json (JObj ms) @ [CHR 0x0A]"
  let ?r = "response_fields fmt_time (handleProtocolMessageTypeSafe parse_time (shd clock) (shd (stl clock)) (print_json (JObj ms)))"
  let ?s = "sort_key (\<lambda>kv. map of_char (fst kv) :: nat list) (clean_members ?r)"
  have p: "plain_reply ?s" by (intro plain_sorted plain_clean response_plain)
  have "serve_connection fmt_time parse_time clock ?line = print_json (JObj ?s) @ [CHR 0x0A]"
    using read_line_append [OF print_json_not_newline [OF assms], of "[]"] trim_object [of ms]
    by (simp add: serve_connection.simps [of _ _ _ ?line] serve_connection.simps [of _ _ _ "[]"]
        handleProtocolMessage_def plain_roundtrip [OF response_plain] marshal_map_def del: print_json.simps)
  moreover have "scan_line (print_json (JObj ?s) @ [CHR 0x0A]) = Some (print_json (JObj ?s))"
    using scan_object [of ?s "[]"] p by (simp add: plain_reply_def list_all_iff del: print_json.simps)
  ultimately show ?thesis using plain_roundtrip [OF p] by (simp only: client_reply_def Option.bind.simps)
qed

lemma wire_reply_fields:
  "wire_reply fmt_time parse_time clock m =
     Some (clean_members (sort_key (\<lambda>kv. map of_char (fst kv) :: nat list) (clean_members
       (response_fields fmt_time (handleProtocolMessageTypeSafe parse_time (shd clock) (shd (stl clock))
          (print_json (encode_request m)))))))"
proof -
  obtain ms where ms: "encode_request m = JObj ms" "printable (JObj ms)" using encode_request_obj by blast
  show ?thesis using served_object [OF ms(2)] by (simp only: wire_reply_def request_line_def ms(1))
qed

lemma reply_field:
  assumes "wire_reply fmt_time parse_time clock m = Some reply"
  shows "json_get reply k = map_option clean (json_get (response_fields fmt_time
     (handleProtocolMessageTypeSafe parse_time (shd clock) (shd (stl clock)) (print_json (encode_request m)))) k)"
  using assms json_get_twice [OF response_plain] by (auto simp: wire_reply_fields)

lemma unmarshal_printed:
  "unmarshal_struct names upd zero (print_json (encode_request m)) =
     decode_struct names upd zero (encode_request (valid_request m))"
  by (simp add: unmarshal_struct_def request_read(3) del: print_json.simps encode_request.simps)

lemmas decoder_defs = decode_struct_def field_name_def decode_string_def upper_ascii_def set_handshake_def
  set_schedule_def set_register_def set_info_def decode_list_def

lemma zero_infos:
  "decode_list (decode_struct [''requested_at'', ''command''] (set_info parse_time) z)
     (JArr (map (\<lambda>(i, r, s, e). JObj [(''expires_at'', jint e), (''id'', JStr i), (''resource_id'', JStr r),
        (''scheduled_at'', jint s)]) reqs)) = Some (replicate (length reqs) z)"
  by (induction reqs) (auto simp: decoder_defs)

text \<open>What the decoders of the server find in a request: of the numbers and of the requests' names, nothing.\<close>

lemma request_decoded:
  "decode_type (print_json (encode_request (HandshakeMsg v c))) = Some ''handshake''"
  "decode_handshake (print_json (encode_request (HandshakeMsg v c)))
     = Some \<lparr>hq_Type = ''handshake'', hq_Version = to_valid v, hq_Client = to_valid c\<rparr>"
  "decode_type (print_json (encode_request (ScheduleMsg i l w os rt))) = Some ''schedule_request''"
  "decode_schedule parse_time (print_json (encode_request (ScheduleMsg i l w os rt)))
     = Some \<lparr>jq_Type = ''schedule_request'', jq_ResourceID = to_valid i, jq_Command = [], jq_RequestedAt = zero_time\<rparr>"
  "decode_type (print_json (encode_request (RegisterMsg reqs))) = Some ''register_request''"
  "decode_register parse_time (print_json (encode_request (RegisterMsg reqs)))
     = Some \<lparr>rq_Type = ''register_request'', rq_ResourceID = [],
         rq_Requests = replicate (length reqs) \<lparr>ri_RequestedAt = zero_time, ri_Command = []\<rparr>\<rparr>"
  unfolding decode_type_def decode_handshake_def decode_schedule_def decode_register_def unmarshal_printed
  by (simp_all add: decode_struct_def [of _ _ _ "JObj _"] field_name_def decode_string_def upper_ascii_def
      set_handshake_def set_schedule_def set_register_def zero_infos del: map_map)

text \<open>C15. The wire format is unambiguous. Whatever follows on the connection, the server cuts off exactly
  the line of the request; its own decoders find in that line the request's type, the version and the
  client of a handshake, the resource of a schedule request and the number of requests of a
  registration, names with every ill-formed UTF-8 byte replaced by U+FFFD, and of the rest, the rate
  limit, window, offsets and times of the client, nothing, as the fields have other names on the two
  sides; and two byte sequences that begin with requests are equal only when the requests agree in
  every number and, up to ill-formed UTF-8, in every name, and the same bytes follow.\<close>

theorem wire_unambiguous:
  "read_line (request_line m @ r) = Some (request_line m, r)
   \<and> (case m of
        HandshakeMsg version client \<Rightarrow> decode_type (trim_space (request_line m)) = Some ''handshake''
          \<and> decode_handshake (trim_space (request_line m))
              = Some \<lparr>hq_Type = ''handshake'', hq_Version = to_valid version, hq_Client = to_valid client\<rparr>
      | ScheduleMsg resourceID rateLimit window_ms retry_offsets request_time \<Rightarrow>
          decode_type (trim_space (request_line m)) = Some ''schedule_request''
          \<and> decode_schedule parse_time (trim_space (request_line m))
              = Some \<lparr>jq_Type = ''schedule_request'', jq_ResourceID = to_valid resourceID, jq_Command = [],
                      jq_RequestedAt = zero_time\<rparr>
      | RegisterMsg requests \<Rightarrow> decode_type (trim_space (request_line m)) = Some ''register_request''
          \<and> decode_register parse_time (trim_space (request_line m))
              = Some \<lparr>rq_Type = ''register_request'', rq_ResourceID = [],
                      rq_Requests = replicate (length requests) \<lparr>ri_RequestedAt = zero_time, ri_Command = []\<rparr>\<rparr>)
   \<and> (request_line m @ r = request_line m' @ r' \<longrightarrow> valid_request m = valid_request m' \<and> r = r')"
proof (intro conjI impI)
  show "read_line (request_line m @ r) = Some (request_line m, r)" by (rule request_read)
  assume "request_line m @ r = request_line m' @ r'"
  then have "Some (request_line m, r) = Some (request_line m', r')" by (simp only: flip: request_read(1))
  then have lines: "request_line m = request_line m'" and "r = r'" by simp_all
  from lines have "print_json (encode_request m) = print_json (encode_request m')" by (simp only: flip: request_read(2))
  then have "Some (encode_request (valid_request m)) = Some (encode_request (valid_request m'))"
    by (simp only: flip: request_read(3))
  then show "valid_request m = valid_request m'" using encode_request_inject by blast
  show "r = r'" by fact
next
  show "case m of
        HandshakeMsg version client \<Rightarrow> decode_type (trim_space (request_line m)) = Some ''handshake''
          \<and> decode_handshake (trim_space (request_line m))
              = Some \<lparr>hq_Type = ''handshake'', hq_Version = to_valid version, hq_Client = to_valid client\<rparr>
      | ScheduleMsg resourceID rateLimit window_ms retry_offsets request_time \<Rightarrow>
          decode_type (trim_space (request_line m)) = Some ''schedule_request''
          \<and> decode_schedule parse_time (trim_space (request_line m))
              = Some \<lparr>jq_Type = ''schedule_request'', jq_ResourceID = to_valid resourceID, jq_Command = [],
                      jq_RequestedAt = zero_time\<rparr>
      | RegisterMsg requests \<Rightarrow> decode_type (trim_space (request_line m)) = Some ''register_request''
          \<and> decode_register parse_time (trim_space (request_line m))
              = Some \<lparr>rq_Type = ''register_request'', rq_ResourceID = [],
                      rq_Requests = replicate (length requests) \<lparr>ri_RequestedAt = zero_time, ri_Command = []\<rparr>\<rparr>"
    by (cases m) (simp_all only: request_read(2) request_decoded request_msg.case simp_thms)
qed

text \<open>A well-formed name is read back as it is; two ill-formed ones cannot be told apart.\<close>

theorem wire_unambiguous_witness:
  "decode_schedule (\<lambda>_. None) (trim_space (request_line (ScheduleMsg (''caf'' @ [CHR 0xC3, CHR 0xA9]) 2 10 [0, 5] 7)))
     = Some \<lparr>jq_Type = ''schedule_request'', jq_ResourceID = ''caf'' @ [CHR 0xC3, CHR 0xA9], jq_Command = [],
             jq_RequestedAt = zero_time\<rparr>
   \<and> request_line (ScheduleMsg ''a'' 2 10 [0, 5] 7) @ ''x'' \<noteq> request_line (ScheduleMsg ''b'' 2 10 [0, 5] 7) @ ''y''
   \<and> request_line (HandshakeMsg ''1.0'' [CHR 0xFF]) = request_line (HandshakeMsg ''1.0'' [CHR 0xFE])"
proof -
  have v: "to_valid (''caf'' @ [CHR 0xC3, CHR 0xA9]) = ''caf'' @ [CHR 0xC3, CHR 0xA9]"
    by (simp add: to_valid.simps(2) sequence_length_def byte_in_def second_range_def)
  have "request_line (HandshakeMsg ''1.0'' [CHR 0xFF]) = request_line (HandshakeMsg ''1.0'' [CHR 0xFE])"
    by (simp add: request_line_def print_string_def sequence_length_def byte_in_def)
  then show ?thesis
    using wire_unambiguous [of "ScheduleMsg (''caf'' @ [CHR 0xC3, CHR 0xA9]) 2 10 [0, 5] 7" "[]" "\<lambda>_. None"]
      wire_unambiguous [of "ScheduleMsg ''a'' 2 10 [0, 5] 7" "''x''" "\<lambda>_. None" "ScheduleMsg ''b'' 2 10 [0, 5] 7" "''y''"] v
    by simp
qed

lemma handshake_answer:
  "handleProtocolMessageTypeSafe parse_time t u (print_json (encode_request (HandshakeMsg v c))) =
     handleHandshakeTypeSafe \<lparr>hq_Type = ''handshake'', hq_Version = to_valid v, hq_Client = to_valid c\<rparr>"
  by (simp add: handleProtocolMessageTypeSafe_def request_decoded del: print_json.simps encode_request.simps)

lemma schedule_answer:
  "handleProtocolMessageTypeSafe parse_time t u (print_json (encode_request (ScheduleMsg i l w os rt))) =
     ScheduleResp (handleScheduleRequestTypeSafe t u
       \<lparr>jq_Type = ''schedule_request'', jq_ResourceID = to_valid i, jq_Command = [], jq_RequestedAt = zero_time\<rparr>)"
  by (simp add: handleProtocolMessageTypeSafe_def request_decoded del: print_json.simps encode_request.simps)

lemma register_answer:
  "\<exists>req. handleProtocolMessageTypeSafe parse_time t u (print_json (encode_request (RegisterMsg reqs))) =
     RegisterResp (handleRegisterRequestTypeSafe req)"
  by (intro exI) (simp add: handleProtocolMessageTypeSafe_def request_decoded del: print_json.simps encode_request.simps)

lemmas response_defs = handleHandshakeTypeSafe_def handleScheduleRequestTypeSafe_def handleRegisterRequestTypeSafe_def
  omitempty_def json_get_def str_field_def bool_field_def

lemma handshake_served:
  assumes "\<not> dc_conn c" "shd (nt_dials n)"
    and "nt_replies n = wire_reply fmt_time parse_time clock (HandshakeMsg ''1.0'' ''patience-cli'') ## replies"
  shows "\<exists>n'. connect c n = (None, c\<lparr>dc_conn := True\<rparr>, n') \<and> nt_replies n' = replies"
proof -
  obtain reply where reply: "wire_reply fmt_time parse_time clock (HandshakeMsg ''1.0'' ''patience-cli'') = Some reply"
    by (simp add: wire_reply_fields)
  have "str_field reply ''status'' = Some ''ok''"
    unfolding str_field_def reply_field [OF reply] handshake_answer by (simp add: response_defs)
  then show ?thesis using assms reply
    by (simp add: connect_def performHandshake_def sendRequest_def Let_def)
qed

lemma connect_connected: "dc_conn c \<Longrightarrow> connect c n = (None, c, n)"
  by (simp add: connect_def)

text \<open>C14. The socket server grants everything. Against this server a client that connects, asks for a slot
  and registers its requests is always told that it may run at once and that the registration
  succeeded, whatever the rate limit, the window and the requests registered before: the server
  keeps no schedule, and of the request it decodes only the type and the resource. The client's
  fallback time of one minute is what it reports as the time to wait for.\<close>

theorem server_grants_everything:
  assumes "\<not> dc_conn c" "shd (nt_dials n)"
    and "nt_replies n = wire_reply fmt_time parse_time k1 (HandshakeMsg ''1.0'' ''patience-cli'')
      ## wire_reply fmt_time parse_time k2 (ScheduleMsg (sq_ResourceID req) (sq_RateLimit req)
           (quo (sq_Window req) Millisecond) (convertDurationsToMs (sq_RetryOffsets req)) (unix_seconds (sq_RequestTime req)))
      ## wire_reply fmt_time parse_time k3 (RegisterMsg (map (\<lambda>r. (sr_ID r, sr_ResourceID r,
           unix_seconds (sr_ScheduledAt r), unix_seconds (sr_ExpiresAt r))) planned))
      ## replies"
  shows "\<exists>c1 n1 c2 n2.
     Client_CanScheduleRequest parse_time False c req n =
       (Inr \<lparr>sp_CanSchedule = True, sp_WaitUntil = time_add (sq_RequestTime req) Minute, sp_Reason = ''request scheduled''\<rparr>, c1, n1)
     \<and> RegisterScheduledRequests False c1 planned n1 = (None, c2, n2)"
proof -
  let ?sched = "ScheduleMsg (sq_ResourceID req) (sq_RateLimit req)
           (quo (sq_Window req) Millisecond) (convertDurationsToMs (sq_RetryOffsets req)) (unix_seconds (sq_RequestTime req))"
  let ?reg = "RegisterMsg (map (\<lambda>r. (sr_ID r, sr_ResourceID r,
           unix_seconds (sr_ScheduledAt r), unix_seconds (sr_ExpiresAt r))) planned)"
  let ?c = "c\<lparr>dc_conn := True\<rparr>"
  obtain n0 where n0: "connect c n = (None, ?c, n0)"
    and r0: "nt_replies n0 = wire_reply fmt_time parse_time k2 ?sched ## wire_reply fmt_time parse_time k3 ?reg ## replies"
    using handshake_served [OF assms] by blast
  obtain s where s: "wire_reply fmt_time parse_time k2 ?sched = Some s" by (simp add: wire_reply_fields)
  obtain g where g: "wire_reply fmt_time parse_time k3 ?reg = Some g" by (simp add: wire_reply_fields)
  have fields: "bool_field s ''can_schedule'' = Some True" "str_field s ''wait_until'' = None"
      "str_field s ''reason'' = Some ''request scheduled''"
    unfolding bool_field_def str_field_def reply_field [OF s] schedule_answer by (simp_all add: response_defs)
  obtain q where q: "handleProtocolMessageTypeSafe parse_time (shd k3) (shd (stl k3)) (print_json (encode_request ?reg))
      = RegisterResp (handleRegisterRequestTypeSafe q)" using register_answer by blast
  have ok: "bool_field g ''success'' = Some True"
    unfolding bool_field_def reply_field [OF g] q by (simp add: response_defs)
  show ?thesis
    using n0 r0 s g fields ok
    by (simp add: Client_CanScheduleRequest_def RegisterScheduledRequests_def sendRequest_def connect_connected)
qed

theorem server_grants_everything_witness:
  "\<exists>c1 n1 c2 n2.
     Client_CanScheduleRequest (\<lambda>_. None) False (NewDaemonClient ''/tmp/s'')
       \<lparr>sq_ResourceID = ''api'', sq_RateLimit = 0, sq_Window = Hour, sq_RetryOffsets = [0, Second], sq_RequestTime = 0\<rparr>
       \<lparr>nt_dials = sconst True,
        nt_replies = wire_reply (\<lambda>_. []) (\<lambda>_. None) (sconst 7) (HandshakeMsg ''1.0'' ''patience-cli'')
          ## wire_reply (\<lambda>_. []) (\<lambda>_. None) (sconst 7) (ScheduleMsg ''api'' 0 3600000 [0, 1000] 0)
          ## wire_reply (\<lambda>_. []) (\<lambda>_. None) (sconst 7) (RegisterMsg []) ## sconst None,
        nt_sent = []\<rparr>
     = (Inr \<lparr>sp_CanSchedule = True, sp_WaitUntil = time_add 0 Minute, sp_Reason = ''request scheduled''\<rparr>, c1, n1)
     \<and> RegisterScheduledRequests False c1 [] n1 = (None, c2, n2)"
proof -
  have "convertDurationsToMs [0, Second] = [0, 1000]" "quo Hour Millisecond = 3600000" "unix_seconds 0 = 0"
    by (simp_all add: convertDurationsToMs_def unix_seconds_def unit_defs quo_nonneg)
  then show ?thesis
    using server_grants_everything [where c = "NewDaemonClient ''/tmp/s''"
        and req = "\<lparr>sq_ResourceID = ''api'', sq_RateLimit = 0, sq_Window = Hour, sq_RetryOffsets = [0, Second], sq_RequestTime = 0\<rparr>"
        and n = "\<lparr>nt_dials = sconst True,
          nt_replies = wire_reply (\<lambda>_. []) (\<lambda>_. None) (sconst 7) (HandshakeMsg ''1.0'' ''patience-cli'')
            ## wire_reply (\<lambda>_. []) (\<lambda>_. None) (sconst 7) (ScheduleMsg ''api'' 0 3600000 [0, 1000] 0)
            ## wire_reply (\<lambda>_. []) (\<lambda>_. None) (sconst 7) (RegisterMsg []) ## sconst None,
          nt_sent = []\<rparr>" and planned = "[]"]
    by (simp add: NewDaemonClient_def)
qed

text \<open>The untyped handler refuses a handshake without a version, the typed one accepts it.\<close>

lemma handshake_handlers_differ:
  "json_get (handleHandshake [(''type'', JStr ''handshake'')]) ''error'' = Some (JStr ''missing version'')"
  "GetType (handleHandshakeTypeSafe \<lparr>hq_Type = ''handshake'', hq_Version = [], hq_Client = []\<rparr>) = ''handshake_response''"
  by (simp_all add: handleHandshake_def str_field_def json_get_def handleHandshakeTypeSafe_def)

section \<open>The connections of the server\<close>

text \<open>
  The accept loop and the connection goroutines: the loop polls its context, waits in \<open>Accept\<close>
  and admits a connection or not; a handler ends its loop and closes its connection, and then
  gives its place back.
\<close>

record UnixServer =
  us_socketPath :: string
  us_connectionTimeout :: duration
  us_maxConnections :: int
  us_activeConnections :: int
  us_cancelled :: bool

definition DefaultConnectionTimeout :: duration where
  "DefaultConnectionTimeout = 30 * Second"

definition DefaultMaxConnections :: int where
  "DefaultMaxConnections = 10"

definition NewUnixServer :: "string \<Rightarrow> UnixServer" where
  "NewUnixServer socketPath =
     \<lparr>us_socketPath = socketPath, us_connectionTimeout = DefaultConnectionTimeout,
      us_maxConnections = DefaultMaxConnections, us_activeConnections = 0, us_cancelled = False\<rparr>"

definition SetConnectionTimeout :: "UnixServer \<Rightarrow> duration \<Rightarrow> UnixServer" where
  "SetConnectionTimeout s timeout = s\<lparr>us_connectionTimeout := timeout\<rparr>"

definition SetMaxConnections :: "UnixServer \<Rightarrow> int \<Rightarrow> UnixServer" where
  "SetMaxConnections s m = s\<lparr>us_maxConnections := m\<rparr>"

text \<open>The critical section of \<open>acceptConnections\<close>: whether the connection is taken.\<close>

definition admit :: "UnixServer \<Rightarrow> bool \<times> UnixServer" where
  "admit s = (if us_maxConnections s \<le> us_activeConnections s then (False, s)
              else (True, s\<lparr>us_activeConnections := us_activeConnections s + 1\<rparr>))"

definition release :: "UnixServer \<Rightarrow> UnixServer" where
  "release s = s\<lparr>us_activeConnections := us_activeConnections s - 1\<rparr>"

datatype loop_pc = PollCtx | InAccept | LoopEnded

record server_sys =
  sv_server :: UnixServer
  sv_loop :: loop_pc
  sv_serving :: "nat list"
  sv_closing :: nat
  sv_closed :: "nat list"

datatype server_event = SPoll | SAccept nat | SAcceptError | SFinish nat | SRelease | SStop

definition after_poll :: "UnixServer \<Rightarrow> loop_pc \<Rightarrow> loop_pc" where
  "after_poll s pc = (if us_cancelled s then LoopEnded else pc)"

inductive server_step :: "server_sys \<Rightarrow> server_event \<Rightarrow> server_sys \<Rightarrow> bool" where
  poll: "sv_loop s = PollCtx \<Longrightarrow>
    server_step s SPoll (s\<lparr>sv_loop := after_poll (sv_server s) InAccept\<rparr>)"
| accept_error: "sv_loop s = InAccept \<Longrightarrow>
    server_step s SAcceptError (s\<lparr>sv_loop := after_poll (sv_server s) PollCtx\<rparr>)"
| accept: "sv_loop s = InAccept \<Longrightarrow> admit (sv_server s) = (ok, us) \<Longrightarrow>
    server_step s (SAccept c)
      (s\<lparr>sv_server := us, sv_loop := PollCtx, sv_serving := (if ok then c # sv_serving s else sv_serving s),
         sv_closed := (if ok then sv_closed s else c # sv_closed s)\<rparr>)"
| finish: "c \<in> set (sv_serving s) \<Longrightarrow>
    server_step s (SFinish c) (s\<lparr>sv_serving := remove1 c (sv_serving s), sv_closing := Suc (sv_closing s),
      sv_closed := c # sv_closed s\<rparr>)"
| release: "sv_closing s = Suc n \<Longrightarrow>
    server_step s SRelease (s\<lparr>sv_server := release (sv_server s), sv_closing := n\<rparr>)"
| stop: "server_step s SStop (s\<lparr>sv_server := (sv_server s)\<lparr>us_cancelled := True\<rparr>\<rparr>)"

inductive_cases server_stepE: "server_step s e t"

definition initial_server :: "UnixServer \<Rightarrow> server_sys" where
  "initial_server us = \<lparr>sv_server = us, sv_loop = PollCtx, sv_serving = [], sv_closing = 0, sv_closed = []\<rparr>"

definition accepted :: "server_event list \<Rightarrow> nat list" where
  "accepted es = List.map_filter (\<lambda>e. case e of SAccept c \<Rightarrow> Some c | _ \<Rightarrow> None) es"

lemma accepted_simps [simp]:
  "accepted [] = []" "accepted (es @ fs) = accepted es @ accepted fs"
  "accepted [e] = (case e of SAccept c \<Rightarrow> [c] | _ \<Rightarrow> [])"
  by (simp_all add: accepted_def map_filter_def split: server_event.splits)

definition server_inv :: "int \<Rightarrow> server_sys \<Rightarrow> bool" where
  "server_inv m s \<longleftrightarrow>
     us_maxConnections (sv_server s) = m
     \<and> us_activeConnections (sv_server s) = int (length (sv_serving s) + sv_closing s)
     \<and> int (length (sv_serving s) + sv_closing s) \<le> max 0 m"

lemma server_step_inv: "server_inv m s \<Longrightarrow> server_step s e t \<Longrightarrow> server_inv m t"
proof (erule server_stepE)
  fix c
  assume s: "server_inv m s" "c \<in> set (sv_serving s)"
    and t: "t = s\<lparr>sv_serving := remove1 c (sv_serving s), sv_closing := Suc (sv_closing s), sv_closed := c # sv_closed s\<rparr>"
  have "length (sv_serving t) + sv_closing t = length (sv_serving s) + sv_closing s"
    using remove1_length [OF s(2), of "sv_closing s"] t by simp
  moreover have "sv_server t = sv_server s" using t by simp
  ultimately show "server_inv m t" using s(1) unfolding server_inv_def by simp
qed (auto simp: server_inv_def admit_def release_def split: if_splits)

interpretation server: kept server_step "server_inv m" for m
  by unfold_locales (rule server_step_inv)

lemma server_run_connections:
  "run server_step s es t \<Longrightarrow>
     mset (sv_serving t) + mset (sv_closed t) = mset (sv_serving s) + mset (sv_closed s) + mset (accepted es)"
proof (induction rule: run_induct)
  case (step es t e u)
  have "mset (sv_serving u) + mset (sv_closed u) = mset (sv_serving t) + mset (sv_closed t) + mset (accepted [e])"
    using step.hyps(2) by (rule server_stepE) auto
  with step.IH show ?case by simp
qed simp

text \<open>C16. The socket server never serves more than the configured number of connections at a time, whatever
  the order of arrivals, ends and shutdown: the counter under the lock is the number of
  connection goroutines that have not given their place back, it lies between 0 and the maximum,
  and every accepted connection is being served or has been closed exactly once.\<close>

theorem server_connection_limit:
  assumes "run server_step (initial_server (SetMaxConnections (NewUnixServer path) m)) es s" "0 \<le> m"
  shows "us_activeConnections (sv_server s) = int (length (sv_serving s) + sv_closing s)
     \<and> int (length (sv_serving s)) \<le> us_activeConnections (sv_server s)
     \<and> us_activeConnections (sv_server s) \<le> m
     \<and> mset (accepted es) = mset (sv_serving s) + mset (sv_closed s)"
proof -
  have "server_inv m (initial_server (SetMaxConnections (NewUnixServer path) m))"
    by (simp add: server_inv_def initial_server_def SetMaxConnections_def NewUnixServer_def)
  then have "server_inv m s" using server.run_kept [OF assms(1)] by simp
  moreover have "mset (accepted es) = mset (sv_serving s) + mset (sv_closed s)"
    using server_run_connections [OF assms(1)] by (simp add: initial_server_def)
  ultimately show ?thesis using assms(2) by (simp add: server_inv_def)
qed

text \<open>A server with one place: the second connection is closed at once.\<close>

definition full_server :: server_sys where
  "full_server = \<lparr>sv_server = \<lparr>us_socketPath = ''/tmp/s'', us_connectionTimeout = DefaultConnectionTimeout,
       us_maxConnections = 1, us_activeConnections = 1, us_cancelled = False\<rparr>,
     sv_loop = PollCtx, sv_serving = [7], sv_closing = 0, sv_closed = [8]\<rparr>"

lemma full_server_run:
  "run server_step (initial_server (SetMaxConnections (NewUnixServer ''/tmp/s'') 1)) [SPoll, SAccept 7, SPoll, SAccept 8] full_server"
proof -
  let ?s0 = "initial_server (SetMaxConnections (NewUnixServer ''/tmp/s'') 1)"
  let ?s1 = "?s0\<lparr>sv_loop := InAccept\<rparr>"
  let ?s2 = "full_server\<lparr>sv_closed := []\<rparr>"
  let ?s3 = "?s2\<lparr>sv_loop := InAccept\<rparr>"
  note defs = initial_server_def SetMaxConnections_def NewUnixServer_def full_server_def after_poll_def admit_def
  have "server_step ?s0 SPoll ?s1" using server_step.poll [of ?s0] by (simp add: defs)
  moreover have "server_step ?s1 (SAccept 7) ?s2" using server_step.accept [of ?s1 _ _ 7] by (simp add: defs)
  moreover have "server_step ?s2 SPoll ?s3" using server_step.poll [of ?s2] by (simp add: defs)
  moreover have "server_step ?s3 (SAccept 8) full_server" using server_step.accept [of ?s3 False _ 8] by (simp add: defs)
  ultimately show ?thesis by (auto simp: run_Cons_iff)
qed

theorem server_connection_limit_witness:
  "us_activeConnections (sv_server full_server) = int (length (sv_serving full_server) + sv_closing full_server)
     \<and> int (length (sv_serving full_server)) \<le> us_activeConnections (sv_server full_server)
     \<and> us_activeConnections (sv_server full_server) \<le> 1
     \<and> mset (accepted [SPoll, SAccept 7, SPoll, SAccept 8]) = mset (sv_serving full_server) + mset (sv_closed full_server)"
  by (rule server_connection_limit [OF full_server_run]) simp

section \<open>Shutdown\<close>

text \<open>After \<open>Stop\<close> has cancelled the context, the loop and the handlers end by themselves.\<close>

fun winds_down :: "server_event \<Rightarrow> bool" where
  "winds_down (SAccept c) = False"
| "winds_down SStop = False"
| "winds_down _ = True"

definition server_work :: "server_sys \<Rightarrow> nat" where
  "server_work s = 2 * length (sv_serving s) + sv_closing s + (if sv_loop s = LoopEnded then 0 else 1)"

definition stopping_inv :: "server_sys \<Rightarrow> bool" where
  "stopping_inv s \<longleftrightarrow> us_cancelled (sv_server s)"

lemma stopping_step: "stopping_inv s \<Longrightarrow> server_step s e t \<Longrightarrow> stopping_inv t"
  by (erule server_stepE) (auto simp: stopping_inv_def admit_def release_def split: if_splits)

lemma stopping_works:
  assumes "stopping_inv s" "winds_down e" "server_step s e t"
  shows "server_work t < server_work s"
  using assms(3)
proof (cases rule: server_step.cases)
  case (finish c)
  then show ?thesis using remove1_length [of c "sv_serving s" 0] by (simp add: server_work_def)
qed (use assms(1,2) in \<open>auto simp: server_work_def stopping_inv_def after_poll_def\<close>)

interpretation stopping: measured server_step stopping_inv winds_down server_work
  by unfold_locales (blast intro: stopping_step stopping_works)+

lemma server_shutdown:
  assumes "us_cancelled (sv_server s)" "run server_step s es t" "list_all winds_down es"
  shows "length es \<le> server_work s"
    and "\<nexists>e u. winds_down e \<and> server_step t e u \<Longrightarrow> sv_serving t = [] \<and> sv_closing t = 0 \<and> sv_loop t = LoopEnded"
proof -
  show "length es \<le> server_work s"
    using stopping.run_bounded [OF assms(2) _ assms(3)] assms(1) by (simp add: stopping_inv_def)
  assume rest: "\<nexists>e u. winds_down e \<and> server_step t e u"
  then have no: "\<not> server_step t e u" if "winds_down e" for e u using that by blast
  have "sv_serving t = []"
    using server_step.finish [of "hd (sv_serving t)" t] no [of "SFinish (hd (sv_serving t))"] by (cases "sv_serving t") auto
  moreover have "sv_closing t = 0" using server_step.release [of t] no [of SRelease] by (cases "sv_closing t") auto
  moreover have "sv_loop t = LoopEnded"
    using server_step.poll [of t] server_step.accept_error [of t] no [of SPoll] no [of SAcceptError]
    by (cases "sv_loop t") auto
  ultimately show "sv_serving t = [] \<and> sv_closing t = 0 \<and> sv_loop t = LoopEnded" by simp
qed

end
