(* ===== verification/JsonMatcher.thy ===== *)
theory JsonMatcher
  imports GoFloat GoJson Conditions
begin

text \<open>
  The matcher of JSON outputs, \<open>pkg/patterns/json_matcher.go\<close>, with the types of
  \<open>matcher.go\<close>: patterns \<open>$.path operator value\<close>, their validation, the extraction of a value
  by its path with indices and wildcards, and the comparison. Values are Go \<open>interface{}\<close> values
  as decoding a document and parsing a pattern make them. \<open>Panics\<close> is a run-time panic. Maps are
  ranged over in an arbitrary order \<open>rk\<close>; \<open>regexp.Compile\<close> and the text of decoding errors are
  parameters.
\<close>

datatype 'a go_result = Panics | Returns 'a

section \<open>Values and operators\<close>

datatype gvalue =
    GNil
  | GInt int
  | GFloat f64
  | GBool bool
  | GStr string
  | GArr "gvalue list"
  | GMap "(string \<times> gvalue) list"

fun from_json :: "json \<Rightarrow> gvalue" where
  "from_json JNull = GNil"
| "from_json (JBool b) = GBool b"
| "from_json (JNum l x) = GFloat x"
| "from_json (JStr t) = GStr t"
| "from_json (JArr vs) = GArr (map from_json vs)"
| "from_json (JObj ms) = GMap (map (\<lambda>kv. (fst kv, from_json (snd kv))) ms)"

text \<open>\<open>json.Unmarshal\<close> into an \<open>interface{}\<close>.\<close>

definition unmarshal_any :: "string \<Rightarrow> gvalue option" where
  "unmarshal_any s = (case json_decode s of
     Some v \<Rightarrow> if finite_json v then Some (from_json v) else None | None \<Rightarrow> None)"

definition map_get :: "(string \<times> gvalue) list \<Rightarrow> string \<Rightarrow> gvalue option" where
  "map_get ms k = map_of (rev ms) k"

datatype ComparisonOperator =
    OpEqual | OpNotEqual | OpGreaterThan | OpLessThan | OpGreaterThanOrEqual | OpLessThanOrEqual | OpRegexMatch
  | OpContains | OpStartsWith | OpEndsWith

fun Operator_String :: "ComparisonOperator \<Rightarrow> string" where
  "Operator_String OpEqual = ''==''"
| "Operator_String OpNotEqual = ''!=''"
| "Operator_String OpGreaterThan = ''>''"
| "Operator_String OpLessThan = ''<''"
| "Operator_String OpGreaterThanOrEqual = ''>=''"
| "Operator_String OpLessThanOrEqual = ''<=''"
| "Operator_String OpRegexMatch = ''=~''"
| "Operator_String OpContains = ''contains''"
| "Operator_String OpStartsWith = ''startsWith''"
| "Operator_String OpEndsWith = ''endsWith''"

datatype PatternType = PatternTypeJSON | PatternTypeRegex | PatternTypeMultiLine | PatternTypeHTTPStatus | PatternTypeCustom

fun PatternType_String :: "PatternType \<Rightarrow> string" where
  "PatternType_String PatternTypeJSON = ''json''"
| "PatternType_String PatternTypeRegex = ''regex''"
| "PatternType_String PatternTypeMultiLine = ''multiline''"
| "PatternType_String PatternTypeHTTPStatus = ''http_status''"
| "PatternType_String PatternTypeCustom = ''custom''"

record PatternError =
  pe_Type :: string
  pe_Message :: string
  pe_Pattern :: string
  pe_Input :: string

definition NewPatternError :: "string \<Rightarrow> string \<Rightarrow> string \<Rightarrow> PatternError" where
  "NewPatternError errorType message pattern =
     \<lparr>pe_Type = errorType, pe_Message = message, pe_Pattern = pattern, pe_Input = []\<rparr>"

definition PatternError_Error :: "PatternError \<Rightarrow> string" where
  "PatternError_Error pe =
     (if pe_Pattern pe \<noteq> [] then pe_Type pe @ '': '' @ pe_Message pe @ '' (pattern: '' @ pe_Pattern pe @ '')''
      else pe_Type pe @ '': '' @ pe_Message pe)"

record MatchMetrics =
  mm_TotalMatches :: int
  mm_SuccessfulMatches :: int
  mm_FailedMatches :: int
  mm_ErrorCount :: int
  mm_AverageMatchTime :: duration
  mm_TotalMatchTime :: duration
  mm_LastMatchTime :: instant
  mm_PatternComplexity :: int

definition zero_match_metrics :: MatchMetrics where
  "zero_match_metrics = \<lparr>mm_TotalMatches = 0, mm_SuccessfulMatches = 0, mm_FailedMatches = 0, mm_ErrorCount = 0,
     mm_AverageMatchTime = 0, mm_TotalMatchTime = 0, mm_LastMatchTime = 0, mm_PatternComplexity = 0\<rparr>"

record JSONPatternMatcher =
  jm_pattern :: string
  jm_jsonPath :: string
  jm_operator :: ComparisonOperator
  jm_expectedValue :: gvalue
  jm_compiledRegex :: "regexp option"
  jm_metrics :: MatchMetrics

section \<open>Parsing a pattern\<close>

text \<open>\<open>s[i:j]\<close> on strings.\<close>

definition slice :: "string \<Rightarrow> nat \<Rightarrow> nat \<Rightarrow> string go_result" where
  "slice s i j = (if i \<le> j \<and> j \<le> length s then Returns (take (j - i) (drop i s)) else Panics)"

definition path_error :: "string \<Rightarrow> string \<Rightarrow> PatternError" where
  "path_error msg path = NewPatternError ''JSONPathError'' msg path"

text \<open>One segment of a path: \<open>None\<close> when it is valid.\<close>

definition validate_part :: "string \<Rightarrow> string \<Rightarrow> PatternError option" where
  "validate_part path part =
     (if part = [] then Some (path_error ''JSONPath cannot have empty segments'' path)
      else if CHR ''['' \<in> set part then
        (case (index_of (CHR ''['') part, index_of (CHR '']'') part) of
           (Some openIdx, Some closeIdx) \<Rightarrow>
             if closeIdx \<le> openIdx then Some (path_error ''Invalid array access syntax: malformed brackets'' path)
             else (case slice part (openIdx + 1) closeIdx of
                     Returns indexPart \<Rightarrow>
                       if indexPart \<noteq> ''*'' \<and> parse_int indexPart = None
                       then Some (path_error (''Invalid array index: must be number or '' @ [CHR 0x27, CHR ''*'', CHR 0x27]) path) else None
                   | Panics \<Rightarrow> None)
         | _ \<Rightarrow> Some (path_error ''Invalid array access syntax: missing closing bracket'' path))
      else None)"

fun first_error :: "(string \<Rightarrow> PatternError option) \<Rightarrow> string list \<Rightarrow> PatternError option" where
  "first_error f [] = None"
| "first_error f (p # ps) = (case f p of Some e \<Rightarrow> Some e | None \<Rightarrow> first_error f ps)"

definition quoted_root :: string where
  "quoted_root = [CHR 0x27, CHR ''$'', CHR ''.'', CHR 0x27]"

definition validateJSONPath :: "string \<Rightarrow> PatternError option" where
  "validateJSONPath path =
     (if \<not> has_prefix path ''$.'' then Some (path_error (''JSONPath must start with '' @ quoted_root) path)
      else if contains path ''..'' then Some (path_error ''Invalid JSONPath syntax: consecutive dots not supported'' path)
      else if drop 2 path = [] then Some (path_error (''JSONPath cannot be empty after '' @ quoted_root) path)
      else first_error (validate_part path) (split_on (CHR ''.'') (drop 2 path)))"

definition trim_char :: "char \<Rightarrow> string \<Rightarrow> string" where
  "trim_char c s = rev (dropWhile (\<lambda>x. x = c) (rev (dropWhile (\<lambda>x. x = c) s)))"

definition parseExpectedValue :: "string \<Rightarrow> gvalue" where
  "parseExpectedValue valueStr =
     (if valueStr \<noteq> [] \<and> hd valueStr = CHR 0x22 \<and> last valueStr = CHR 0x22 then GStr (trim_char (CHR 0x22) valueStr)
      else case parse_int valueStr of Some n \<Rightarrow> GInt n
      | None \<Rightarrow> (case ParseFloat valueStr of Some x \<Rightarrow> GFloat x
      | None \<Rightarrow> (case ParseBool valueStr of Some b \<Rightarrow> GBool b
      | None \<Rightarrow> if valueStr = ''null'' then GNil else GStr valueStr)))"

definition operators :: "(string \<times> ComparisonOperator) list" where
  "operators = [(''=='', OpEqual), (''!='', OpNotEqual), (''>'', OpGreaterThan), (''<'', OpLessThan),
     (''>='', OpGreaterThanOrEqual), (''<='', OpLessThanOrEqual), (''=~'', OpRegexMatch)]"

definition spaced :: "string \<Rightarrow> string" where
  "spaced op = '' '' @ op @ '' ''"

definition find_operator :: "(string \<Rightarrow> nat) \<Rightarrow> string \<Rightarrow> (string \<times> ComparisonOperator) option" where
  "find_operator rk pattern = List.find (\<lambda>(op, _). contains pattern (spaced op)) (map_range rk operators)"

definition parsePattern ::
  "compiler \<Rightarrow> (string \<Rightarrow> nat) \<Rightarrow> string \<Rightarrow> (PatternError + JSONPatternMatcher) go_result" where
  "parsePattern compile rk pattern =
     (case find_operator rk pattern of
        None \<Rightarrow> Returns (Inl (NewPatternError ''ParseError'' ''Invalid pattern format'' pattern))
      | Some (op, foundOp) \<Rightarrow>
          (case split_str (spaced op) pattern of
             [left, right] \<Rightarrow>
               let path = trim_space left; expected = parseExpectedValue (trim_space right);
                   matcher = \<lparr>jm_pattern = pattern, jm_jsonPath = path, jm_operator = foundOp, jm_expectedValue = expected,
                              jm_compiledRegex = None, jm_metrics = zero_match_metrics\<rparr>
               in (case validateJSONPath path of
                     Some err \<Rightarrow> Returns (Inl err)
                   | None \<Rightarrow>
                       if foundOp \<noteq> OpRegexMatch then Returns (Inr matcher)
                       else (case expected of
                               GStr t \<Rightarrow>
                                 (case compile (''(?i)'' @ t) of
                                    Inl err \<Rightarrow> Returns (Inl (NewPatternError ''RegexError'' (''Invalid regex pattern: '' @ err) pattern))
                                  | Inr regex \<Rightarrow> Returns (Inr (matcher\<lparr>jm_compiledRegex := Some regex\<rparr>)))
                             | _ \<Rightarrow> Panics))
           | _ \<Rightarrow> Returns (Inl (NewPatternError ''ParseError'' ''Invalid pattern format'' pattern))))"

definition NewJSONPatternMatcher ::
  "compiler \<Rightarrow> (string \<Rightarrow> nat) \<Rightarrow> string \<Rightarrow> (PatternError + JSONPatternMatcher) go_result" where
  "NewJSONPatternMatcher compile rk pattern = parsePattern compile rk pattern"

section \<open>Extraction\<close>

definition navigateToField :: "gvalue \<Rightarrow> string \<Rightarrow> gvalue option" where
  "navigateToField data field = (case data of GMap ms \<Rightarrow> map_get ms field | _ \<Rightarrow> None)"

text \<open>
  The results of a wildcard: a panic in an element is a panic of the whole, elements without the
  value are left out.
\<close>

fun collect :: "gvalue option go_result list \<Rightarrow> gvalue list go_result" where
  "collect [] = Returns []"
| "collect (r # rs) =
     (case r of
        Panics \<Rightarrow> Panics
      | Returns v \<Rightarrow> (case collect rs of Panics \<Rightarrow> Panics
                     | Returns vs \<Rightarrow> Returns (case v of None \<Rightarrow> vs | Some x \<Rightarrow> x # vs)))"

fun extractValueRecursive :: "gvalue \<Rightarrow> string list \<Rightarrow> gvalue option go_result" where
  "extractValueRecursive current [] = Returns (Some current)"
| "extractValueRecursive current (part # remainingParts) =
     (if part = [] then extractValueRecursive current remainingParts
      else case (index_of (CHR ''['') part, index_of (CHR '']'') part) of
        (Some openIdx, Some closeIdx) \<Rightarrow>
          (case slice part (openIdx + 1) closeIdx of
             Panics \<Rightarrow> Panics
           | Returns indexPart \<Rightarrow>
               (case (if take openIdx part = [] then Some current else navigateToField current (take openIdx part)) of
                  Some (GArr arr) \<Rightarrow>
                    if indexPart = ''*'' then
                      (if remainingParts \<noteq> [] then
                         (case collect (map (\<lambda>item. extractValueRecursive item remainingParts) arr) of
                            Panics \<Rightarrow> Panics
                          | Returns results \<Rightarrow> Returns (if results \<noteq> [] then Some (GArr results) else None))
                       else Returns (Some (GArr arr)))
                    else (case parse_int indexPart of
                            Some index \<Rightarrow>
                              if 0 \<le> index \<and> index < int (length arr)
                              then extractValueRecursive (arr ! nat index) remainingParts
                              else Returns None
                          | None \<Rightarrow> Returns None)
                | _ \<Rightarrow> Returns None))
      | _ \<Rightarrow>
          (case navigateToField current part of
             None \<Rightarrow> Returns None
           | Some v \<Rightarrow> extractValueRecursive v remainingParts))"

definition extractValue :: "gvalue \<Rightarrow> string \<Rightarrow> gvalue option go_result" where
  "extractValue data path =
     (if \<not> has_prefix path ''$.'' then Returns None
      else extractValueRecursive data (split_on (CHR ''.'') (drop 2 path)))"

section \<open>Comparison\<close>

fun toFloat64 :: "gvalue \<Rightarrow> f64 option" where
  "toFloat64 (GInt n) = Some (f64_of_int n)"
| "toFloat64 (GFloat x) = Some x"
| "toFloat64 _ = None"

text \<open>The \<open>==\<close> of two interfaces: different dynamic types differ, two maps cannot be compared.\<close>

fun interface_eq :: "gvalue \<Rightarrow> gvalue \<Rightarrow> bool go_result" where
  "interface_eq GNil GNil = Returns True"
| "interface_eq (GInt m) (GInt n) = Returns (m = n)"
| "interface_eq (GFloat x) (GFloat y) = Returns (feq x y)"
| "interface_eq (GBool a) (GBool b) = Returns (a = b)"
| "interface_eq (GStr s) (GStr t) = Returns (s = t)"
| "interface_eq (GArr xs) (GArr ys) = Panics"
| "interface_eq (GMap xs) (GMap ys) = Panics"
| "interface_eq _ _ = Returns False"

fun any_returns :: "bool go_result list \<Rightarrow> bool go_result" where
  "any_returns [] = Returns False"
| "any_returns (r # rs) = (case r of Panics \<Rightarrow> Panics | Returns b \<Rightarrow> if b then Returns True else any_returns rs)"

fun compareEqual :: "gvalue \<Rightarrow> gvalue \<Rightarrow> bool go_result" where
  "compareEqual (GArr arr) expected = any_returns (map (\<lambda>item. compareEqual item expected) arr)"
| "compareEqual actual expected =
     (case (toFloat64 actual, toFloat64 expected) of
        (Some a, Some e) \<Rightarrow> Returns (feq a e)
      | _ \<Rightarrow> interface_eq actual expected)"

definition compareNumeric :: "gvalue \<Rightarrow> gvalue \<Rightarrow> (f64 \<Rightarrow> f64 \<Rightarrow> bool) \<Rightarrow> bool" where
  "compareNumeric actual expected rel =
     (case (toFloat64 actual, toFloat64 expected) of (Some a, Some e) \<Rightarrow> rel a e | _ \<Rightarrow> False)"

definition compareRegex :: "compiler \<Rightarrow> JSONPatternMatcher \<Rightarrow> gvalue \<Rightarrow> gvalue \<Rightarrow> bool" where
  "compareRegex compile j actual expected =
     (case actual of
        GStr actualStr \<Rightarrow>
          (case jm_compiledRegex j of
             Some regex \<Rightarrow> regex actualStr
           | None \<Rightarrow> (case expected of
                        GStr expectedStr \<Rightarrow>
                          (case compile (''(?i)'' @ expectedStr) of Inl _ \<Rightarrow> False | Inr regex \<Rightarrow> regex actualStr)
                      | _ \<Rightarrow> False))
      | _ \<Rightarrow> False)"

definition negate :: "bool go_result \<Rightarrow> bool go_result" where
  "negate r = (case r of Panics \<Rightarrow> Panics | Returns b \<Rightarrow> Returns (\<not> b))"

definition compareValues :: "compiler \<Rightarrow> JSONPatternMatcher \<Rightarrow> gvalue \<Rightarrow> gvalue \<Rightarrow> bool go_result" where
  "compareValues compile j actual expected =
     (case jm_operator j of
        OpEqual \<Rightarrow> compareEqual actual expected
      | OpNotEqual \<Rightarrow> negate (compareEqual actual expected)
      | OpGreaterThan \<Rightarrow> Returns (compareNumeric actual expected (\<lambda>a e. flt e a))
      | OpLessThan \<Rightarrow> Returns (compareNumeric actual expected flt)
      | OpGreaterThanOrEqual \<Rightarrow> Returns (compareNumeric actual expected (\<lambda>a e. fle e a))
      | OpLessThanOrEqual \<Rightarrow> Returns (compareNumeric actual expected fle)
      | OpRegexMatch \<Rightarrow> Returns (compareRegex compile j actual expected)
      | _ \<Rightarrow> Returns False)"

definition resolveContextValue :: "gvalue \<Rightarrow> (string \<times> gvalue) list \<Rightarrow> gvalue" where
  "resolveContextValue v context =
     (case v of
        GStr str \<Rightarrow> if has_prefix str ''$ctx.'' then (case map_get context (drop 5 str) of Some x \<Rightarrow> x | None \<Rightarrow> v) else v
      | _ \<Rightarrow> v)"

section \<open>Matching\<close>

definition updateMetrics :: "duration \<Rightarrow> instant \<Rightarrow> MatchMetrics \<Rightarrow> MatchMetrics" where
  "updateMetrics d now m =
     (let total = wrap64 (mm_TotalMatches m + 1); time = wrap64 (mm_TotalMatchTime m + d)
      in m\<lparr>mm_TotalMatches := total, mm_TotalMatchTime := time, mm_LastMatchTime := now,
           mm_AverageMatchTime := (if 0 < total then quo time total else mm_AverageMatchTime m)\<rparr>)"

definition count_match :: "bool \<Rightarrow> MatchMetrics \<Rightarrow> MatchMetrics" where
  "count_match result m =
     (if result then m\<lparr>mm_SuccessfulMatches := wrap64 (mm_SuccessfulMatches m + 1)\<rparr>
      else m\<lparr>mm_FailedMatches := wrap64 (mm_FailedMatches m + 1)\<rparr>)"

definition count_error :: "MatchMetrics \<Rightarrow> MatchMetrics" where
  "count_error m = m\<lparr>mm_ErrorCount := wrap64 (mm_ErrorCount m + 1)\<rparr>"

text \<open>
  \<open>MatchWithContext\<close> with the time it took and the instant it ended; \<open>None\<close> as a context is
  \<open>nil\<close>. A panic leaves through the deferred update of the metrics.
\<close>

definition MatchWithContext ::
  "compiler \<Rightarrow> (string \<Rightarrow> string) \<Rightarrow> duration \<Rightarrow> instant \<Rightarrow> JSONPatternMatcher \<Rightarrow> string \<Rightarrow> (string \<times> gvalue) list option
     \<Rightarrow> (PatternError + bool) go_result \<times> JSONPatternMatcher" where
  "MatchWithContext compile json_error d now j input context =
     (let finish = (\<lambda>f. j\<lparr>jm_metrics := updateMetrics d now (f (jm_metrics j))\<rparr>)
      in case unmarshal_any input of
           None \<Rightarrow> (Returns (Inl (NewPatternError ''JSONParseError'' (''Invalid JSON: '' @ json_error input) (jm_pattern j))),
                    finish count_error)
         | Some jsonData \<Rightarrow>
             (case extractValue jsonData (jm_jsonPath j) of
                Panics \<Rightarrow> (Panics, finish id)
              | Returns None \<Rightarrow> (Returns (Inr False), finish id)
              | Returns (Some v) \<Rightarrow>
                  let expected = (case context of None \<Rightarrow> jm_expectedValue j
                                  | Some ctx \<Rightarrow> resolveContextValue (jm_expectedValue j) ctx)
                  in (case compareValues compile j v expected of
                        Panics \<Rightarrow> (Panics, finish id)
                      | Returns result \<Rightarrow> (Returns (Inr result), finish (count_match result)))))"

definition Match ::
  "compiler \<Rightarrow> (string \<Rightarrow> string) \<Rightarrow> duration \<Rightarrow> instant \<Rightarrow> JSONPatternMatcher \<Rightarrow> string
     \<Rightarrow> (PatternError + bool) go_result \<times> JSONPatternMatcher" where
  "Match compile json_error d now j input = MatchWithContext compile json_error d now j input None"

section \<open>Validated paths\<close>

lemma index_of_None: "index_of c s = None \<longleftrightarrow> c \<notin> set s"
proof -
  have "length (takeWhile (\<lambda>x. x \<noteq> c) s) < length s \<longleftrightarrow> c \<in> set s" by (induction s) auto
  then show ?thesis by (auto simp: index_of_def Let_def)
qed

lemma index_of_mem: "index_of c s = Some n \<Longrightarrow> c \<in> set s"
  using index_of_None [of c s] by (cases "c \<in> set s") auto

lemma index_of_le_length: "index_of c s = Some n \<Longrightarrow> n \<le> length s"
  using index_of_less by fastforce

lemma first_error_None: "first_error f ps = None \<Longrightarrow> p \<in> set ps \<Longrightarrow> f p = None"
  by (induction ps) (auto split: option.splits)

text \<open>A segment that can be used: no brackets in the wrong order, and an index or a star between them.\<close>

definition usable_part :: "string \<Rightarrow> bool" where
  "usable_part part \<longleftrightarrow> part \<noteq> [] \<and>
     (case (index_of (CHR ''['') part, index_of (CHR '']'') part) of
        (Some i, Some j) \<Rightarrow> i < j \<and>
          (take (j - (i + 1)) (drop (i + 1) part) = ''*'' \<or> parse_int (take (j - (i + 1)) (drop (i + 1) part)) \<noteq> None)
      | _ \<Rightarrow> True)"

lemma validate_part_usable: "validate_part path part = None \<Longrightarrow> usable_part part"
  by (auto simp: validate_part_def usable_part_def slice_def index_of_None
      dest: index_of_le_length index_of_mem split: if_splits option.splits)

lemma validated_parts:
  "validateJSONPath path = None \<Longrightarrow> p \<in> set (split_on (CHR ''.'') (drop 2 path)) \<Longrightarrow> usable_part p"
  by (auto simp: validateJSONPath_def split: if_splits dest: first_error_None validate_part_usable)

section \<open>What a path selects\<close>

datatype path_step = Field string | Item string int | Each string

definition step_of :: "string \<Rightarrow> path_step" where
  "step_of part =
     (case (index_of (CHR ''['') part, index_of (CHR '']'') part) of
        (Some i, Some j) \<Rightarrow>
          (case parse_int (take (j - (i + 1)) (drop (i + 1) part)) of
             Some n \<Rightarrow> Item (take i part) n
           | None \<Rightarrow> Each (take i part))
      | _ \<Rightarrow> Field part)"

definition steps :: "string \<Rightarrow> path_step list" where
  "steps path = map step_of (split_on (CHR ''.'') (drop 2 path))"

definition array_at :: "gvalue \<Rightarrow> string \<Rightarrow> gvalue list" where
  "array_at v f = (case (if f = [] then Some v else navigateToField v f) of Some (GArr arr) \<Rightarrow> arr | _ \<Rightarrow> [])"

fun selected :: "gvalue \<Rightarrow> path_step list \<Rightarrow> gvalue list" where
  "selected v [] = [v]"
| "selected v (Field f # ss) = (case navigateToField v f of None \<Rightarrow> [] | Some w \<Rightarrow> selected w ss)"
| "selected v (Item f i # ss) =
     (if 0 \<le> i \<and> i < int (length (array_at v f)) then selected (array_at v f ! nat i) ss else [])"
| "selected v (Each f # ss) = concat (map (\<lambda>x. selected x ss) (array_at v f))"

text \<open>Values inside arrays, arrays of arrays flattened.\<close>

fun leaves :: "gvalue \<Rightarrow> gvalue list" where
  "leaves (GArr vs) = concat (map leaves vs)"
| "leaves v = [v]"

definition result_leaves :: "gvalue option \<Rightarrow> gvalue list" where
  "result_leaves r = (case r of None \<Rightarrow> [] | Some v \<Rightarrow> leaves v)"

lemma collect_leaves:
  "(\<And>x. x \<in> set xs \<Longrightarrow> \<exists>r. f x = Returns r \<and> result_leaves r = concat (map leaves (g x))) \<Longrightarrow>
   \<exists>vs. collect (map f xs) = Returns vs \<and> concat (map leaves vs) = concat (map leaves (concat (map g xs)))"
proof (induction xs)
  case (Cons x xs)
  obtain r where r: "f x = Returns r" "result_leaves r = concat (map leaves (g x))" using Cons.prems [of x] by auto
  obtain vs where vs: "collect (map f xs) = Returns vs" "concat (map leaves vs) = concat (map leaves (concat (map g xs)))"
    using Cons.IH Cons.prems by auto
  from r vs show ?case by (cases r) (auto simp: result_leaves_def)
qed simp

lemma parse_int_star: "parse_int ''*'' = None"
  by code_simp

text \<open>A segment with brackets at an array.\<close>

lemma extract_array:
  assumes ne: "part \<noteq> []" and ij: "index_of (CHR ''['') part = Some i" "index_of (CHR '']'') part = Some j"
    and sl: "slice part (i + 1) j = Returns ix"
    and arr: "(if take i part = [] then Some v else navigateToField v (take i part)) = Some (GArr arr)"
    and ix: "ix = ''*'' \<or> parse_int ix \<noteq> None"
    and IH: "\<And>w. \<exists>r. extractValueRecursive w parts = Returns r \<and> result_leaves r = concat (map leaves (selected w ss))"
  shows "\<exists>r. extractValueRecursive v (part # parts) = Returns r \<and> result_leaves r = concat (map leaves
    (case parse_int ix of
       None \<Rightarrow> concat (map (\<lambda>x. selected x ss) arr)
     | Some n \<Rightarrow> if 0 \<le> n \<and> n < int (length arr) then selected (arr ! nat n) ss else []))"
proof (cases "ix = ''*''")
  case True
  note star = True
  show ?thesis
  proof (cases "parts = []")
    case True
    then have "leaves w = concat (map leaves (selected w ss))" for w using IH [of w] by (simp add: result_leaves_def)
    then have "concat (map leaves arr) = concat (map leaves (concat (map (\<lambda>x. selected x ss) arr)))"
      by (induction arr) auto
    with True star ne ij sl arr show ?thesis by (simp add: parse_int_star result_leaves_def)
  next
    case False
    obtain vs where "collect (map (\<lambda>w. extractValueRecursive w parts) arr) = Returns vs"
      "concat (map leaves vs) = concat (map leaves (concat (map (\<lambda>x. selected x ss) arr)))"
      using collect_leaves [of arr "\<lambda>w. extractValueRecursive w parts" "\<lambda>x. selected x ss"] IH by blast
    with False star ne ij sl arr show ?thesis by (auto simp: parse_int_star result_leaves_def)
  qed
next
  case False
  then obtain n where "parse_int ix = Some n" using ix by auto
  then show ?thesis using False ne ij sl arr IH by (auto simp: result_leaves_def)
qed

lemma extract_no_array:
  assumes ne: "part \<noteq> []" and ij: "index_of (CHR ''['') part = Some i" "index_of (CHR '']'') part = Some j"
    and sl: "slice part (i + 1) j = Returns ix"
    and arr: "\<nexists>arr. (if take i part = [] then Some v else navigateToField v (take i part)) = Some (GArr arr)"
  shows "extractValueRecursive v (part # parts) = Returns None"
proof (cases "if take i part = [] then Some v else navigateToField v (take i part)")
  case None
  then show ?thesis using ne ij sl by simp
next
  case (Some w)
  with arr ne ij sl show ?thesis by (cases w) (simp_all only: extractValueRecursive.simps, simp_all)
qed

lemma selected_array:
  assumes "index_of (CHR ''['') part = Some i" "index_of (CHR '']'') part = Some j"
  shows "selected v (step_of part # ss) =
    (case parse_int (take (j - (i + 1)) (drop (i + 1) part)) of
       None \<Rightarrow> concat (map (\<lambda>x. selected x ss) (array_at v (take i part)))
     | Some n \<Rightarrow> if 0 \<le> n \<and> n < int (length (array_at v (take i part)))
         then selected (array_at v (take i part) ! nat n) ss else [])"
  using assms by (simp add: step_of_def split: option.splits)

text \<open>Extraction neither panics nor misses a value.\<close>

lemma extract_selected:
  "list_all usable_part parts \<Longrightarrow>
     \<exists>r. extractValueRecursive v parts = Returns r
       \<and> result_leaves r = concat (map leaves (selected v (map step_of parts)))"
proof (induction parts arbitrary: v)
  case Nil
  then show ?case by (simp add: result_leaves_def)
next
  case (Cons part parts)
  have "usable_part part" and ps: "list_all usable_part parts" using Cons.prems by auto
  then have ne: "part \<noteq> []" by (simp add: usable_part_def)
  note IH = Cons.IH [OF ps]
  show ?case
  proof (cases "index_of (CHR ''['') part \<noteq> None \<and> index_of (CHR '']'') part \<noteq> None")
    case False
    then have "step_of part = Field part" by (auto simp: step_of_def split: option.splits)
    moreover have "extractValueRecursive v (part # parts) =
        (case navigateToField v part of None \<Rightarrow> Returns None | Some w \<Rightarrow> extractValueRecursive w parts)"
      using False ne by (auto split: option.splits)
    ultimately show ?thesis using IH by (cases "navigateToField v part") (auto simp: result_leaves_def)
  next
    case True
    then obtain i j where ij: "index_of (CHR ''['') part = Some i" "index_of (CHR '']'') part = Some j" by auto
    let ?ix = "take (j - (i + 1)) (drop (i + 1) part)"
    let ?arr = "if take i part = [] then Some v else navigateToField v (take i part)"
    have "i < j" and ix: "?ix = ''*'' \<or> parse_int ?ix \<noteq> None" using Cons.prems ij by (auto simp: usable_part_def)
    then have sl: "slice part (i + 1) j = Returns ?ix" using index_of_le_length [OF ij(2)] by (simp add: slice_def)
    show ?thesis
    proof (cases "\<exists>arr. ?arr = Some (GArr arr)")
      case False
      then have "extractValueRecursive v (part # parts) = Returns None"
        using extract_no_array [OF ne ij sl, of v] by blast
      moreover have "array_at v (take i part) = []"
        using False by (auto simp: array_at_def split: option.splits gvalue.splits)
      then have "selected v (map step_of (part # parts)) = []"
        using selected_array [OF ij, of v "map step_of parts"]
        by (cases "parse_int ?ix") (auto split: if_splits)
      ultimately show ?thesis by (simp add: result_leaves_def del: extractValueRecursive.simps)
    next
      case True
      then obtain arr where arr: "?arr = Some (GArr arr)" by blast
      then have at: "array_at v (take i part) = arr" by (simp add: array_at_def)
      show ?thesis using extract_array [OF ne ij sl arr ix IH] selected_array [OF ij, of v "map step_of parts"]
        by (simp only: at list.map)
    qed
  qed
qed

section \<open>What a pattern matches\<close>

fun scalar :: "gvalue \<Rightarrow> bool" where
  "scalar (GArr vs) = False"
| "scalar (GMap ms) = False"
| "scalar _ = True"

text \<open>Equality with the value of a pattern: numbers by their float64 values.\<close>

definition leaf_eq :: "gvalue \<Rightarrow> gvalue \<Rightarrow> bool" where
  "leaf_eq x e = (case (toFloat64 x, toFloat64 e) of (Some a, Some b) \<Rightarrow> feq a b | _ \<Rightarrow> x = e)"

lemma parseExpectedValue_scalar: "scalar (parseExpectedValue t)"
  by (simp add: parseExpectedValue_def split: option.splits)

lemma any_returns_map: "(\<And>x. x \<in> set xs \<Longrightarrow> f x = Returns (P x)) \<Longrightarrow> any_returns (map f xs) = Returns (list_ex P xs)"
  by (induction xs) auto

lemma list_ex_concat: "list_ex P (concat xss) = list_ex (list_ex P) xss"
  by (induction xss) auto

lemma compareEqual_leaves: "scalar e \<Longrightarrow> compareEqual v e = Returns (list_ex (\<lambda>x. leaf_eq x e) (leaves v))"
proof (induction v e rule: compareEqual.induct)
  case (1 arr e)
  then have "compareEqual (GArr arr) e = Returns (list_ex (\<lambda>v. list_ex (\<lambda>x. leaf_eq x e) (leaves v)) arr)"
    by (simp add: any_returns_map)
  then show ?case by (simp add: list_ex_concat list_ex_iff)
qed (auto simp: leaf_eq_def split: option.splits elim: scalar.elims)

lemma parsed_matcher:
  assumes "NewJSONPatternMatcher compile rk pattern = Returns (Inr j)"
  shows "validateJSONPath (jm_jsonPath j) = None" and "scalar (jm_expectedValue j)"
proof -
  from assms have "validateJSONPath (jm_jsonPath j) = None \<and> scalar (jm_expectedValue j)"
    by (auto simp: NewJSONPatternMatcher_def parsePattern_def Let_def parseExpectedValue_scalar
        split: option.splits list.splits if_splits gvalue.splits sum.splits)
  then show "validateJSONPath (jm_jsonPath j) = None" and "scalar (jm_expectedValue j)" by auto
qed

lemma extract_validated:
  assumes "validateJSONPath path = None"
  obtains r where "extractValue v path = Returns r" "result_leaves r = concat (map leaves (selected v (steps path)))"
proof -
  have "has_prefix path ''$.''" using assms by (auto simp: validateJSONPath_def split: if_splits)
  moreover have "list_all usable_part (split_on (CHR ''.'') (drop 2 path))"
    using validated_parts [OF assms] by (auto simp: list_all_iff)
  from extract_selected [OF this, of v] obtain r where
    "extractValueRecursive v (split_on (CHR ''.'') (drop 2 path)) = Returns r"
    "result_leaves r = concat (map leaves (selected v (map step_of (split_on (CHR ''.'') (drop 2 path)))))" by blast
  ultimately show thesis using that by (simp add: extractValue_def steps_def del: extractValueRecursive.simps)
qed

lemma compareValues_returns: "scalar e \<Longrightarrow> compareValues compile j v e \<noteq> Panics"
  by (cases "jm_operator j") (auto simp: compareValues_def compareEqual_leaves negate_def)

text \<open>C17. A pattern that is accepted never panics on any output, and a pattern \<open>path == value\<close> matches a
  JSON output exactly when one of the values the path selects, arrays of any depth flattened, equals the value:
  a plain segment selects a field, \<open>f[i]\<close> the element of an array field, and \<open>f[*]\<close> all
  of them; numbers are compared as float64.\<close>

theorem json_match_correct:
  assumes "NewJSONPatternMatcher compile rk pattern = Returns (Inr j)"
  shows "fst (Match compile json_error d now j input) \<noteq> Panics
    \<and> (jm_operator j = OpEqual \<longrightarrow> unmarshal_any input = Some data \<longrightarrow>
         fst (Match compile json_error d now j input) =
           Returns (Inr (list_ex (\<lambda>v. list_ex (\<lambda>x. leaf_eq x (jm_expectedValue j)) (leaves v))
             (selected data (steps (jm_jsonPath j))))))"
proof -
  note j = parsed_matcher [OF assms]
  have "fst (Match compile json_error d now j input) \<noteq> Panics"
  proof (cases "unmarshal_any input")
    case (Some v)
    obtain r where r: "extractValue v (jm_jsonPath j) = Returns r" using extract_validated [OF j(1)] by blast
    show ?thesis
    proof (cases r)
      case (Some w)
      obtain b where "compareValues compile j w (jm_expectedValue j) = Returns b"
        using compareValues_returns [OF j(2), of compile j w] by (cases "compareValues compile j w (jm_expectedValue j)") auto
      with Some r \<open>unmarshal_any input = Some v\<close> show ?thesis by (simp add: Match_def MatchWithContext_def Let_def)
    qed (use r \<open>unmarshal_any input = Some v\<close> in \<open>simp add: Match_def MatchWithContext_def Let_def\<close>)
  qed (simp add: Match_def MatchWithContext_def Let_def)
  moreover have "fst (Match compile json_error d now j input) =
      Returns (Inr (list_ex (\<lambda>v. list_ex (\<lambda>x. leaf_eq x (jm_expectedValue j)) (leaves v))
        (selected data (steps (jm_jsonPath j)))))"
    if op: "jm_operator j = OpEqual" and data: "unmarshal_any input = Some data"
  proof -
    obtain r where r: "extractValue data (jm_jsonPath j) = Returns r"
      "result_leaves r = concat (map leaves (selected data (steps (jm_jsonPath j))))"
      using extract_validated [OF j(1)] by blast
    have flat: "list_ex P (result_leaves r) = list_ex (\<lambda>v. list_ex P (leaves v)) (selected data (steps (jm_jsonPath j)))" for P
      by (simp add: r(2) list_ex_concat list_ex_iff)
    show ?thesis
    proof (cases r)
      case None
      then have "\<not> list_ex P (result_leaves r)" for P by (simp add: result_leaves_def)
      then show ?thesis using r(1) None op data flat by (simp add: Match_def MatchWithContext_def Let_def)
    next
      case (Some w)
      then show ?thesis using r(1) op data flat [of "\<lambda>x. leaf_eq x (jm_expectedValue j)"] compareEqual_leaves [OF j(2), of w]
        by (simp add: Match_def MatchWithContext_def Let_def compareValues_def result_leaves_def)
    qed
  qed
  ultimately show ?thesis by blast
qed

section \<open>Operators\<close>

lemma find_key_unique:
  assumes "distinct (map fst xs)" "(op, x) \<in> set xs" "P op" "\<And>o' y. (o', y) \<in> set xs \<Longrightarrow> P o' \<Longrightarrow> o' = op"
  shows "List.find (\<lambda>(o', _). P o') xs = Some (op, x)"
  using assms
proof (induction xs)
  case (Cons z zs)
  obtain o' y where z: "z = (o', y)" by (cases z)
  show ?case
  proof (cases "P o'")
    case True
    then have "o' = op" using Cons.prems(4) [of o' y] z by simp
    moreover have "op \<notin> fst ` set zs" using Cons.prems(1) z \<open>o' = op\<close> by simp
    then have "(op, x) \<notin> set zs" by (metis fst_conv image_eqI)
    ultimately have "z = (op, x)" using Cons.prems(2) z by simp
    then show ?thesis using True z by simp
  next
    case False
    then have mem: "(op, x) \<in> set zs" using Cons.prems(2,3) z by auto
    have "List.find (\<lambda>(o', _). P o') zs = Some (op, x)"
    proof (rule Cons.IH [OF _ mem Cons.prems(3)])
      show "distinct (map fst zs)" using Cons.prems(1) by simp
      show "o' = op" if "(o', y) \<in> set zs" "P o'" for o' y using Cons.prems(4) [of o' y] that by simp
    qed
    then show ?thesis using False z by simp
  qed
qed simp

text \<open>With a single operator in the pattern the order of the map does not matter.\<close>

lemma find_operator_unique:
  assumes "(op, x) \<in> set operators" "contains pattern (spaced op)"
    and "\<And>o' y. (o', y) \<in> set operators \<Longrightarrow> contains pattern (spaced o') \<Longrightarrow> o' = op"
  shows "find_operator rk pattern = Some (op, x)"
  unfolding find_operator_def
proof (rule find_key_unique)
  show "distinct (map fst (map_range rk operators))" unfolding distinct_map_range by (simp add: operators_def)
  show "(op, x) \<in> set (map_range rk operators)" using assms(1) by simp
  show "contains pattern (spaced op)" by fact
  fix o' y
  assume "(o', y) \<in> set (map_range rk operators)" "contains pattern (spaced o')"
  then show "o' = op" using assms(3) [of o' y] by simp
qed

text \<open>With two operators it does: the value may be cut at either.\<close>

lemma operator_depends_on_order:
  "find_operator (\<lambda>op. length op) ''$.a > 1 == x'' = Some (''>'', OpGreaterThan)"
  "find_operator (\<lambda>op. if op = ''=='' then 0 else 1) ''$.a > 1 == x'' = Some (''=='', OpEqual)"
  by code_simp+

text \<open>A regular expression that reads as a number, a boolean or null makes the constructor panic.\<close>

lemma numeric_regex_panics: "NewJSONPatternMatcher compile rk ''$.code =~ 404'' = Panics"
proof -
  have "find_operator rk ''$.code =~ 404'' = Some (''=~'', OpRegexMatch)"
    by (rule find_operator_unique) (auto simp: operators_def spaced_def)
  moreover have "split_str (spaced ''=~'') ''$.code =~ 404'' = [''$.code'', ''404'']" by code_simp
  moreover have "trim_space ''$.code'' = ''$.code''" "trim_space ''404'' = ''404''" by code_simp+
  moreover have "validateJSONPath ''$.code'' = None" "parseExpectedValue ''404'' = GInt 404" by code_simp+
  ultimately show ?thesis by (simp add: NewJSONPatternMatcher_def parsePattern_def)
qed

text \<open>Whatever follows the first closing bracket of a segment is ignored.\<close>

lemma second_index_ignored:
  "validateJSONPath ''$.a[0][1]'' = None" "step_of ''a[0][1]'' = Item ''a'' 0"
  by code_simp+

definition sample_matcher :: JSONPatternMatcher where
  "sample_matcher = \<lparr>jm_pattern = ''$.e[*].c == 7'', jm_jsonPath = ''$.e[*].c'', jm_operator = OpEqual,
     jm_expectedValue = GInt 7, jm_compiledRegex = None, jm_metrics = zero_match_metrics\<rparr>"

lemma sample_matcher_made: "NewJSONPatternMatcher compile rk ''$.e[*].c == 7'' = Returns (Inr sample_matcher)"
proof -
  have "find_operator rk ''$.e[*].c == 7'' = Some (''=='', OpEqual)"
    by (rule find_operator_unique) (auto simp: operators_def spaced_def)
  moreover have "split_str (spaced ''=='') ''$.e[*].c == 7'' = [''$.e[*].c'', ''7'']" by code_simp
  moreover have "trim_space ''$.e[*].c'' = ''$.e[*].c''" "trim_space ''7'' = ''7''" by code_simp+
  moreover have "validateJSONPath ''$.e[*].c'' = None" "parseExpectedValue ''7'' = GInt 7" by code_simp+
  ultimately show ?thesis by (simp add: NewJSONPatternMatcher_def parsePattern_def sample_matcher_def)
qed

definition sample_json :: string where
  "sample_json = ''{'' @ [CHR 0x22, CHR ''e'', CHR 0x22] @ '':[{'' @ [CHR 0x22, CHR ''c'', CHR 0x22] @ '':7}]}''"

theorem json_match_correct_witness:
  "fst (Match (\<lambda>_. Inl []) (\<lambda>_. []) 0 0 sample_matcher sample_json) = Returns (Inr True)"
proof -
  have "unmarshal_any sample_json = Some (GMap [(''e'', GArr [GMap [(''c'', GFloat (Fin 7))]])])" by code_simp
  then have "fst (Match (\<lambda>_. Inl []) (\<lambda>_. []) 0 0 sample_matcher sample_json) =
      Returns (Inr (list_ex (\<lambda>v. list_ex (\<lambda>x. leaf_eq x (jm_expectedValue sample_matcher)) (leaves v))
        (selected (GMap [(''e'', GArr [GMap [(''c'', GFloat (Fin 7))]])]) (steps (jm_jsonPath sample_matcher)))))"
    using json_match_correct [OF sample_matcher_made [of "\<lambda>_. Inl []" "\<lambda>_. 0"], of "\<lambda>_. []" 0 0 sample_json]
    by (simp add: sample_matcher_def)
  also have "(list_ex (\<lambda>v. list_ex (\<lambda>x. leaf_eq x (jm_expectedValue sample_matcher)) (leaves v))
        (selected (GMap [(''e'', GArr [GMap [(''c'', GFloat (Fin 7))]])]) (steps (jm_jsonPath sample_matcher)))) = True"
    by code_simp
  finally show ?thesis .
qed

end
