(* ===== verification/Patterns.thy ===== *)
theory Patterns
  imports JsonMatcher
begin

text \<open>
  The multi-line matchers of \<open>pkg/patterns/multiline_matcher.go\<close> and the pattern sets of
  \<open>pkg/patterns/pattern_set.go\<close>. A compiled regular expression is the record of the functions the
  code calls on it; \<open>regexp.Compile\<close> and \<open>regexp.QuoteMeta\<close> are parameters, as are the YAML decoder
  and the embedded files. The clock readings of a match are its duration and the instant of its end.
  Go maps are association lists with distinct keys that are ranged over in an arbitrary order. The
  deferred division by the number of matches could only fail after \<open>2 ^ 64\<close> matches.
\<close>

record Regexp =
  re_MatchString :: regexp
  re_FindStringSubmatch :: "string \<Rightarrow> string list"
  re_FindAllStringSubmatch :: "string \<Rightarrow> string list list"

type_synonym re_compiler = "string \<Rightarrow> string + Regexp"

definition match_compiler :: "re_compiler \<Rightarrow> compiler" where
  "match_compiler compile p = map_sum id re_MatchString (compile p)"

section \<open>The tables of known patterns\<close>

record predefined =
  pd_pattern :: string
  pd_kind :: string
  pd_extractors :: "(string \<times> string) list"

text \<open>In the tables below \<open>#\<close> stands for a backslash, \<open>~\<close> for a double and a back quote for a single quote.\<close>

definition rx :: "string \<Rightarrow> string" where
  "rx s = map (\<lambda>c. if c = CHR ''#'' then CHR 0x5C else if c = CHR ''~'' then CHR 0x22
                   else if c = CHR 0x60 then CHR 0x27 else c) s"

definition stackTracePatterns :: "(string \<times> predefined) list" where
  "stackTracePatterns =
    [(''java_exception'', \<lparr>pd_pattern = rx ''(?s)Exception in thread.*?#n(#s+at .*?)'', pd_kind = ''java'',
      pd_extractors = [(''exception_type'', rx ''Exception in thread ~.*?~ ([^:]+)''),
        (''message'', rx ''Exception in thread ~.*?~ [^:]+: (.*?)#n''),
        (''stack_frames'', rx ''#s+at ([^#n]+)'')]\<rparr>),
     (''python_exception'', \<lparr>pd_pattern = rx ''(?s)Traceback #(most recent call last#):.*?#n([^#n]+Error: .*?)$'', pd_kind = ''python'',
      pd_extractors = [(''exception_type'', rx ''([^#n]+Error): ''),
        (''message'', rx ''[^#n]+Error: (.*?)$''),
        (''stack_frames'', rx ''File ~([^~]+)~, line (#d+), in ([^#n]+)'')]\<rparr>),
     (''go_panic'', \<lparr>pd_pattern = rx ''(?s)panic: (.*?)#n#[signal.*?#]#n#ngoroutine.*?#[running#]:'', pd_kind = ''go'',
      pd_extractors = [(''panic_message'', rx ''panic: (.*?)#n''),
        (''signal'', rx ''#[signal ([^#]]+)#]''),
        (''goroutine_id'', rx ''goroutine (#d+) #[running#]'')]\<rparr>),
     (''javascript_error'', \<lparr>pd_pattern = rx ''(?s)(#w+Error): ([^#n]+)#n(#s+at .*?#n)+'', pd_kind = ''javascript'',
      pd_extractors = [(''error_type'', rx ''(#w+Error): ''),
        (''message'', rx ''#w+Error: ([^#n]+)''),
        (''stack_frames'', rx ''#s+at ([^#n]+)'')]\<rparr>),
     (''csharp_exception'', \<lparr>pd_pattern = rx ''(?s)Unhandled exception#. ([^:]+): ([^#n]+)#n(#s+at .*?#n)+'', pd_kind = ''csharp'',
      pd_extractors = [(''exception_type'', rx ''Unhandled exception#. ([^:]+): ''),
        (''message'', rx ''Unhandled exception#. [^:]+: ([^#n]+)''),
        (''stack_frames'', rx ''#s+at ([^#n]+)'')]\<rparr>),
     (''rust_panic'', \<lparr>pd_pattern = rx ''(?s)thread `.*?` panicked at `([^`]+)`, ([^#n]+)#nstack backtrace:'', pd_kind = ''rust'',
      pd_extractors = [(''panic_message'', rx ''thread `.*?` panicked at `([^`]+)`''),
        (''location'', rx ''panicked at `[^`]+`, ([^#n]+)''),
        (''thread_name'', rx ''thread `([^`]+)` panicked'')]\<rparr>)]"

definition structuredLogPatterns :: "(string \<times> predefined) list" where
  "structuredLogPatterns =
    [(''json_error'', \<lparr>pd_pattern = rx ''(?s)#{[^}]*~level~#s*:#s*~ERROR~[^}]*#}'', pd_kind = ''json'',
      pd_extractors = [(''timestamp'', rx ''~timestamp~#s*:#s*~([^~]+)~''),
        (''message'', rx ''~message~#s*:#s*~([^~]+)~''),
        (''error_type'', rx ''~type~#s*:#s*~([^~]+)~'')]\<rparr>),
     (''yaml_error'', \<lparr>pd_pattern = rx ''(?s)error:#s*#n#s+code:#s*#d+#s*#n#s+message:'', pd_kind = ''yaml'',
      pd_extractors = [(''error_code'', rx ''code:#s*(#d+)''),
        (''message'', rx ''message:#s*([^#n]+)'')]\<rparr>),
     (''xml_error'', \<lparr>pd_pattern = rx ''(?s)<error>.*?<code>#d+</code>.*?<message>.*?</message>.*?</error>'', pd_kind = ''xml'',
      pd_extractors = [(''error_code'', rx ''<code>(#d+)</code>''),
        (''message'', rx ''<message>(.*?)</message>''),
        (''path'', rx ''<path>(.*?)</path>'')]\<rparr>),
     (''log_continuation'', \<lparr>pd_pattern = rx ''(?s)#d{4}-#d{2}-#d{2} #d{2}:#d{2}:#d{2} ERROR [^#n]+#n(#s+[^#n]+#n)+'', pd_kind = ''text'',
      pd_extractors = [(''timestamp'', rx ''(#d{4}-#d{2}-#d{2} #d{2}:#d{2}:#d{2})''),
        (''main_message'', rx ''ERROR ([^#n]+)''),
        (''details'', rx ''#n(#s+[^#n]+)'')]\<rparr>),
     (''multiline_json_array'', \<lparr>pd_pattern = rx ''(?s)#[#s*#{[^#]]*~error~[^#]]*#}#s*#]'', pd_kind = ''json'',
      pd_extractors = [(''error_objects'', rx ''#{([^}]*~error~[^}]*)#}'')]\<rparr>),
     (''docker_build_error'', \<lparr>pd_pattern = rx ''(?s)Step #d+/#d+ : .*?#n.*?npm ERR!.*?#nThe command.*?returned a non-zero code'', pd_kind = ''text'',
      pd_extractors = [(''step'', rx ''Step (#d+/#d+)''),
        (''command'', rx ''The command `([^`]+)`''),
        (''exit_code'', rx ''returned a non-zero code: (#d+)'')]\<rparr>),
     (''k8s_crashloop'', \<lparr>pd_pattern = rx ''(?s)Events:.*?Type#s+Reason#s+Age.*?Warning#s+BackOff.*?Back-off restarting failed container'', pd_kind = ''text'',
      pd_extractors = [(''pod_name'', rx ''Successfully assigned [^/]+/([^#s]+)''),
        (''backoff_count'', rx ''#(x(#d+) over'')]\<rparr>),
     (''db_pool_exhausted'', \<lparr>pd_pattern = rx ''(?s)HikariPool-#d+ - Connection is not available.*?request timed out.*?Database operation failed'', pd_kind = ''text'',
      pd_extractors = [(''pool_name'', rx ''(HikariPool-#d+)''),
        (''timeout_ms'', rx ''timed out after (#d+)ms'')]\<rparr>),
     (''api_rate_limit_detailed'', \<lparr>pd_pattern = rx ''(?s)HTTP/1#.1 429 Too Many Requests.*?X-RateLimit-Limit: #d+.*?#{.*?~rate_limit_exceeded~.*?#}'', pd_kind = ''text'',
      pd_extractors = [(''rate_limit'', rx ''X-RateLimit-Limit: (#d+)''),
        (''remaining'', rx ''X-RateLimit-Remaining: (#d+)''),
        (''reset_time'', rx ''X-RateLimit-Reset: (#d+)''),
        (''retry_after'', rx ''Retry-After: (#d+)'')]\<rparr>)]"

section \<open>Matchers\<close>

record MultiLinePatternMatcher =
  ml_pattern :: string
  ml_regex :: "Regexp option"
  ml_metrics :: MatchMetrics

record StackTraceResult =
  sr_Matched :: bool
  sr_RootCause :: string
  sr_StackTrace :: "string list"
  sr_Language :: string
  sr_MatchTime :: duration
  sr_Context :: "string \<rightharpoonup> gvalue"

record StackTracePatternMatcher =
  stm_pattern :: string
  stm_patternType :: string
  stm_regex :: "Regexp option"
  stm_extractors :: "(string \<times> Regexp) list"
  stm_language :: string
  stm_metrics :: MatchMetrics

record StructuredLogPatternMatcher =
  sl_pattern :: string
  sl_patternType :: string
  sl_regex :: "Regexp option"
  sl_extractors :: "(string \<times> Regexp) list"
  sl_format :: string
  sl_metrics :: MatchMetrics

record StreamingMultiLinePatternMatcher =
  sm_pattern :: string
  sm_regex :: "Regexp option"
  sm_buffer :: string
  sm_matched :: bool
  sm_maxBuffer :: int
  sm_metrics :: MatchMetrics

record RealWorldScenarioMatcher =
  rw_scenario :: string
  rw_regex :: "Regexp option"
  rw_metrics :: MatchMetrics

definition complexity :: "string \<Rightarrow> MatchMetrics" where
  "complexity p = zero_match_metrics\<lparr>mm_PatternComplexity := int (length p)\<rparr>"

definition empty_pattern :: "string \<Rightarrow> PatternError" where
  "empty_pattern p = NewPatternError ''invalid_pattern'' ''pattern cannot be empty'' p"

text \<open>The flag that lets the dot match line ends, added unless it is there.\<close>

definition with_dotall :: "string \<Rightarrow> string" where
  "with_dotall pattern =
     (if \<not> contains pattern ''(?s)'' \<and> \<not> contains pattern ''(?ms)'' then ''(?s)'' @ pattern else pattern)"

definition compile_custom :: "re_compiler \<Rightarrow> string \<Rightarrow> PatternError + Regexp" where
  "compile_custom compile pattern =
     (case compile (with_dotall pattern) of
        Inl err \<Rightarrow> Inl (NewPatternError ''compilation_error'' (''failed to compile regex: '' @ err) pattern)
      | Inr regex \<Rightarrow> Inr regex)"

definition NewMultiLinePatternMatcher :: "re_compiler \<Rightarrow> string \<Rightarrow> PatternError + MultiLinePatternMatcher" where
  "NewMultiLinePatternMatcher compile pattern =
     (if pattern = [] then Inl (empty_pattern pattern)
      else case compile_custom compile pattern of
        Inl err \<Rightarrow> Inl err
      | Inr regex \<Rightarrow> Inr \<lparr>ml_pattern = pattern, ml_regex = Some regex, ml_metrics = complexity pattern\<rparr>)"

text \<open>The deferred update of the metrics and the counted test all matchers share.\<close>

definition deferred_metrics :: "duration \<Rightarrow> instant \<Rightarrow> MatchMetrics \<Rightarrow> MatchMetrics" where
  "deferred_metrics d now m =
     (let total = wrap64 (mm_TotalMatches m + 1); time = wrap64 (mm_TotalMatchTime m + d)
      in m\<lparr>mm_TotalMatches := total, mm_TotalMatchTime := time, mm_AverageMatchTime := wrap64 (quo time total),
           mm_LastMatchTime := now\<rparr>)"

definition regex_match ::
  "duration \<Rightarrow> instant \<Rightarrow> string \<Rightarrow> Regexp option \<Rightarrow> string \<Rightarrow> MatchMetrics \<Rightarrow> (PatternError + bool) \<times> MatchMetrics" where
  "regex_match d now pattern regex input m =
     (case regex of
        None \<Rightarrow> (Inl (NewPatternError ''matcher_error'' ''regex not compiled'' pattern), deferred_metrics d now (count_error m))
      | Some re \<Rightarrow> let matched = re_MatchString re input in (Inr matched, deferred_metrics d now (count_match matched m)))"

definition MultiLine_Match ::
  "duration \<Rightarrow> instant \<Rightarrow> MultiLinePatternMatcher \<Rightarrow> string \<Rightarrow> (PatternError + bool) \<times> MultiLinePatternMatcher" where
  "MultiLine_Match d now m input =
     (let (r, ms) = regex_match d now (ml_pattern m) (ml_regex m) input (ml_metrics m) in (r, m\<lparr>ml_metrics := ms\<rparr>))"

definition validate_matcher :: "string \<Rightarrow> string \<Rightarrow> Regexp option \<Rightarrow> PatternError option" where
  "validate_matcher what pattern regex =
     (if pattern = [] then Some (NewPatternError ''validation_error'' (what @ '' cannot be empty'') pattern)
      else if regex = None then Some (NewPatternError ''validation_error'' ''regex not compiled'' pattern)
      else None)"

definition MultiLine_Validate :: "MultiLinePatternMatcher \<Rightarrow> PatternError option" where
  "MultiLine_Validate m = validate_matcher ''pattern'' (ml_pattern m) (ml_regex m)"

section \<open>Stack traces and structured logs\<close>

fun compile_extractors :: "re_compiler \<Rightarrow> (string \<times> string) list \<Rightarrow> PatternError + (string \<times> Regexp) list" where
  "compile_extractors compile [] = Inr []"
| "compile_extractors compile ((name, p) # r) =
     (case compile p of
        Inl err \<Rightarrow> Inl (NewPatternError ''compilation_error'' (''failed to compile extractor '' @ name @ '': '' @ err) p)
      | Inr re \<Rightarrow> (case compile_extractors compile r of Inl err \<Rightarrow> Inl err | Inr es \<Rightarrow> Inr ((name, re) # es)))"

text \<open>A predefined pattern compiled with its extractors, which are ranged over in the order \<open>rk\<close>.\<close>

definition compile_predefined ::
  "re_compiler \<Rightarrow> (string \<Rightarrow> nat) \<Rightarrow> string \<Rightarrow> predefined \<Rightarrow> PatternError + Regexp \<times> (string \<times> Regexp) list" where
  "compile_predefined compile rk pattern pd =
     (case compile (pd_pattern pd) of
        Inl err \<Rightarrow> Inl (NewPatternError ''compilation_error'' (''failed to compile predefined pattern: '' @ err) pattern)
      | Inr regex \<Rightarrow>
          (case compile_extractors compile (map_range rk (pd_extractors pd)) of
             Inl err \<Rightarrow> Inl err
           | Inr es \<Rightarrow> Inr (regex, es)))"

definition NewStackTracePatternMatcher ::
  "re_compiler \<Rightarrow> (string \<Rightarrow> nat) \<Rightarrow> string \<Rightarrow> PatternError + StackTracePatternMatcher" where
  "NewStackTracePatternMatcher compile rk pattern =
     (if pattern = [] then Inl (empty_pattern pattern)
      else case map_of stackTracePatterns pattern of
        Some pd \<Rightarrow>
          (case compile_predefined compile rk pattern pd of
             Inl err \<Rightarrow> Inl err
           | Inr (regex, es) \<Rightarrow>
               Inr \<lparr>stm_pattern = pattern, stm_patternType = pattern, stm_regex = Some regex, stm_extractors = es,
                    stm_language = pd_kind pd, stm_metrics = complexity (pd_pattern pd)\<rparr>)
      | None \<Rightarrow>
          (case compile_custom compile pattern of
             Inl err \<Rightarrow> Inl err
           | Inr regex \<Rightarrow>
               Inr \<lparr>stm_pattern = pattern, stm_patternType = ''custom'', stm_regex = Some regex, stm_extractors = [],
                    stm_language = ''unknown'', stm_metrics = complexity pattern\<rparr>))"

text \<open>\<open>matches[1]\<close> where there is a match with a group.\<close>

definition first_group :: "string list \<Rightarrow> string option" where
  "first_group ms = (if 1 < length ms then Some (ms ! 1) else None)"

definition extract_group :: "(string \<times> Regexp) list \<Rightarrow> string \<Rightarrow> string \<Rightarrow> string option" where
  "extract_group es name input =
     (case map_of es name of None \<Rightarrow> None | Some re \<Rightarrow> first_group (re_FindStringSubmatch re input))"

text \<open>The first of the three extractors that exists names the root cause, whether or not it finds one.\<close>

definition root_extractor :: "(string \<times> Regexp) list \<Rightarrow> string option" where
  "root_extractor es =
     (if map_of es ''exception_type'' \<noteq> None then Some ''exception_type''
      else if map_of es ''error_type'' \<noteq> None then Some ''error_type''
      else if map_of es ''panic_message'' \<noteq> None then Some ''panic_message''
      else None)"

definition stack_frames :: "(string \<times> Regexp) list \<Rightarrow> string \<Rightarrow> string list" where
  "stack_frames es input =
     (case map_of es ''stack_frames'' of
        None \<Rightarrow> []
      | Some re \<Rightarrow> List.map_filter first_group (re_FindAllStringSubmatch re input))"

definition set_some :: "string \<Rightarrow> string option \<Rightarrow> (string \<rightharpoonup> gvalue) \<Rightarrow> (string \<rightharpoonup> gvalue)" where
  "set_some k v c = (case v of None \<Rightarrow> c | Some s \<Rightarrow> c(k \<mapsto> GStr s))"

definition extract_all :: "(string \<times> Regexp) list \<Rightarrow> string \<Rightarrow> StackTraceResult \<Rightarrow> StackTraceResult" where
  "extract_all es input r =
     (if es = [] then r
      else let (cause, c1) = (case root_extractor es of
                   None \<Rightarrow> (None, Map.empty)
                 | Some n \<Rightarrow> (extract_group es n input, set_some n (extract_group es n input) Map.empty));
               c2 = set_some ''message'' (extract_group es ''message'' input) c1;
               frames = stack_frames es input;
               c3 = (if frames \<noteq> [] then c2(''stack_frames'' \<mapsto> GArr (map GStr frames)) else c2)
           in r\<lparr>sr_RootCause := (case cause of None \<Rightarrow> sr_RootCause r | Some s \<Rightarrow> s),
                sr_StackTrace := (if frames \<noteq> [] then frames else sr_StackTrace r), sr_Context := c3\<rparr>)"

text \<open>\<open>d0\<close> is the time taken by the match itself, \<open>d\<close> by the whole call.\<close>

definition MatchWithExtraction ::
  "duration \<Rightarrow> duration \<Rightarrow> instant \<Rightarrow> StackTracePatternMatcher \<Rightarrow> string
     \<Rightarrow> (PatternError + StackTraceResult) \<times> StackTracePatternMatcher" where
  "MatchWithExtraction d0 d now s input =
     (let finish = (\<lambda>f. s\<lparr>stm_metrics := deferred_metrics d now (f (stm_metrics s))\<rparr>)
      in case stm_regex s of
           None \<Rightarrow> (Inl (NewPatternError ''matcher_error'' ''regex not compiled'' (stm_pattern s)), finish count_error)
         | Some re \<Rightarrow>
             let matched = re_MatchString re input;
                 result = \<lparr>sr_Matched = matched, sr_RootCause = [], sr_StackTrace = [], sr_Language = stm_language s,
                           sr_MatchTime = d0, sr_Context = Map.empty\<rparr>
             in if \<not> matched then (Inr result, finish (count_match False))
                else let r1 = extract_all (stm_extractors s) input result;
                         r2 = (if sr_RootCause r1 = []
                               then (case first_group (re_FindStringSubmatch re input) of
                                       None \<Rightarrow> r1 | Some g \<Rightarrow> r1\<lparr>sr_RootCause := trim_space g\<rparr>)
                               else r1)
                     in (Inr r2, finish (count_match True)))"

definition StackTrace_Match ::
  "duration \<Rightarrow> duration \<Rightarrow> instant \<Rightarrow> StackTracePatternMatcher \<Rightarrow> string
     \<Rightarrow> (PatternError + bool) \<times> StackTracePatternMatcher" where
  "StackTrace_Match d0 d now s input =
     (let (r, s') = MatchWithExtraction d0 d now s input in (map_sum id sr_Matched r, s'))"

definition StackTrace_Validate :: "StackTracePatternMatcher \<Rightarrow> PatternError option" where
  "StackTrace_Validate s = validate_matcher ''pattern'' (stm_pattern s) (stm_regex s)"

definition NewStructuredLogPatternMatcher ::
  "re_compiler \<Rightarrow> (string \<Rightarrow> nat) \<Rightarrow> string \<Rightarrow> PatternError + StructuredLogPatternMatcher" where
  "NewStructuredLogPatternMatcher compile rk pattern =
     (if pattern = [] then Inl (empty_pattern pattern)
      else case map_of structuredLogPatterns pattern of
        Some pd \<Rightarrow>
          (case compile_predefined compile rk pattern pd of
             Inl err \<Rightarrow> Inl err
           | Inr (regex, es) \<Rightarrow>
               Inr \<lparr>sl_pattern = pattern, sl_patternType = pattern, sl_regex = Some regex, sl_extractors = es,
                    sl_format = pd_kind pd, sl_metrics = complexity (pd_pattern pd)\<rparr>)
      | None \<Rightarrow>
          (case compile_custom compile pattern of
             Inl err \<Rightarrow> Inl err
           | Inr regex \<Rightarrow>
               Inr \<lparr>sl_pattern = pattern, sl_patternType = ''custom'', sl_regex = Some regex, sl_extractors = [],
                    sl_format = ''unknown'', sl_metrics = complexity pattern\<rparr>))"

definition StructuredLog_Match ::
  "duration \<Rightarrow> instant \<Rightarrow> StructuredLogPatternMatcher \<Rightarrow> string \<Rightarrow> (PatternError + bool) \<times> StructuredLogPatternMatcher" where
  "StructuredLog_Match d now m input =
     (let (r, ms) = regex_match d now (sl_pattern m) (sl_regex m) input (sl_metrics m) in (r, m\<lparr>sl_metrics := ms\<rparr>))"

definition StructuredLog_Validate :: "StructuredLogPatternMatcher \<Rightarrow> PatternError option" where
  "StructuredLog_Validate m = validate_matcher ''pattern'' (sl_pattern m) (sl_regex m)"

section \<open>Streams and scenarios\<close>

definition NewStreamingMultiLinePatternMatcher ::
  "re_compiler \<Rightarrow> string \<Rightarrow> PatternError + StreamingMultiLinePatternMatcher" where
  "NewStreamingMultiLinePatternMatcher compile pattern =
     (if pattern = [] then Inl (empty_pattern pattern)
      else case compile_custom compile pattern of
        Inl err \<Rightarrow> Inl err
      | Inr regex \<Rightarrow> Inr \<lparr>sm_pattern = pattern, sm_regex = Some regex, sm_buffer = [], sm_matched = False,
                          sm_maxBuffer = 1024 * 1024, sm_metrics = complexity pattern\<rparr>)"

definition trim_buffer :: "string \<Rightarrow> string" where
  "trim_buffer currentContent = drop (length currentContent div 2) currentContent"

definition ProcessChunk ::
  "duration \<Rightarrow> instant \<Rightarrow> StreamingMultiLinePatternMatcher \<Rightarrow> string
     \<Rightarrow> PatternError option \<times> StreamingMultiLinePatternMatcher" where
  "ProcessChunk d now sm chunk =
     (let finish = (\<lambda>sm'. sm'\<lparr>sm_metrics := deferred_metrics d now (sm_metrics sm')\<rparr>)
      in case sm_regex sm of
           None \<Rightarrow> (Some (NewPatternError ''matcher_error'' ''regex not compiled'' (sm_pattern sm)),
                    finish (sm\<lparr>sm_metrics := count_error (sm_metrics sm)\<rparr>))
         | Some re \<Rightarrow>
             if sm_matched sm then (None, finish sm)
             else let buf = (if sm_maxBuffer sm < int (length (sm_buffer sm)) + int (length chunk)
                             then trim_buffer (sm_buffer sm) else sm_buffer sm) @ chunk;
                      hit = re_MatchString re buf
                  in (None, finish (sm\<lparr>sm_buffer := buf, sm_matched := hit, sm_metrics := count_match hit (sm_metrics sm)\<rparr>)))"

definition HasMatch :: "StreamingMultiLinePatternMatcher \<Rightarrow> bool" where
  "HasMatch sm = sm_matched sm"

definition Streaming_Reset :: "StreamingMultiLinePatternMatcher \<Rightarrow> StreamingMultiLinePatternMatcher" where
  "Streaming_Reset sm = sm\<lparr>sm_buffer := [], sm_matched := False\<rparr>"

definition NewRealWorldScenarioMatcher ::
  "re_compiler \<Rightarrow> (string \<Rightarrow> string) \<Rightarrow> string \<Rightarrow> PatternError + RealWorldScenarioMatcher" where
  "NewRealWorldScenarioMatcher compile quoteMeta scenario =
     (let made = (\<lambda>p c. case compile p of
            Inl err \<Rightarrow> Inl (NewPatternError ''compilation_error'' (''failed to compile scenario pattern: '' @ err) scenario)
          | Inr regex \<Rightarrow> Inr \<lparr>rw_scenario = scenario, rw_regex = Some regex, rw_metrics = complexity c\<rparr>)
      in if scenario = [] then Inl (NewPatternError ''invalid_scenario'' ''scenario cannot be empty'' scenario)
         else case map_of structuredLogPatterns scenario of
           Some pd \<Rightarrow> made (pd_pattern pd) (pd_pattern pd)
         | None \<Rightarrow> made (''(?s).*'' @ quoteMeta scenario @ ''.*'') scenario)"

definition RealWorld_Match ::
  "duration \<Rightarrow> instant \<Rightarrow> RealWorldScenarioMatcher \<Rightarrow> string \<Rightarrow> (PatternError + bool) \<times> RealWorldScenarioMatcher" where
  "RealWorld_Match d now r input =
     (let (v, ms) = regex_match d now (rw_scenario r) (rw_regex r) input (rw_metrics r) in (v, r\<lparr>rw_metrics := ms\<rparr>))"

definition RealWorld_Validate :: "RealWorldScenarioMatcher \<Rightarrow> PatternError option" where
  "RealWorld_Validate r = validate_matcher ''scenario'' (rw_scenario r) (rw_regex r)"

section \<open>Streaming finds what the whole text has\<close>

text \<open>The chunks of a stream, each with the clock readings of its call.\<close>

definition process_chunks ::
  "(duration \<times> instant \<times> string) list \<Rightarrow> StreamingMultiLinePatternMatcher \<Rightarrow> StreamingMultiLinePatternMatcher" where
  "process_chunks cs sm = foldl (\<lambda>sm (d, now, chunk). snd (ProcessChunk d now sm chunk)) sm cs"

lemma process_chunks_simps [simp]:
  "process_chunks [] sm = sm"
  "process_chunks (cs @ [(d, now, chunk)]) sm = snd (ProcessChunk d now (process_chunks cs sm) chunk)"
  by (simp_all add: process_chunks_def)

lemma ProcessChunk_fixed [simp]:
  "sm_regex (snd (ProcessChunk d now sm chunk)) = sm_regex sm"
  "sm_maxBuffer (snd (ProcessChunk d now sm chunk)) = sm_maxBuffer sm"
  by (simp_all add: ProcessChunk_def Let_def split: option.splits)

lemma process_chunks_fixed [simp]:
  "sm_regex (process_chunks cs sm) = sm_regex sm"
  "sm_maxBuffer (process_chunks cs sm) = sm_maxBuffer sm"
  by (induction cs rule: rev_induct) (auto simp: process_chunks_def split: prod.splits)

lemma NewStreaming_fields:
  assumes "NewStreamingMultiLinePatternMatcher compile pattern = Inr sm"
  obtains re where "compile (with_dotall pattern) = Inr re" "sm_regex sm = Some re" "sm_buffer sm = []"
    "\<not> sm_matched sm" "sm_maxBuffer sm = 1048576"
  using assms by (auto simp: NewStreamingMultiLinePatternMatcher_def compile_custom_def split: if_splits sum.splits)

abbreviation texts :: "(duration \<times> instant \<times> string) list \<Rightarrow> string list" where
  "texts cs \<equiv> map (\<lambda>(_, _, chunk). chunk) cs"

lemma ex_take_snoc: "(\<exists>k\<in>{1..length (xs @ [x])}. P (take k (xs @ [x]))) \<longleftrightarrow> (\<exists>k\<in>{1..length xs}. P (take k xs)) \<or> P (xs @ [x])"
proof -
  have "{1..length (xs @ [x])} = insert (Suc (length xs)) {1..length xs}" by auto
  then show ?thesis by (auto simp del: length_append)
qed

lemma stream_state:
  assumes "sm_regex sm = Some re" "sm_buffer sm = []" "\<not> sm_matched sm"
    and "int (length (concat (texts cs))) \<le> sm_maxBuffer sm"
  shows "sm_matched (process_chunks cs sm) = (\<exists>k\<in>{1..length cs}. re_MatchString re (concat (take k (texts cs))))
       \<and> (\<not> sm_matched (process_chunks cs sm) \<longrightarrow> sm_buffer (process_chunks cs sm) = concat (texts cs))"
  using assms(4)
proof (induction cs rule: rev_induct)
  case Nil
  then show ?case using assms by simp
next
  case (snoc x cs)
  obtain d now chunk where x: "x = (d, now, chunk)" by (cases x) auto
  let ?s = "process_chunks cs sm"
  have IH: "sm_matched ?s = (\<exists>k\<in>{1..length cs}. re_MatchString re (concat (take k (texts cs))))"
    "\<not> sm_matched ?s \<Longrightarrow> sm_buffer ?s = concat (texts cs)"
    using snoc by simp_all
  have ex: "(\<exists>k\<in>{1..length (cs @ [x])}. re_MatchString re (concat (take k (texts (cs @ [x]))))) \<longleftrightarrow>
      sm_matched ?s \<or> re_MatchString re (concat (texts cs) @ chunk)"
    using ex_take_snoc [of "texts cs" chunk "\<lambda>ys. re_MatchString re (concat ys)"] IH(1) by (simp add: x)
  show ?case
  proof (cases "sm_matched ?s")
    case True
    then show ?thesis unfolding ex using assms(1) by (simp add: x ProcessChunk_def)
  next
    case False
    then show ?thesis unfolding ex using snoc.prems assms(1) IH(2) by (simp add: x ProcessChunk_def Let_def)
  qed
qed

text \<open>C31. As long as a stream stays within the megabyte of the buffer, the streaming matcher reports a match exactly
  when the expression matches the text received up to the end of some chunk: no match is lost over the border of
  two chunks, and one that is found stays found.\<close>

theorem streaming_matches_prefixes:
  assumes "NewStreamingMultiLinePatternMatcher compile pattern = Inr sm" "compile (with_dotall pattern) = Inr re"
    and "length (concat (texts cs)) \<le> 1048576"
  shows "HasMatch (process_chunks cs sm) \<longleftrightarrow> (\<exists>k\<in>{1..length cs}. re_MatchString re (concat (take k (texts cs))))"
proof -
  obtain re' where "compile (with_dotall pattern) = Inr re'" "sm_regex sm = Some re'" "sm_buffer sm = []"
    "\<not> sm_matched sm" "sm_maxBuffer sm = 1048576" using NewStreaming_fields [OF assms(1)] .
  then show ?thesis using stream_state [of sm re cs] assms(2,3) by (simp add: HasMatch_def)
qed

text \<open>
  The buffer is halved once before a chunk is added, whatever the chunk's size: it stays within the
  limit for chunks of at most half of it, and otherwise within twice the longest chunk.
\<close>

lemma ProcessChunk_buffer:
  assumes "int (length (sm_buffer sm)) \<le> max (sm_maxBuffer sm) (2 * int C)" "length chunk \<le> C"
  shows "int (length (sm_buffer (snd (ProcessChunk d now sm chunk)))) \<le> max (sm_maxBuffer sm) (2 * int C)"
  using assms by (auto simp: ProcessChunk_def Let_def trim_buffer_def split: option.splits)

lemma stream_buffer_bound:
  assumes "NewStreamingMultiLinePatternMatcher compile pattern = Inr sm" "\<And>chunk. chunk \<in> set (texts cs) \<Longrightarrow> length chunk \<le> C"
  shows "length (sm_buffer (process_chunks cs sm)) \<le> max 1048576 (2 * C)"
proof -
  obtain re where sm: "sm_buffer sm = []" "sm_maxBuffer sm = 1048576" using NewStreaming_fields [OF assms(1)] .
  have "int (length (sm_buffer (process_chunks cs sm))) \<le> max (sm_maxBuffer sm) (2 * int C)"
    using assms(2)
  proof (induction cs rule: rev_induct)
    case (snoc x cs)
    obtain d now chunk where x: "x = (d, now, chunk)" by (cases x) auto
    have "length chunk \<le> C" using snoc.prems [of chunk] by (simp add: x)
    moreover have "int (length (sm_buffer (process_chunks cs sm))) \<le> max (sm_maxBuffer sm) (2 * int C)"
      using snoc.IH snoc.prems by simp
    ultimately show ?case using ProcessChunk_buffer [of "process_chunks cs sm" C chunk d now] by (simp add: x)
  qed (simp add: sm)
  then show ?thesis by (simp add: sm)
qed

text \<open>So a single long chunk takes the buffer over its limit.\<close>

lemma stream_buffer_exceeds_limit:
  assumes "sm_regex sm = Some re" "\<not> sm_matched sm" "sm_maxBuffer sm < int (length chunk)"
  shows "sm_maxBuffer sm < int (length (sm_buffer (snd (ProcessChunk d now sm chunk))))"
  using assms by (auto simp: ProcessChunk_def Let_def)

text \<open>A matcher after \<open>Reset\<close> behaves as a new one, the counters apart.\<close>

lemma stream_reset:
  assumes "sm_regex sm = Some re" "int (length (concat (texts cs))) \<le> sm_maxBuffer sm"
  shows "HasMatch (process_chunks cs (Streaming_Reset sm)) \<longleftrightarrow>
           (\<exists>k\<in>{1..length cs}. re_MatchString re (concat (take k (texts cs))))"
  using stream_state [of "Streaming_Reset sm" re cs] assms by (simp add: HasMatch_def Streaming_Reset_def)

section \<open>The extracted stack trace\<close>

text \<open>The expressions of the tables that no alternative of the code reads: their groups never reach a result.\<close>

definition read_extractors :: "string list" where
  "read_extractors = [''exception_type'', ''error_type'', ''panic_message'', ''message'', ''stack_frames'']"

lemma context_keys:
  assumes "MatchWithExtraction d0 d now s input = (Inr r, s')"
  shows "dom (sr_Context r) \<subseteq> set read_extractors"
  using assms
  by (auto simp: MatchWithExtraction_def extract_all_def Let_def set_some_def read_extractors_def root_extractor_def
      split: if_splits option.splits)

section \<open>A stream cut inside the match\<close>

definition sample_re :: Regexp where
  "sample_re = \<lparr>re_MatchString = (\<lambda>s. contains s ''ERROR''), re_FindStringSubmatch = (\<lambda>_. []),
     re_FindAllStringSubmatch = (\<lambda>_. [])\<rparr>"

definition sample_stream :: StreamingMultiLinePatternMatcher where
  "sample_stream = \<lparr>sm_pattern = ''ERROR'', sm_regex = Some sample_re, sm_buffer = [], sm_matched = False,
     sm_maxBuffer = 1024 * 1024, sm_metrics = complexity ''ERROR''\<rparr>"

theorem streaming_matches_prefixes_witness:
  "NewStreamingMultiLinePatternMatcher (\<lambda>_. Inr sample_re) ''ERROR'' = Inr sample_stream
   \<and> HasMatch (process_chunks [(1, 5, ''ok ER''), (1, 6, ''ROR 7''), (1, 7, ''ok'')] sample_stream)
   \<and> \<not> HasMatch (process_chunks [(1, 5, ''ok ER'')] sample_stream)"
proof -
  have new: "NewStreamingMultiLinePatternMatcher (\<lambda>_. Inr sample_re) ''ERROR'' = Inr sample_stream"
    by (simp add: NewStreamingMultiLinePatternMatcher_def compile_custom_def sample_stream_def)
  have "(\<exists>k\<in>{1..Suc (Suc (Suc 0))}. re_MatchString sample_re (concat (take k [''ok ER'', ''ROR 7'', ''ok''])))"
    by (rule bexI [of _ 2]) (simp_all add: sample_re_def)
  moreover have "\<not> re_MatchString sample_re ''ok ER''" by (simp add: sample_re_def)
  ultimately show ?thesis
    using new streaming_matches_prefixes [OF new refl, of "[(1, 5, ''ok ER''), (1, 6, ''ROR 7''), (1, 7, ''ok'')]"]
      streaming_matches_prefixes [OF new refl, of "[(1, 5, ''ok ER'')]"]
    by simp
qed

end
