(* ===== verification/PatternSets.thy ===== *)
theory PatternSets
  imports Patterns "HOL-Library.List_Lexorder" "HOL-Library.Char_ord"
begin

text \<open>
  Pattern sets, \<open>pkg/patterns/pattern_set.go\<close>: priorities and categories with their names, the
  loading and validation of a set, the choice of the matching pattern, and the selections by
  category, priority and tag. The YAML decoder and the embedded file system are parameters.
\<close>

section \<open>Definitions of patterns\<close>

text \<open>\<open>Priority\<close> and \<open>Category\<close> are Go integers with named constants.\<close>

type_synonym Priority = int
type_synonym Category = int

abbreviation PriorityLow :: Priority where "PriorityLow \<equiv> 0"
abbreviation PriorityMedium :: Priority where "PriorityMedium \<equiv> 1"
abbreviation PriorityHigh :: Priority where "PriorityHigh \<equiv> 2"
abbreviation PriorityCritical :: Priority where "PriorityCritical \<equiv> 3"

definition Priority_String :: "Priority \<Rightarrow> string" where
  "Priority_String p =
     (if p = PriorityLow then ''low'' else if p = PriorityMedium then ''medium'' else if p = PriorityHigh then ''high''
      else if p = PriorityCritical then ''critical'' else ''unknown'')"

abbreviation CategorySuccess :: Category where "CategorySuccess \<equiv> 0"
abbreviation CategoryError :: Category where "CategoryError \<equiv> 1"
abbreviation CategoryWarning :: Category where "CategoryWarning \<equiv> 2"
abbreviation CategoryInfo :: Category where "CategoryInfo \<equiv> 3"
abbreviation CategoryRetry :: Category where "CategoryRetry \<equiv> 4"

definition Category_String :: "Category \<Rightarrow> string" where
  "Category_String c =
     (if c = CategorySuccess then ''success'' else if c = CategoryError then ''error''
      else if c = CategoryWarning then ''warning'' else if c = CategoryInfo then ''info''
      else if c = CategoryRetry then ''retry'' else ''unknown'')"

text \<open>The argument is what decoding the YAML node as a string gives.\<close>

definition Priority_UnmarshalYAML :: "string + string \<Rightarrow> string + Priority" where
  "Priority_UnmarshalYAML v =
     (case v of
        Inl err \<Rightarrow> Inl err
      | Inr s \<Rightarrow> (let l = map lower s in
          if l = ''low'' then Inr PriorityLow else if l = ''medium'' then Inr PriorityMedium
          else if l = ''high'' then Inr PriorityHigh else if l = ''critical'' then Inr PriorityCritical
          else Inl (''invalid priority: '' @ s)))"

definition Category_UnmarshalYAML :: "string + string \<Rightarrow> string + Category" where
  "Category_UnmarshalYAML v =
     (case v of
        Inl err \<Rightarrow> Inl err
      | Inr s \<Rightarrow> (let l = map lower s in
          if l = ''success'' then Inr CategorySuccess else if l = ''error'' then Inr CategoryError
          else if l = ''warning'' then Inr CategoryWarning else if l = ''info'' then Inr CategoryInfo
          else if l = ''retry'' then Inr CategoryRetry else Inl (''invalid category: '' @ s)))"

record PatternDefinition =
  pn_Pattern :: string
  pn_Description :: string
  pn_Priority :: Priority
  pn_Category :: Category
  pn_Tags :: "string list"
  pn_Metadata :: "(string \<times> gvalue) list"

record PatternSet =
  ps_Name :: string
  ps_Version :: string
  ps_Description :: string
  ps_Author :: string
  ps_Patterns :: "(string \<times> PatternDefinition) list"
  ps_Metadata :: "(string \<times> gvalue) list"

record MatchResult =
  mr_Matched :: bool
  mr_PatternName :: string
  mr_Pattern :: "PatternDefinition option"
  mr_MatchTime :: duration
  mr_Context :: "(string \<times> gvalue) list option"

section \<open>Validation and loading\<close>

definition quoted :: "string \<Rightarrow> string" where
  "quoted s = [CHR 0x27] @ s @ [CHR 0x27]"

text \<open>
  A ranking of the operator map is drawn for every pattern, \<open>rks name\<close>; a panic of the pattern
  parser is a panic of the validation.
\<close>

fun validate_patterns ::
  "compiler \<Rightarrow> (string \<Rightarrow> string \<Rightarrow> nat) \<Rightarrow> (string \<times> PatternDefinition) list \<Rightarrow> string option go_result" where
  "validate_patterns compile rks [] = Returns None"
| "validate_patterns compile rks ((name, pattern) # r) =
     (if pn_Pattern pattern = [] then Returns (Some (''pattern '' @ quoted name @ '' has empty pattern string''))
      else if pn_Description pattern = [] then Returns (Some (''pattern '' @ quoted name @ '' has empty description''))
      else case NewJSONPatternMatcher compile (rks name) (pn_Pattern pattern) of
             Panics \<Rightarrow> Panics
           | Returns (Inl err) \<Rightarrow>
               Returns (Some (''pattern '' @ quoted name @ '' has invalid pattern syntax: '' @ PatternError_Error err))
           | Returns (Inr _) \<Rightarrow> validate_patterns compile rks r)"

definition PatternSet_Validate ::
  "compiler \<Rightarrow> (string \<Rightarrow> nat) \<Rightarrow> (string \<Rightarrow> string \<Rightarrow> nat) \<Rightarrow> PatternSet \<Rightarrow> string option go_result" where
  "PatternSet_Validate compile rk rks ps =
     (if ps_Name ps = [] then Returns (Some ''pattern set name is required'')
      else if ps_Version ps = [] then Returns (Some ''pattern set version is required'')
      else if ps_Patterns ps = [] then Returns (Some ''pattern set must contain at least one pattern'')
      else validate_patterns compile rks (map_range rk (ps_Patterns ps)))"

definition LoadPatternSetFromYAML ::
  "(string \<Rightarrow> string + PatternSet) \<Rightarrow> compiler \<Rightarrow> (string \<Rightarrow> nat) \<Rightarrow> (string \<Rightarrow> string \<Rightarrow> nat) \<Rightarrow> string
     \<Rightarrow> (string + PatternSet) go_result" where
  "LoadPatternSetFromYAML yaml compile rk rks data =
     (case yaml data of
        Inl err \<Rightarrow> Returns (Inl (''failed to parse YAML: '' @ err))
      | Inr patternSet \<Rightarrow>
          (case PatternSet_Validate compile rk rks patternSet of
             Panics \<Rightarrow> Panics
           | Returns (Some err) \<Rightarrow> Returns (Inl (''pattern set validation failed: '' @ err))
           | Returns None \<Rightarrow> Returns (Inr patternSet)))"

text \<open>The embedded directory: the content of a file, or the error of reading it.\<close>

definition LoadPredefinedPatternSet ::
  "(string \<Rightarrow> string + string) \<Rightarrow> (string \<Rightarrow> string + PatternSet) \<Rightarrow> compiler \<Rightarrow> (string \<Rightarrow> nat)
     \<Rightarrow> (string \<Rightarrow> string \<Rightarrow> nat) \<Rightarrow> string \<Rightarrow> (string + PatternSet) go_result" where
  "LoadPredefinedPatternSet readFile yaml compile rk rks name =
     (case readFile (''predefined/'' @ name @ ''.yaml'') of
        Inl err \<Rightarrow> Returns (Inl (''predefined pattern set '' @ quoted name @ '' not found: '' @ err))
      | Inr data \<Rightarrow> LoadPatternSetFromYAML yaml compile rk rks data)"

definition strip_suffix :: "string \<Rightarrow> string \<Rightarrow> string option" where
  "strip_suffix suf s = (if has_prefix (rev s) (rev suf) then Some (take (length s - length suf) s) else None)"

text \<open>The entries of the directory with whether they are directories.\<close>

definition ListAvailablePatternSets :: "(string \<times> bool) list option \<Rightarrow> string list" where
  "ListAvailablePatternSets entries =
     (case entries of
        None \<Rightarrow> []
      | Some es \<Rightarrow> sort (List.map_filter (\<lambda>(name, isDir). if isDir then None else strip_suffix ''.yaml'' name) es))"

section \<open>Matching\<close>

text \<open>The interface \<open>PatternMatcher\<close> with the types a set creates.\<close>

datatype PatternMatcher =
    StackTraceM StackTracePatternMatcher
  | StructuredLogM StructuredLogPatternMatcher
  | MultiLineM MultiLinePatternMatcher
  | JSONM JSONPatternMatcher

definition new_matcher ::
  "re_compiler \<Rightarrow> (string \<Rightarrow> nat) \<Rightarrow> string \<Rightarrow> (PatternError + PatternMatcher) go_result" where
  "new_matcher compile rk pattern =
     (if has_prefix pattern ''multiline:'' then
        (let multilinePattern = drop (length ''multiline:'') pattern
         in Returns (if map_of stackTracePatterns multilinePattern \<noteq> None
                     then map_sum id StackTraceM (NewStackTracePatternMatcher compile rk multilinePattern)
                     else if map_of structuredLogPatterns multilinePattern \<noteq> None
                     then map_sum id StructuredLogM (NewStructuredLogPatternMatcher compile rk multilinePattern)
                     else map_sum id MultiLineM (NewMultiLinePatternMatcher compile multilinePattern)))
      else (case NewJSONPatternMatcher (match_compiler compile) rk pattern of
              Panics \<Rightarrow> Panics
            | Returns r \<Rightarrow> Returns (map_sum id JSONM r)))"

fun matcher_match ::
  "compiler \<Rightarrow> (string \<Rightarrow> string) \<Rightarrow> duration \<Rightarrow> instant \<Rightarrow> PatternMatcher \<Rightarrow> string \<Rightarrow> (string \<times> gvalue) list option
     \<Rightarrow> (PatternError + bool) go_result" where
  "matcher_match compile json_error d now (StackTraceM m) input context = Returns (fst (StackTrace_Match d d now m input))"
| "matcher_match compile json_error d now (StructuredLogM m) input context = Returns (fst (StructuredLog_Match d now m input))"
| "matcher_match compile json_error d now (MultiLineM m) input context = Returns (fst (MultiLine_Match d now m input))"
| "matcher_match compile json_error d now (JSONM m) input context =
     fst (MatchWithContext compile json_error d now m input context)"

text \<open>One turn of the loop: whether the pattern matches; patterns that cannot be built or fail are skipped.\<close>

definition pattern_hit ::
  "re_compiler \<Rightarrow> (string \<Rightarrow> string) \<Rightarrow> duration \<Rightarrow> instant \<Rightarrow> (string \<Rightarrow> nat) \<Rightarrow> string \<Rightarrow> (string \<times> gvalue) list option
     \<Rightarrow> PatternDefinition \<Rightarrow> bool go_result" where
  "pattern_hit compile json_error d now rk input context pattern =
     (case new_matcher compile rk (pn_Pattern pattern) of
        Panics \<Rightarrow> Panics
      | Returns (Inl _) \<Rightarrow> Returns False
      | Returns (Inr m) \<Rightarrow>
          (case matcher_match (match_compiler compile) json_error d now m input context of
             Panics \<Rightarrow> Panics
           | Returns (Inl _) \<Rightarrow> Returns False
           | Returns (Inr b) \<Rightarrow> Returns b))"

fun set_loop ::
  "(string \<Rightarrow> PatternDefinition \<Rightarrow> bool go_result) \<Rightarrow> (string \<times> PatternDefinition) list \<Rightarrow> string option \<Rightarrow> Priority
     \<Rightarrow> string option go_result" where
  "set_loop hit [] best bestPriority = Returns best"
| "set_loop hit ((name, pattern) # r) best bestPriority =
     (case hit name pattern of
        Panics \<Rightarrow> Panics
      | Returns matched \<Rightarrow>
          if matched \<and> bestPriority < pn_Priority pattern then set_loop hit r (Some name) (pn_Priority pattern)
          else set_loop hit r best bestPriority)"

text \<open>
  The module is compiled with the language version 1.21, in which a range loop has one variable for
  all its iterations: \<open>&pattern\<close> in the result points to what the last iteration left there.
\<close>

definition PatternSet_MatchWithContext ::
  "re_compiler \<Rightarrow> (string \<Rightarrow> string) \<Rightarrow> duration \<Rightarrow> instant \<Rightarrow> (string \<Rightarrow> nat) \<Rightarrow> (string \<Rightarrow> string \<Rightarrow> nat) \<Rightarrow> PatternSet
     \<Rightarrow> string \<Rightarrow> (string \<times> gvalue) list option \<Rightarrow> MatchResult go_result" where
  "PatternSet_MatchWithContext compile json_error d now rk rks ps input context =
     (let order = map_range rk (ps_Patterns ps)
      in case set_loop (\<lambda>name. pattern_hit compile json_error d now (rks name) input context) order None (- 1) of
           Panics \<Rightarrow> Panics
         | Returns (Some name) \<Rightarrow>
             Returns \<lparr>mr_Matched = True, mr_PatternName = name, mr_Pattern = Some (snd (last order)), mr_MatchTime = d,
                      mr_Context = context\<rparr>
         | Returns None \<Rightarrow>
             Returns \<lparr>mr_Matched = False, mr_PatternName = [], mr_Pattern = None, mr_MatchTime = d, mr_Context = context\<rparr>)"

definition PatternSet_Match ::
  "re_compiler \<Rightarrow> (string \<Rightarrow> string) \<Rightarrow> duration \<Rightarrow> instant \<Rightarrow> (string \<Rightarrow> nat) \<Rightarrow> (string \<Rightarrow> string \<Rightarrow> nat) \<Rightarrow> PatternSet
     \<Rightarrow> string \<Rightarrow> MatchResult go_result" where
  "PatternSet_Match compile json_error d now rk rks ps input =
     PatternSet_MatchWithContext compile json_error d now rk rks ps input None"

section \<open>Selections\<close>

definition GetPatternsByCategory :: "PatternSet \<Rightarrow> Category \<Rightarrow> (string \<times> PatternDefinition) list" where
  "GetPatternsByCategory ps category = filter (\<lambda>(_, p). pn_Category p = category) (ps_Patterns ps)"

definition GetPatternsByPriority :: "PatternSet \<Rightarrow> Priority \<Rightarrow> (string \<times> PatternDefinition) list" where
  "GetPatternsByPriority ps minPriority = filter (\<lambda>(_, p). minPriority \<le> pn_Priority p) (ps_Patterns ps)"

definition GetPatternsByTag :: "PatternSet \<Rightarrow> string \<Rightarrow> (string \<times> PatternDefinition) list" where
  "GetPatternsByTag ps tag = filter (\<lambda>(_, p). tag \<in> set (pn_Tags p)) (ps_Patterns ps)"

section \<open>The best match\<close>

lemma set_loop_Panics: "set_loop hit xs best bp = Panics \<longleftrightarrow> (\<exists>(n, p)\<in>set xs. hit n p = Panics)"
  by (induction hit xs best bp rule: set_loop.induct) (auto split: go_result.splits)

text \<open>What a finished loop knows: the best of the hits above the start priority, if there is one.\<close>

definition best_hit ::
  "(string \<Rightarrow> PatternDefinition \<Rightarrow> bool go_result) \<Rightarrow> (string \<times> PatternDefinition) list \<Rightarrow> Priority \<Rightarrow> string \<Rightarrow> bool" where
  "best_hit hit xs bp name \<longleftrightarrow>
     (\<exists>p. (name, p) \<in> set xs \<and> hit name p = Returns True \<and> bp < pn_Priority p
        \<and> (\<forall>(n, q)\<in>set xs. hit n q = Returns True \<longrightarrow> pn_Priority q \<le> pn_Priority p))"

definition no_hit ::
  "(string \<Rightarrow> PatternDefinition \<Rightarrow> bool go_result) \<Rightarrow> (string \<times> PatternDefinition) list \<Rightarrow> Priority \<Rightarrow> bool" where
  "no_hit hit xs bp \<longleftrightarrow> (\<forall>(n, q)\<in>set xs. hit n q = Returns True \<longrightarrow> pn_Priority q \<le> bp)"

lemma set_loop_best:
  "set_loop hit xs best bp = Returns r \<Longrightarrow>
     (no_hit hit xs bp \<and> r = best) \<or> (\<exists>name. r = Some name \<and> best_hit hit xs bp name)"
proof (induction hit xs best bp rule: set_loop.induct)
  case (1 hit best bp)
  then show ?case by (simp add: no_hit_def)
next
  case (2 hit name p xs best bp)
  from 2(3) obtain b where b: "hit name p = Returns b" by (auto split: go_result.splits)
  show ?case
  proof (cases "b \<and> bp < pn_Priority p")
    case True
    then have "(no_hit hit xs (pn_Priority p) \<and> r = Some name) \<or> (\<exists>n. r = Some n \<and> best_hit hit xs (pn_Priority p) n)"
      using 2(1) [OF b] 2(3) b by simp
    then show ?thesis
    proof
      assume "no_hit hit xs (pn_Priority p) \<and> r = Some name"
      then have "best_hit hit ((name, p) # xs) bp name" "r = Some name"
        using b True by (auto simp: no_hit_def best_hit_def intro!: exI [of _ p])
      then show ?thesis by blast
    next
      assume "\<exists>n. r = Some n \<and> best_hit hit xs (pn_Priority p) n"
      then show ?thesis using True by (fastforce simp: best_hit_def)
    qed
  next
    case False
    then have "set_loop hit xs best bp = Returns r" using 2(3) b by auto
    then have "(no_hit hit xs bp \<and> r = best) \<or> (\<exists>n. r = Some n \<and> best_hit hit xs bp n)"
      using 2(2) [OF b] False by blast
    then show ?thesis using False b by (fastforce simp: best_hit_def no_hit_def)
  qed
qed

abbreviation hits ::
  "re_compiler \<Rightarrow> (string \<Rightarrow> string) \<Rightarrow> duration \<Rightarrow> instant \<Rightarrow> (string \<Rightarrow> string \<Rightarrow> nat) \<Rightarrow> string
     \<Rightarrow> (string \<times> gvalue) list option \<Rightarrow> string \<Rightarrow> PatternDefinition \<Rightarrow> bool go_result" where
  "hits compile json_error d now rks input context \<equiv> (\<lambda>name. pattern_hit compile json_error d now (rks name) input context)"

lemma best_hit_range [simp]:
  "best_hit hit (map_range rk xs) bp n = best_hit hit xs bp n"
  "no_hit hit (map_range rk xs) bp = no_hit hit xs bp"
  by (simp_all add: best_hit_def no_hit_def)

lemma set_match_cases:
  "case PatternSet_MatchWithContext compile json_error d now rk rks ps input context of
     Panics \<Rightarrow> list_ex (\<lambda>(n, p). hits compile json_error d now rks input context n p = Panics) (ps_Patterns ps)
   | Returns r \<Rightarrow>
       if mr_Matched r
       then best_hit (hits compile json_error d now rks input context) (ps_Patterns ps) (- 1) (mr_PatternName r)
       else no_hit (hits compile json_error d now rks input context) (ps_Patterns ps) (- 1)"
proof (cases "set_loop (hits compile json_error d now rks input context) (map_range rk (ps_Patterns ps)) None (- 1)")
  case Panics
  then show ?thesis
    using set_loop_Panics [of "hits compile json_error d now rks input context" "map_range rk (ps_Patterns ps)" None "- 1"]
    by (auto simp: PatternSet_MatchWithContext_def list_ex_iff)
next
  case (Returns r)
  then show ?thesis
    using set_loop_best [OF Returns] by (cases r) (auto simp: PatternSet_MatchWithContext_def)
qed

text \<open>C30. Whatever the order in which the map of patterns is visited, matching a set panics only when one of its
  patterns does; otherwise it reports a match exactly when some pattern of a proper priority matches, and
  names a matching pattern whose priority no other matching pattern exceeds.\<close>

theorem pattern_set_best_match:
  "case PatternSet_MatchWithContext compile json_error d now rk rks ps input context of
     Panics \<Rightarrow> list_ex (\<lambda>(n, p). hits compile json_error d now rks input context n p = Panics) (ps_Patterns ps)
   | Returns r \<Rightarrow>
       if mr_Matched r
       then best_hit (hits compile json_error d now rks input context) (ps_Patterns ps) (- 1) (mr_PatternName r)
       else no_hit (hits compile json_error d now rks input context) (ps_Patterns ps) (- 1)"
  by (rule set_match_cases)

text \<open>
  The definition that comes with the name is the one the loop visited last, of whatever pattern
  that is.
\<close>

lemma matched_definition_is_last:
  assumes "PatternSet_MatchWithContext compile json_error d now rk rks ps input context = Returns r" "mr_Matched r"
  shows "mr_Pattern r = Some (snd (last (map_range rk (ps_Patterns ps))))"
  using assms by (auto simp: PatternSet_MatchWithContext_def Let_def split: go_result.splits option.splits)

section \<open>Which sets load\<close>

lemma trim_space_hd: "\<not> is_space c \<Longrightarrow> \<exists>u. trim_space (c # t) = c # u"
proof (intro exI)
  assume "\<not> is_space c"
  then show "trim_space (c # t) = c # rev (dropWhile is_space (rev t))"
    by (cases "\<exists>x\<in>set t. \<not> is_space x") (auto simp: trim_space_def dropWhile_append)
qed

lemma accepted_pattern_split:
  assumes "NewJSONPatternMatcher compile rk pattern = Returns (Inr j)"
  obtains l op r where "pattern = l @ spaced op @ r" "has_prefix (trim_space l) ''$.''"
proof -
  from assms obtain op x l r where "split_str (spaced op) pattern = [l, r]" "validateJSONPath (trim_space l) = None"
    by (auto simp: NewJSONPatternMatcher_def parsePattern_def Let_def split: option.splits list.splits)
  moreover have "spaced op \<noteq> []" by (simp add: spaced_def)
  ultimately have "pattern = l @ spaced op @ r" "has_prefix (trim_space l) ''$.''"
    using join_split_str [of "spaced op" pattern] by (auto simp: validateJSONPath_def split: if_splits)
  then show thesis by (rule that)
qed

lemma accepted_pattern_hd:
  assumes "NewJSONPatternMatcher compile rk (c # t) = Returns (Inr j)" "\<not> is_space c"
  shows "c = CHR ''$''"
proof -
  obtain l op r where l: "c # t = l @ spaced op @ r" "has_prefix (trim_space l) ''$.''"
    using accepted_pattern_split [OF assms(1)] .
  then obtain t' where "l = c # t'" using assms(2) by (cases l) (auto simp: spaced_def is_space_def)
  then show ?thesis using trim_space_hd [OF assms(2), of t'] l(2) by auto
qed

lemma validate_patterns_accepted:
  "validate_patterns compile rks xs = Returns None \<Longrightarrow> (n, p) \<in> set xs \<Longrightarrow>
     \<exists>j. NewJSONPatternMatcher compile (rks n) (pn_Pattern p) = Returns (Inr j)"
  by (induction compile rks xs rule: validate_patterns.induct) (auto split: if_splits go_result.splits sum.splits)

lemma loaded_no_multiline:
  assumes "LoadPatternSetFromYAML yaml compile rk rks data = Returns (Inr ps)" "(n, p) \<in> set (ps_Patterns ps)"
  shows "\<not> has_prefix (pn_Pattern p) ''multiline:''"
proof
  assume "has_prefix (pn_Pattern p) ''multiline:''"
  then obtain t where t: "pn_Pattern p = CHR ''m'' # t" by (auto simp: has_prefix_iff)
  have "validate_patterns compile rks (map_range rk (ps_Patterns ps)) = Returns None"
    using assms(1)
    by (auto simp: LoadPatternSetFromYAML_def PatternSet_Validate_def split: sum.splits go_result.splits option.splits if_splits)
  then obtain j where "NewJSONPatternMatcher compile (rks n) (CHR ''m'' # t) = Returns (Inr j)"
    using validate_patterns_accepted assms(2) t by fastforce
  then show False using accepted_pattern_hd by (fastforce simp: is_space_def)
qed

lemma map_sum_Inr [simp]: "map_sum f g x = Inr y \<longleftrightarrow> (\<exists>z. x = Inr z \<and> y = g z)"
  by (cases x) auto

lemma json_hit_needs_json:
  assumes "\<not> has_prefix (pn_Pattern p) ''multiline:''" "unmarshal_any input = None"
  shows "pattern_hit compile json_error d now rk input context p \<noteq> Returns True"
  using assms
  by (auto simp: pattern_hit_def new_matcher_def MatchWithContext_def Let_def split: go_result.splits sum.splits)

text \<open>C29. A pattern set that could be loaded matches JSON outputs only: validation builds the JSON matcher for every
  pattern, so no \<open>multiline:\<close> pattern is ever accepted, and on an output that is not JSON a loaded set reports no
  match, whatever the orders of the maps and the context.\<close>

theorem loaded_sets_match_json_only:
  assumes "LoadPatternSetFromYAML yaml compile rk rks data = Returns (Inr ps)" "unmarshal_any input = None"
    and "PatternSet_MatchWithContext compile' json_error d now rk' rks' ps input context = Returns r"
  shows "\<not> mr_Matched r"
proof
  assume "mr_Matched r"
  then have "best_hit (hits compile' json_error d now rks' input context) (ps_Patterns ps) (- 1) (mr_PatternName r)"
    using set_match_cases [of compile' json_error d now rks' input "context" ps rk'] assms(3) by simp
  then obtain n p where "(n, p) \<in> set (ps_Patterns ps)" "pattern_hit compile' json_error d now (rks' n) input context p = Returns True"
    by (auto simp: best_hit_def)
  then show False using loaded_no_multiline [OF assms(1)] json_hit_needs_json assms(2) by blast
qed

definition sample_definition :: "Priority \<Rightarrow> PatternDefinition" where
  "sample_definition prio = \<lparr>pn_Pattern = ''$.e[*].c == 7'', pn_Description = ''code 7'', pn_Priority = prio,
     pn_Category = CategoryError, pn_Tags = [], pn_Metadata = []\<rparr>"

definition sample_set :: PatternSet where
  "sample_set = \<lparr>ps_Name = ''codes'', ps_Version = ''1.0'', ps_Description = [], ps_Author = [],
     ps_Patterns = [(''a'', sample_definition PriorityHigh), (''b'', sample_definition PriorityLow)], ps_Metadata = []\<rparr>"

lemma sample_set_loads: "LoadPatternSetFromYAML (\<lambda>_. Inr sample_set) compile rk rks data = Returns (Inr sample_set)"
proof -
  have "validate_patterns compile rks xs = Returns None" if "set xs \<subseteq> set (ps_Patterns sample_set)" for xs
    using that by (induction compile rks xs rule: validate_patterns.induct)
      (auto simp: sample_set_def sample_definition_def sample_matcher_made)
  then show ?thesis by (simp add: LoadPatternSetFromYAML_def PatternSet_Validate_def) (simp add: sample_set_def)
qed

theorem loaded_sets_match_json_only_witness:
  "\<exists>r. PatternSet_MatchWithContext (\<lambda>_. Inl []) (\<lambda>_. []) 0 0 (\<lambda>_. 0) (\<lambda>_ _. 0) sample_set ''panic: boom'' None = Returns r
     \<and> \<not> mr_Matched r"
proof -
  let ?r = "\<lparr>mr_Matched = False, mr_PatternName = [], mr_Pattern = None, mr_MatchTime = 0, mr_Context = None\<rparr>"
  have no: "unmarshal_any ''panic: boom'' = None" by code_simp
  then have "PatternSet_MatchWithContext (\<lambda>_. Inl []) (\<lambda>_. []) 0 0 (\<lambda>_. 0) (\<lambda>_ _. 0) sample_set ''panic: boom'' None = Returns ?r"
    by (simp add: PatternSet_MatchWithContext_def sample_set_def sample_definition_def map_range_def pattern_hit_def
        new_matcher_def sample_matcher_made MatchWithContext_def)
  then show ?thesis using loaded_sets_match_json_only [OF sample_set_loads no] by blast
qed

text \<open>
  Two patterns of a loaded set match an output; the name in the result is that of the more urgent
  one, the definition that of the other.
\<close>

lemma matched_definition_differs:
  "\<exists>r. PatternSet_MatchWithContext (\<lambda>_. Inl []) (\<lambda>_. []) 0 0 (\<lambda>_. 0) (\<lambda>_ _. 0) sample_set sample_json None = Returns r
     \<and> mr_PatternName r = ''a'' \<and> mr_Pattern r = Some (sample_definition PriorityLow)"
proof -
  have "unmarshal_any sample_json = Some (GMap [(''e'', GArr [GMap [(''c'', GFloat (Fin 7))]])])" by code_simp
  moreover have "extractValue (GMap [(''e'', GArr [GMap [(''c'', GFloat (Fin 7))]])]) ''$.e[*].c'' = Returns (Some (GArr [GFloat (Fin 7)]))"
    by code_simp
  moreover have "compareEqual (GArr [GFloat (Fin 7)]) (GInt 7) = Returns True" by code_simp
  ultimately have "pattern_hit (\<lambda>_. Inl []) (\<lambda>_. []) 0 0 rk sample_json None (sample_definition prio) = Returns True" for rk prio
    by (simp add: sample_definition_def pattern_hit_def new_matcher_def sample_matcher_made MatchWithContext_def sample_matcher_def
        compareValues_def)
  then show ?thesis by (simp add: PatternSet_MatchWithContext_def sample_set_def map_range_def) (simp add: sample_definition_def)
qed

section \<open>A validated set may still panic\<close>

text \<open>
  The matcher is parsed again for every match, in a fresh order of the operators: a pattern that was
  cut at \<open>==\<close> by the validation may be cut at \<open>=~\<close> later, and panic.
\<close>

lemma operator_order_panics:
  "(\<exists>j. NewJSONPatternMatcher compile (\<lambda>op. if op = ''=='' then 0 else 1) ''$.a == x =~ 404'' = Returns (Inr j))
   \<and> NewJSONPatternMatcher compile (\<lambda>op. if op = ''=~'' then 0 else 1) ''$.a == x =~ 404'' = Panics"
proof -
  have "find_operator (\<lambda>op. if op = ''=='' then 0 else 1) ''$.a == x =~ 404'' = Some (''=='', OpEqual)"
    "find_operator (\<lambda>op. if op = ''=~'' then 0 else 1) ''$.a == x =~ 404'' = Some (''=~'', OpRegexMatch)" by code_simp+
  moreover have "split_str (spaced ''=='') ''$.a == x =~ 404'' = [''$.a'', ''x =~ 404'']"
    "split_str (spaced ''=~'') ''$.a == x =~ 404'' = [''$.a == x'', ''404'']" by code_simp+
  moreover have "trim_space ''$.a == x'' = ''$.a == x''" "trim_space ''$.a'' = ''$.a''" "trim_space ''404'' = ''404''" by code_simp+
  moreover have "validateJSONPath ''$.a == x'' = None" "validateJSONPath ''$.a'' = None" "parseExpectedValue ''404'' = GInt 404"
    by code_simp+
  ultimately show ?thesis by (simp add: NewJSONPatternMatcher_def parsePattern_def)
qed

end
