(* ===== verification/HttpPattern.thy ===== *)
theory HttpPattern
  imports Patterns "HOL-Library.AList"
begin

text \<open>
  Matching of HTTP responses, \<open>pkg/patterns/http_pattern_matcher.go\<close>: detection of the API, the
  routing by header, API and status, the context that is extracted, the recommended backoff, the
  parser of raw responses and the validation of configurations. A \<open>map[string]string\<close> of headers is
  a partial function, \<open>None\<close> where it is \<open>nil\<close>. The maps of the configuration are ranged over in an
  arbitrary order; \<open>regexp.Compile\<close>, YAML decoding and the texts of decoding errors are parameters.
\<close>

record HTTPResponse =
  hr_StatusCode :: int
  hr_Headers :: "(string \<rightharpoonup> string) option"
  hr_Body :: string
  hr_URL :: string

type_synonym APIType = string

abbreviation APITypeGitHub :: APIType where "APITypeGitHub \<equiv> ''github''"
abbreviation APITypeAWS :: APIType where "APITypeAWS \<equiv> ''aws''"
abbreviation APITypeKubernetes :: APIType where "APITypeKubernetes \<equiv> ''kubernetes''"
abbreviation APITypeGeneric :: APIType where "APITypeGeneric \<equiv> ''generic''"
abbreviation APITypeUnknown :: APIType where "APITypeUnknown \<equiv> ''unknown''"

record HTTPMatchResult =
  hm_Matched :: bool
  hm_PatternName :: string
  hm_PatternType :: string
  hm_MatchTime :: duration
  hm_Context :: "string \<rightharpoonup> gvalue"
  hm_APIType :: APIType

record HTTPPatternConfig =
  hc_EnableStatusRouting :: bool
  hc_EnableHeaderRouting :: bool
  hc_EnableAPIDetection :: bool
  hc_StatusPatterns :: "(int \<times> string) list"
  hc_HeaderPatterns :: "(string \<times> string) list"
  hc_APIPatterns :: "(APIType \<times> string list) list"
  hc_DefaultPattern :: string

record BackoffRecommendation =
  br_Strategy :: string
  br_InitialDelay :: duration
  br_MaxRetries :: int
  br_MaxDelay :: duration

text \<open>The dynamic types of the parameters of a strategy.\<close>

datatype param = PBool bool | PInt int | PFloat f64 | PDuration duration

record EnhancedBackoffRecommendation =
  er_Strategy :: string
  er_Parameters :: "string \<rightharpoonup> param"
  er_Adaptive :: bool
  er_Confidence :: f64
  er_Learning :: bool

text \<open>The detector is the default one or \<open>nil\<close>.\<close>

record HTTPPatternMatcher =
  h_config :: HTTPPatternConfig
  h_statusMatchers :: "(int \<times> JSONPatternMatcher) list"
  h_apiDetector :: bool
  h_metrics :: MatchMetrics

section \<open>Detection of the API\<close>

definition header :: "HTTPResponse \<Rightarrow> string \<Rightarrow> string option" where
  "header r k = (case hr_Headers r of None \<Rightarrow> None | Some m \<Rightarrow> m k)"

definition quote :: "string \<Rightarrow> string" where
  "quote s = [CHR 0x22] @ s @ [CHR 0x22]"

definition DetectAPI :: "HTTPResponse option \<Rightarrow> APIType" where
  "DetectAPI response =
     (case response of
        None \<Rightarrow> APITypeUnknown
      | Some r \<Rightarrow>
          if hr_URL r \<noteq> [] \<and> (contains (hr_URL r) ''api.github.com'' \<or> contains (hr_URL r) ''github.com'') then APITypeGitHub
          else if hr_URL r \<noteq> [] \<and> contains (hr_URL r) ''amazonaws.com'' then APITypeAWS
          else if hr_URL r \<noteq> [] \<and> (contains (hr_URL r) ''kubernetes'' \<or> contains (hr_URL r) ''k8s.io'') then APITypeKubernetes
          else if header r ''X-GitHub-Media-Type'' \<noteq> None then APITypeGitHub
          else if header r ''X-Amzn-ErrorType'' \<noteq> None then APITypeAWS
          else if header r ''X-Amzn-RequestId'' \<noteq> None then APITypeAWS
          else if contains (hr_Body r) (quote ''kind'' @ '':'' @ quote ''Status'') \<or> contains (hr_Body r) (quote ''apiVersion'')
          then APITypeKubernetes
          else APITypeGeneric)"

definition DetectAPIType :: "HTTPPatternMatcher \<Rightarrow> HTTPResponse option \<Rightarrow> APIType" where
  "DetectAPIType h response = (if h_apiDetector h then DetectAPI response else APITypeUnknown)"

section \<open>Configuration\<close>

definition DefaultHTTPPatternConfig :: HTTPPatternConfig where
  "DefaultHTTPPatternConfig = \<lparr>
     hc_EnableStatusRouting = True, hc_EnableHeaderRouting = True, hc_EnableAPIDetection = True,
     hc_StatusPatterns = [(200, ''$.* != null''), (400, ''$.* != null''), (401, ''$.* != null''), (403, ''$.* != null''),
       (404, ''$.* != null''), (429, ''$.* != null''), (500, ''$.* != null''), (502, ''$.* != null''), (503, ''$.* != null'')],
     hc_HeaderPatterns = [(''Content-Type'', ''json_error''), (''X-RateLimit-Limit'', ''rate_limit_detailed''),
       (''X-GitHub-Media-Type'', ''github_api_error''), (''X-Amzn-ErrorType'', ''aws_throttling'')],
     hc_APIPatterns = [(APITypeGitHub, [''github_rate_limit'', ''github_api_error'']),
       (APITypeAWS, [''aws_throttling'', ''aws_access_denied'']),
       (APITypeKubernetes, [''k8s_forbidden'', ''k8s_not_found'', ''k8s_conflict'']),
       (APITypeGeneric, [''generic_json_error'', ''generic_success''])],
     hc_DefaultPattern = ''generic_json_error''\<rparr>"

definition config_error :: "string \<Rightarrow> string \<Rightarrow> PatternError" where
  "config_error msg pattern = NewPatternError ''config_error'' msg pattern"

fun status_matchers ::
  "compiler \<Rightarrow> (int \<Rightarrow> string \<Rightarrow> nat) \<Rightarrow> (int \<times> string) list \<Rightarrow> (PatternError + (int \<times> JSONPatternMatcher) list) go_result" where
  "status_matchers compile rks [] = Returns (Inr [])"
| "status_matchers compile rks ((statusCode, pattern) # r) =
     (case NewJSONPatternMatcher compile (rks statusCode) pattern of
        Panics \<Rightarrow> Panics
      | Returns (Inl err) \<Rightarrow>
          Returns (Inl (config_error (''invalid status pattern for '' @ itoa statusCode @ '': '' @ PatternError_Error err) pattern))
      | Returns (Inr m) \<Rightarrow>
          (case status_matchers compile rks r of
             Panics \<Rightarrow> Panics
           | Returns (Inl err) \<Rightarrow> Returns (Inl err)
           | Returns (Inr ms) \<Rightarrow> Returns (Inr ((statusCode, m) # ms))))"

definition NewHTTPPatternMatcher ::
  "compiler \<Rightarrow> (int \<Rightarrow> nat) \<Rightarrow> (int \<Rightarrow> string \<Rightarrow> nat) \<Rightarrow> HTTPPatternConfig \<Rightarrow> (PatternError + HTTPPatternMatcher) go_result" where
  "NewHTTPPatternMatcher compile rk rks config =
     (if hc_EnableStatusRouting config \<and> hc_StatusPatterns config = []
      then Returns (Inl (config_error ''status routing enabled but no status patterns provided'' []))
      else case (if hc_EnableStatusRouting config
                 then status_matchers compile rks (map_range rk (hc_StatusPatterns config)) else Returns (Inr [])) of
             Panics \<Rightarrow> Panics
           | Returns (Inl err) \<Rightarrow> Returns (Inl err)
           | Returns (Inr ms) \<Rightarrow>
               Returns (Inr \<lparr>h_config = config, h_statusMatchers = ms, h_apiDetector = hc_EnableAPIDetection config,
                             h_metrics = zero_match_metrics\<rparr>))"

text \<open>The checks of a configuration read from YAML; each map is ranged over in its own order.\<close>

fun first_text :: "('a \<Rightarrow> string option) \<Rightarrow> 'a list \<Rightarrow> string option" where
  "first_text f [] = None"
| "first_text f (x # xs) = (case f x of Some e \<Rightarrow> Some e | None \<Rightarrow> first_text f xs)"

definition regex_error :: "compiler \<Rightarrow> string \<Rightarrow> string \<Rightarrow> string \<Rightarrow> string option" where
  "regex_error compile emptyMsg invalidMsg pattern =
     (if pattern = [] then Some emptyMsg
      else case compile pattern of Inl err \<Rightarrow> Some (invalidMsg @ '': '' @ err) | Inr _ \<Rightarrow> None)"

definition api_error :: "compiler \<Rightarrow> APIType \<times> string list \<Rightarrow> string option" where
  "api_error compile p = (case p of (apiType, patterns) \<Rightarrow>
     if patterns = [] then Some (''empty patterns for API type '' @ apiType)
     else first_text (\<lambda>(i, pattern). regex_error compile
            (''empty pattern at index '' @ itoa (int i) @ '' for API type '' @ apiType)
            (''invalid regex pattern at index '' @ itoa (int i) @ '' for API type '' @ apiType) pattern)
          (enumerate 0 patterns))"

definition validateHTTPPatternConfig ::
  "compiler \<Rightarrow> (int \<Rightarrow> nat) \<Rightarrow> (string \<Rightarrow> nat) \<Rightarrow> (string \<Rightarrow> nat) \<Rightarrow> HTTPPatternConfig \<Rightarrow> string option" where
  "validateHTTPPatternConfig compile rkS rkH rkA config =
     (if hc_EnableStatusRouting config \<and> hc_StatusPatterns config = []
      then Some ''status routing enabled but no status patterns provided''
      else if hc_EnableHeaderRouting config \<and> hc_HeaderPatterns config = []
      then Some ''header routing enabled but no header patterns provided''
      else if hc_EnableAPIDetection config \<and> hc_APIPatterns config = []
      then Some ''API detection enabled but no API patterns provided''
      else case first_text (\<lambda>(sc, pattern). regex_error compile (''empty pattern for status code '' @ itoa sc)
                  (''invalid regex pattern for status code '' @ itoa sc) pattern) (map_range rkS (hc_StatusPatterns config)) of
        Some e \<Rightarrow> Some e
      | None \<Rightarrow> (case first_text (\<lambda>(hdr, pattern). regex_error compile (''empty pattern for header '' @ hdr)
                  (''invalid regex pattern for header '' @ hdr) pattern) (map_range rkH (hc_HeaderPatterns config)) of
        Some e \<Rightarrow> Some e
      | None \<Rightarrow> (case first_text (api_error compile) (map_range rkA (hc_APIPatterns config)) of
        Some e \<Rightarrow> Some e
      | None \<Rightarrow> if hc_DefaultPattern config \<noteq> []
                then (case compile (hc_DefaultPattern config) of Inl err \<Rightarrow> Some (''invalid default pattern: '' @ err) | Inr _ \<Rightarrow> None)
                else None)))"

definition LoadHTTPPatternConfigFromYAML ::
  "(string \<Rightarrow> string + HTTPPatternConfig) \<Rightarrow> compiler \<Rightarrow> (int \<Rightarrow> nat) \<Rightarrow> (string \<Rightarrow> nat) \<Rightarrow> (string \<Rightarrow> nat) \<Rightarrow> string
     \<Rightarrow> string + HTTPPatternConfig" where
  "LoadHTTPPatternConfigFromYAML yaml compile rkS rkH rkA data =
     (case yaml data of
        Inl err \<Rightarrow> Inl (''failed to parse YAML configuration: '' @ err)
      | Inr config \<Rightarrow>
          (case validateHTTPPatternConfig compile rkS rkH rkA config of
             Some err \<Rightarrow> Inl (''invalid configuration: '' @ err)
           | None \<Rightarrow> Inr config))"

section \<open>Context of a match\<close>

text \<open>
  The first match of an expression \<open>lit "([^"]+)"\<close>, where \<open>lit\<close> ends before the quote: its group.
\<close>

fun find_quoted :: "string \<Rightarrow> string \<Rightarrow> string option" where
  "find_quoted lit [] = None"
| "find_quoted lit (c # s) =
     (let rest = drop (length lit + 1) (c # s); g = takeWhile (\<lambda>x. x \<noteq> CHR 0x22) rest
      in if has_prefix (c # s) (lit @ [CHR 0x22]) \<and> g \<noteq> [] \<and> length g < length rest then Some g
         else find_quoted lit s)"

definition put :: "string \<Rightarrow> gvalue \<Rightarrow> HTTPMatchResult \<Rightarrow> HTTPMatchResult" where
  "put k v r = r\<lparr>hm_Context := (hm_Context r)(k \<mapsto> v)\<rparr>"

definition put_some :: "string \<Rightarrow> string option \<Rightarrow> HTTPMatchResult \<Rightarrow> HTTPMatchResult" where
  "put_some k v r = (case v of None \<Rightarrow> r | Some s \<Rightarrow> put k (GStr s) r)"

definition parseKubernetesMessage :: "string \<Rightarrow> HTTPMatchResult \<Rightarrow> HTTPMatchResult" where
  "parseKubernetesMessage message r =
     put_some ''user'' (find_quoted ''User '' message)
       (put_some ''namespace'' (find_quoted ''namespace '' message)
         (put_some ''resource'' (find_quoted ''resource '' message) r))"

text \<open>A field of the document, where it is a string.\<close>

definition string_field :: "(string \<times> gvalue) list \<Rightarrow> string \<Rightarrow> string option" where
  "string_field jsonData k = (case map_get jsonData k of Some (GStr s) \<Rightarrow> Some s | _ \<Rightarrow> None)"

definition extractGitHubContext :: "(string \<times> gvalue) list \<Rightarrow> HTTPMatchResult \<Rightarrow> HTTPMatchResult" where
  "extractGitHubContext jsonData r =
     (if hm_PatternType r = ''rate_limit'' \<or> hm_PatternType r = ''auth_error''
      then put ''error_type'' (GStr ''rate_limit'') r else r)"

definition extractAWSContext :: "(string \<times> gvalue) list \<Rightarrow> HTTPMatchResult \<Rightarrow> HTTPMatchResult" where
  "extractAWSContext jsonData r = put_some ''error_type'' (string_field jsonData ''__type'') r"

definition extractKubernetesContext :: "(string \<times> gvalue) list \<Rightarrow> HTTPMatchResult \<Rightarrow> HTTPMatchResult" where
  "extractKubernetesContext jsonData r =
     (let r1 = put_some ''error_type'' (string_field jsonData ''reason'') r
      in case string_field jsonData ''message'' of None \<Rightarrow> r1 | Some m \<Rightarrow> parseKubernetesMessage m r1)"

definition extractGenericContext :: "(string \<times> gvalue) list \<Rightarrow> HTTPMatchResult \<Rightarrow> HTTPMatchResult" where
  "extractGenericContext jsonData r = put_some ''status'' (string_field jsonData ''status'') r"

text \<open>\<open>json.Unmarshal\<close> into a \<open>map[string]interface{}\<close>; \<open>null\<close> gives the empty map.\<close>

definition unmarshal_map :: "string \<Rightarrow> (string \<times> gvalue) list option" where
  "unmarshal_map s = (case unmarshal_any s of Some (GMap ms) \<Rightarrow> Some ms | Some GNil \<Rightarrow> Some [] | _ \<Rightarrow> None)"

definition extractFromJSONBody :: "HTTPResponse \<Rightarrow> HTTPMatchResult \<Rightarrow> HTTPMatchResult" where
  "extractFromJSONBody response r =
     (if hr_Body response = [] then r
      else case unmarshal_map (hr_Body response) of
        None \<Rightarrow> r
      | Some jsonData \<Rightarrow>
          put_some ''status'' (string_field jsonData ''status'')
            (if hm_APIType r = APITypeGitHub then extractGitHubContext jsonData r
             else if hm_APIType r = APITypeAWS then extractAWSContext jsonData r
             else if hm_APIType r = APITypeKubernetes then extractKubernetesContext jsonData r
             else if hm_APIType r = APITypeGeneric then extractGenericContext jsonData r
             else r))"

definition put_seconds :: "string option \<Rightarrow> HTTPMatchResult \<Rightarrow> HTTPMatchResult" where
  "put_seconds v r =
     (case v of
        None \<Rightarrow> r
      | Some s \<Rightarrow> (case parse_int s of None \<Rightarrow> r | Some n \<Rightarrow> put ''retry_after'' (GFloat (f64_of_int n)) r))"

definition fixed_delay :: "HTTPResponse \<Rightarrow> HTTPMatchResult \<Rightarrow> HTTPMatchResult" where
  "fixed_delay response r =
     put_seconds (case header response ''Retry-After'' of Some s \<Rightarrow> Some s | None \<Rightarrow> header response ''X-Rate-Limit-Reset'')
       (put ''retry_strategy'' (GStr ''fixed_delay'') r)"

definition setRetryStrategy :: "HTTPResponse \<Rightarrow> HTTPMatchResult \<Rightarrow> HTTPMatchResult" where
  "setRetryStrategy response r =
     (if header response ''X-RateLimit-Limit'' \<noteq> None then fixed_delay response r
      else if header response ''X-Amzn-ErrorType'' = Some ''Throttling'' then put ''retry_strategy'' (GStr ''exponential'') r
      else if hr_Headers response \<noteq> None \<and> hr_StatusCode response = 429 then fixed_delay response r
      else if hm_PatternType r = ''rate_limit'' then put ''retry_strategy'' (GStr ''fixed_delay'') r
      else if hm_PatternType r = ''server_error'' then put ''retry_strategy'' (GStr ''exponential'') r
      else put ''retry_strategy'' (GStr ''none'') r)"

text \<open>The service of an AWS address: what follows \<open>://\<close> before the first dot.\<close>

definition aws_service :: "string \<Rightarrow> string option" where
  "aws_service url =
     (if url \<noteq> [] \<and> contains url ''amazonaws.com''
      then (case split_str ''://'' (hd (split_on (CHR ''.'') url)) of _ # s # _ \<Rightarrow> Some s | _ \<Rightarrow> None)
      else None)"

definition extractContextFromResponse :: "HTTPResponse \<Rightarrow> HTTPMatchResult \<Rightarrow> HTTPMatchResult" where
  "extractContextFromResponse response r =
     (let r1 = put_some ''rate_limit'' (header response ''X-RateLimit-Limit'') r;
          r2 = put_some ''remaining'' (header response ''X-RateLimit-Remaining'') r1;
          r3 = put_some ''reset_time'' (header response ''X-RateLimit-Reset'') r2;
          r4 = put_some ''retry_after'' (header response ''Retry-After'') r3;
          r5 = put_some ''error_type'' (header response ''X-Amzn-ErrorType'') r4;
          r6 = put_some ''request_id'' (header response ''X-Amzn-RequestId'') r5;
          r7 = put_some ''service'' (aws_service (hr_URL response)) r6
      in setRetryStrategy response (extractFromJSONBody response r7))"

section \<open>Matching\<close>

definition matchPattern :: "HTTPResponse \<Rightarrow> string \<Rightarrow> bool" where
  "matchPattern response patternName \<longleftrightarrow> hr_Body response \<noteq> []"

definition getPatternTypeFromStatus :: "int \<Rightarrow> string" where
  "getPatternTypeFromStatus sc =
     (if 200 \<le> sc \<and> sc < 300 then ''success''
      else if sc = 401 \<or> sc = 403 then ''auth_error''
      else if sc = 429 then ''rate_limit''
      else if 400 \<le> sc \<and> sc < 500 then ''client_error''
      else if 500 \<le> sc then ''server_error''
      else ''unknown'')"

text \<open>The pattern name one entry of the header map gives for a response, if it matches.\<close>

definition header_match :: "HTTPResponse \<Rightarrow> string \<times> string \<Rightarrow> string option" where
  "header_match response e = (case e of (hdr, patternName) \<Rightarrow>
     (case header response hdr of
        None \<Rightarrow> None
      | Some v \<Rightarrow>
          if hdr = ''Content-Type'' then
            (let body = hr_Body response; err = (contains body ''error'' \<or> contains body ''message'')
             in if contains v ''application/json'' \<and> err then Some ''json_error''
                else if contains v ''application/xml'' \<and> err then Some ''xml_error''
                else if contains v ''text/html'' \<and> (contains body ''error'' \<or> contains body ''Not Found'' \<or> 400 \<le> hr_StatusCode response)
                then Some ''html_error''
                else None)
          else Some patternName))"

fun first_header :: "HTTPResponse \<Rightarrow> (string \<times> string) list \<Rightarrow> (string \<times> string) option" where
  "first_header response [] = None"
| "first_header response (e # es) =
     (case header_match response e of Some name \<Rightarrow> Some (fst e, name) | None \<Rightarrow> first_header response es)"

definition matched_result :: "HTTPResponse \<Rightarrow> string \<Rightarrow> string \<Rightarrow> HTTPMatchResult \<Rightarrow> HTTPMatchResult" where
  "matched_result response name ptype r = r\<lparr>hm_Matched := True, hm_PatternName := name, hm_PatternType := ptype\<rparr>"

text \<open>
  \<open>dj\<close> and \<open>nj\<close> are the clock readings of the status matcher, which keeps its own metrics, \<open>d0\<close> the
  time until the result is made and \<open>d\<close> and \<open>now\<close> those of the whole call.
\<close>

definition MatchHTTPResponse ::
  "compiler \<Rightarrow> (string \<Rightarrow> string) \<Rightarrow> duration \<Rightarrow> instant \<Rightarrow> duration \<Rightarrow> duration \<Rightarrow> instant \<Rightarrow> (string \<Rightarrow> nat)
     \<Rightarrow> HTTPPatternMatcher \<Rightarrow> HTTPResponse option \<Rightarrow> (PatternError + HTTPMatchResult) go_result \<times> HTTPPatternMatcher" where
  "MatchHTTPResponse compile json_error dj nj d0 d now rk h response =
     (let finish = (\<lambda>f h. h\<lparr>h_metrics := deferred_metrics d now (f (h_metrics h))\<rparr>)
      in case response of
           None \<Rightarrow> (Returns (Inl (NewPatternError ''matcher_error'' ''response cannot be nil'' [])), finish count_error h)
         | Some resp \<Rightarrow>
             let apiType = DetectAPIType h response;
                 ptype = getPatternTypeFromStatus (hr_StatusCode resp);
                 cfg = h_config h;
                 result = \<lparr>hm_Matched = False, hm_PatternName = [], hm_PatternType = [], hm_MatchTime = d0,
                           hm_Context = Map.empty, hm_APIType = apiType\<rparr>;
                 hit = (\<lambda>r h. (Returns (Inr (extractContextFromResponse resp r)), finish (count_match True) h));
                 fallback = (\<lambda>h. if hc_DefaultPattern cfg \<noteq> [] \<and> matchPattern resp (hc_DefaultPattern cfg)
                                 then hit (matched_result resp (hc_DefaultPattern cfg) ''default'' result) h
                                 else (Returns (Inr result), finish (count_match False) h))
             in case (if hc_EnableHeaderRouting cfg then first_header resp (map_range rk (hc_HeaderPatterns cfg)) else None) of
                  Some (hdr, name) \<Rightarrow>
                    hit (put ''api_type'' (GStr apiType) (put ''matched_header'' (GStr hdr) (matched_result resp name ptype result))) h
                | None \<Rightarrow>
                    (case (if hc_EnableAPIDetection cfg \<and> apiType \<noteq> APITypeUnknown
                           then Option.bind (map_of (hc_APIPatterns cfg) apiType) (List.find (matchPattern resp)) else None) of
                       Some name \<Rightarrow> hit (put ''api_type'' (GStr apiType) (matched_result resp name ptype result)) h
                     | None \<Rightarrow>
                         (case (if hc_EnableStatusRouting cfg then map_of (h_statusMatchers h) (hr_StatusCode resp) else None) of
                            None \<Rightarrow> fallback h
                          | Some m \<Rightarrow>
                              let (v, m') = Match compile json_error dj nj m (hr_Body resp);
                                  h' = h\<lparr>h_statusMatchers := AList.update (hr_StatusCode resp) m' (h_statusMatchers h)\<rparr>
                              in (case v of
                                    Panics \<Rightarrow> (Panics, finish id h')
                                  | Returns (Inr True) \<Rightarrow>
                                      hit (put ''status_code'' (GInt (hr_StatusCode resp)) (matched_result resp
                                             (case map_of (hc_StatusPatterns cfg) (hr_StatusCode resp) of Some p \<Rightarrow> p | None \<Rightarrow> [])
                                             ptype result)) h'
                                  | _ \<Rightarrow> fallback h'))))"

section \<open>Recommendations\<close>

definition recommend :: "string \<Rightarrow> duration \<Rightarrow> int \<Rightarrow> duration \<Rightarrow> BackoffRecommendation" where
  "recommend s i n m = \<lparr>br_Strategy = s, br_InitialDelay = i, br_MaxRetries = n, br_MaxDelay = m\<rparr>"

definition GetBackoffRecommendation :: "HTTPMatchResult option \<Rightarrow> BackoffRecommendation" where
  "GetBackoffRecommendation result =
     (case result of
        None \<Rightarrow> recommend ''none'' 0 0 0
      | Some r \<Rightarrow>
          if \<not> hm_Matched r then recommend ''none'' 0 0 0
          else if hm_PatternType r = ''rate_limit'' then
            recommend ''fixed''
              (case hm_Context r ''retry_after'' of
                 Some (GStr s) \<Rightarrow> (case parse_int s of Some n \<Rightarrow> wrap64 (n * Second) | None \<Rightarrow> 60 * Second)
               | _ \<Rightarrow> 60 * Second) 3 0
          else if hm_PatternType r = ''server_error'' then recommend ''exponential'' (1 * Second) 5 (30 * Second)
          else if hm_PatternType r = ''auth_error'' then recommend ''none'' 0 0 0
          else if hm_PatternType r = ''client_error'' then recommend ''none'' 0 0 0
          else if hm_PatternType r = ''success'' then recommend ''none'' 0 0 0
          else recommend ''exponential'' (1 * Second) 3 (10 * Second))"

definition GetEnhancedBackoffRecommendation :: "HTTPMatchResult option \<Rightarrow> EnhancedBackoffRecommendation go_result" where
  "GetEnhancedBackoffRecommendation result =
     (case result of
        None \<Rightarrow> Panics
      | Some r \<Rightarrow> Returns
          (if hm_APIType r = APITypeGitHub then
             \<lparr>er_Strategy = ''diophantine'', er_Parameters = [''discovery_enabled'' \<mapsto> PBool True, ''pattern_learning'' \<mapsto> PBool True],
              er_Adaptive = True, er_Confidence = f64_round (9 / 10), er_Learning = True\<rparr>
           else if hm_APIType r = APITypeAWS then
             \<lparr>er_Strategy = ''polynomial'', er_Parameters = [''degree'' \<mapsto> PInt 2, ''coefficient'' \<mapsto> PFloat (Fin (3 / 2))],
              er_Adaptive = False, er_Confidence = f64_round (8 / 10), er_Learning = False\<rparr>
           else if hm_APIType r = APITypeKubernetes then
             \<lparr>er_Strategy = ''exponential'', er_Parameters = [''multiplier'' \<mapsto> PFloat (Fin 2), ''jitter'' \<mapsto> PBool True],
              er_Adaptive = False, er_Confidence = f64_round (8 / 10), er_Learning = False\<rparr>
           else
             \<lparr>er_Strategy = ''adaptive'', er_Parameters = Map.empty, er_Adaptive = True, er_Confidence = f64_round (6 / 10),
              er_Learning = False\<rparr>))"

section \<open>Parsing a raw response\<close>

abbreviation newline :: char where "newline \<equiv> CHR 0x0A"

definition parse_error :: "string \<Rightarrow> string \<Rightarrow> PatternError" where
  "parse_error msg pattern = NewPatternError ''parse_error'' msg pattern"

text \<open>\<open>strings.Fields\<close> on ASCII white space.\<close>

function fields :: "string \<Rightarrow> string list" where
  "fields s = (let t = dropWhile is_space s
               in if t = [] then [] else takeWhile (\<lambda>c. \<not> is_space c) t # fields (dropWhile (\<lambda>c. \<not> is_space c) t))"
  by pat_completeness auto
termination
proof (relation "measure length", simp)
  fix s t assume "t = dropWhile is_space s" "t \<noteq> []"
  then have "\<not> is_space (hd t)" using hd_dropWhile [of is_space s] by simp
  then have "length (dropWhile (\<lambda>c. \<not> is_space c) t) < length t"
    using \<open>t \<noteq> []\<close> by (cases t) (auto simp: length_dropWhile_le less_Suc_eq_le)
  also have "length t \<le> length s" using \<open>t = _\<close> by (simp add: length_dropWhile_le)
  finally show "(dropWhile (\<lambda>c. \<not> is_space c) t, s) \<in> measure length" by simp
qed

declare fields.simps [simp del]

text \<open>The text of the error of \<open>strconv.Atoi\<close> is a parameter.\<close>

definition ExtractStatusCode :: "(string \<Rightarrow> string) \<Rightarrow> string \<Rightarrow> PatternError + int" where
  "ExtractStatusCode atoi_error response =
     (let statusLine = hd (split_on newline response); parts = fields statusLine
      in if length parts < 2 then Inl (parse_error ''invalid status line format'' statusLine)
         else case parse_int (parts ! 1) of
           None \<Rightarrow> Inl (parse_error (''invalid status code: '' @ atoi_error (parts ! 1)) (parts ! 1))
         | Some statusCode \<Rightarrow> Inr statusCode)"

definition blank :: "string \<Rightarrow> bool" where
  "blank line \<longleftrightarrow> trim_space line = []"

fun header_lines :: "string list \<Rightarrow> (string \<rightharpoonup> string) \<Rightarrow> (string \<rightharpoonup> string)" where
  "header_lines [] m = m"
| "header_lines (line # lines) m =
     (if blank line then m
      else case index_of (CHR '':'') line of
        Some i \<Rightarrow> header_lines lines (m(trim_space (take i line) \<mapsto> trim_space (drop (i + 1) line)))
      | None \<Rightarrow> header_lines lines m)"

definition ExtractHeaders :: "string \<Rightarrow> (string \<rightharpoonup> string)" where
  "ExtractHeaders response = header_lines (tl (split_on newline response)) Map.empty"

definition ExtractBody :: "string \<Rightarrow> string" where
  "ExtractBody response =
     (case dropWhile (\<lambda>line. \<not> blank line) (tl (split_on newline response)) of
        [] \<Rightarrow> []
      | _ # bodyLines \<Rightarrow> trim_space (join [newline] bodyLines))"

definition ParseHTTPResponse :: "(string \<Rightarrow> string) \<Rightarrow> string \<Rightarrow> PatternError + HTTPResponse" where
  "ParseHTTPResponse atoi_error rawResponse =
     (if rawResponse = [] then Inl (parse_error ''empty HTTP response'' [])
      else let statusLine = hd (split_on newline rawResponse)
           in if \<not> has_prefix statusLine ''HTTP/'' then Inl (parse_error ''invalid HTTP status line'' statusLine)
              else case ExtractStatusCode atoi_error rawResponse of
                Inl err \<Rightarrow> Inl err
              | Inr statusCode \<Rightarrow>
                  Inr \<lparr>hr_StatusCode = statusCode, hr_Headers = Some (ExtractHeaders rawResponse),
                       hr_Body = ExtractBody rawResponse, hr_URL = []\<rparr>)"

section \<open>What extraction keeps\<close>

lemma put_fields [simp]:
  "hm_Matched (put k v r) = hm_Matched r" "hm_PatternName (put k v r) = hm_PatternName r"
  "hm_PatternType (put k v r) = hm_PatternType r" "hm_APIType (put k v r) = hm_APIType r"
  "hm_Context (put k v r) = (hm_Context r)(k \<mapsto> v)"
  by (simp_all add: put_def)

lemma put_some_fields [simp]:
  "hm_Matched (put_some k v r) = hm_Matched r" "hm_PatternName (put_some k v r) = hm_PatternName r"
  "hm_PatternType (put_some k v r) = hm_PatternType r" "hm_APIType (put_some k v r) = hm_APIType r"
  "k' \<noteq> k \<Longrightarrow> hm_Context (put_some k v r) k' = hm_Context r k'"
  "hm_Context (put_some k v r) k = (case v of None \<Rightarrow> hm_Context r k | Some s \<Rightarrow> Some (GStr s))"
  by (simp_all add: put_some_def split: option.splits)

lemmas body_context_defs = extractGitHubContext_def extractAWSContext_def extractKubernetesContext_def
  extractGenericContext_def parseKubernetesMessage_def

lemma extractFromJSONBody_fields [simp]:
  "hm_Matched (extractFromJSONBody resp r) = hm_Matched r" "hm_PatternName (extractFromJSONBody resp r) = hm_PatternName r"
  "hm_PatternType (extractFromJSONBody resp r) = hm_PatternType r" "hm_APIType (extractFromJSONBody resp r) = hm_APIType r"
  "hm_Context (extractFromJSONBody resp r) ''retry_after'' = hm_Context r ''retry_after''"
  by (simp_all add: extractFromJSONBody_def body_context_defs Let_def split: option.splits)

lemma put_seconds_fields [simp]:
  "hm_Matched (put_seconds v r) = hm_Matched r" "hm_PatternName (put_seconds v r) = hm_PatternName r"
  "hm_PatternType (put_seconds v r) = hm_PatternType r" "hm_APIType (put_seconds v r) = hm_APIType r"
  by (simp_all add: put_seconds_def split: option.splits)

lemma setRetryStrategy_fields [simp]:
  "hm_Matched (setRetryStrategy resp r) = hm_Matched r" "hm_PatternName (setRetryStrategy resp r) = hm_PatternName r"
  "hm_PatternType (setRetryStrategy resp r) = hm_PatternType r" "hm_APIType (setRetryStrategy resp r) = hm_APIType r"
  by (simp_all add: setRetryStrategy_def fixed_delay_def)

lemma extractContext_fields [simp]:
  "hm_Matched (extractContextFromResponse resp r) = hm_Matched r"
  "hm_PatternName (extractContextFromResponse resp r) = hm_PatternName r"
  "hm_PatternType (extractContextFromResponse resp r) = hm_PatternType r"
  "hm_APIType (extractContextFromResponse resp r) = hm_APIType r"
  by (simp_all add: extractContextFromResponse_def)

lemma matched_result_fields [simp]:
  "hm_Matched (matched_result resp name pt r)" "hm_PatternName (matched_result resp name pt r) = name"
  "hm_PatternType (matched_result resp name pt r) = pt" "hm_APIType (matched_result resp name pt r) = hm_APIType r"
  "hm_Context (matched_result resp name pt r) = hm_Context r"
  by (simp_all add: matched_result_def)

section \<open>The recommended delay\<close>

text \<open>
  Which value of the header survives in the context: where the rate-limit branches of the retry
  strategy run they replace the text by a float.
\<close>

definition keeps_text :: "HTTPResponse \<Rightarrow> bool" where
  "keeps_text resp \<longleftrightarrow> header resp ''X-RateLimit-Limit'' = None \<and>
     (header resp ''X-Amzn-ErrorType'' = Some ''Throttling'' \<or> hr_Headers resp = None \<or> hr_StatusCode resp \<noteq> 429)"

definition reset_header :: "HTTPResponse \<Rightarrow> string option" where
  "reset_header resp = (case header resp ''Retry-After'' of Some s \<Rightarrow> Some s | None \<Rightarrow> header resp ''X-Rate-Limit-Reset'')"

lemma setRetryStrategy_retry_after:
  "hm_Context (setRetryStrategy resp r) ''retry_after'' =
    (if keeps_text resp then hm_Context r ''retry_after''
     else case Option.bind (reset_header resp) parse_int of
       Some n \<Rightarrow> Some (GFloat (f64_of_int n)) | None \<Rightarrow> hm_Context r ''retry_after'')"
  by (auto simp: setRetryStrategy_def fixed_delay_def put_seconds_def keeps_text_def reset_header_def split: option.splits)

lemma context_retry_after:
  assumes "hm_Context r ''retry_after'' = None"
  shows "hm_Context (extractContextFromResponse resp r) ''retry_after'' =
    (if keeps_text resp then map_option GStr (header resp ''Retry-After'')
     else case Option.bind (reset_header resp) parse_int of
       Some n \<Rightarrow> Some (GFloat (f64_of_int n)) | None \<Rightarrow> map_option GStr (header resp ''Retry-After''))"
  using assms by (simp add: extractContextFromResponse_def setRetryStrategy_retry_after Let_def split: option.splits)

text \<open>How a result with a context comes about.\<close>

lemma MatchHTTPResponse_hit:
  assumes "MatchHTTPResponse compile json_error dj nj d0 d now rk h (Some resp) = (Returns (Inr r), h')" "hm_Matched r"
  obtains r0 where "r = extractContextFromResponse resp r0" "hm_Context r0 ''retry_after'' = None"
    "hm_PatternType r0 = ''default'' \<or> hm_PatternType r0 = getPatternTypeFromStatus (hr_StatusCode resp)"
  using assms
  by (auto simp: MatchHTTPResponse_def Let_def split: option.splits if_splits prod.splits go_result.splits sum.splits bool.splits)

text \<open>C24. The delay recommended for a rate-limited response: the seconds of its \<open>Retry-After\<close> header count only when the
  response is throttled by AWS and has no \<open>X-RateLimit-Limit\<close> header; in every other case the header, present or
  not, is ignored and the delay is one minute.\<close>

theorem rate_limit_recommendation:
  assumes "MatchHTTPResponse compile json_error dj nj d0 d now rk h (Some resp) = (Returns (Inr r), h')"
    and "hm_Matched r" "hm_PatternType r = ''rate_limit''"
  shows "GetBackoffRecommendation (Some r) = recommend ''fixed''
     (case (header resp ''X-RateLimit-Limit'', header resp ''X-Amzn-ErrorType'', Option.bind (header resp ''Retry-After'') parse_int) of
        (None, Some e, Some n) \<Rightarrow> if e = ''Throttling'' then wrap64 (n * Second) else 60 * Second
      | _ \<Rightarrow> 60 * Second) 3 0"
proof -
  obtain r0 where r0: "r = extractContextFromResponse resp r0" "hm_Context r0 ''retry_after'' = None"
    "hm_PatternType r0 = ''default'' \<or> hm_PatternType r0 = getPatternTypeFromStatus (hr_StatusCode resp)"
    using MatchHTTPResponse_hit [OF assms(1,2)] .
  then have "hr_StatusCode resp = 429" using assms(3) by (auto simp: getPatternTypeFromStatus_def split: if_splits)
  then show ?thesis using assms(2,3) context_retry_after [OF r0(2), of resp]
    by (auto simp: GetBackoffRecommendation_def r0(1) keeps_text_def header_def reset_header_def split: option.splits)
qed

section \<open>Parsing what is printed\<close>

text \<open>A response as servers print it, with line ends \<open>\n\<close> or \<open>\r\n\<close>.\<close>

definition print_response :: "string \<Rightarrow> string \<Rightarrow> nat \<Rightarrow> string \<Rightarrow> (string \<times> string) list \<Rightarrow> string \<Rightarrow> string" where
  "print_response cr version code reason hs body =
     version @ '' '' @ utoa code @ '' '' @ reason @ cr @ [newline] @
     concat (map (\<lambda>(k, v). k @ '': '' @ v @ cr @ [newline]) hs) @ cr @ [newline] @ body"

definition printable_header :: "string \<times> string \<Rightarrow> bool" where
  "printable_header h = (case h of (k, v) \<Rightarrow>
     CHR '':'' \<notin> set k \<and> newline \<notin> set k \<and> newline \<notin> set v \<and> trim_space k = k \<and> trim_space v = v)"

lemma trim_space_pad:
  assumes "list_all is_space a" "list_all is_space b"
  shows "trim_space (a @ s @ b) = trim_space s"
proof (cases "list_all is_space s")
  case True
  then have "dropWhile is_space (a @ s @ b) = []" "dropWhile is_space s = []"
    using assms by (auto simp: list_all_iff dropWhile_eq_Nil_conv)
  then show ?thesis by (simp only: trim_space_def)
next
  case False
  then have "dropWhile is_space (s @ b) = dropWhile is_space s @ b"
    by (auto simp: list_all_iff dropWhile_append)
  moreover have "dropWhile is_space (a @ s @ b) = dropWhile is_space (s @ b)"
    using assms(1) by (simp add: dropWhile_append2 list_all_iff)
  moreover have "dropWhile is_space (rev b @ t) = dropWhile is_space t" for t
    using assms(2) by (auto simp: list_all_iff intro: dropWhile_append2)
  ultimately show ?thesis by (simp add: trim_space_def)
qed

lemma blank_iff: "blank s \<longleftrightarrow> list_all is_space s"
proof
  assume "list_all is_space s"
  then have "dropWhile is_space s = []" by (auto simp: list_all_iff dropWhile_eq_Nil_conv)
  then show "blank s" by (simp only: blank_def trim_space_def) simp
next
  assume b: "blank s"
  show "list_all is_space s"
  proof (rule ccontr)
    assume "\<not> list_all is_space s"
    then have ne: "dropWhile is_space s \<noteq> []" by (auto simp: list_all_iff dropWhile_eq_Nil_conv)
    from b have "\<forall>x\<in>set (dropWhile is_space s). is_space x"
      by (auto simp: blank_def trim_space_def dropWhile_eq_Nil_conv)
    then have "is_space (hd (dropWhile is_space s))" using ne by simp
    then show False using hd_dropWhile [OF ne] by simp
  qed
qed

lemma fields_space [simp]: "is_space c \<Longrightarrow> fields (c # s) = fields s"
  by (subst (1 2) fields.simps) simp

lemma fields_word:
  assumes "p \<noteq> []" "list_all (\<lambda>c. \<not> is_space c) p" "is_space c"
  shows "fields (p @ c # s) = p # fields s"
proof -
  have "dropWhile is_space (p @ c # s) = p @ c # s" using assms(1,2) by (cases p) auto
  moreover have "takeWhile (\<lambda>c. \<not> is_space c) (p @ c # s) = p" "dropWhile (\<lambda>c. \<not> is_space c) (p @ c # s) = c # s"
    using assms(2,3) by (simp_all add: takeWhile_append2 dropWhile_append2 list_all_iff)
  ultimately show ?thesis using assms by (subst fields.simps) (simp add: Let_def)
qed

lemma index_of_append: "c \<notin> set k \<Longrightarrow> index_of c (k @ c # s) = Some (length k)"
proof -
  assume "c \<notin> set k"
  then have "takeWhile (\<lambda>x. x \<noteq> c) (k @ c # s) = k" by (induction k) auto
  then show ?thesis by (simp add: index_of_def)
qed

lemma split_headers:
  assumes "list_all printable_header hs" "newline \<notin> set cr"
  shows "split_on newline (concat (map (\<lambda>(k, v). k @ '': '' @ v @ cr @ [newline]) hs) @ t) =
     map (\<lambda>(k, v). k @ '': '' @ v @ cr) hs @ split_on newline t"
  using assms(1)
proof (induction hs)
  case (Cons h hs)
  obtain k v where h: "h = (k, v)" by (cases h)
  have "newline \<notin> set (k @ '': '' @ v @ cr)" using Cons.prems assms(2) by (simp add: h printable_header_def)
  from split_on_append [OF this] show ?case using Cons by (simp add: h)
qed simp

lemma header_lines_printed:
  assumes "list_all printable_header hs" "list_all is_space cr"
  shows "header_lines (map (\<lambda>(k, v). k @ '': '' @ v @ cr) hs @ cr # ls) m = m ++ map_of (rev hs)"
  using assms(1)
proof (induction hs arbitrary: m)
  case Nil
  then show ?case using assms(2) by (simp add: blank_iff)
next
  case (Cons h hs)
  obtain k v where h: "h = (k, v)" by (cases h)
  let ?l = "k @ '': '' @ v @ cr"
  have p: "CHR '':'' \<notin> set k" "trim_space k = k" "trim_space v = v" using Cons.prems by (simp_all add: h printable_header_def)
  have "index_of (CHR '':'') ?l = Some (length k)" using index_of_append [OF p(1), of "'' '' @ v @ cr"] by simp
  moreover have "\<not> blank ?l" by (simp add: blank_iff is_space_def)
  moreover have "trim_space (take (length k) ?l) = k" using p by simp
  moreover have "trim_space (drop (length k + 1) ?l) = v"
    using trim_space_pad [of "'' ''" cr v] assms(2) p by (simp add: is_space_def)
  ultimately show ?case using Cons by (simp add: h)
qed

text \<open>C28. Round trip of HTTP responses: parsing a printed response gives its status code, for every header name the value
  printed last, and the body without surrounding white space, with either kind of line end.\<close>

theorem parse_printed_response:
  assumes "cr = [] \<or> cr = [CHR 0x0D]" "has_prefix version ''HTTP/''" "list_all (\<lambda>c. \<not> is_space c) version"
    and "code < 2 ^ 63" "newline \<notin> set reason" "list_all printable_header hs"
  shows "ParseHTTPResponse atoi_error (print_response cr version code reason hs body) =
     Inr \<lparr>hr_StatusCode = int code, hr_Headers = Some (map_of (rev hs)), hr_Body = trim_space body, hr_URL = []\<rparr>"
proof -
  let ?raw = "print_response cr version code reason hs body" and ?status = "version @ '' '' @ utoa code @ '' '' @ reason @ cr"
  have cr: "newline \<notin> set cr" "list_all is_space cr" using assms(1) by (auto simp: is_space_def)
  have digits: "list_all (\<lambda>c. \<not> is_space c) (utoa code)" "utoa code \<noteq> []"
    using utoa_digits [of code] by (auto simp: list_all_iff digit_not_space)
  have nl: "newline \<notin> set p" if "list_all (\<lambda>c. \<not> is_space c) p" for p
    using that by (auto simp: list_all_iff is_space_def)
  have "newline \<notin> set ?status" using nl [OF assms(3)] nl [OF digits(1)] assms(5) cr(1) by simp
  from split_on_append [OF this]
  have lines: "split_on newline ?raw = ?status # map (\<lambda>(k, v). k @ '': '' @ v @ cr) hs @ cr # split_on newline body"
    using split_headers [OF assms(6) cr(1), of "cr @ newline # body"] split_on_append [OF cr(1), of body]
    by (simp add: print_response_def)
  have ne: "version \<noteq> []" using assms(2) by auto
  have "fields ?status = version # utoa code # fields (reason @ cr)"
    using fields_word [OF ne assms(3), of "CHR '' ''"] fields_word [OF digits(2,1), of "CHR '' ''"] by (simp add: is_space_def)
  then have status: "ExtractStatusCode atoi_error ?raw = Inr (int code)"
    using assms(4) by (simp add: ExtractStatusCode_def lines)
  have headers: "ExtractHeaders ?raw = map_of (rev hs)"
    using header_lines_printed [OF assms(6) cr(2)] by (simp add: ExtractHeaders_def lines)
  have "dropWhile (\<lambda>line. \<not> blank line) (map (\<lambda>(k, v). k @ '': '' @ v @ cr) hs @ cr # ls) = cr # ls" for ls
    using cr(2) by (induction hs) (auto simp: blank_iff is_space_def)
  then have body: "ExtractBody ?raw = trim_space body" by (simp add: ExtractBody_def lines join_split_on)
  have "?raw \<noteq> []" "has_prefix ?status ''HTTP/''" using ne assms(2) by (auto simp: print_response_def has_prefix_iff)
  then show ?thesis by (simp add: ParseHTTPResponse_def status headers body lines)
qed

definition sample_headers :: "(string \<times> string) list" where
  "sample_headers = [(''Content-Type'', ''application/json''), (''Retry-After'', ''7''), (''X-RateLimit-Limit'', ''60'')]"

theorem parse_printed_response_witness:
  "ParseHTTPResponse (\<lambda>_. []) (print_response [CHR 0x0D] ''HTTP/1.1'' 429 ''Too Many Requests'' sample_headers ''slow down'') =
     Inr \<lparr>hr_StatusCode = 429, hr_Headers = Some (map_of (rev sample_headers)), hr_Body = ''slow down'', hr_URL = []\<rparr>"
proof -
  have "trim_space ''slow down'' = ''slow down''" by code_simp
  moreover have "list_all printable_header sample_headers" "list_all (\<lambda>c. \<not> is_space c) ''HTTP/1.1''" by code_simp+
  ultimately show ?thesis
    using parse_printed_response [of "[CHR 0x0D]" "''HTTP/1.1''" 429 "''Too Many Requests''" sample_headers "\<lambda>_. []" "''slow down''"]
    by simp
qed

section \<open>The default configuration\<close>

definition default_status_matcher :: JSONPatternMatcher where
  "default_status_matcher = \<lparr>jm_pattern = ''$.* != null'', jm_jsonPath = ''$.*'', jm_operator = OpNotEqual,
     jm_expectedValue = GNil, jm_compiledRegex = None, jm_metrics = zero_match_metrics\<rparr>"

lemma default_status_pattern: "NewJSONPatternMatcher compile rk ''$.* != null'' = Returns (Inr default_status_matcher)"
proof -
  have "find_operator rk ''$.* != null'' = Some (''!='', OpNotEqual)"
    by (rule find_operator_unique) (auto simp: operators_def spaced_def)
  moreover have "split_str (spaced ''!='') ''$.* != null'' = [''$.*'', ''null'']" by code_simp
  moreover have "trim_space ''$.*'' = ''$.*''" "trim_space ''null'' = ''null''" by code_simp+
  moreover have "validateJSONPath ''$.*'' = None" "parseExpectedValue ''null'' = GNil" by code_simp+
  ultimately show ?thesis by (simp add: NewJSONPatternMatcher_def parsePattern_def default_status_matcher_def)
qed

lemma default_status_matchers:
  assumes "set xs \<subseteq> set (hc_StatusPatterns DefaultHTTPPatternConfig)"
  shows "status_matchers compile rks xs = Returns (Inr (map (\<lambda>(sc, _). (sc, default_status_matcher)) xs))"
proof -
  have "list_all (\<lambda>e. snd e = ''$.* != null'') xs"
    using assms by (auto simp: DefaultHTTPPatternConfig_def list_all_iff)
  then show ?thesis by (induction xs) (auto simp: default_status_pattern)
qed

definition default_matcher :: "(int \<Rightarrow> nat) \<Rightarrow> HTTPPatternMatcher" where
  "default_matcher rk = \<lparr>h_config = DefaultHTTPPatternConfig,
     h_statusMatchers = map (\<lambda>(sc, _). (sc, default_status_matcher)) (map_range rk (hc_StatusPatterns DefaultHTTPPatternConfig)),
     h_apiDetector = True, h_metrics = zero_match_metrics\<rparr>"

text \<open>The default configuration is accepted, whatever the orders of the maps.\<close>

lemma default_matcher_made: "NewHTTPPatternMatcher compile rk rks DefaultHTTPPatternConfig = Returns (Inr (default_matcher rk))"
proof -
  have "hc_EnableStatusRouting DefaultHTTPPatternConfig" "hc_StatusPatterns DefaultHTTPPatternConfig \<noteq> []"
    "hc_EnableAPIDetection DefaultHTTPPatternConfig" by (simp_all add: DefaultHTTPPatternConfig_def)
  then show ?thesis by (simp add: NewHTTPPatternMatcher_def default_status_matchers default_matcher_def)
qed

text \<open>
  The pattern of the status routing asks for a field whose name is an asterisk: paths have no wildcard
  for fields, so ordinary documents never match it.
\<close>

lemma status_pattern_needs_star:
  "unmarshal_any body = Some (GMap ms) \<Longrightarrow> map_get ms ''*'' = None \<Longrightarrow>
     fst (Match compile json_error d now default_status_matcher body) = Returns (Inr False)"
proof -
  have "split_on (CHR ''.'') ''*'' = [''*'']" "has_prefix ''$.*'' ''$.''" "index_of (CHR ''['') ''*'' = None" by code_simp+
  then show "unmarshal_any body = Some (GMap ms) \<Longrightarrow> map_get ms ''*'' = None \<Longrightarrow>
     fst (Match compile json_error d now default_status_matcher body) = Returns (Inr False)"
    by (simp add: Match_def MatchWithContext_def default_status_matcher_def extractValue_def navigateToField_def)
qed

lemma first_header_None: "first_header resp es = None \<longleftrightarrow> list_all (\<lambda>e. header_match resp e = None) es"
  by (induction es) (auto split: option.splits)

lemma DetectAPI_default: "\<exists>ps. map_of (hc_APIPatterns DefaultHTTPPatternConfig) (DetectAPI (Some resp)) = Some ps \<and> ps \<noteq> []"
  by (simp add: DetectAPI_def DefaultHTTPPatternConfig_def)

lemma DetectAPI_known: "DetectAPI (Some resp) \<noteq> APITypeUnknown"
  by (simp add: DetectAPI_def)

lemma find_matchPattern: "ps \<noteq> [] \<Longrightarrow> List.find (matchPattern resp) ps = (if hr_Body resp = [] then None else Some (hd ps))"
  by (cases ps) (auto simp: matchPattern_def find_None_iff)

definition header_hit :: "HTTPPatternConfig \<Rightarrow> HTTPResponse \<Rightarrow> bool" where
  "header_hit cfg resp \<longleftrightarrow> list_ex (\<lambda>e. header_match resp e \<noteq> None) (hc_HeaderPatterns cfg)"

lemma first_header_range:
  "first_header resp (map_range rk (hc_HeaderPatterns cfg)) = None \<longleftrightarrow> \<not> header_hit cfg resp"
  by (auto simp: first_header_None header_hit_def list_all_iff list_ex_iff)

lemma empty_not_json: "unmarshal_any [] = None"
  by code_simp

text \<open>With the default configuration every response with a body matches, and one without a body only by a header; in
  every order of the header map the result has the detected API and, when it matches, the type its status code stands
  for, and matching never fails.\<close>

lemma default_match_result:
  assumes "h_config h = DefaultHTTPPatternConfig" "h_apiDetector h"
  shows "case fst (MatchHTTPResponse compile json_error dj nj d0 d now rk h (Some resp)) of
       Returns (Inr r) \<Rightarrow>
         hm_Matched r = (hr_Body resp \<noteq> [] \<or> header_hit DefaultHTTPPatternConfig resp)
         \<and> hm_APIType r = DetectAPI (Some resp)
         \<and> hm_PatternType r = (if hm_Matched r then getPatternTypeFromStatus (hr_StatusCode resp) else [])
     | _ \<Rightarrow> False"
proof -
  let ?cfg = DefaultHTTPPatternConfig
  have flags: "hc_EnableStatusRouting ?cfg" "hc_EnableHeaderRouting ?cfg" "hc_EnableAPIDetection ?cfg"
    by (simp_all add: DefaultHTTPPatternConfig_def)
  obtain ps where ps: "map_of (hc_APIPatterns ?cfg) (DetectAPI (Some resp)) = Some ps" "ps \<noteq> []"
    using DetectAPI_default by blast
  note facts = assms flags ps DetectAPI_known find_matchPattern [OF ps(2)]
  consider (header) hdr name where "first_header resp (map_range rk (hc_HeaderPatterns ?cfg)) = Some (hdr, name)"
    | (body) "first_header resp (map_range rk (hc_HeaderPatterns ?cfg)) = None" "hr_Body resp \<noteq> []"
    | (neither) "first_header resp (map_range rk (hc_HeaderPatterns ?cfg)) = None" "hr_Body resp = []"
    by (metis option.exhaust prod.exhaust)
  then show ?thesis
  proof cases
    case header
    then have "header_hit ?cfg resp" using first_header_range [of resp rk ?cfg] by auto
    then show ?thesis using header by (simp add: MatchHTTPResponse_def Let_def DetectAPIType_def facts)
  next
    case body
    then show ?thesis by (simp add: MatchHTTPResponse_def Let_def DetectAPIType_def facts)
  next
    case neither
    then have no: "\<not> header_hit ?cfg resp" by (simp add: first_header_range)
    show ?thesis
      by (cases "map_of (h_statusMatchers h) (hr_StatusCode resp)")
        (simp_all add: MatchHTTPResponse_def Let_def DetectAPIType_def facts matchPattern_def Match_def MatchWithContext_def
          empty_not_json no neither)
  qed
qed

definition sample_response :: "(string \<rightharpoonup> string) \<Rightarrow> HTTPResponse" where
  "sample_response hs = \<lparr>hr_StatusCode = 429, hr_Headers = Some hs, hr_Body = ''slow down'', hr_URL = []\<rparr>"

lemma default_match_example:
  "case fst (MatchHTTPResponse (\<lambda>_. Inl []) (\<lambda>_. []) 0 0 0 0 0 (\<lambda>_. 0) (default_matcher (\<lambda>_. 0))
       (Some (sample_response [''Retry-After'' \<mapsto> ''7'']))) of
     Returns (Inr r) \<Rightarrow> hm_Matched r \<and> hm_APIType r = APITypeGeneric \<and> hm_PatternType r = ''rate_limit''
   | _ \<Rightarrow> False"
proof -
  have "DetectAPI (Some (sample_response [''Retry-After'' \<mapsto> ''7''])) = APITypeGeneric"
    by (simp add: DetectAPI_def sample_response_def header_def quote_def)
  then show ?thesis
    using default_match_result [where h = "default_matcher (\<lambda>_. 0)" and resp = "sample_response [''Retry-After'' \<mapsto> ''7'']"
        and compile = "\<lambda>_. Inl []" and json_error = "\<lambda>_. []" and dj = 0 and nj = 0 and ?d0.0 = 0 and d = 0 and now = 0
        and rk = "\<lambda>_. 0"]
    by (simp add: default_matcher_def sample_response_def getPatternTypeFromStatus_def split: go_result.splits sum.splits)
qed

text \<open>A rate limit that asks for seven seconds: the recommendation is a minute.\<close>

lemma sample_match:
  "\<exists>r h'. MatchHTTPResponse (\<lambda>_. Inl []) (\<lambda>_. []) 0 0 0 0 0 (\<lambda>_. 0) (default_matcher (\<lambda>_. 0))
       (Some (sample_response [''Retry-After'' \<mapsto> ''7''])) = (Returns (Inr r), h') \<and> hm_Matched r \<and> hm_PatternType r = ''rate_limit''"
  by (auto simp: MatchHTTPResponse_def Let_def default_matcher_def DefaultHTTPPatternConfig_def sample_response_def DetectAPIType_def
      DetectAPI_def header_def quote_def map_range_def header_match_def matchPattern_def getPatternTypeFromStatus_def)

theorem rate_limit_recommendation_witness:
  "\<exists>r h'. MatchHTTPResponse (\<lambda>_. Inl []) (\<lambda>_. []) 0 0 0 0 0 (\<lambda>_. 0) (default_matcher (\<lambda>_. 0))
       (Some (sample_response [''Retry-After'' \<mapsto> ''7''])) = (Returns (Inr r), h')
     \<and> GetBackoffRecommendation (Some r) = recommend ''fixed'' (60 * Second) 3 0"
proof -
  from sample_match obtain r h' where
    r: "MatchHTTPResponse (\<lambda>_. Inl []) (\<lambda>_. []) 0 0 0 0 0 (\<lambda>_. 0) (default_matcher (\<lambda>_. 0))
       (Some (sample_response [''Retry-After'' \<mapsto> ''7''])) = (Returns (Inr r), h')" "hm_Matched r" "hm_PatternType r = ''rate_limit''"
    by blast
  have "header (sample_response [''Retry-After'' \<mapsto> ''7'']) ''X-Amzn-ErrorType'' = None"
    by (simp add: sample_response_def header_def)
  then have "GetBackoffRecommendation (Some r) = recommend ''fixed'' (60 * Second) 3 0"
    using rate_limit_recommendation [OF r] by (simp split: option.splits)
  then show ?thesis using r(1) by blast
qed

end
