(* ===== verification/HttpBackoff.thy ===== *)
theory HttpBackoff
  imports HttpPattern Strategy
begin

text \<open>
  The selection of a strategy from an HTTP response, \<open>pkg/backoff/http_aware_selector.go\<close>, and the
  backoff built on it, \<open>http_aware_adaptive.go\<close>. The hash of the cache keys, \<open>md5.Sum\<close> printed in
  hexadecimal, is a parameter; the calls of the response matcher take their clock readings, map order and
  expressions from a record. The cache of the selector is a map; its tracker map, which nothing
  reads or fills, is left out. The mutexes guard single steps.
\<close>

record match_env =
  me_compile :: compiler
  me_json_error :: "string \<Rightarrow> string"
  me_dj :: duration
  me_nj :: instant
  me_d0 :: duration
  me_d :: duration
  me_now :: instant
  me_rk :: "string \<Rightarrow> nat"

definition env_match ::
  "match_env \<Rightarrow> HTTPPatternMatcher \<Rightarrow> HTTPResponse \<Rightarrow> (PatternError + HTTPMatchResult) go_result \<times> HTTPPatternMatcher" where
  "env_match e h response =
     MatchHTTPResponse (me_compile e) (me_json_error e) (me_dj e) (me_nj e) (me_d0 e) (me_d e) (me_now e) (me_rk e) h (Some response)"

type_synonym params = "string \<rightharpoonup> param"

record StrategyRecommendation =
  sn_Type :: string
  sn_Parameters :: params
  sn_Adaptive :: bool
  sn_Priority :: int

record HTTPAwareBackoffSelector =
  hs_patternMatcher :: "HTTPPatternMatcher option"
  hs_strategyCache :: "string \<rightharpoonup> StrategyRecommendation"

section \<open>Selection\<close>

definition NewHTTPAwareBackoffSelector ::
  "compiler \<Rightarrow> (int \<Rightarrow> nat) \<Rightarrow> (int \<Rightarrow> string \<Rightarrow> nat) \<Rightarrow> HTTPAwareBackoffSelector go_result" where
  "NewHTTPAwareBackoffSelector compile rk rks =
     (case NewHTTPPatternMatcher compile rk rks DefaultHTTPPatternConfig of
        Panics \<Rightarrow> Panics
      | Returns (Inl _) \<Rightarrow> Returns \<lparr>hs_patternMatcher = None, hs_strategyCache = Map.empty\<rparr>
      | Returns (Inr m) \<Rightarrow> Returns \<lparr>hs_patternMatcher = Some m, hs_strategyCache = Map.empty\<rparr>)"

text \<open>\<open>fmt\<close> prints a list of strings with spaces between brackets; the key has two pairs of them.\<close>

definition keyHeaders :: "string list" where
  "keyHeaders = [''X-RateLimit-Limit'', ''X-Amzn-ErrorType'', ''X-GitHub-Media-Type'', ''Content-Type'']"

definition getKeyHeaders :: "HTTPResponse \<Rightarrow> string" where
  "getKeyHeaders response =
     ''[['' @ join '' '' (List.map_filter (\<lambda>k. map_option (\<lambda>v. k @ '':'' @ v) (header response k)) keyHeaders) @ '']]''"

definition generateCacheKey :: "(string \<Rightarrow> string) \<Rightarrow> HTTPResponse \<Rightarrow> string" where
  "generateCacheKey md5 response =
     md5 (itoa (hr_StatusCode response) @ '':'' @ hr_URL response @ '':'' @ getKeyHeaders response)"

definition isAdaptiveStrategy :: "string \<Rightarrow> bool" where
  "isAdaptiveStrategy strategy \<longleftrightarrow> strategy \<in> set [''adaptive'', ''diophantine'']"

definition getStrategyPriority :: "string \<Rightarrow> int" where
  "getStrategyPriority strategy =
     (case map_of [(''diophantine'', 1), (''polynomial'', 2), (''exponential'', 3), (''adaptive'', 4), (''fixed'', 5)] strategy of
        Some p \<Rightarrow> p | None \<Rightarrow> 10)"

definition selectGitHubStrategy :: "platform \<Rightarrow> HTTPMatchResult \<Rightarrow> string \<times> params" where
  "selectGitHubStrategy p result =
     (let ps = [''discovery_enabled'' \<mapsto> PBool True, ''pattern_learning'' \<mapsto> PBool True, ''max_attempts'' \<mapsto> PInt 5]
      in (''diophantine'',
          case hm_Context result ''retry_after'' of
            Some (GFloat x) \<Rightarrow> ps(''base_delay'' \<mapsto> PDuration (wrap64 (i64_of_f64 p x * Second)))
          | _ \<Rightarrow> ps))"

definition selectAWSStrategy :: "HTTPMatchResult \<Rightarrow> string \<times> params" where
  "selectAWSStrategy result =
     (''polynomial'', [''degree'' \<mapsto> PInt 2, ''coefficient'' \<mapsto> PFloat (Fin (3 / 2)), ''max_delay'' \<mapsto> PDuration (300 * Second),
                       ''jitter'' \<mapsto> PBool True])"

definition selectKubernetesStrategy :: "HTTPMatchResult \<Rightarrow> string \<times> params" where
  "selectKubernetesStrategy result =
     (''exponential'', [''multiplier'' \<mapsto> PFloat (Fin 2), ''initial_delay'' \<mapsto> PDuration (1 * Second),
                        ''max_delay'' \<mapsto> PDuration (30 * Second), ''jitter'' \<mapsto> PBool True])"

definition selectGenericStrategyFromResult :: "HTTPMatchResult \<Rightarrow> string \<times> params" where
  "selectGenericStrategyFromResult result =
     (''adaptive'', [''learning_enabled'' \<mapsto> PBool True, ''effectiveness_tracking'' \<mapsto> PBool True])"

definition selectStrategyFromResult :: "platform \<Rightarrow> HTTPMatchResult \<Rightarrow> string \<times> params" where
  "selectStrategyFromResult p result =
     (if hm_APIType result = APITypeGitHub then selectGitHubStrategy p result
      else if hm_APIType result = APITypeAWS then selectAWSStrategy result
      else if hm_APIType result = APITypeKubernetes then selectKubernetesStrategy result
      else selectGenericStrategyFromResult result)"

definition selectGenericStrategy :: "HTTPResponse \<Rightarrow> string \<times> params" where
  "selectGenericStrategy response =
     (if hr_StatusCode response = 429 then (''fixed'', [''initial_delay'' \<mapsto> PDuration (60 * Second), ''max_retries'' \<mapsto> PInt 3])
      else if 500 \<le> hr_StatusCode response
      then (''exponential'', [''multiplier'' \<mapsto> PFloat (Fin 2), ''initial_delay'' \<mapsto> PDuration (1 * Second),
                              ''max_delay'' \<mapsto> PDuration (30 * Second)])
      else (''adaptive'', [''learning_enabled'' \<mapsto> PBool True]))"

text \<open>The choice is put into the cache and returned.\<close>

definition cache_choice ::
  "string \<Rightarrow> string \<times> params \<Rightarrow> HTTPAwareBackoffSelector \<Rightarrow> (string \<times> params) \<times> HTTPAwareBackoffSelector" where
  "cache_choice cacheKey c s =
     (c, s\<lparr>hs_strategyCache := (hs_strategyCache s)(cacheKey \<mapsto>
        \<lparr>sn_Type = fst c, sn_Parameters = snd c, sn_Adaptive = isAdaptiveStrategy (fst c),
         sn_Priority = getStrategyPriority (fst c)\<rparr>)\<rparr>)"

text \<open>The error that \<open>SelectStrategy\<close> returns is always \<open>nil\<close>.\<close>

definition SelectStrategy ::
  "platform \<Rightarrow> (string \<Rightarrow> string) \<Rightarrow> match_env \<Rightarrow> HTTPAwareBackoffSelector \<Rightarrow> HTTPResponse option
     \<Rightarrow> ((string \<times> params) \<times> HTTPAwareBackoffSelector) go_result" where
  "SelectStrategy p md5 e s response =
     (case response of
        None \<Rightarrow> Returns ((''exponential'', Map.empty), s)
      | Some resp \<Rightarrow>
          let cacheKey = generateCacheKey md5 resp
          in case hs_strategyCache s cacheKey of
               Some cached \<Rightarrow> Returns ((sn_Type cached, sn_Parameters cached), s)
             | None \<Rightarrow>
                 (case hs_patternMatcher s of
                    None \<Rightarrow> Returns (cache_choice cacheKey (selectGenericStrategy resp) s)
                  | Some m \<Rightarrow>
                      (case env_match e m resp of
                         (Panics, _) \<Rightarrow> Panics
                       | (Returns (Inr result), m') \<Rightarrow>
                           Returns (cache_choice cacheKey (selectStrategyFromResult p result) (s\<lparr>hs_patternMatcher := Some m'\<rparr>))
                       | (Returns (Inl _), m') \<Rightarrow>
                           Returns (cache_choice cacheKey (selectGenericStrategy resp) (s\<lparr>hs_patternMatcher := Some m'\<rparr>)))))"

section \<open>Delays\<close>

record HTTPAwareAdaptiveBackoff =
  hb_httpSelector :: HTTPAwareBackoffSelector
  hb_fallbackStrategy :: Exponential
  hb_lastResponse :: "HTTPResponse option"
  hb_currentAttempt :: int
  hb_rng :: rng

record AdaptiveBackoffConfig =
  ac_InitialDelay :: duration
  ac_MaxDelay :: duration
  ac_Multiplier :: f64
  ac_Jitter :: bool
  ac_MaxAttempts :: int
  ac_LearningEnabled :: bool

definition NewHTTPAwareAdaptiveBackoff ::
  "compiler \<Rightarrow> (int \<Rightarrow> nat) \<Rightarrow> (int \<Rightarrow> string \<Rightarrow> nat) \<Rightarrow> rng \<Rightarrow> AdaptiveBackoffConfig \<Rightarrow> HTTPAwareAdaptiveBackoff go_result" where
  "NewHTTPAwareAdaptiveBackoff compile rk rks rng config =
     (case NewHTTPAwareBackoffSelector compile rk rks of
        Panics \<Rightarrow> Panics
      | Returns s \<Rightarrow> Returns \<lparr>hb_httpSelector = s,
          hb_fallbackStrategy = NewExponential (ac_InitialDelay config) (ac_Multiplier config) (ac_MaxDelay config),
          hb_lastResponse = None, hb_currentAttempt = 0, hb_rng = rng\<rparr>)"

definition DefaultAdaptiveBackoffConfig :: AdaptiveBackoffConfig where
  "DefaultAdaptiveBackoffConfig = \<lparr>ac_InitialDelay = 1 * Second, ac_MaxDelay = 30 * Second, ac_Multiplier = Fin 2,
     ac_Jitter = True, ac_MaxAttempts = 5, ac_LearningEnabled = True\<rparr>"

fun pow_loop :: "f64 \<Rightarrow> nat \<Rightarrow> f64 \<Rightarrow> f64" where
  "pow_loop base 0 result = result"
| "pow_loop base (Suc n) result = pow_loop base n (fmul result base)"

definition pow :: "f64 \<Rightarrow> int \<Rightarrow> f64" where
  "pow base expo = pow_loop base (nat expo) (Fin 1)"

definition applyJitter :: "platform \<Rightarrow> duration \<Rightarrow> rng \<Rightarrow> duration \<times> rng" where
  "applyJitter p delay r =
     (let jitterAmount = fmul (f64_of_int delay) (f64_round (1 / 5));
          (u, r') = rand_Float64 r;
          jitter = fmul (fmul (fsub u (Fin (1 / 2))) (Fin 2)) jitterAmount
      in (i64_of_f64 p (fadd (f64_of_int delay) jitter), r'))"

text \<open>The type assertions on the parameters: the value where it has the type, and the default otherwise.\<close>

definition duration_param :: "params \<Rightarrow> string \<Rightarrow> duration \<Rightarrow> duration" where
  "duration_param ps k dflt = (case ps k of Some (PDuration d) \<Rightarrow> d | _ \<Rightarrow> dflt)"

definition float_param :: "params \<Rightarrow> string \<Rightarrow> f64 \<Rightarrow> f64" where
  "float_param ps k dflt = (case ps k of Some (PFloat x) \<Rightarrow> x | _ \<Rightarrow> dflt)"

definition int_param :: "params \<Rightarrow> string \<Rightarrow> int \<Rightarrow> int" where
  "int_param ps k dflt = (case ps k of Some (PInt n) \<Rightarrow> n | _ \<Rightarrow> dflt)"

definition maybe_jitter :: "platform \<Rightarrow> params \<Rightarrow> duration \<Rightarrow> rng \<Rightarrow> duration \<times> rng" where
  "maybe_jitter p ps delay r = (if ps ''jitter'' = Some (PBool True) then applyJitter p delay r else (delay, r))"

definition applyDiophantineStrategy :: "int \<Rightarrow> params \<Rightarrow> duration" where
  "applyDiophantineStrategy count ps =
     (let attempt = (if count = 0 then 1 else count)
      in wrap64 (duration_param ps ''base_delay'' (60 * Second) * attempt))"

definition applyPolynomialStrategy :: "platform \<Rightarrow> int \<Rightarrow> params \<Rightarrow> rng \<Rightarrow> duration \<times> rng" where
  "applyPolynomialStrategy p count ps r =
     (let attempt = (if count = 0 then 1 else count);
          x = fmul (float_param ps ''coefficient'' (Fin (3 / 2))) (pow (f64_of_int attempt) (int_param ps ''degree'' 2))
      in maybe_jitter p ps (wrap64 (i64_of_f64 p x * Second)) r)"

definition applyExponentialStrategy :: "platform \<Rightarrow> int \<Rightarrow> params \<Rightarrow> rng \<Rightarrow> duration \<times> rng" where
  "applyExponentialStrategy p attempt ps r =
     (let x = fmul (f64_of_int (duration_param ps ''initial_delay'' (1 * Second)))
                (pow (float_param ps ''multiplier'' (Fin 2)) (wrap64 (attempt - 1)))
      in maybe_jitter p ps (i64_of_f64 p x) r)"

definition applyFixedStrategy :: "params \<Rightarrow> duration" where
  "applyFixedStrategy ps = duration_param ps ''initial_delay'' (60 * Second)"

definition applyHTTPAwareStrategy ::
  "platform \<Rightarrow> HTTPAwareAdaptiveBackoff \<Rightarrow> string \<Rightarrow> params \<Rightarrow> duration \<times> HTTPAwareAdaptiveBackoff" where
  "applyHTTPAwareStrategy p h strategy ps =
     (let attempt = hb_currentAttempt h; upd = (\<lambda>(d, r). (d, h\<lparr>hb_rng := r\<rparr>))
      in if strategy = ''diophantine'' then (applyDiophantineStrategy attempt ps, h)
         else if strategy = ''polynomial'' then upd (applyPolynomialStrategy p attempt ps (hb_rng h))
         else if strategy = ''exponential'' then upd (applyExponentialStrategy p attempt ps (hb_rng h))
         else if strategy = ''fixed'' then (applyFixedStrategy ps, h)
         else (Exponential_Delay p (hb_fallbackStrategy h) attempt, h))"

definition NextDelayWithHTTPContext ::
  "platform \<Rightarrow> (string \<Rightarrow> string) \<Rightarrow> match_env \<Rightarrow> HTTPAwareAdaptiveBackoff \<Rightarrow> HTTPResponse option
     \<Rightarrow> (duration \<times> HTTPAwareAdaptiveBackoff) go_result" where
  "NextDelayWithHTTPContext p md5 e h response =
     (case response of
        None \<Rightarrow> Returns (Exponential_Delay p (hb_fallbackStrategy h) (hb_currentAttempt h), h)
      | Some resp \<Rightarrow>
          (case SelectStrategy p md5 e (hb_httpSelector h) response of
             Panics \<Rightarrow> Panics
           | Returns ((strategy, ps), s) \<Rightarrow>
               Returns (applyHTTPAwareStrategy p (h\<lparr>hb_lastResponse := response, hb_httpSelector := s\<rparr>) strategy ps)))"

definition HTTPAwareAdaptive_Delay ::
  "platform \<Rightarrow> (string \<Rightarrow> string) \<Rightarrow> match_env \<Rightarrow> HTTPAwareAdaptiveBackoff \<Rightarrow> int
     \<Rightarrow> (duration \<times> HTTPAwareAdaptiveBackoff) go_result" where
  "HTTPAwareAdaptive_Delay p md5 e h attempt =
     (let h1 = h\<lparr>hb_currentAttempt := attempt\<rparr>
      in if hb_lastResponse h \<noteq> None then NextDelayWithHTTPContext p md5 e h1 (hb_lastResponse h)
         else Returns (Exponential_Delay p (hb_fallbackStrategy h) attempt, h1))"

section \<open>Parameters have the types the strategies ask for\<close>

datatype ty = TBool | TInt | TFloat | TDuration

fun type_of :: "param \<Rightarrow> ty" where
  "type_of (PBool _) = TBool"
| "type_of (PInt _) = TInt"
| "type_of (PFloat _) = TFloat"
| "type_of (PDuration _) = TDuration"

text \<open>The types the \<open>apply\<close> methods assert of the parameters they read.\<close>

definition asserted :: "string \<rightharpoonup> ty" where
  "asserted = [''base_delay'' \<mapsto> TDuration, ''degree'' \<mapsto> TInt, ''coefficient'' \<mapsto> TFloat, ''jitter'' \<mapsto> TBool,
     ''multiplier'' \<mapsto> TFloat, ''initial_delay'' \<mapsto> TDuration]"

definition well_typed :: "params \<Rightarrow> bool" where
  "well_typed ps \<longleftrightarrow> (\<forall>k t v. asserted k = Some t \<longrightarrow> ps k = Some v \<longrightarrow> type_of v = t)"

text \<open>What a strategy reads must be there, but for the base delay, which the server may leave out.\<close>

definition needed :: "string \<rightharpoonup> string list" where
  "needed = [''diophantine'' \<mapsto> [], ''polynomial'' \<mapsto> [''degree'', ''coefficient'', ''jitter''],
     ''exponential'' \<mapsto> [''multiplier'', ''initial_delay''], ''fixed'' \<mapsto> [''initial_delay''], ''adaptive'' \<mapsto> []]"

definition typed_choice :: "string \<times> params \<Rightarrow> bool" where
  "typed_choice c \<longleftrightarrow> well_typed (snd c) \<and> (\<exists>ks. needed (fst c) = Some ks \<and> set ks \<subseteq> dom (snd c))"

lemma well_typed_empty [simp]: "well_typed Map.empty"
  by (simp add: well_typed_def)

lemma well_typed_upd [simp]:
  "(case asserted k of None \<Rightarrow> True | Some t \<Rightarrow> type_of v = t) \<Longrightarrow> well_typed ps \<Longrightarrow> well_typed (ps(k \<mapsto> v))"
  by (auto simp: well_typed_def split: option.splits)



definition typed_cache :: "HTTPAwareBackoffSelector \<Rightarrow> bool" where
  "typed_cache s \<longleftrightarrow> (\<forall>k r. hs_strategyCache s k = Some r \<longrightarrow> typed_choice (sn_Type r, sn_Parameters r))"


lemma typed_cache_matcher [simp]: "typed_cache (s\<lparr>hs_patternMatcher := m\<rparr>) = typed_cache s"
  by (simp add: typed_cache_def)

lemma SelectStrategy_cases:
  assumes "SelectStrategy p md5 e s (Some resp) = Returns (c, s')"
  obtains (cached) r where "hs_strategyCache s (generateCacheKey md5 resp) = Some r" "c = (sn_Type r, sn_Parameters r)" "s' = s"
  | (fresh) m where "hs_strategyCache s (generateCacheKey md5 resp) = None"
      "s' = snd (cache_choice (generateCacheKey md5 resp) c (s\<lparr>hs_patternMatcher := m\<rparr>))"
      "c = selectGenericStrategy resp \<or> (\<exists>result. c = selectStrategyFromResult p result)"
proof (cases "hs_strategyCache s (generateCacheKey md5 resp)")
  case (Some r)
  then show thesis using assms by (intro cached) (auto simp: SelectStrategy_def)
next
  case None
  show thesis
  proof (cases "hs_patternMatcher s")
    case none: None
    then have "s\<lparr>hs_patternMatcher := None\<rparr> = s" by simp
    then show thesis using assms None none by (intro fresh [of None]) (auto simp: SelectStrategy_def cache_choice_def)
  next
    case (Some m)
    obtain v m' where v: "env_match e m resp = (v, m')" by (cases "env_match e m resp")
    show thesis using assms None Some v
      by (intro fresh [of "Some m'"]) (auto simp: SelectStrategy_def Let_def cache_choice_def split: go_result.splits sum.splits)
  qed
qed


text \<open>Sequences of selections, each with its own readings of clocks and orders.\<close>

inductive selected_from ::
  "platform \<Rightarrow> (string \<Rightarrow> string) \<Rightarrow> HTTPAwareBackoffSelector \<Rightarrow> HTTPAwareBackoffSelector \<Rightarrow> bool" for p md5 where
  refl: "selected_from p md5 s s"
| step: "selected_from p md5 s s1 \<Longrightarrow> SelectStrategy p md5 e s1 (Some resp) = Returns (c, s2) \<Longrightarrow> selected_from p md5 s s2"



section \<open>Cached choices\<close>

lemma SelectStrategy_keeps:
  assumes "SelectStrategy p md5 e s (Some resp) = Returns (c, s')" "hs_strategyCache s k = Some r"
  shows "hs_strategyCache s' k = Some r"
  using assms(1) by (cases rule: SelectStrategy_cases) (use assms(2) in \<open>auto simp: cache_choice_def\<close>)

lemma selected_keeps: "selected_from p md5 s s' \<Longrightarrow> hs_strategyCache s k = Some r \<Longrightarrow> hs_strategyCache s' k = Some r"
  by (induction rule: selected_from.induct) (auto dest: SelectStrategy_keeps)

lemma SelectStrategy_caches:
  assumes "SelectStrategy p md5 e s (Some resp) = Returns (c, s')"
  shows "\<exists>r. hs_strategyCache s' (generateCacheKey md5 resp) = Some r \<and> (sn_Type r, sn_Parameters r) = c"
  using assms by (cases rule: SelectStrategy_cases) (auto simp: cache_choice_def)

definition same_key :: "HTTPResponse \<Rightarrow> HTTPResponse \<Rightarrow> bool" where
  "same_key r1 r2 \<longleftrightarrow> hr_StatusCode r1 = hr_StatusCode r2 \<and> hr_URL r1 = hr_URL r2
     \<and> list_all (\<lambda>k. header r1 k = header r2 k) keyHeaders"

lemma same_key_eq: "same_key r1 r2 \<Longrightarrow> generateCacheKey md5 r1 = generateCacheKey md5 r2"
proof -
  assume "same_key r1 r2"
  then have "getKeyHeaders r1 = getKeyHeaders r2" by (simp add: getKeyHeaders_def same_key_def keyHeaders_def List.map_filter_def)
  then show ?thesis using \<open>same_key r1 r2\<close> by (simp add: generateCacheKey_def same_key_def)
qed

text \<open>C25. The first choice for a status code, address and four headers is final: every later response that agrees in
  these gets the same strategy with the same parameters, whatever its body and its \<open>Retry-After\<close> header, and whatever
  was selected in between.\<close>

theorem first_choice_is_final:
  assumes "SelectStrategy p md5 e s (Some r1) = Returns (c, s1)" "selected_from p md5 s1 s2" "same_key r1 r2"
  shows "SelectStrategy p md5 e' s2 (Some r2) = Returns (c, s2)"
proof -
  obtain r where "hs_strategyCache s1 (generateCacheKey md5 r1) = Some r" "(sn_Type r, sn_Parameters r) = c"
    using SelectStrategy_caches [OF assms(1)] by blast
  then show ?thesis
    using selected_keeps [OF assms(2)] same_key_eq [OF assms(3)] by (auto simp: SelectStrategy_def)
qed

section \<open>Jitter\<close>

lemma f64_round_within:
  assumes "rep64 a" "rep64 b" "a \<le> x" "x \<le> b" "\<bar>a\<bar> \<le> 2 ^ 63" "\<bar>b\<bar> \<le> 2 ^ 63"
  obtains r where "f64_round x = Fin r" "a \<le> r" "r \<le> b"
proof -
  have "- f64_limit < a" "b < f64_limit" using rep64_pow2_1024 [OF assms(5)] rep64_pow2_1024 [OF assms(6)] by linarith+
  from f64_round_between [OF assms(1-4) this] show thesis using that by blast
qed

lemma rep64_scaled: "\<bar>m\<bar> \<le> 2 ^ 53 \<Longrightarrow> rep64 (of_int (m * 2 ^ k))"
  using rep64_le53 [of m "int k"] by (simp add: pow2_of_nat)

lemma f64_of_int_scaled:
  assumes "\<bar>m\<bar> \<le> 2 ^ 53" "\<bar>m * 2 ^ k\<bar> < 2 ^ 63"
  shows "f64_of_int (m * 2 ^ k) = Fin (of_int (m * 2 ^ k))"
proof -
  have "\<bar>of_int (m * 2 ^ k) :: rat\<bar> \<le> 2 ^ 63"
    using assms(2) by (metis of_int_abs of_int_le_iff of_int_numeral of_int_power order_less_imp_le)
  then show ?thesis unfolding f64_of_int_def using rep64_scaled [OF assms(1)] rep64_pow2_1024 by (intro f64_round_fixed)
qed

lemma i64_of_f64_of_int: "in_i64 n \<Longrightarrow> i64_of_f64 p (Fin (of_int n)) = n"
  by (simp add: i64_of_f64_Fin)

lemma applyJitter_bounds:
  assumes u: "unit_draw (shd r)" and m: "0 \<le> m" "5 * m \<le> 2 ^ 53" "5 * (m * 2 ^ k) < 2 ^ 63"
  shows "3 * (m * 2 ^ k) \<le> fst (applyJitter p (4 * (m * 2 ^ k)) r) \<and> fst (applyJitter p (4 * (m * 2 ^ k)) r) \<le> 5 * (m * 2 ^ k)"
proof -
  define D where "D = m * 2 ^ k"
  have D: "0 \<le> D" "5 * D < 2 ^ 63" using m by (simp_all add: D_def)
  then have Dr: "0 \<le> (of_int D :: rat)" "5 * (of_int D :: rat) \<le> 2 ^ 63"
    using of_int_le_iff [of "5 * D" "2 ^ 63", where 'a = rat] by simp_all
  have rep: "rep64 (of_int (c * D))" if "\<bar>c\<bar> \<le> 5" for c
  proof -
    have "\<bar>c\<bar> * m \<le> 5 * m" using that m(1) by (rule mult_right_mono)
    then have "\<bar>c * m\<bar> \<le> 2 ^ 53" using m by (simp add: abs_mult)
    from rep64_scaled [OF this, of k] show ?thesis by (simp add: D_def mult.assoc)
  qed
  define q where "q = (of_int (4 * D) :: rat)"
  have int4: "f64_of_int (4 * D) = Fin q"
    using f64_of_int_scaled [of "4 * m" k] m D by (simp add: D_def q_def mult.assoc)
  obtain c where c: "f64_round (1 / 5) = Fin c" "0 \<le> c" "c \<le> 1 / 4"
    using f64_round_within [of 0 "1 / 4" "1 / 5"] rep64_of_int [of 0] rep64I [of 1 "- 2" "1 / 4"] by (auto simp: pow2_def)
  have "0 \<le> q * c" "q * c \<le> of_int (1 * D)"
    using Dr(1) c mult_left_mono [OF c(3) Dr(1)] by (simp_all add: q_def)
  then obtain j where j: "f64_round (q * c) = Fin j" "0 \<le> j" "j \<le> of_int D"
    using f64_round_within [of 0 "of_int (1 * D)" "q * c"] rep [of 1] rep64_of_int [of 0] Dr by auto
  obtain x where x: "shd r = Fin x" "0 \<le> x" "x < 1" using u by (auto simp: unit_draw_def)
  obtain v where v: "f64_round (x - 1 / 2) = Fin v" "- (1 / 2) \<le> v" "v \<le> 1 / 2"
    using f64_round_within [of "- (1 / 2)" "1 / 2" "x - 1 / 2"] rep64I [of 1 "- 1" "1 / 2"] x by (auto simp: pow2_def)
  obtain w where w: "f64_round (v * 2) = Fin w" "- 1 \<le> w" "w \<le> 1"
    using f64_round_within [of "- 1" 1 "v * 2"] rep64_of_int [of 1] v by auto
  have "\<bar>w * j\<bar> \<le> of_int D" using w j mult_mono [of "\<bar>w\<bar>" 1 "\<bar>j\<bar>" "of_int D"] by (simp add: abs_mult abs_le_iff)
  then have "- of_int D \<le> w * j" "w * j \<le> of_int D" by linarith+
  then obtain t where t: "f64_round (w * j) = Fin t" "- of_int D \<le> t" "t \<le> of_int D"
    using f64_round_within [of "- of_int D" "of_int D" "w * j"] rep [of 1] Dr by auto
  obtain z where z: "f64_round (q + t) = Fin z" "of_int (3 * D) \<le> z" "z \<le> of_int (5 * D)"
    using f64_round_within [of "of_int (3 * D)" "of_int (5 * D)" "q + t"] rep [of 3] rep [of 5] t Dr by (auto simp: q_def)
  have "3 * D \<le> trunc z" "trunc z \<le> 5 * D" using z trunc_ge_of_int trunc_le_of_int by blast+
  moreover have "fst (applyJitter p (4 * D) r) = trunc z"
    using D \<open>3 * D \<le> trunc z\<close> \<open>trunc z \<le> 5 * D\<close>
    by (simp add: applyJitter_def rand_Float64_def fsub_def int4 c j x v w t z i64_of_f64_Fin in_i64_def)
  ultimately show ?thesis by (simp add: D_def)
qed

section \<open>Delays for Kubernetes\<close>

lemma pow_loop_2: "j + k \<le> 62 \<Longrightarrow> pow_loop (Fin 2) k (Fin (2 ^ j)) = Fin (2 ^ (j + k))"
proof (induction k arbitrary: j)
  case (Suc k)
  have "(2::int) ^ Suc j < 2 ^ 63" using Suc.prems by (intro power_strict_increasing) simp_all
  then have "f64_of_int (1 * 2 ^ Suc j) = Fin (of_int (1 * 2 ^ Suc j))" by (intro f64_of_int_scaled) (simp_all del: power_Suc)
  then have "f64_round (2 ^ j * 2) = Fin (2 ^ Suc j)" by (simp add: f64_of_int_def mult.commute)
  then show ?case using Suc.IH [of "Suc j"] Suc.prems by simp
qed simp

lemma pow_2: "0 \<le> n \<Longrightarrow> n \<le> 62 \<Longrightarrow> pow (Fin 2) n = Fin (2 ^ nat n)"
  using pow_loop_2 [of 0 "nat n"] by (simp add: pow_def)

lemma exponential_kubernetes:
  assumes "1 \<le> n" "n \<le> 33" "unit_draw (shd r)"
  shows "3 / 4 * 2 ^ nat (n - 1) * of_int Second \<le> (of_int (fst (applyExponentialStrategy p n (snd (selectKubernetesStrategy res)) r)) :: rat)
    \<and> (of_int (fst (applyExponentialStrategy p n (snd (selectKubernetesStrategy res)) r)) :: rat) \<le> 5 / 4 * 2 ^ nat (n - 1) * of_int Second"
proof -
  define k where "k = nat (n - 1)"
  have k: "k \<le> 32" "wrap64 (n - 1) = int k" using assms by (simp_all add: k_def in_i64_def)
  have le: "(2::int) ^ k \<le> 2 ^ 32" using k(1) by (intro power_increasing) simp_all
  let ?m = "250000000 :: int"
  have x: "fmul (f64_of_int Second) (pow (Fin 2) (int k)) = Fin (of_int (4 * (?m * 2 ^ k)))"
  proof -
    have "f64_of_int (1000000000 * 2 ^ k) = Fin (of_int (1000000000 * 2 ^ k))" using le by (intro f64_of_int_scaled) simp_all
    moreover have "pow (Fin 2) (int k) = Fin (2 ^ k)" using pow_2 [of "int k"] k(1) by simp
    moreover have "f64_of_int Second = Fin (of_int Second)" by (rule f64_of_int_small) (simp add: Second_def)
    ultimately show ?thesis by (simp add: f64_of_int_def Second_def)
  qed
  have "0 \<le> 4 * (?m * 2 ^ k)" "4 * (?m * 2 ^ k) < 2 ^ 63" using le by simp_all
  then have fits: "in_i64 (4 * (?m * 2 ^ k))" unfolding in_i64_def by linarith
  have "fst (applyExponentialStrategy p n (snd (selectKubernetesStrategy res)) r) = fst (applyJitter p (4 * (?m * 2 ^ k)) r)"
    using i64_of_f64_of_int [OF fits, of p] x
    by (simp add: applyExponentialStrategy_def selectKubernetesStrategy_def duration_param_def float_param_def maybe_jitter_def
        k(2))
  moreover have "3 * (?m * 2 ^ k) \<le> fst (applyJitter p (4 * (?m * 2 ^ k)) r) \<and> fst (applyJitter p (4 * (?m * 2 ^ k)) r) \<le> 5 * (?m * 2 ^ k)"
    by (rule applyJitter_bounds [OF assms(3)]) (use le in simp_all)
  ultimately have "of_int (3 * (?m * 2 ^ k)) \<le> (of_int (fst (applyExponentialStrategy p n (snd (selectKubernetesStrategy res)) r)) :: rat)"
    "(of_int (fst (applyExponentialStrategy p n (snd (selectKubernetesStrategy res)) r)) :: rat) \<le> of_int (5 * (?m * 2 ^ k))"
    by (simp_all only: of_int_le_iff)
  then show ?thesis by (simp add: k_def Second_def)
qed

lemma kubernetes_selected:
  assumes "hs_patternMatcher s = Some m" "h_config m = DefaultHTTPPatternConfig" "h_apiDetector m"
    and "hs_strategyCache s (generateCacheKey md5 resp) = None" "DetectAPI (Some resp) = APITypeKubernetes"
  obtains res s' where "SelectStrategy p md5 e s (Some resp) = Returns (selectKubernetesStrategy res, s')"
proof -
  obtain v m' where v: "env_match e m resp = (v, m')" by (cases "env_match e m resp")
  then obtain r where "v = Returns (Inr r)" "hm_APIType r = APITypeKubernetes"
    using default_match_result [OF assms(2,3), of resp "me_compile e" "me_json_error e" "me_dj e" "me_nj e" "me_d0 e" "me_d e" "me_now e" "me_rk e"]
      assms(5) by (auto simp: env_match_def split: go_result.splits sum.splits)
  then show thesis using v assms(1,4) that by (auto simp: SelectStrategy_def Let_def selectStrategyFromResult_def cache_choice_def)
qed

text \<open>C27. For the first response of a Kubernetes API the delay before attempt \<open>n\<close> is \<open>2 ^ (n - 1)\<close> seconds up to a quarter, for
  all random draws: it doubles with every attempt, and the maximum of thirty seconds that comes with the choice is never
  applied.\<close>

theorem kubernetes_delays:
  assumes "hs_patternMatcher (hb_httpSelector h) = Some m" "h_config m = DefaultHTTPPatternConfig" "h_apiDetector m"
    and "hs_strategyCache (hb_httpSelector h) (generateCacheKey md5 resp) = None" "DetectAPI (Some resp) = APITypeKubernetes"
    and "rng_ok (hb_rng h)" "1 \<le> hb_currentAttempt h" "hb_currentAttempt h \<le> 33"
  shows "case NextDelayWithHTTPContext p md5 e h (Some resp) of
      Panics \<Rightarrow> False
    | Returns (d, h') \<Rightarrow>
        3 / 4 * 2 ^ nat (hb_currentAttempt h - 1) * of_int Second \<le> (of_int d :: rat)
        \<and> of_int d \<le> (5 / 4 * 2 ^ nat (hb_currentAttempt h - 1) * of_int Second :: rat)"
proof -
  obtain res s' where s': "SelectStrategy p md5 e (hb_httpSelector h) (Some resp) = Returns (selectKubernetesStrategy res, s')"
    using kubernetes_selected [OF assms(1-5)] .
  have "fst (selectKubernetesStrategy res) = ''exponential''" by (simp add: selectKubernetesStrategy_def)
  then show ?thesis
    using s' exponential_kubernetes [OF assms(7,8), of "hb_rng h" p res] assms(6)
    by (cases "selectKubernetesStrategy res")
      (auto simp: NextDelayWithHTTPContext_def applyHTTPAwareStrategy_def Let_def split: prod.splits)
qed

section \<open>Examples\<close>

definition sample_env :: match_env where
  "sample_env = \<lparr>me_compile = (\<lambda>_. Inl []), me_json_error = (\<lambda>_. []), me_dj = 0, me_nj = 0, me_d0 = 0, me_d = 0, me_now = 0,
     me_rk = (\<lambda>_. 0)\<rparr>"

definition sample_selector :: HTTPAwareBackoffSelector where
  "sample_selector = \<lparr>hs_patternMatcher = Some (default_matcher (\<lambda>_. 0)), hs_strategyCache = Map.empty\<rparr>"


definition sample_kubernetes :: HTTPResponse where
  "sample_kubernetes = \<lparr>hr_StatusCode = 503, hr_Headers = None, hr_Body = [], hr_URL = ''k8s.io''\<rparr>"

definition sample_backoff :: HTTPAwareAdaptiveBackoff where
  "sample_backoff = \<lparr>hb_httpSelector = sample_selector, hb_fallbackStrategy = NewExponential Second (Fin 2) (30 * Second),
     hb_lastResponse = None, hb_currentAttempt = 7, hb_rng = half_draws\<rparr>"

lemma sample_kubernetes_api: "DetectAPI (Some sample_kubernetes) = APITypeKubernetes"
  by (simp add: sample_kubernetes_def DetectAPI_def)

theorem kubernetes_delays_witness:
  "case NextDelayWithHTTPContext amd64 id sample_env sample_backoff (Some sample_kubernetes) of
     Panics \<Rightarrow> False | Returns (d, h') \<Rightarrow> 30 * of_int Second < (of_int d :: rat)"
proof -
  have "rng_ok half_draws" by (simp add: rng_ok_half_draws)
  then show ?thesis
    using kubernetes_delays [of sample_backoff "default_matcher (\<lambda>_. 0)" id sample_kubernetes amd64 sample_env]
    by (auto simp: sample_backoff_def sample_selector_def default_matcher_def sample_kubernetes_api Second_def
        split: go_result.splits prod.splits)
qed



definition sample_github :: "string \<Rightarrow> HTTPResponse" where
  "sample_github seconds = \<lparr>hr_StatusCode = 429, hr_Headers = Some [''X-GitHub-Media-Type'' \<mapsto> ''github.v3'', ''Retry-After'' \<mapsto> seconds],
     hr_Body = [], hr_URL = []\<rparr>"

lemma sample_github_match:
  "\<exists>r m'. env_match sample_env (default_matcher (\<lambda>_. 0)) (sample_github ''7'') = (Returns (Inr r), m')
     \<and> hm_APIType r = APITypeGitHub \<and> hm_Context r ''retry_after'' = Some (GFloat (Fin 7))"
proof -
  have "parse_int ''7'' = Some 7" by code_simp
  moreover have "f64_of_int 7 = Fin 7" by (simp add: f64_of_int_small)
  ultimately show ?thesis
    by (simp add: env_match_def sample_env_def MatchHTTPResponse_def Let_def default_matcher_def DefaultHTTPPatternConfig_def
        sample_github_def DetectAPIType_def DetectAPI_def header_def map_range_def header_match_def context_retry_after
        keeps_text_def reset_header_def)
qed

lemma sample_github_choice:
  "\<exists>c s'. SelectStrategy amd64 id sample_env sample_selector (Some (sample_github ''7'')) = Returns (c, s')
     \<and> snd c ''base_delay'' = Some (PDuration (7 * Second))"
proof -
  have "i64_of_f64 amd64 (Fin 7) = 7" using i64_of_f64_of_int [of 7 amd64] by (simp add: in_i64_def)
  then show ?thesis using sample_github_match
    by (auto simp: SelectStrategy_def Let_def sample_selector_def cache_choice_def selectStrategyFromResult_def selectGitHubStrategy_def
        Second_def in_i64_def)
qed

text \<open>An hour is asked for after seven seconds were: seven seconds remain the base of all delays.\<close>

theorem first_choice_is_final_witness:
  "\<exists>c s'. SelectStrategy amd64 id sample_env sample_selector (Some (sample_github ''7'')) = Returns (c, s')
     \<and> SelectStrategy amd64 id sample_env s' (Some (sample_github ''3600'')) = Returns (c, s')
     \<and> snd c ''base_delay'' = Some (PDuration (7 * Second))"
proof -
  from sample_github_choice obtain c s' where
    c: "SelectStrategy amd64 id sample_env sample_selector (Some (sample_github ''7'')) = Returns (c, s')"
       "snd c ''base_delay'' = Some (PDuration (7 * Second))" by blast
  have "same_key (sample_github ''7'') (sample_github ''3600'')"
    by (simp add: same_key_def sample_github_def keyHeaders_def header_def)
  from first_choice_is_final [OF c(1) selected_from.refl this, of sample_env] show ?thesis using c by blast
qed

end
