(* ===== verification/Discovery.thy ===== *)
theory Discovery
  imports Conditions GoFloat
begin

text \<open>
  Rate limits that are discovered: the records and the confidence score of \<open>pkg/discovery/types.go\<close>
  and the grouping of resources of \<open>resource_grouper.go\<close>. The clock, the iteration order of
  maps, \<open>regexp.Compile\<close> and SHA-256 are arguments. The analysis of resource lists and the
  statistics are in \<open>ResourceAnalysis\<close>; lower-casing is on ASCII.
\<close>

section \<open>Rate limit information\<close>

record RateLimitInfo =
  rl_ResourceID :: string
  rl_Host :: string
  rl_Path :: string
  rl_Limit :: int
  rl_Window :: duration
  rl_Remaining :: int
  rl_ResetTime :: instant
  rl_Source :: string
  rl_Confidence :: f64
  rl_LastSeen :: instant
  rl_ObservationCount :: int
  rl_SuccessfulRequests :: int
  rl_FailedRequests :: int
  rl_Last429Response :: "instant option"

definition SourceHTTPHeader :: string where "SourceHTTPHeader = ''http_header''"
definition SourceJSONBody :: string where "SourceJSONBody = ''json_body''"
definition SourceLearned :: string where "SourceLearned = ''learned''"
definition SourceManual :: string where "SourceManual = ''manual''"

lemmas source_defs = SourceHTTPHeader_def SourceJSONBody_def SourceLearned_def SourceManual_def

definition baseConfidence :: "string \<Rightarrow> f64" where
  "baseConfidence source =
     (if source = SourceHTTPHeader then f64_round (9 / 10)
      else if source = SourceJSONBody then f64_round (8 / 10)
      else if source = SourceLearned then f64_round (6 / 10)
      else if source = SourceManual then Fin 1
      else Fin (1 / 2))"

text \<open>\<open>time.Duration.Hours\<close>.\<close>

definition Hours :: "duration \<Rightarrow> f64" where
  "Hours d = fadd (f64_of_int (quo d Hour)) (fdiv (f64_of_int (rem d Hour)) (f64_of_int Hour))"

definition observationFactor :: "int \<Rightarrow> f64" where
  "observationFactor n = fdiv (f64_of_int n) (fadd (f64_of_int n) (Fin 10))"

definition successFactor :: "int \<Rightarrow> int \<Rightarrow> f64" where
  "successFactor succ fails =
     (let totalRequests = wrap64 (succ + fails)
      in if 0 < totalRequests
         then fadd (Fin (1 / 2)) (fmul (fdiv (f64_of_int succ) (f64_of_int totalRequests)) (Fin (1 / 2)))
         else Fin 1)"

definition recencyFactor :: "duration \<Rightarrow> f64" where
  "recencyFactor d =
     (if 24 * Hour < d then fdiv (Fin 1) (fadd (Fin 1) (fdiv (fdiv (Hours d) (Fin 24)) (Fin 7))) else Fin 1)"

definition clamp_unit :: "f64 \<Rightarrow> f64" where
  "clamp_unit c = (let c1 = (if flt (Fin 1) c then Fin 1 else c) in if flt c1 (Fin 0) then Fin 0 else c1)"

definition ConfidenceScore :: "instant \<Rightarrow> RateLimitInfo \<Rightarrow> f64" where
  "ConfidenceScore now r =
     (if rl_ObservationCount r = 0 then Fin 0
      else clamp_unit (fmul (fmul (fmul (baseConfidence (rl_Source r)) (observationFactor (rl_ObservationCount r)))
             (successFactor (rl_SuccessfulRequests r) (rl_FailedRequests r)))
             (recencyFactor (time_sub now (rl_LastSeen r)))))"

definition IsExpired :: "instant \<Rightarrow> RateLimitInfo \<Rightarrow> bool" where
  "IsExpired now r \<longleftrightarrow> 7 * 24 * Hour < time_sub now (rl_LastSeen r)"

definition getSourcePriority :: "string \<Rightarrow> int" where
  "getSourcePriority source =
     (if source = SourceManual then 4 else if source = SourceHTTPHeader then 3
      else if source = SourceJSONBody then 2 else if source = SourceLearned then 1 else 0)"

text \<open>Each call reads the clock anew.\<close>

definition ShouldUpdate :: "instant \<Rightarrow> instant \<Rightarrow> instant \<Rightarrow> RateLimitInfo \<Rightarrow> RateLimitInfo \<Rightarrow> bool" where
  "ShouldUpdate t1 t2 t3 r newInfo \<longleftrightarrow>
     flt (ConfidenceScore t2 r) (ConfidenceScore t1 newInfo) \<or> IsExpired t3 r
     \<or> getSourcePriority (rl_Source r) < getSourcePriority (rl_Source newInfo)"

section \<open>Resource groups\<close>

record ResourceGroupConfig =
  gc_Name :: string
  gc_Pattern :: string
  gc_DefaultLimit :: int
  gc_DefaultWindow :: duration
  gc_ShareRateLimit :: bool
  gc_Priority :: int
  gc_Description :: string

record ResourceGrouper =
  rg_patterns :: "(string \<times> regexp) list"
  rg_groupConfigs :: "(string \<times> ResourceGroupConfig) list"

record ResourceGroup =
  gr_ID :: string
  gr_Name :: string
  gr_Pattern :: string
  gr_Resources :: "string list"
  gr_Config :: ResourceGroupConfig
  gr_LastUpdated :: instant

definition group_config :: "string \<Rightarrow> string \<Rightarrow> int \<Rightarrow> duration \<Rightarrow> bool \<Rightarrow> int \<Rightarrow> string \<Rightarrow> ResourceGroupConfig" where
  "group_config name pattern limit window share priority description =
     \<lparr>gc_Name = name, gc_Pattern = pattern, gc_DefaultLimit = limit, gc_DefaultWindow = window,
      gc_ShareRateLimit = share, gc_Priority = priority, gc_Description = description\<rparr>"

text \<open>A backslash cannot stand in a string literal here; \<open>esc\<close> puts it before the marker \<open>@\<close>.\<close>

definition esc :: "string \<Rightarrow> string" where
  "esc = map (\<lambda>c. if c = CHR ''@'' then CHR 0x5C else c)"

definition defaultConfigs :: "ResourceGroupConfig list" where
  "defaultConfigs =
     [group_config ''GitHub API Core'' (esc ''github@.com/repos/[^/]+/[^/]+/(issues|pulls|commits)'') 5000 Hour True 10
        ''GitHub repository core operations (issues, PRs, commits)'',
      group_config ''GitHub API Search'' (esc ''github@.com/search/'') 30 Minute True 9
        ''GitHub search API (more restrictive limits)'',
      group_config ''Docker Hub Registry'' (esc ''registry-1@.docker@.io/v2/[^/]+/[^/]+/(manifests|blobs)'') 100 (6 * Hour) True 8
        ''Docker Hub registry operations'',
      group_config ''AWS API Gateway'' (esc ''[^.]+@.amazonaws@.com/'') 1000 Second False 7 ''AWS API Gateway endpoints'',
      group_config ''Google Cloud APIs'' (esc ''[^.]+@.googleapis@.com/'') 100 Second False 6 ''Google Cloud Platform APIs'',
      group_config ''Kubernetes API Core'' ''kubernetes[^/]*/api/v1/(pods|services|configmaps|secrets)'' 400 Second True 5
        ''Kubernetes core API resources'',
      group_config ''Kubernetes API Extensions'' ''kubernetes[^/]*/apis/[^/]+/v[^/]+/'' 200 Second True 4 ''Kubernetes extension APIs'',
      group_config ''REST API Generic'' (esc ''/api/v@d+/'') 100 Minute False 3 ''Generic REST API endpoints'',
      group_config ''GraphQL Endpoints'' ''/graphql'' 60 Minute True 2 ''GraphQL API endpoints'',
      group_config ''Default HTTP'' ''.*'' 60 Minute False 1 ''Default rate limits for unmatched resources'']"

definition initializeDefaultConfigs :: "(string \<times> ResourceGroupConfig) list" where
  "initializeDefaultConfigs = fold (\<lambda>config m. AList.update (gc_Name config) config m) defaultConfigs []"

definition compilePatterns :: "compiler \<Rightarrow> (string \<times> ResourceGroupConfig) list \<Rightarrow> (string \<times> regexp) list" where
  "compilePatterns compile configs =
     List.map_filter (\<lambda>(name, config). case compile (gc_Pattern config) of Inr re \<Rightarrow> Some (name, re) | Inl _ \<Rightarrow> None) configs"

definition NewResourceGrouper :: "compiler \<Rightarrow> ResourceGrouper" where
  "NewResourceGrouper compile =
     \<lparr>rg_patterns = compilePatterns compile initializeDefaultConfigs, rg_groupConfigs = initializeDefaultConfigs\<rparr>"

definition group_matches :: "ResourceGrouper \<Rightarrow> string \<Rightarrow> string \<Rightarrow> bool" where
  "group_matches rg full name = (case map_of (rg_patterns rg) name of Some re \<Rightarrow> re full | None \<Rightarrow> False)"

fun group_loop :: "(string \<Rightarrow> bool) \<Rightarrow> (string \<times> ResourceGroupConfig) list \<Rightarrow> (string \<times> ResourceGroupConfig) option
    \<Rightarrow> (string \<times> ResourceGroupConfig) option" where
  "group_loop m [] matched = matched"
| "group_loop m ((name, config) # cs) matched =
     group_loop m cs
       (if m name \<and> (case matched of None \<Rightarrow> True | Some (_, best) \<Rightarrow> gc_Priority best < gc_Priority config)
        then Some (name, config) else matched)"

definition generateGroupID :: "(string \<Rightarrow> string) \<Rightarrow> string \<Rightarrow> string \<Rightarrow> bool \<Rightarrow> string" where
  "generateGroupID sha256_hex groupName resource shareRateLimit =
     (if shareRateLimit
      then ''group_'' @ map lower (map (\<lambda>c. if c = CHR '' '' then CHR ''_'' else c) groupName) @ ''_'' @ take 8 (sha256_hex groupName)
      else ''resource_'' @ take 16 (sha256_hex (groupName @ '':'' @ resource)))"

text \<open>\<open>None\<close> is the dereference of a nil configuration. The metadata map is not kept.\<close>

definition GroupResource ::
  "(string \<Rightarrow> string) \<Rightarrow> (string \<Rightarrow> nat) \<Rightarrow> instant \<Rightarrow> ResourceGrouper \<Rightarrow> string \<Rightarrow> string \<Rightarrow> string \<Rightarrow> ResourceGroup option" where
  "GroupResource sha256_hex rk now rg resourceID host path =
     (let fullResource = host @ path;
          matched = group_loop (group_matches rg fullResource) (map_range rk (rg_groupConfigs rg)) None;
          chosen = (case matched of Some x \<Rightarrow> Some x
                    | None \<Rightarrow> map_option (Pair ''Default HTTP'') (map_of (rg_groupConfigs rg) ''Default HTTP''))
      in map_option (\<lambda>(name, config).
           \<lparr>gr_ID = generateGroupID sha256_hex name fullResource (gc_ShareRateLimit config), gr_Name = name,
            gr_Pattern = gc_Pattern config, gr_Resources = [resourceID], gr_Config = config, gr_LastUpdated = now\<rparr>) chosen)"

datatype group_error = InvalidPattern string string | NoSuchGroup string

definition AddResourceGroup :: "compiler \<Rightarrow> ResourceGrouper \<Rightarrow> ResourceGroupConfig \<Rightarrow> group_error + ResourceGrouper" where
  "AddResourceGroup compile rg config =
     (case compile (gc_Pattern config) of
        Inl err \<Rightarrow> Inl (InvalidPattern (gc_Pattern config) err)
      | Inr re \<Rightarrow> Inr \<lparr>rg_patterns = AList.update (gc_Name config) re (rg_patterns rg),
                      rg_groupConfigs = AList.update (gc_Name config) config (rg_groupConfigs rg)\<rparr>)"

definition RemoveResourceGroup :: "ResourceGrouper \<Rightarrow> string \<Rightarrow> ResourceGrouper" where
  "RemoveResourceGroup rg name =
     \<lparr>rg_patterns = AList.delete name (rg_patterns rg), rg_groupConfigs = AList.delete name (rg_groupConfigs rg)\<rparr>"

definition UpdateResourceGroup ::
  "compiler \<Rightarrow> ResourceGrouper \<Rightarrow> string \<Rightarrow> ResourceGroupConfig \<Rightarrow> group_error + ResourceGrouper" where
  "UpdateResourceGroup compile rg name config =
     (if map_of (rg_groupConfigs rg) name = None then Inl (NoSuchGroup name)
      else case compile (gc_Pattern config) of
             Inl err \<Rightarrow> Inl (InvalidPattern (gc_Pattern config) err)
           | Inr re \<Rightarrow> Inr \<lparr>rg_patterns = AList.update name re (rg_patterns rg),
                           rg_groupConfigs = AList.update name config (rg_groupConfigs rg)\<rparr>)"

definition GetDefaultRateLimit ::
  "(string \<Rightarrow> string) \<Rightarrow> (string \<Rightarrow> nat) \<Rightarrow> instant \<Rightarrow> ResourceGrouper \<Rightarrow> string \<Rightarrow> string \<Rightarrow> string \<Rightarrow> (int \<times> duration) option" where
  "GetDefaultRateLimit sha256_hex rk now rg resourceID host path =
     map_option (\<lambda>g. (gc_DefaultLimit (gr_Config g), gc_DefaultWindow (gr_Config g)))
       (GroupResource sha256_hex rk now rg resourceID host path)"

definition ShouldShareRateLimit ::
  "(string \<Rightarrow> string) \<Rightarrow> (string \<Rightarrow> nat) \<Rightarrow> instant \<Rightarrow> ResourceGrouper \<Rightarrow> string \<Rightarrow> string \<Rightarrow> string \<Rightarrow> bool option" where
  "ShouldShareRateLimit sha256_hex rk now rg resourceID host path =
     map_option (\<lambda>g. gc_ShareRateLimit (gr_Config g)) (GroupResource sha256_hex rk now rg resourceID host path)"

definition NormalizeResourceID ::
  "(string \<Rightarrow> string) \<Rightarrow> (string \<Rightarrow> nat) \<Rightarrow> instant \<Rightarrow> ResourceGrouper \<Rightarrow> string \<Rightarrow> string \<Rightarrow> string \<Rightarrow> string option" where
  "NormalizeResourceID sha256_hex rk now rg resourceID host path =
     map_option (\<lambda>g. if gc_ShareRateLimit (gr_Config g) then gr_ID g else resourceID)
       (GroupResource sha256_hex rk now rg resourceID host path)"

section \<open>Grouping\<close>

lemma group_loop_acc:
  "group_loop m cs acc = r \<Longrightarrow>
     (r = acc \<or> (\<exists>n c. r = Some (n, c) \<and> (n, c) \<in> set cs \<and> m n))
     \<and> (\<forall>n c. (n, c) \<in> set cs \<and> m n \<or> acc = Some (n, c) \<longrightarrow> (\<exists>n' c'. r = Some (n', c') \<and> gc_Priority c \<le> gc_Priority c'))"
proof (induction m cs acc arbitrary: r rule: group_loop.induct)
  case (2 m name config cs matched)
  let ?acc = "if m name \<and> (case matched of None \<Rightarrow> True | Some (_, best) \<Rightarrow> gc_Priority best < gc_Priority config)
    then Some (name, config) else matched"
  have IH: "(r = ?acc \<or> (\<exists>n c. r = Some (n, c) \<and> (n, c) \<in> set cs \<and> m n))"
    "\<And>n c. (n, c) \<in> set cs \<and> m n \<or> ?acc = Some (n, c) \<Longrightarrow> \<exists>n' c'. r = Some (n', c') \<and> gc_Priority c \<le> gc_Priority c'"
    using "2.IH" [of r] "2.prems" by auto
  have new: "\<exists>n' c'. ?acc = Some (n', c') \<and> gc_Priority config \<le> gc_Priority c'" if "m name"
    using that by (cases matched) auto
  have old: "\<exists>n' c'. ?acc = Some (n', c') \<and> gc_Priority c \<le> gc_Priority c'" if "matched = Some (n, c)" for n c
    using that by auto
  have "\<exists>n' c'. r = Some (n', c') \<and> gc_Priority c \<le> gc_Priority c'"
    if prem: "(n, c) \<in> set ((name, config) # cs) \<and> m n \<or> matched = Some (n, c)" for n c
  proof -
    consider "(n, c) \<in> set cs" "m n" | "n = name" "c = config" "m name" | "matched = Some (n, c)" using prem by auto
    then obtain n1 c1 where "(n1, c1) \<in> set cs \<and> m n1 \<or> ?acc = Some (n1, c1)" "gc_Priority c \<le> gc_Priority c1"
      by cases (use new old in blast)+
    then show ?thesis using IH(2) [of n1 c1] by fastforce
  qed
  moreover have "r = matched \<or> (\<exists>n c. r = Some (n, c) \<and> (n, c) \<in> set ((name, config) # cs) \<and> m n)"
    using IH(1) by (auto split: if_splits)
  ultimately show ?case by blast
qed auto

lemma group_loop_best:
  assumes "(n, c) \<in> set cs" "m n" "\<And>n' c'. (n', c') \<in> set cs \<Longrightarrow> m n' \<Longrightarrow> (n', c') \<noteq> (n, c) \<Longrightarrow> gc_Priority c' < gc_Priority c"
  shows "group_loop m cs None = Some (n, c)"
proof -
  obtain n' c' where r: "group_loop m cs None = Some (n', c')" "gc_Priority c \<le> gc_Priority c'"
    using group_loop_acc [OF refl, of m cs None] assms(1,2) by blast
  moreover from this have "(n', c') \<in> set cs" "m n'" using group_loop_acc [OF refl, of m cs None] by auto
  ultimately have "(n', c') = (n, c)" using assms(3) [of n' c'] by fastforce
  with r show ?thesis by simp
qed

lemma group_loop_none:
  assumes "\<And>n c. (n, c) \<in> set cs \<Longrightarrow> \<not> m n"
  shows "group_loop m cs None = None"
  using group_loop_acc [OF refl, of m cs None] assms by auto

text \<open>Grouping does not depend on the order in which Go iterates over the configurations: when their
  priorities differ, as those of the built-in ones do, a resource always gets the matching
  configuration of the highest priority, and the same group whatever the order.\<close>

lemma group_highest_priority:
  assumes "distinct (map (\<lambda>nc. gc_Priority (snd nc)) (rg_groupConfigs rg))"
  shows "GroupResource sha rk now rg resourceID host path = GroupResource sha rk' now rg resourceID host path
    \<and> ((n, c) \<in> set (rg_groupConfigs rg) \<and> group_matches rg (host @ path) n
         \<and> list_all (\<lambda>(n', c'). group_matches rg (host @ path) n' \<longrightarrow> gc_Priority c' \<le> gc_Priority c) (rg_groupConfigs rg)
       \<longrightarrow> (\<exists>g. GroupResource sha rk now rg resourceID host path = Some g \<and> gr_Name g = n \<and> gr_Config g = c))"
proof -
  let ?m = "group_matches rg (host @ path)" and ?cs = "rg_groupConfigs rg"
  have same: "x = y" if "x \<in> set ?cs" "y \<in> set ?cs" "gc_Priority (snd x) = gc_Priority (snd y)" for x y
    using assms that by (auto simp: distinct_map inj_on_def)
  have best: "group_loop ?m (map_range rk ?cs) None = Some (n, c)"
    if "(n, c) \<in> set ?cs" "?m n" "\<And>n' c'. (n', c') \<in> set ?cs \<Longrightarrow> ?m n' \<Longrightarrow> gc_Priority c' \<le> gc_Priority c" for rk n c
  proof (rule group_loop_best)
    fix n' c'
    assume "(n', c') \<in> set (map_range rk ?cs)" "?m n'" "(n', c') \<noteq> (n, c)"
    then have "(n', c') \<in> set ?cs" "gc_Priority c' \<le> gc_Priority c" using that(3) by auto
    moreover have "gc_Priority c' \<noteq> gc_Priority c" using same [of "(n', c')" "(n, c)"] calculation(1) that(1) \<open>(n', c') \<noteq> (n, c)\<close> by auto
    ultimately show "gc_Priority c' < gc_Priority c" by simp
  qed (use that in auto)
  have order: "group_loop ?m (map_range rk ?cs) None = group_loop ?m (map_range rk' ?cs) None"
  proof (cases "\<exists>n c. (n, c) \<in> set ?cs \<and> ?m n")
    case True
    obtain n0 c0 where r: "group_loop ?m (map_range rk ?cs) None = Some (n0, c0)"
      using True group_loop_acc [OF refl, of ?m "map_range rk ?cs" None] by fastforce
    moreover have "(n0, c0) \<in> set ?cs" "?m n0" "\<And>n' c'. (n', c') \<in> set ?cs \<Longrightarrow> ?m n' \<Longrightarrow> gc_Priority c' \<le> gc_Priority c0"
      using group_loop_acc [OF r] by fastforce+
    ultimately show ?thesis using best by metis
  next
    case False
    then have "group_loop ?m (map_range rk ?cs) None = None" for rk by (intro group_loop_none) auto
    then show ?thesis by simp
  qed
  show ?thesis
  proof (intro conjI impI)
    show "GroupResource sha rk now rg resourceID host path = GroupResource sha rk' now rg resourceID host path"
      by (simp add: GroupResource_def order)
    assume "(n, c) \<in> set ?cs \<and> ?m n \<and> list_all (\<lambda>(n', c'). ?m n' \<longrightarrow> gc_Priority c' \<le> gc_Priority c) ?cs"
    then have "group_loop ?m (map_range rk ?cs) None = Some (n, c)" by (intro best) (auto simp: list_all_iff)
    then show "\<exists>g. GroupResource sha rk now rg resourceID host path = Some g \<and> gr_Name g = n \<and> gr_Config g = c"
      by (simp add: GroupResource_def)
  qed
qed

lemma defaults_distinct:
  "distinct (map (\<lambda>nc. gc_Priority (snd nc)) (rg_groupConfigs (NewResourceGrouper compile)))"
proof -
  have "map (\<lambda>nc. gc_Priority (snd nc)) initializeDefaultConfigs = [10, 9, 8, 7, 6, 5, 4, 3, 2, 1]" by code_simp
  then show ?thesis by (simp add: NewResourceGrouper_def)
qed

text \<open>A compiler that knows two of the patterns.\<close>

definition sample_compiler :: compiler where
  "sample_compiler p = (if p = ''/graphql'' then Inr (\<lambda>s. contains s ''/graphql'') else if p = ''.*'' then Inr (\<lambda>_. True) else Inl ''unknown'')"

definition graphql_config :: ResourceGroupConfig where
  "graphql_config = group_config ''GraphQL Endpoints'' ''/graphql'' 60 Minute True 2 ''GraphQL API endpoints''"

lemma graphql_matches:
  "(''GraphQL Endpoints'', graphql_config) \<in> set (rg_groupConfigs (NewResourceGrouper sample_compiler))
   \<and> group_matches (NewResourceGrouper sample_compiler) (''h'' @ ''/graphql'') ''GraphQL Endpoints''
   \<and> list_all (\<lambda>(n', c'). group_matches (NewResourceGrouper sample_compiler) (''h'' @ ''/graphql'') n' \<longrightarrow>
        gc_Priority c' \<le> gc_Priority graphql_config) (rg_groupConfigs (NewResourceGrouper sample_compiler))"
proof (intro conjI)
  have "map_of (rg_groupConfigs (NewResourceGrouper sample_compiler)) ''GraphQL Endpoints'' = Some graphql_config" by code_simp
  then show "(''GraphQL Endpoints'', graphql_config) \<in> set (rg_groupConfigs (NewResourceGrouper sample_compiler))"
    by (rule map_of_SomeD)
  show "group_matches (NewResourceGrouper sample_compiler) (''h'' @ ''/graphql'') ''GraphQL Endpoints''" by code_simp
  show "list_all (\<lambda>(n', c'). group_matches (NewResourceGrouper sample_compiler) (''h'' @ ''/graphql'') n' \<longrightarrow>
        gc_Priority c' \<le> gc_Priority graphql_config) (rg_groupConfigs (NewResourceGrouper sample_compiler))" by code_simp
qed

lemma group_highest_priority_witness:
  "\<exists>g. GroupResource id (\<lambda>_. 0) 7 (NewResourceGrouper sample_compiler) ''r'' ''h'' ''/graphql'' = Some g
     \<and> gr_Name g = ''GraphQL Endpoints'' \<and> gr_Config g = graphql_config"
  using group_highest_priority [OF defaults_distinct, of id "\<lambda>_. 0" 7 sample_compiler "''r''" "''h''" "''/graphql''" "\<lambda>_. 1"]
    graphql_matches by blast

text \<open>Resources of one sharing group have one identifier; without sharing a resource keeps its own.\<close>

lemma shared_group_one_id:
  assumes "GroupResource sha rk t rg r1 h1 p1 = Some g1" "GroupResource sha rk' t' rg r2 h2 p2 = Some g2"
    "gr_Name g1 = gr_Name g2" "gr_Config g1 = gr_Config g2"
  shows "if gc_ShareRateLimit (gr_Config g1)
    then NormalizeResourceID sha rk t rg r1 h1 p1 = NormalizeResourceID sha rk' t' rg r2 h2 p2
    else NormalizeResourceID sha rk t rg r1 h1 p1 = Some r1"
proof -
  have "gr_ID g = generateGroupID sha (gr_Name g) (h @ p) (gc_ShareRateLimit (gr_Config g))"
    if "GroupResource sha rk t rg r h p = Some g" for rk t r h p g
    using that by (auto simp: GroupResource_def Let_def)
  from this [OF assms(1)] this [OF assms(2)] assms show ?thesis
    by (simp add: NormalizeResourceID_def generateGroupID_def)
qed

text \<open>Once the default group is removed, a resource no pattern matches dereferences a nil configuration.\<close>

lemma removed_default_panics:
  assumes "rg_groupConfigs rg = AList.delete ''Default HTTP'' cs" "\<And>n. \<not> group_matches rg (host @ path) n"
  shows "GroupResource sha rk now rg resourceID host path = None"
  using assms group_loop_none [of "map_range rk (rg_groupConfigs rg)" "group_matches rg (host @ path)"]
  by (simp add: GroupResource_def Let_def delete_conv)

section \<open>Confidence\<close>

lemma rep64_simple [simp]: "rep64 0" "rep64 1" "rep64 10"
  using rep64_of_int [of 0] rep64_of_int [of 1] rep64_of_int [of 10] by simp_all

lemma round_unit: "0 \<le> x \<Longrightarrow> x \<le> 1 \<Longrightarrow> unit_rate (f64_round x)"
  using f64_round_between [of 0 1 x] rep64_pow2_1024 [of 1] by (auto simp: unit_rate_def)

lemma unit_mult: "unit_rate a \<Longrightarrow> unit_rate b \<Longrightarrow> unit_rate (fmul a b)"
  by (auto simp: unit_rate_def [of a] unit_rate_def [of b] intro!: round_unit mult_le_one)

lemma baseConfidence_unit: "unit_rate (baseConfidence s)"
proof -
  have "f64_round (1 / 2) = Fin (1 / 2)" by code_simp
  then show ?thesis using round_unit [of "1 / 2"]
    by (auto simp: baseConfidence_def unit_rate_1 intro: round_unit)
qed

lemma rep64_big: "rep64 (2 ^ 64)" and rep64_half_big: "rep64 (2 ^ 63)"
proof -
  have "rep64 (of_int (2 ^ 52) * pow2 12)" "rep64 (of_int (2 ^ 52) * pow2 11)" by (rule rep64_le53; simp)+
  then show "rep64 (2 ^ 64)" "rep64 (2 ^ 63)" by (simp_all add: pow2_def)
qed

lemma big_below_limit: "(2 :: rat) ^ 64 < f64_limit"
proof -
  have "(2 ^ 64 :: rat) = pow2 64" by (simp add: pow2_def)
  also have "pow2 64 < pow2 1024" unfolding pow2_powi by (rule power_int_strict_increasing) simp_all
  finally show ?thesis by (simp add: f64_limit_def)
qed

lemma observation_unit:
  assumes "0 < n" "n < 2 ^ 63"
  shows "unit_rate (observationFactor n)"
proof -
  obtain x where x: "f64_of_int n = Fin x" "rep64 x" "0 \<le> x" "x \<le> 2 ^ 63" using f64_of_int_bounded [of n] assms by auto
  obtain y where y: "f64_round (x + 10) = Fin y" "x \<le> y" "10 \<le> y"
  proof -
    have "10 \<le> x + 10" "x + 10 \<le> 2 ^ 64" using x by auto
    obtain y where 1: "f64_round (x + 10) = Fin y" "10 \<le> y"
      using f64_round_between [of 10 "2 ^ 64" "x + 10"] x rep64_big big_below_limit by force
    obtain y' where 2: "f64_round (x + 10) = Fin y'" "x \<le> y'"
      using f64_round_between [of x "2 ^ 64" "x + 10"] x rep64_big big_below_limit by force
    from 1 2 show ?thesis using that by simp
  qed
  have "observationFactor n = f64_round (x / y)" using x(1) y by (simp add: observationFactor_def)
  moreover have "0 \<le> x / y" "x / y \<le> 1" using x y by (simp_all add: divide_le_eq_1)
  ultimately show ?thesis using round_unit by simp
qed

lemma success_unit:
  assumes "0 \<le> s" "0 \<le> f" "s + f < 2 ^ 63"
  shows "unit_rate (successFactor s f)"
proof (cases "0 < s + f")
  case True
  have w: "wrap64 (s + f) = s + f" using assms by (intro wrap64_id) auto
  obtain x where x: "f64_of_int s = Fin x" "0 \<le> x" using f64_of_int_bounded [of s] assms by auto
  obtain y where y: "f64_of_int (s + f) = Fin y" "0 \<le> y" using f64_of_int_bounded [of "s + f"] assms by auto
  have "rnd64 (of_int s) \<le> rnd64 (of_int (s + f))" "rnd64 (of_int 1) \<le> rnd64 (of_int (s + f))"
    using True assms by (auto intro!: r64.rnd_mono simp del: of_int_add of_int_1)
  then have "x \<le> y" "1 \<le> y" using x y rnd64_fixed [of 1]
    by (auto simp: f64_of_int_def f64_round_def Let_def split: if_splits)
  then have "unit_rate (fdiv (Fin x) (Fin y))" using x by (auto intro!: round_unit simp: divide_le_eq_1)
  then obtain q where q: "fdiv (Fin x) (Fin y) = Fin q" "0 \<le> q" "q \<le> 1" by (auto simp: unit_rate_def)
  have half: "f64_round (1 / 2) = Fin (1 / 2)" by code_simp
  then have r12: "rep64 (1 / 2)" using f64_round_ok [of "1 / 2"] by simp
  obtain h where h: "f64_round (q * (1 / 2)) = Fin h" "0 \<le> h" "h \<le> 1 / 2"
    using f64_round_between [of 0 "1 / 2" "q * (1 / 2)"] q r12 rep64_pow2_1024 [of "1 / 2"] by auto
  have "unit_rate (f64_round (1 / 2 + h))" using h by (intro round_unit) auto
  then show ?thesis using True w x y q h by (simp add: successFactor_def Let_def)
next
  case False
  then have "wrap64 (s + f) = s + f" using assms by (intro wrap64_id) auto
  with False show ?thesis by (simp add: successFactor_def unit_rate_1)
qed

lemma round_pos:
  assumes "a \<le> x" "x \<le> b" "rep64 a" "0 \<le> a" "rep64 b" "b \<le> 2 ^ 64"
  obtains r where "f64_round x = Fin r" "a \<le> r" "r \<le> b"
proof -
  have "- f64_limit < a" "b < f64_limit" using assms(4,6) f64_limit_pos big_below_limit by linarith+
  then show thesis using f64_round_between [OF assms(3,5,1,2)] that by blast
qed

lemma recency_unit:
  assumes "d < 2 ^ 63"
  shows "unit_rate (recencyFactor d)"
proof (cases "24 * Hour < d")
  case True
  have d: "0 < d" "0 \<le> d div Hour" "d div Hour \<le> d" "d div Hour < 2 ^ 53" "0 \<le> d mod Hour" "d mod Hour \<le> Hour" "Hour \<le> 2 ^ 53"
    using True assms by (auto simp: unit_defs)
  have h1: "f64_of_int (quo d Hour) = Fin (of_int (d div Hour))" "f64_of_int (rem d Hour) = Fin (of_int (d mod Hour))"
    "f64_of_int Hour = Fin (of_int Hour)"
    using d by (simp_all add: quo_nonneg rem_nonneg f64_of_int_small unit_defs)
  have frac: "unit_rate (fdiv (Fin (of_int (d mod Hour))) (Fin (of_int Hour)))"
    using d by (auto intro!: round_unit simp: divide_le_eq_1 unit_defs)
  then obtain q where q: "fdiv (Fin (of_int (d mod Hour))) (Fin (of_int Hour)) = Fin q" "0 \<le> q" "q \<le> 1"
    by (auto simp: unit_rate_def)
  have "(of_int (d div Hour) :: rat) \<le> of_int (2 ^ 53)" "(of_int 0 :: rat) \<le> of_int (d div Hour)"
    using d(2,4) by (simp_all only: of_int_le_iff)
  then have dq: "(0 :: rat) \<le> of_int (d div Hour)" "(of_int (d div Hour) :: rat) \<le> 2 ^ 53" by simp_all
  obtain h where h: "f64_round (of_int (d div Hour) + q) = Fin h" "0 \<le> h" "h \<le> 2 ^ 64"
    by (rule round_pos [of 0 "of_int (d div Hour) + q" "2 ^ 64"]) (use dq q rep64_big in auto)
  obtain y where y: "f64_round (h / 24) = Fin y" "0 \<le> y" "y \<le> 2 ^ 64"
    by (rule round_pos [of 0 "h / 24" "2 ^ 64"]) (use h rep64_big in auto)
  obtain z where z: "f64_round (y / 7) = Fin z" "0 \<le> z" "z \<le> 2 ^ 63"
    by (rule round_pos [of 0 "y / 7" "2 ^ 63"]) (use y rep64_half_big in auto)
  obtain v where v: "f64_round (1 + z) = Fin v" "1 \<le> v"
    by (rule round_pos [of 1 "1 + z" "2 ^ 64"]) (use z rep64_big in auto)
  have "recencyFactor d = f64_round (1 / v)"
    using True h1 q h y z v by (simp add: recencyFactor_def Hours_def)
  moreover have "0 \<le> 1 / v" "1 / v \<le> 1" using v by auto
  ultimately show ?thesis using round_unit by simp
next
  case False
  then show ?thesis by (simp add: recencyFactor_def unit_rate_1)
qed

lemma clamp_unit_id: "unit_rate c \<Longrightarrow> clamp_unit c = c"
  by (auto simp: unit_rate_def clamp_unit_def)

text \<open>The confidence of a real observation is a number between 0 and 1, and the final clamping never acts.\<close>

lemma confidence_unit:
  assumes "0 \<le> rl_ObservationCount r" "rl_ObservationCount r < 2 ^ 63"
    and "0 \<le> rl_SuccessfulRequests r" "0 \<le> rl_FailedRequests r" "rl_SuccessfulRequests r + rl_FailedRequests r < 2 ^ 63"
  shows "unit_rate (ConfidenceScore now r)"
proof (cases "rl_ObservationCount r = 0")
  case False
  have "time_sub now (rl_LastSeen r) < 2 ^ 63" using time_sub_range [of now "rl_LastSeen r"] by (simp add: in_i64_def)
  then have "unit_rate (fmul (fmul (fmul (baseConfidence (rl_Source r)) (observationFactor (rl_ObservationCount r)))
             (successFactor (rl_SuccessfulRequests r) (rl_FailedRequests r)))
             (recencyFactor (time_sub now (rl_LastSeen r))))"
    using assms False by (intro unit_mult baseConfidence_unit observation_unit success_unit recency_unit) auto
  then show ?thesis using False by (simp add: ConfidenceScore_def clamp_unit_id)
qed (simp add: ConfidenceScore_def unit_rate_0)

text \<open>A number between dyadic fractions rounds to one between them.\<close>

lemma round_enclosed:
  assumes "of_int a / 2 ^ 20 \<le> x" "x \<le> of_int b / 2 ^ 20" "0 \<le> a" "b \<le> 2 ^ 20"
  shows "\<exists>r. f64_round x = Fin r \<and> of_int a / 2 ^ 20 \<le> r \<and> r \<le> of_int b / 2 ^ 20"
proof -
  have "(of_int a / 2 ^ 20 :: rat) \<le> of_int b / 2 ^ 20" using assms(1,2) by linarith
  then have ab: "a \<le> b" by (simp add: divide_le_cancel)
  have rep: "rep64 (of_int m / 2 ^ 20)" if "0 \<le> m" "m \<le> 2 ^ 20" for m
    using rep64_le53 [of m "- 20"] that by (simp add: pow2_def)
  have lim: "\<bar>of_int m / 2 ^ 20 :: rat\<bar> < f64_limit" if "0 \<le> m" "m \<le> 2 ^ 20" for m
  proof -
    have "(of_int m :: rat) \<le> of_int (2 ^ 20)" "(0 :: rat) \<le> of_int m" using that by (simp_all only: of_int_le_iff of_int_0_le_iff)
    then show ?thesis by (intro rep64_pow2_1024) (simp add: divide_simps)
  qed
  show ?thesis
    using f64_round_between [of "of_int a / 2 ^ 20" "of_int b / 2 ^ 20", OF _ _ assms(1,2)] rep [of a] rep [of b] lim [of a] lim [of b]
      assms(3,4) ab by (auto simp: abs_less_iff)
qed

text \<open>
  A manual entry without observations has confidence 0, so that any observed entry replaces it,
  although manual configuration is documented as the most reliable source.
\<close>

lemma manual_entry_overruled:
  assumes "rl_ObservationCount r = 0" "flt (Fin 0) (ConfidenceScore t1 newInfo)"
  shows "ShouldUpdate t1 t2 t3 r newInfo"
  using assms by (simp add: ShouldUpdate_def ConfidenceScore_def)

end
