(* ===== verification/DiscoveryParser.thy ===== *)
theory DiscoveryParser
  imports Discovery HTTPAware HttpPattern
begin

text \<open>
  The parser of rate limits in command outputs, \<open>pkg/discovery/parser.go\<close>, with the records of
  \<open>types.go\<close> it fills. Its header expressions all have the form \<open>name:\s*(\d+)\<close>, whose leftmost
  match is written out in \<open>HTTPAware\<close>. \<open>url.Parse\<close> is a parameter that gives host and path.
  The readings of the clock are numbered by the place in the code.
\<close>

section \<open>Records\<close>

record RateLimitHeaders =
  rh_RateLimit :: "int option"
  rh_RateLimitRemaining :: "int option"
  rh_RateLimitReset :: "instant option"
  rh_RetryAfter :: "int option"
  rh_GitHubLimit :: "int option"
  rh_GitHubRemaining :: "int option"
  rh_GitHubReset :: "instant option"
  rh_TwitterLimit :: "int option"
  rh_TwitterRemaining :: "int option"
  rh_TwitterReset :: "instant option"

record json_rate_limit =
  jr_Limit :: "int option"
  jr_Remaining :: "int option"
  jr_Reset :: "int option"

record json_error =
  je_Code :: "string option"
  je_Message :: "string option"
  je_RetryAfter :: "int option"

record RateLimitJSON =
  rj_Limit :: "int option"
  rj_Remaining :: "int option"
  rj_RetryAfter :: "int option"
  rj_RetryAfterSec :: "int option"
  rj_RateLimit :: "json_rate_limit option"
  rj_Error :: "json_error option"

record DiscoveryResult =
  dr_Found :: bool
  dr_Info :: "RateLimitInfo option"
  dr_Source :: string
  dr_Confidence :: f64

definition not_found :: DiscoveryResult where
  "not_found = \<lparr>dr_Found = False, dr_Info = None, dr_Source = [], dr_Confidence = Fin 0\<rparr>"

section \<open>The resource of a command\<close>

type_synonym url_parser = "string \<Rightarrow> (string \<times> string) option"

text \<open>The arguments after the program name.\<close>

fun extractURLFromCurl :: "string list \<Rightarrow> string" where
  "extractURLFromCurl [] = []"
| "extractURLFromCurl (arg # rest) =
     (if \<not> has_prefix arg ''-'' then arg
      else if (arg = ''-u'' \<or> arg = ''--url'') \<and> rest \<noteq> [] then hd rest
      else extractURLFromCurl rest)"

fun extractURLFromWget :: "string list \<Rightarrow> string" where
  "extractURLFromWget [] = []"
| "extractURLFromWget (arg # rest) = (if \<not> has_prefix arg ''-'' then arg else extractURLFromWget rest)"

definition from_url :: "url_parser \<Rightarrow> string \<Rightarrow> (string \<times> string) option" where
  "from_url urlParse u = (case urlParse u of None \<Rightarrow> None | Some (host, path) \<Rightarrow> Some (host, if path = [] then ''/'' else path))"

definition extractResourceInfo :: "url_parser \<Rightarrow> string list \<Rightarrow> string \<times> string \<times> string" where
  "extractResourceInfo urlParse command =
     (case command of
        [] \<Rightarrow> (''unknown'', ''unknown'', ''/'')
      | prog # args \<Rightarrow>
          let found =
            (if prog = ''curl'' then
               (let u = extractURLFromCurl args in if u \<noteq> [] then from_url urlParse u else None)
             else if prog = ''wget'' then
               (let u = extractURLFromWget args in if u \<noteq> [] then from_url urlParse u else None)
             else if (prog = ''http'' \<or> prog = ''https'') \<and> args \<noteq> [] then from_url urlParse (hd args)
             else None)
          in case found of
               None \<Rightarrow> (join '' '' command, ''unknown'', ''/'')
             | Some (host, path) \<Rightarrow> (host @ path, if host = [] then ''unknown'' else host, path))"

section \<open>Headers\<close>

definition int_header :: "string \<Rightarrow> string \<Rightarrow> int option" where
  "int_header name output = Option.bind (FindStringSubmatch name output) (\<lambda>m. parse_int (trim_space m))"

definition time_header :: "string \<Rightarrow> string \<Rightarrow> instant option" where
  "time_header name output = map_option time_Unix (int_header name output)"

definition extractRateLimitHeaders :: "string \<Rightarrow> RateLimitHeaders" where
  "extractRateLimitHeaders output =
     (let limit = int_header ''x-ratelimit-limit:'' output;
          remaining = int_header ''x-ratelimit-remaining:'' output;
          reset = time_header ''x-ratelimit-reset:'' output
      in \<lparr>rh_RateLimit = limit, rh_RateLimitRemaining = remaining, rh_RateLimitReset = reset,
          rh_RetryAfter = int_header ''retry-after:'' output,
          rh_GitHubLimit = limit, rh_GitHubRemaining = remaining, rh_GitHubReset = reset,
          rh_TwitterLimit = int_header ''x-rate-limit-limit:'' output,
          rh_TwitterRemaining = int_header ''x-rate-limit-remaining:'' output,
          rh_TwitterReset = time_header ''x-rate-limit-reset:'' output\<rparr>)"

definition hasRateLimitInfo :: "RateLimitHeaders \<Rightarrow> bool" where
  "hasRateLimitInfo h \<longleftrightarrow>
     rh_RateLimit h \<noteq> None \<or> rh_RateLimitRemaining h \<noteq> None \<or> rh_RateLimitReset h \<noteq> None \<or> rh_RetryAfter h \<noteq> None
     \<or> rh_GitHubLimit h \<noteq> None \<or> rh_GitHubRemaining h \<noteq> None \<or> rh_GitHubReset h \<noteq> None
     \<or> rh_TwitterLimit h \<noteq> None \<or> rh_TwitterRemaining h \<noteq> None \<or> rh_TwitterReset h \<noteq> None"

fun first_some :: "'a option list \<Rightarrow> 'a option" where
  "first_some [] = None"
| "first_some (x # xs) = (case x of Some v \<Rightarrow> Some v | None \<Rightarrow> first_some xs)"

definition or_zero :: "int option \<Rightarrow> int" where
  "or_zero x = (case x of Some v \<Rightarrow> v | None \<Rightarrow> 0)"

text \<open>The zero \<open>time.Time\<close>, year 1.\<close>

definition zero_time :: instant where
  "zero_time = - 62135596800 * Second"

definition new_info :: "string \<Rightarrow> string \<Rightarrow> string \<Rightarrow> string \<Rightarrow> instant \<Rightarrow> RateLimitInfo" where
  "new_info resourceID host path source lastSeen =
     \<lparr>rl_ResourceID = resourceID, rl_Host = host, rl_Path = path, rl_Limit = 0, rl_Window = 0, rl_Remaining = 0,
      rl_ResetTime = zero_time, rl_Source = source, rl_Confidence = Fin 0, rl_LastSeen = lastSeen, rl_ObservationCount = 1,
      rl_SuccessfulRequests = 0, rl_FailedRequests = 0, rl_Last429Response = None\<rparr>"

text \<open>A window up to the reset time, or an hour when that is past.\<close>

definition until_reset :: "instant \<Rightarrow> instant \<Rightarrow> duration" where
  "until_reset now reset = (let w = time_sub reset now in if w < 0 then Hour else w)"

text \<open>The default window, where none was determined, and the confidence; \<open>clk 2\<close> and \<open>clk 3\<close> are read.\<close>

definition finish_info :: "(nat \<Rightarrow> instant) \<Rightarrow> RateLimitInfo \<Rightarrow> RateLimitInfo" where
  "finish_info clk info =
     (let i1 = (if rl_Window info = 0 then info\<lparr>rl_Window := Hour, rl_ResetTime := clk 2 + Hour\<rparr> else info)
      in i1\<lparr>rl_Confidence := ConfidenceScore (clk 3) i1\<rparr>)"

definition found :: "string \<Rightarrow> RateLimitInfo \<Rightarrow> DiscoveryResult" where
  "found source info = \<lparr>dr_Found = True, dr_Info = Some info, dr_Source = source, dr_Confidence = rl_Confidence info\<rparr>"

definition header_window :: "(nat \<Rightarrow> instant) \<Rightarrow> RateLimitHeaders \<Rightarrow> RateLimitInfo \<Rightarrow> RateLimitInfo" where
  "header_window clk h i =
     (case first_some [rh_RateLimitReset h, rh_GitHubReset h, rh_TwitterReset h] of
        Some reset \<Rightarrow> i\<lparr>rl_ResetTime := reset, rl_Window := until_reset (clk 1) reset\<rparr>
      | None \<Rightarrow>
          (case rh_RetryAfter h of
             Some n \<Rightarrow> i\<lparr>rl_Window := seconds_duration n, rl_ResetTime := time_add (clk 1) (seconds_duration n)\<rparr>
           | None \<Rightarrow> i))"

definition parseHTTPHeaders ::
  "(nat \<Rightarrow> instant) \<Rightarrow> string \<Rightarrow> string \<Rightarrow> string \<Rightarrow> string \<Rightarrow> DiscoveryResult" where
  "parseHTTPHeaders clk output resourceID host path =
     (let h = extractRateLimitHeaders output
      in if \<not> hasRateLimitInfo h then not_found
         else let i0 = (new_info resourceID host path SourceHTTPHeader (clk 0))
                \<lparr>rl_Limit := or_zero (first_some [rh_RateLimit h, rh_GitHubLimit h, rh_TwitterLimit h]),
                 rl_Remaining := or_zero (first_some [rh_RateLimitRemaining h, rh_GitHubRemaining h, rh_TwitterRemaining h])\<rparr>
              in found SourceHTTPHeader (finish_info clk (header_window clk h i0)))"

section \<open>JSON bodies\<close>

definition int_field :: "platform \<Rightarrow> (string \<times> gvalue) list \<Rightarrow> string \<Rightarrow> int option" where
  "int_field p data k = (case map_get data k of Some (GFloat x) \<Rightarrow> Some (i64_of_f64 p x) | _ \<Rightarrow> None)"

definition object_field :: "(string \<times> gvalue) list \<Rightarrow> string \<Rightarrow> (string \<times> gvalue) list option" where
  "object_field data k = (case map_get data k of Some (GMap ms) \<Rightarrow> Some ms | _ \<Rightarrow> None)"

definition extractRateLimitFromJSON :: "platform \<Rightarrow> (string \<times> gvalue) list \<Rightarrow> RateLimitJSON" where
  "extractRateLimitFromJSON p data =
     \<lparr>rj_Limit = int_field p data ''limit'', rj_Remaining = int_field p data ''remaining'',
      rj_RetryAfter = int_field p data ''retry_after'', rj_RetryAfterSec = int_field p data ''retry_after_seconds'',
      rj_RateLimit = map_option (\<lambda>m. \<lparr>jr_Limit = int_field p m ''limit'', jr_Remaining = int_field p m ''remaining'',
                       jr_Reset = int_field p m ''reset''\<rparr>) (object_field data ''rate_limit''),
      rj_Error = map_option (\<lambda>m. \<lparr>je_Code = string_field m ''code'', je_Message = string_field m ''message'',
                   je_RetryAfter = int_field p m ''retry_after''\<rparr>) (object_field data ''error'')\<rparr>"

definition hasJSONRateLimitInfo :: "RateLimitJSON \<Rightarrow> bool" where
  "hasJSONRateLimitInfo j \<longleftrightarrow>
     rj_Limit j \<noteq> None \<or> rj_Remaining j \<noteq> None \<or> rj_RetryAfter j \<noteq> None \<or> rj_RetryAfterSec j \<noteq> None
     \<or> (case rj_RateLimit j of None \<Rightarrow> False | Some r \<Rightarrow> jr_Limit r \<noteq> None \<or> jr_Remaining r \<noteq> None \<or> jr_Reset r \<noteq> None)
     \<or> (case rj_Error j of None \<Rightarrow> False | Some e \<Rightarrow> je_RetryAfter e \<noteq> None)"

text \<open>The text from the first opening to the last closing brace.\<close>

definition json_text :: "string \<Rightarrow> string option" where
  "json_text output =
     (case index_of (CHR ''{'') output of
        None \<Rightarrow> None
      | Some start \<Rightarrow>
          (case index_of (CHR ''}'') (rev output) of
             None \<Rightarrow> None
           | Some k \<Rightarrow> (let end = length output - 1 - k
                        in if end \<le> start then None else Some (take (end + 1 - start) (drop start output)))))"

definition parse_json_response ::
  "platform \<Rightarrow> (nat \<Rightarrow> instant) \<Rightarrow> string \<Rightarrow> string \<Rightarrow> string \<Rightarrow> string \<Rightarrow> DiscoveryResult" where
  "parse_json_response p clk output resourceID host path =
     (case Option.bind (json_text output) unmarshal_map of
        None \<Rightarrow> not_found
      | Some data \<Rightarrow>
          let j = extractRateLimitFromJSON p data;
              nested = (\<lambda>f. Option.bind (rj_RateLimit j) f)
          in if \<not> hasJSONRateLimitInfo j then not_found
             else let i0 = (new_info resourceID host path SourceJSONBody (clk 0))
                    \<lparr>rl_Limit := or_zero (first_some [rj_Limit j, nested jr_Limit]),
                     rl_Remaining := or_zero (first_some [rj_Remaining j, nested jr_Remaining])\<rparr>;
                      retryAfterSeconds = or_zero (first_some [rj_RetryAfter j, rj_RetryAfterSec j, Option.bind (rj_Error j) je_RetryAfter]);
                      i1 = (if 0 < retryAfterSeconds
                            then i0\<lparr>rl_Window := wrap64 (retryAfterSeconds * Second), rl_ResetTime := clk 1 + wrap64 (retryAfterSeconds * Second)\<rparr>
                            else (case nested jr_Reset of
                                    Some reset \<Rightarrow> i0\<lparr>rl_ResetTime := time_Unix reset, rl_Window := until_reset (clk 1) (time_Unix reset)\<rparr>
                                  | None \<Rightarrow> i0))
                  in found SourceJSONBody (finish_info clk i1))"

definition ParseFromCommandOutput ::
  "platform \<Rightarrow> url_parser \<Rightarrow> (nat \<Rightarrow> instant) \<Rightarrow> string \<Rightarrow> string \<Rightarrow> int \<Rightarrow> string list \<Rightarrow> DiscoveryResult" where
  "ParseFromCommandOutput p urlParse clk stdout stderr exitCode command =
     (let output = take (50 * 1024) (stdout @ [newline] @ stderr);
          (resourceID, host, path) = extractResourceInfo urlParse command;
          r1 = parseHTTPHeaders clk output resourceID host path;
          r2 = parse_json_response p clk output resourceID host path
      in if dr_Found r1 then r1 else if dr_Found r2 then r2
         else \<lparr>dr_Found = False, dr_Info = None, dr_Source = SourceHTTPHeader, dr_Confidence = Fin 0\<rparr>)"

section \<open>Commands whose URL is missed\<close>

text \<open>
  The first argument that is not a flag is taken for the URL, so the method of \<open>curl -X POST url\<close> is, and
  \<open>-u\<close>, curl's flag for credentials, is taken for the one of the URL.
\<close>

lemma curl_method_as_url: "\<not> has_prefix method ''-'' \<Longrightarrow> extractURLFromCurl (''-X'' # method # args) = method"
  by simp

lemma curl_credentials_as_url: "extractURLFromCurl (''-u'' # credentials # args) = credentials"
  by simp

end
