(* ===== verification/DiscoveryStore.thy ===== *)
theory DiscoveryStore
  imports DiscoveryParser
begin

text \<open>
  The database of discovered rate limits, \<open>pkg/discovery/database.go\<close>. A table is the list of its
  rows with the columns of the schema that some statement reads or writes, and each SQL statement of the source is
  a function on the rows. The engine decides what the statements leave open: \<open>se_fault n\<close> is the
  error of the \<open>n\<close>-th statement, if it fails, and \<open>se_rank\<close> orders rows that \<open>ORDER BY\<close> leaves tied.
  \<open>se_clock n\<close> is the \<open>n\<close>-th reading of the clock, and \<open>later k\<close> the environment of what follows after \<open>k\<close>
  statements and readings.
\<close>

section \<open>Rows and statements\<close>

record rate_limit_row =
  rr_resource_id :: string
  rr_host :: string
  rr_path :: string
  rr_limit_value :: int
  rr_window_seconds :: int
  rr_remaining_value :: int
  rr_reset_time :: int
  rr_source :: string
  rr_confidence :: f64
  rr_last_seen :: int
  rr_observation_count :: int
  rr_successful_requests :: int
  rr_failed_requests :: int
  rr_last_429_response :: "int option"
  rr_created_at :: int
  rr_updated_at :: int

record learning_row =
  lr_resource_id :: string
  lr_request_time :: int
  lr_response_code :: int
  lr_success :: bool
  lr_response_time_ms :: int
  lr_command :: string
  lr_host :: string
  lr_path :: string

record LearningData =
  ld_ResourceID :: string
  ld_RequestTime :: instant
  ld_ResponseCode :: int
  ld_Success :: bool
  ld_ResponseTime :: duration
  ld_Command :: string
  ld_Host :: string
  ld_Path :: string

record Database =
  db_rate_limits :: "rate_limit_row list"
  db_learning_data :: "learning_row list"
  db_closed :: bool
  db_path :: string

record sql_env =
  se_clock :: "nat \<Rightarrow> instant"
  se_fault :: "nat \<Rightarrow> string option"
  se_rank :: "nat \<Rightarrow> rate_limit_row \<Rightarrow> nat"
  se_order :: "nat \<Rightarrow> learning_row \<Rightarrow> nat"

definition later :: "nat \<Rightarrow> sql_env \<Rightarrow> sql_env" where
  "later k e = \<lparr>se_clock = (\<lambda>n. se_clock e (n + k)), se_fault = (\<lambda>n. se_fault e (n + k)),
                se_rank = (\<lambda>n. se_rank e (n + k)), se_order = (\<lambda>n. se_order e (n + k))\<rparr>"

datatype db_error = NoRows | SqlFailed string | CheckExisting string | CleanupLimits string | CleanupLearning string

definition statement :: "sql_env \<Rightarrow> Database \<Rightarrow> nat \<Rightarrow> string option" where
  "statement e db n = (if db_closed db then Some ''sql: database is closed'' else se_fault e n)"

definition row_key :: "rate_limit_row \<Rightarrow> string \<times> string \<times> string" where
  "row_key r = (rr_resource_id r, rr_host r, rr_path r)"

definition info_key :: "RateLimitInfo \<Rightarrow> string \<times> string \<times> string" where
  "info_key i = (rl_ResourceID i, rl_Host i, rl_Path i)"

text \<open>\<open>Duration.Seconds\<close>; it is below \<open>2^34\<close>, so that its conversion to an integer truncates.\<close>

definition Seconds :: "duration \<Rightarrow> f64" where
  "Seconds d = fadd (f64_of_int (quo d Second)) (fdiv (f64_of_int (rem d Second)) (Fin 1000000000))"

definition window_seconds :: "duration \<Rightarrow> int" where
  "window_seconds d = (case Seconds d of Fin x \<Rightarrow> trunc x | _ \<Rightarrow> 0)"

definition info_of_row :: "rate_limit_row \<Rightarrow> RateLimitInfo" where
  "info_of_row r =
     \<lparr>rl_ResourceID = rr_resource_id r, rl_Host = rr_host r, rl_Path = rr_path r, rl_Limit = rr_limit_value r,
      rl_Window = seconds_duration (rr_window_seconds r), rl_Remaining = rr_remaining_value r,
      rl_ResetTime = time_Unix (rr_reset_time r), rl_Source = rr_source r, rl_Confidence = rr_confidence r,
      rl_LastSeen = time_Unix (rr_last_seen r), rl_ObservationCount = rr_observation_count r,
      rl_SuccessfulRequests = rr_successful_requests r, rl_FailedRequests = rr_failed_requests r,
      rl_Last429Response = map_option time_Unix (rr_last_429_response r)\<rparr>"

text \<open>The row that \<open>INSERT\<close> writes and the columns that \<open>UPDATE\<close> sets.\<close>

definition new_row :: "int \<Rightarrow> RateLimitInfo \<Rightarrow> rate_limit_row" where
  "new_row now i =
     \<lparr>rr_resource_id = rl_ResourceID i, rr_host = rl_Host i, rr_path = rl_Path i, rr_limit_value = rl_Limit i,
      rr_window_seconds = window_seconds (rl_Window i), rr_remaining_value = rl_Remaining i,
      rr_reset_time = unix_seconds (rl_ResetTime i), rr_source = rl_Source i, rr_confidence = rl_Confidence i,
      rr_last_seen = now, rr_observation_count = rl_ObservationCount i,
      rr_successful_requests = rl_SuccessfulRequests i, rr_failed_requests = rl_FailedRequests i,
      rr_last_429_response = map_option unix_seconds (rl_Last429Response i), rr_created_at = now, rr_updated_at = now\<rparr>"

definition updated_row :: "int \<Rightarrow> RateLimitInfo \<Rightarrow> rate_limit_row \<Rightarrow> rate_limit_row" where
  "updated_row now i r =
     r\<lparr>rr_limit_value := rl_Limit i, rr_window_seconds := window_seconds (rl_Window i), rr_remaining_value := rl_Remaining i,
       rr_reset_time := unix_seconds (rl_ResetTime i), rr_source := rl_Source i, rr_confidence := rl_Confidence i,
       rr_last_seen := now, rr_observation_count := rr_observation_count r + 1,
       rr_successful_requests := rl_SuccessfulRequests i, rr_failed_requests := rl_FailedRequests i,
       rr_last_429_response := map_option unix_seconds (rl_Last429Response i), rr_updated_at := now\<rparr>"

definition observed_row :: "int \<Rightarrow> rate_limit_row \<Rightarrow> rate_limit_row" where
  "observed_row now r =
     r\<lparr>rr_observation_count := rr_observation_count r + 1, rr_last_seen := now, rr_updated_at := now\<rparr>"

definition update_where :: "string \<times> string \<times> string \<Rightarrow> (rate_limit_row \<Rightarrow> rate_limit_row) \<Rightarrow> Database \<Rightarrow> Database" where
  "update_where k f db = db\<lparr>db_rate_limits := map (\<lambda>r. if row_key r = k then f r else r) (db_rate_limits db)\<rparr>"

text \<open>SQLite stores a NaN as NULL, which the column refuses.\<close>

definition constraint_error :: "f64 \<Rightarrow> string option" where
  "constraint_error c = (if c = NaN then Some ''NOT NULL constraint failed: rate_limits.confidence'' else None)"

text \<open>\<open>ORDER BY confidence DESC, last_seen DESC\<close>, as stable sorts from the last key to the first.\<close>

definition f64_class :: "f64 \<Rightarrow> int" where
  "f64_class x = (case x of PInf \<Rightarrow> 1 | NInf \<Rightarrow> - 1 | _ \<Rightarrow> 0)"

definition f64_rat :: "f64 \<Rightarrow> rat" where
  "f64_rat x = (case x of Fin r \<Rightarrow> r | _ \<Rightarrow> 0)"

definition order_rows :: "(rate_limit_row \<Rightarrow> nat) \<Rightarrow> rate_limit_row list \<Rightarrow> rate_limit_row list" where
  "order_rows rk rows =
     sort_key (\<lambda>r. - f64_class (rr_confidence r)) (sort_key (\<lambda>r. - f64_rat (rr_confidence r))
       (sort_key (\<lambda>r. - rr_last_seen r) (sort_key rk rows)))"

section \<open>Operations\<close>

datatype open_error = MkdirFailed string | OpenFailed string | SchemaFailed string

text \<open>
  \<open>mkdir\<close>, \<open>opened\<close> and \<open>schema\<close> are the errors of the three steps; \<open>CREATE TABLE IF NOT EXISTS\<close> keeps
  the rows \<open>stored\<close> in the file.
\<close>

definition NewDatabase ::
  "string option \<Rightarrow> string option \<Rightarrow> string option \<Rightarrow> rate_limit_row list \<times> learning_row list \<Rightarrow> string \<Rightarrow> open_error + Database" where
  "NewDatabase mkdir opened schema stored dbPath =
     (case mkdir of Some m \<Rightarrow> Inl (MkdirFailed m) | None \<Rightarrow>
      (case opened of Some m \<Rightarrow> Inl (OpenFailed m) | None \<Rightarrow>
       (case schema of Some m \<Rightarrow> Inl (SchemaFailed m) | None \<Rightarrow>
         Inr \<lparr>db_rate_limits = fst stored, db_learning_data = snd stored, db_closed = False, db_path = dbPath\<rparr>)))"

definition GetRateLimitInfo :: "sql_env \<Rightarrow> Database \<Rightarrow> string \<Rightarrow> string \<Rightarrow> string \<Rightarrow> db_error + RateLimitInfo" where
  "GetRateLimitInfo e db resourceID host path =
     (case statement e db 0 of
        Some m \<Rightarrow> Inl (SqlFailed m)
      | None \<Rightarrow> (case find (\<lambda>r. row_key r = (resourceID, host, path)) (db_rate_limits db) of
                  None \<Rightarrow> Inl NoRows | Some r \<Rightarrow> Inr (info_of_row r)))"

definition GetRateLimitInfoByHost :: "sql_env \<Rightarrow> Database \<Rightarrow> string \<Rightarrow> string \<Rightarrow> db_error + RateLimitInfo" where
  "GetRateLimitInfoByHost e db host path =
     (case statement e db 0 of
        Some m \<Rightarrow> Inl (SqlFailed m)
      | None \<Rightarrow> (case order_rows (se_rank e 0) (filter (\<lambda>r. rr_host r = host \<and> rr_path r = path) (db_rate_limits db)) of
                  [] \<Rightarrow> Inl NoRows | r # _ \<Rightarrow> Inr (info_of_row r)))"

definition updateObservation ::
  "sql_env \<Rightarrow> Database \<Rightarrow> string \<Rightarrow> string \<Rightarrow> string \<Rightarrow> db_error option \<times> Database" where
  "updateObservation e db resourceID host path =
     (let now = unix_seconds (se_clock e 0)
      in case statement e db 0 of
           Some m \<Rightarrow> (Some (SqlFailed m), db)
         | None \<Rightarrow> (None, update_where (resourceID, host, path) (observed_row now) db))"

definition SaveRateLimitInfo :: "sql_env \<Rightarrow> Database \<Rightarrow> RateLimitInfo \<Rightarrow> db_error option \<times> Database" where
  "SaveRateLimitInfo e db info =
     (let now = unix_seconds (se_clock e 0)
      in case GetRateLimitInfo e db (rl_ResourceID info) (rl_Host info) (rl_Path info) of
           Inl (SqlFailed m) \<Rightarrow> (Some (CheckExisting m), db)
         | Inr existing \<Rightarrow>
             (if \<not> ShouldUpdate (se_clock e 1) (se_clock e 2) (se_clock e 3) existing info
              then updateObservation (later 4 e) db (rl_ResourceID existing) (rl_Host existing) (rl_Path existing)
              else (case statement e db 1 of
                      Some m \<Rightarrow> (Some (SqlFailed m), db)
                    | None \<Rightarrow>
                        (case constraint_error (rl_Confidence info) of
                           Some m \<Rightarrow> (Some (SqlFailed m), db)
                         | None \<Rightarrow> (None, update_where (info_key info) (updated_row now info) db))))
         | Inl _ \<Rightarrow>
             (case statement e db 1 of
                Some m \<Rightarrow> (Some (SqlFailed m), db)
              | None \<Rightarrow>
                  (case constraint_error (rl_Confidence info) of
                     Some m \<Rightarrow> (Some (SqlFailed m), db)
                   | None \<Rightarrow> (None, db\<lparr>db_rate_limits := db_rate_limits db @ [new_row now info]\<rparr>))))"

definition learning_row_of :: "LearningData \<Rightarrow> learning_row" where
  "learning_row_of d =
     \<lparr>lr_resource_id = ld_ResourceID d, lr_request_time = unix_seconds (ld_RequestTime d), lr_response_code = ld_ResponseCode d,
      lr_success = ld_Success d, lr_response_time_ms = quo (ld_ResponseTime d) Millisecond, lr_command = ld_Command d,
      lr_host = ld_Host d, lr_path = ld_Path d\<rparr>"

definition learning_data_of :: "learning_row \<Rightarrow> LearningData" where
  "learning_data_of r =
     \<lparr>ld_ResourceID = lr_resource_id r, ld_RequestTime = time_Unix (lr_request_time r), ld_ResponseCode = lr_response_code r,
      ld_Success = lr_success r, ld_ResponseTime = wrap64 (lr_response_time_ms r * Millisecond), ld_Command = lr_command r,
      ld_Host = lr_host r, ld_Path = lr_path r\<rparr>"

definition SaveLearningData :: "sql_env \<Rightarrow> Database \<Rightarrow> LearningData \<Rightarrow> db_error option \<times> Database" where
  "SaveLearningData e db d =
     (case statement e db 0 of
        Some m \<Rightarrow> (Some (SqlFailed m), db)
      | None \<Rightarrow> (None, db\<lparr>db_learning_data := db_learning_data db @ [learning_row_of d]\<rparr>))"

definition GetLearningData :: "sql_env \<Rightarrow> Database \<Rightarrow> string \<Rightarrow> instant \<Rightarrow> db_error + LearningData list" where
  "GetLearningData e db resourceID since =
     (case statement e db 0 of
        Some m \<Rightarrow> Inl (SqlFailed m)
      | None \<Rightarrow> Inr (map learning_data_of (sort_key (\<lambda>r. - lr_request_time r) (sort_key (se_order e 0)
                  (filter (\<lambda>r. lr_resource_id r = resourceID \<and> unix_seconds since \<le> lr_request_time r) (db_learning_data db))))))"

definition CleanupExpiredData :: "sql_env \<Rightarrow> Database \<Rightarrow> duration \<Rightarrow> db_error option \<times> Database" where
  "CleanupExpiredData e db maxAge =
     (let cutoff = unix_seconds (time_add (se_clock e 0) (wrap64 (- maxAge)))
      in case statement e db 0 of
           Some m \<Rightarrow> (Some (CleanupLimits m), db)
         | None \<Rightarrow>
             (let db1 = db\<lparr>db_rate_limits := filter (\<lambda>r. \<not> rr_last_seen r < cutoff) (db_rate_limits db)\<rparr>;
                  learningCutoff = unix_seconds (time_add (se_clock e 1) (wrap64 (wrap64 (- maxAge) * 2)))
              in case statement e db 1 of
                   Some m \<Rightarrow> (Some (CleanupLearning m), db1)
                 | None \<Rightarrow>
                     (None, db1\<lparr>db_learning_data := filter (\<lambda>r. \<not> lr_request_time r < learningCutoff) (db_learning_data db1)\<rparr>)))"

datatype stat = StatInt int | StatTime instant | StatBool bool

text \<open>\<open>fileSize\<close> is the size of the file, where \<open>os.Stat\<close> finds it.\<close>

definition Database_GetStats :: "sql_env \<Rightarrow> int option \<Rightarrow> Database \<Rightarrow> db_error + (string \<times> stat) list" where
  "Database_GetStats e fileSize db =
     (case statement e db 0 of Some m \<Rightarrow> Inl (SqlFailed m) | None \<Rightarrow>
      (case statement e db 1 of Some m \<Rightarrow> Inl (SqlFailed m) | None \<Rightarrow>
       (case statement e db 2 of Some m \<Rightarrow> Inl (SqlFailed m) | None \<Rightarrow>
         Inr ([(''rate_limit_count'', StatInt (int (length (db_rate_limits db)))),
               (''learning_data_count'', StatInt (int (length (db_learning_data db))))]
              @ (if db_rate_limits db = [] then []
                 else [(''last_rate_limit_seen'', StatTime (time_Unix (Max (set (map rr_last_seen (db_rate_limits db))))))])
              @ (case fileSize of None \<Rightarrow> [] | Some n \<Rightarrow> [(''database_size_bytes'', StatInt n)])))))"

definition ListRateLimits :: "sql_env \<Rightarrow> Database \<Rightarrow> db_error + RateLimitInfo list" where
  "ListRateLimits e db =
     (case statement e db 0 of
        Some m \<Rightarrow> Inl (SqlFailed m)
      | None \<Rightarrow> Inr (map info_of_row (order_rows (se_rank e 0) (db_rate_limits db))))"

definition Database_Close :: "Database \<Rightarrow> Database" where
  "Database_Close db = db\<lparr>db_closed := True\<rparr>"

section \<open>Whole seconds\<close>

lemma rep64_below_second:
  assumes "0 \<le> s" "s < 2 ^ 22"
  shows "rep64 (of_int s + (1 - 1 / 2 ^ 31))"
proof -
  have "rep64 (of_int ((s + 1) * 2 ^ 31 - 1) * pow2 (- 31))" using assms by (intro rep64_le53) simp_all
  then show ?thesis by (simp add: pow2_def field_simps)
qed

text \<open>The float of a duration below 48 days has the whole seconds of the duration.\<close>

lemma window_seconds_exact:
  assumes "0 \<le> d" "d < 2 ^ 22 * Second"
  shows "window_seconds d = d div Second"
proof -
  let ?s = "d div Second" and ?n = "d mod Second" and ?top = "1 - 1 / 2 ^ 31 :: rat"
  have s: "0 \<le> ?s" "?s < 2 ^ 22" and n: "0 \<le> ?n" "?n \<le> 999999999"
    using assms by (auto simp: unit_defs)
  have "f64_of_int (quo d Second) = Fin (of_int ?s)" "f64_of_int (rem d Second) = Fin (of_int ?n)"
    using assms s n by (simp_all add: quo_nonneg rem_nonneg unit_defs f64_of_int_small)
  then have S: "Seconds d = fadd (Fin (of_int ?s)) (fdiv (Fin (of_int ?n)) (Fin 1000000000))" by (simp add: Seconds_def)
  have "(of_int ?n :: rat) \<le> 999999999" "(0 :: rat) \<le> of_int ?n" using n by simp_all
  then have frac: "(0 :: rat) \<le> of_int ?n / 1000000000" "of_int ?n / 1000000000 \<le> ?top" by (simp_all add: divide_simps)
  obtain q where q: "f64_round (of_int ?n / 1000000000) = Fin q" "0 \<le> q" "q \<le> ?top"
    using f64_round_between [of 0 ?top, OF _ _ frac] rep64_below_second [of 0] rep64_pow2_1024 [of 1] by auto
  have "(of_int ?s :: rat) < of_int (2 ^ 22)" "(0 :: rat) \<le> of_int ?s" using s by (simp_all only: of_int_less_iff of_int_0_le_iff)
  moreover have "\<bar>x + ?top\<bar> < f64_limit \<and> \<bar>x\<bar> < f64_limit" if "x < of_int (2 ^ 22)" "0 \<le> x" for x
    using that rep64_pow2_1024 [of "x + ?top"] rep64_pow2_1024 [of x] by simp
  ultimately have lim: "\<bar>of_int ?s + ?top\<bar> < f64_limit" "\<bar>of_int ?s :: rat\<bar> < f64_limit" by blast+
  obtain r where r: "f64_round (of_int ?s + q) = Fin r" "of_int ?s \<le> r" "r \<le> of_int ?s + ?top"
    using f64_round_between [of "of_int ?s" "of_int ?s + ?top" "of_int ?s + q"] q rep64_below_second [OF s] s lim
    by (auto simp: abs_less_iff)
  have "trunc r = ?s" using r s by (auto simp: trunc_def floor_eq_iff)
  then show ?thesis using S q r by (simp add: window_seconds_def)
qed

lemma time_Unix_whole: "in_i64 (t + 62135596800) \<Longrightarrow> time_Unix t = t * Second"
  by (simp add: time_Unix_def wrap64_id)

lemma last_second: "t div Second * Second = t - t mod Second"
  by (metis minus_mod_eq_div_mult)

section \<open>The table as a map\<close>

text \<open>What the statements see of the table: for each key the row that is found.\<close>

definition entry :: "Database \<Rightarrow> string \<times> string \<times> string \<Rightarrow> rate_limit_row option" where
  "entry db k = find (\<lambda>r. row_key r = k) (db_rate_limits db)"

lemma entry_update_where:
  assumes "\<And>r. row_key (f r) = row_key r"
  shows "entry (update_where k f db) = (\<lambda>k'. if k' = k then map_option f (entry db k) else entry db k')"
proof
  fix k'
  have "find (\<lambda>r. row_key r = k') (map (\<lambda>r. if row_key r = k then f r else r) rs) =
    (if k' = k then map_option f (find (\<lambda>r. row_key r = k) rs) else find (\<lambda>r. row_key r = k') rs)" for rs
    by (induction rs) (use assms in auto)
  then show "entry (update_where k f db) k' = (if k' = k then map_option f (entry db k) else entry db k')"
    by (simp add: entry_def update_where_def)
qed

lemma entry_insert:
  "entry db (row_key r) = None \<Longrightarrow> entry (db\<lparr>db_rate_limits := db_rate_limits db @ [r]\<rparr>) = (entry db)(row_key r \<mapsto> r)"
proof
  fix k
  have "find P rs = None \<Longrightarrow> find P (rs @ [r]) = (if P r then Some r else None)"
    "find P rs \<noteq> None \<Longrightarrow> find P (rs @ [r]) = find P rs" for P rs by (induction rs) auto
  moreover assume "entry db (row_key r) = None"
  ultimately show "entry (db\<lparr>db_rate_limits := db_rate_limits db @ [r]\<rparr>) k = ((entry db)(row_key r \<mapsto> r)) k"
    by (cases "entry db k") (auto simp: entry_def)
qed

text \<open>The abstract operation: insert, replace or count, on the map of entries.\<close>

definition upsert :: "sql_env \<Rightarrow> RateLimitInfo \<Rightarrow> (string \<times> string \<times> string \<rightharpoonup> rate_limit_row) \<Rightarrow> (string \<times> string \<times> string \<rightharpoonup> rate_limit_row)" where
  "upsert e info m = m(info_key info \<mapsto>
     (case m (info_key info) of
        None \<Rightarrow> new_row (unix_seconds (se_clock e 0)) info
      | Some r \<Rightarrow> if ShouldUpdate (se_clock e 1) (se_clock e 2) (se_clock e 3) (info_of_row r) info
                  then updated_row (unix_seconds (se_clock e 0)) info r
                  else observed_row (unix_seconds (se_clock e 4)) r))"

definition unique_keys :: "Database \<Rightarrow> bool" where
  "unique_keys db \<longleftrightarrow> distinct (map row_key (db_rate_limits db))"

lemma GetRateLimitInfo_entry:
  "GetRateLimitInfo e db resourceID host path =
     (case statement e db 0 of
        Some m \<Rightarrow> Inl (SqlFailed m)
      | None \<Rightarrow> (case entry db (resourceID, host, path) of None \<Rightarrow> Inl NoRows | Some r \<Rightarrow> Inr (info_of_row r)))"
  unfolding GetRateLimitInfo_def entry_def ..

lemma row_key_changes [simp]:
  "row_key (new_row n i) = info_key i" "row_key (updated_row n i r) = row_key r" "row_key (observed_row n r) = row_key r"
  by (simp_all add: row_key_def info_key_def new_row_def updated_row_def observed_row_def)

lemma entry_key: "entry db k = Some r \<Longrightarrow> row_key r = k"
  by (auto simp: entry_def find_Some_iff)

lemma info_of_row_key [simp]: "info_key (info_of_row r) = row_key r"
  by (simp add: info_key_def row_key_def info_of_row_def)

lemma info_of_row_keys:
  assumes "entry db (info_key i) = Some r"
  shows "rl_ResourceID (info_of_row r) = rl_ResourceID i" "rl_Host (info_of_row r) = rl_Host i" "rl_Path (info_of_row r) = rl_Path i"
  using entry_key [OF assms] by (simp_all add: info_of_row_def row_key_def info_key_def)

lemma keys_update_where: "(\<And>r. row_key (f r) = row_key r) \<Longrightarrow> map row_key (db_rate_limits (update_where k f db)) = map row_key (db_rate_limits db)"
  by (simp add: update_where_def)

lemma entry_None: "entry db k = None \<longleftrightarrow> k \<notin> row_key ` set (db_rate_limits db)"
  by (auto simp: entry_def find_None_iff)

lemma fault_some: "se_fault e n = Some m \<Longrightarrow> se_fault e \<noteq> (\<lambda>_. None)"
  by auto

text \<open>The ways a save can end: refused, counted as an observation, or written.\<close>

lemma save_cases:
  obtains (refused) err where "SaveRateLimitInfo e db info = (Some err, db)"
    "db_closed db \<or> se_fault e \<noteq> (\<lambda>_. None) \<or> rl_Confidence info = NaN"
  | (observed) r where "entry db (info_key info) = Some r"
      "\<not> ShouldUpdate (se_clock e 1) (se_clock e 2) (se_clock e 3) (info_of_row r) info"
      "SaveRateLimitInfo e db info = (None, update_where (info_key info) (observed_row (unix_seconds (se_clock e 4))) db)"
  | (replaced) r where "entry db (info_key info) = Some r"
      "ShouldUpdate (se_clock e 1) (se_clock e 2) (se_clock e 3) (info_of_row r) info"
      "SaveRateLimitInfo e db info = (None, update_where (info_key info) (updated_row (unix_seconds (se_clock e 0)) info) db)"
  | (inserted) "entry db (info_key info) = None"
      "SaveRateLimitInfo e db info = (None, db\<lparr>db_rate_limits := db_rate_limits db @ [new_row (unix_seconds (se_clock e 0)) info]\<rparr>)"
proof (cases "statement e db 0")
  case (Some m)
  then have "SaveRateLimitInfo e db info = (Some (CheckExisting m), db)"
    by (simp add: SaveRateLimitInfo_def GetRateLimitInfo_entry)
  with Some show thesis by (intro refused) (auto simp: statement_def split: if_splits)
next
  case None
  note get = this GetRateLimitInfo_entry [of e db "rl_ResourceID info" "rl_Host info" "rl_Path info", folded info_key_def]
  show thesis
  proof (cases "entry db (info_key info)")
    case None
    then show thesis using refused inserted get
      by (cases "statement e db 1"; cases "rl_Confidence info = NaN")
         (auto simp: SaveRateLimitInfo_def constraint_error_def statement_def dest: fault_some split: if_splits)
  next
    case (Some r)
    note keys = info_of_row_keys [OF Some]
    show thesis
    proof (cases "ShouldUpdate (se_clock e 1) (se_clock e 2) (se_clock e 3) (info_of_row r) info")
      case True
      then show thesis using refused replaced get Some
        by (cases "statement e db 1"; cases "rl_Confidence info = NaN")
           (auto simp: SaveRateLimitInfo_def constraint_error_def statement_def dest: fault_some split: if_splits)
    next
      case False
      then have "SaveRateLimitInfo e db info =
          updateObservation (later 4 e) db (rl_ResourceID info) (rl_Host info) (rl_Path info)"
        using get Some keys by (simp add: SaveRateLimitInfo_def)
      then show thesis using refused observed Some False
        by (cases "statement (later 4 e) db 0")
           (auto simp: updateObservation_def later_def statement_def info_key_def dest: fault_some split: if_splits)
    qed
  qed
qed

text \<open>C20. Saving rate limit information refines an insert-or-update of a map: when no statement fails the entry of
  its key is inserted, replaced or counted as \<open>ShouldUpdate\<close> says, and every other entry stays; when one
  fails the tables are unchanged. A key never gets a second row, and learning data are not touched.\<close>

theorem save_refines_upsert:
  "(fst (SaveRateLimitInfo e db info) = None \<longrightarrow> entry (snd (SaveRateLimitInfo e db info)) = upsert e info (entry db))
   \<and> (fst (SaveRateLimitInfo e db info) \<noteq> None \<longrightarrow> snd (SaveRateLimitInfo e db info) = db)
   \<and> (\<not> db_closed db \<and> se_fault e = (\<lambda>_. None) \<and> rl_Confidence info \<noteq> NaN \<longrightarrow> fst (SaveRateLimitInfo e db info) = None)
   \<and> (unique_keys db \<longrightarrow> unique_keys (snd (SaveRateLimitInfo e db info)))
   \<and> db_learning_data (snd (SaveRateLimitInfo e db info)) = db_learning_data db"
proof (cases rule: save_cases [of e db info])
  case refused
  then show ?thesis by auto
next
  case observed
  then show ?thesis
    by (simp add: entry_update_where upsert_def fun_upd_def fun_eq_iff unique_keys_def keys_update_where)
       (simp add: update_where_def)
next
  case replaced
  then show ?thesis
    by (simp add: entry_update_where upsert_def fun_upd_def fun_eq_iff unique_keys_def keys_update_where)
       (simp add: update_where_def)
next
  case inserted
  then show ?thesis
    using entry_insert [of db "new_row (unix_seconds (se_clock e 0)) info"]
    by (simp add: upsert_def unique_keys_def entry_None [symmetric])
qed

text \<open>An engine without faults, and an empty database, to evaluate on.\<close>

definition quiet_env :: "(nat \<Rightarrow> instant) \<Rightarrow> sql_env" where
  "quiet_env clk = \<lparr>se_clock = clk, se_fault = (\<lambda>_. None), se_rank = (\<lambda>_ _. 0), se_order = (\<lambda>_ _. 0)\<rparr>"

definition empty_db :: Database where
  "empty_db = \<lparr>db_rate_limits = [], db_learning_data = [], db_closed = False, db_path = ''d''\<rparr>"

theorem save_refines_upsert_witness:
  "fst (SaveRateLimitInfo (quiet_env (\<lambda>_. 7 * Second)) empty_db (new_info ''r'' ''h'' ''/'' SourceManual 0)) = None
   \<and> entry (snd (SaveRateLimitInfo (quiet_env (\<lambda>_. 7 * Second)) empty_db (new_info ''r'' ''h'' ''/'' SourceManual 0)))
     = [(''r'', ''h'', ''/'') \<mapsto> new_row 7 (new_info ''r'' ''h'' ''/'' SourceManual 0)]"
proof -
  have "\<not> db_closed empty_db \<and> se_fault (quiet_env (\<lambda>_. 7 * Second)) = (\<lambda>_. None)
      \<and> rl_Confidence (new_info ''r'' ''h'' ''/'' SourceManual 0) \<noteq> NaN"
    and "entry empty_db = (\<lambda>_. None)" "unix_seconds (7 * Second) = 7"
    and "info_key (new_info ''r'' ''h'' ''/'' SourceManual 0) = (''r'', ''h'', ''/'')"
    by (simp_all add: empty_db_def quiet_env_def new_info_def entry_def unix_seconds_def info_key_def unit_defs fun_eq_iff)
  then show ?thesis
    using save_refines_upsert [of "quiet_env (\<lambda>_. 7 * Second)" empty_db "new_info ''r'' ''h'' ''/'' SourceManual 0"]
    by (auto simp: upsert_def quiet_env_def)
qed

section \<open>Storing and reading back\<close>

definition whole_second :: "instant \<Rightarrow> instant" where
  "whole_second t = t - t mod Second"

text \<open>The seconds from year 1 of a representable time fit 64 bits.\<close>

definition storable_time :: "instant \<Rightarrow> bool" where
  "storable_time t \<longleftrightarrow> in_i64 (unix_seconds t + 62135596800)"

lemma stored_time: "storable_time t \<Longrightarrow> time_Unix (unix_seconds t) = whole_second t"
  by (simp add: storable_time_def time_Unix_whole whole_second_def unix_seconds_def last_second)

lemma stored_window:
  assumes "0 \<le> d" "d < 2 ^ 22 * Second"
  shows "seconds_duration (window_seconds d) = d - d mod Second"
proof -
  have "0 \<le> d div Second * Second" "d div Second * Second < 2 ^ 22 * Second" using assms by (simp_all add: last_second unit_defs)
  then have "in_i64 (d div Second * Second)" by (simp add: in_i64_def unit_defs)
  then show ?thesis by (simp add: seconds_duration_def window_seconds_exact [OF assms] last_second)
qed

text \<open>C21. What is saved for a new resource is read back with every field unchanged, except that the database keeps times and the
  window in whole seconds and the time of saving as the time last seen. A window of less than a second is read back as none.\<close>

theorem saved_info_read_back:
  assumes "entry db (info_key info) = None" "\<not> db_closed db" "se_fault e = (\<lambda>_. None)" "se_fault e' = (\<lambda>_. None)"
    and "rl_Confidence info \<noteq> NaN" "0 \<le> rl_Window info" "rl_Window info < 2 ^ 22 * Second"
    and "storable_time (rl_ResetTime info)" "storable_time (se_clock e 0)"
    and "list_all storable_time (case rl_Last429Response info of None \<Rightarrow> [] | Some t \<Rightarrow> [t])"
  shows "GetRateLimitInfo e' (snd (SaveRateLimitInfo e db info)) (rl_ResourceID info) (rl_Host info) (rl_Path info) =
    Inr (info\<lparr>rl_Window := rl_Window info - rl_Window info mod Second, rl_ResetTime := whole_second (rl_ResetTime info),
              rl_LastSeen := whole_second (se_clock e 0), rl_Last429Response := map_option whole_second (rl_Last429Response info)\<rparr>)"
proof -
  let ?row = "new_row (unix_seconds (se_clock e 0)) info"
  have "SaveRateLimitInfo e db info = (None, db\<lparr>db_rate_limits := db_rate_limits db @ [?row]\<rparr>)"
    by (cases rule: save_cases [of e db info]) (use assms(1-3,5) in auto)
  moreover have "entry (db\<lparr>db_rate_limits := db_rate_limits db @ [?row]\<rparr>) (info_key info) = Some ?row"
    using entry_insert [of db ?row] assms(1) by simp
  moreover have "statement e' (db\<lparr>db_rate_limits := db_rate_limits db @ [?row]\<rparr>) 0 = None"
    using assms(2,4) by (simp add: statement_def)
  ultimately have "GetRateLimitInfo e' (snd (SaveRateLimitInfo e db info)) (rl_ResourceID info) (rl_Host info) (rl_Path info)
      = Inr (info_of_row ?row)"
    by (simp add: GetRateLimitInfo_entry info_key_def [symmetric])
  moreover have "map_option (time_Unix \<circ> unix_seconds) (rl_Last429Response info) = map_option whole_second (rl_Last429Response info)"
    using assms(10) by (cases "rl_Last429Response info") (simp_all add: stored_time)
  ultimately show ?thesis
    using assms(6-9) by (simp add: info_of_row_def new_row_def stored_time stored_window option.map_comp)
qed

theorem saved_info_read_back_witness:
  "GetRateLimitInfo (quiet_env (\<lambda>_. 0))
     (snd (SaveRateLimitInfo (quiet_env (\<lambda>_. 7 * Second + 5)) empty_db ((new_info ''r'' ''h'' ''/'' SourceManual 0)\<lparr>rl_Limit := 60, rl_Window := Minute + 1\<rparr>)))
     ''r'' ''h'' ''/''
   = Inr ((new_info ''r'' ''h'' ''/'' SourceManual (7 * Second))\<lparr>rl_Limit := 60, rl_Window := Minute\<rparr>)"
proof -
  let ?i = "(new_info ''r'' ''h'' ''/'' SourceManual 0)\<lparr>rl_Limit := 60, rl_Window := Minute + 1\<rparr>"
  have "entry empty_db (info_key ?i) = None" "\<not> db_closed empty_db" "rl_Confidence ?i \<noteq> NaN" "rl_Last429Response ?i = None"
    "0 \<le> rl_Window ?i" "rl_Window ?i < 2 ^ 22 * Second" "storable_time (rl_ResetTime ?i)" "storable_time (7 * Second + 5)"
    "whole_second (rl_ResetTime ?i) = rl_ResetTime ?i" "whole_second (7 * Second + 5) = 7 * Second"
    "rl_Window ?i - rl_Window ?i mod Second = Minute"
    by (simp_all add: entry_def empty_db_def new_info_def storable_time_def in_i64_def unix_seconds_def zero_time_def
        whole_second_def unit_defs)
  then show ?thesis
    using saved_info_read_back [of empty_db ?i "quiet_env (\<lambda>_. 7 * Second + 5)" "quiet_env (\<lambda>_. 0)"]
    by (simp add: quiet_env_def) (simp add: new_info_def)
qed

end
