(* ===== verification/DiscoveryLearner.thy ===== *)
theory DiscoveryLearner
  imports DiscoveryStore
begin

text \<open>
  The learner of \<open>pkg/discovery/learner.go\<close>, which infers rate limits from the times of successful and
  refused requests. \<open>sort.Slice\<close> is not stable and maps are ranged over in any order; \<open>rk\<close> and \<open>wk\<close>
  stand for these orders. \<open>math.Min\<close> and \<open>math.Ceil\<close> are written for the numbers they get here.
\<close>

section \<open>Operations\<close>

datatype learn_error = SaveLearning db_error | GetLearning db_error | SaveInfo db_error

definition fle :: "f64 \<Rightarrow> f64 \<Rightarrow> bool" where
  "fle x y \<longleftrightarrow> flt x y \<or> feq x y"

definition f64_min :: "f64 \<Rightarrow> f64 \<Rightarrow> f64" where
  "f64_min x y = (if x = NaN \<or> y = NaN then NaN else if flt x y then x else y)"

definition f64_ceil :: "f64 \<Rightarrow> f64" where
  "f64_ceil x = (case x of Fin r \<Rightarrow> Fin (of_int \<lceil>r\<rceil>) | y \<Rightarrow> y)"

definition sort_times :: "(LearningData \<Rightarrow> nat) \<Rightarrow> LearningData list \<Rightarrow> LearningData list" where
  "sort_times rk data = sort_key ld_RequestTime (sort_key rk data)"

definition calculateLearningConfidence :: "int \<Rightarrow> int \<Rightarrow> duration \<Rightarrow> f64" where
  "calculateLearningConfidence successfulRequests failedRequests window =
     (let totalRequests = wrap64 (successfulRequests + failedRequests);
          dataFactor = f64_min (Fin 1) (fdiv (f64_of_int totalRequests) (Fin 10));
          windowFactor = (if 6 * Hour < window then f64_round (6 / 10) else if Hour < window then f64_round (8 / 10) else Fin 1)
      in if successfulRequests < 2 then Fin 0
         else clamp_unit (fmul (fmul (f64_round (4 / 10)) dataFactor) windowFactor))"

text \<open>Requests strictly inside the window before the error.\<close>

definition in_error_window :: "duration \<Rightarrow> instant \<Rightarrow> LearningData \<Rightarrow> bool" where
  "in_error_window window errorTime d \<longleftrightarrow>
     time_add errorTime (wrap64 (- window)) < ld_RequestTime d \<and> ld_RequestTime d < errorTime"

definition analyzeWindowPattern ::
  "platform \<Rightarrow> instant \<Rightarrow> LearningData list \<Rightarrow> LearningData list \<Rightarrow> duration \<Rightarrow> string \<Rightarrow> string \<Rightarrow> string \<Rightarrow> instant
     \<Rightarrow> RateLimitInfo option" where
  "analyzeWindowPattern p now successful failed window resourceID host path errorTime =
     (let requestsInWindow = int (length (filter (in_error_window window errorTime) successful));
          had429InWindow = list_ex (in_error_window window errorTime) failed
      in if 0 < requestsInWindow \<and> had429InWindow
         then let info =
                \<lparr>rl_ResourceID = resourceID, rl_Host = host, rl_Path = path,
                 rl_Limit = i64_of_f64 p (f64_ceil (fmul (f64_of_int requestsInWindow) (f64_round (12 / 10)))),
                 rl_Window = window, rl_Remaining = 0, rl_ResetTime = time_add errorTime window, rl_Source = SourceLearned,
                 rl_Confidence = calculateLearningConfidence requestsInWindow (int (length failed)) window,
                 rl_LastSeen = now, rl_ObservationCount = 1, rl_SuccessfulRequests = requestsInWindow, rl_FailedRequests = 1,
                 rl_Last429Response = Some errorTime\<rparr>
              in if fle (f64_round (3 / 10)) (rl_Confidence info) then Some info else None
         else None)"

definition windowSizes :: "duration list" where
  "windowSizes = [Minute, 5 * Minute, 15 * Minute, Hour, 24 * Hour]"

text \<open>The loop over the windows; the clock is read once in each.\<close>

fun first_pattern :: "(nat \<Rightarrow> duration \<Rightarrow> RateLimitInfo option) \<Rightarrow> nat \<Rightarrow> duration list \<Rightarrow> RateLimitInfo option" where
  "first_pattern analyze n [] = None"
| "first_pattern analyze n (w # ws) = (case analyze n w of Some info \<Rightarrow> Some info | None \<Rightarrow> first_pattern analyze (Suc n) ws)"

definition analyzeRequestPatterns ::
  "platform \<Rightarrow> (nat \<Rightarrow> instant) \<Rightarrow> (LearningData \<Rightarrow> nat) \<Rightarrow> LearningData list \<Rightarrow> string \<Rightarrow> string \<Rightarrow> string \<Rightarrow> instant
     \<Rightarrow> RateLimitInfo option" where
  "analyzeRequestPatterns p clk rk data resourceID host path errorTime =
     (let sorted = filter (\<lambda>d. \<not> errorTime < ld_RequestTime d) (sort_times rk data);
          recent429s = filter (\<lambda>d. ld_ResponseCode d = 429) sorted;
          recentSuccessful = filter (\<lambda>d. ld_ResponseCode d \<noteq> 429 \<and> ld_Success d) sorted
      in first_pattern (\<lambda>n window. analyzeWindowPattern p (clk n) recentSuccessful recent429s window resourceID host path errorTime)
           0 windowSizes)"

definition learnFromRateLimitError ::
  "platform \<Rightarrow> sql_env \<Rightarrow> (LearningData \<Rightarrow> nat) \<Rightarrow> Database \<Rightarrow> string \<Rightarrow> string \<Rightarrow> string \<Rightarrow> instant
     \<Rightarrow> learn_error option \<times> Database" where
  "learnFromRateLimitError p e rk db resourceID host path errorTime =
     (case GetLearningData e db resourceID (time_add errorTime (- 24 * Hour)) of
        Inl err \<Rightarrow> (Some (GetLearning err), db)
      | Inr data \<Rightarrow>
          if length data < 2 then (None, db)
          else (case analyzeRequestPatterns p (se_clock e) rk data resourceID host path errorTime of
                  None \<Rightarrow> (None, db)
                | Some info \<Rightarrow> (case SaveRateLimitInfo (later 5 e) db info of (err, db') \<Rightarrow> (map_option SaveInfo err, db'))))"

definition LearnFromResponse ::
  "platform \<Rightarrow> sql_env \<Rightarrow> (LearningData \<Rightarrow> nat) \<Rightarrow> Database \<Rightarrow> string \<Rightarrow> string \<Rightarrow> string \<Rightarrow> string \<Rightarrow> int \<Rightarrow> duration \<Rightarrow> instant
     \<Rightarrow> learn_error option \<times> Database" where
  "LearnFromResponse p e rk db resourceID host path command responseCode responseTime requestTime =
     (case SaveLearningData e db
        \<lparr>ld_ResourceID = resourceID, ld_RequestTime = requestTime, ld_ResponseCode = responseCode, ld_Success = responseCode < 400,
         ld_ResponseTime = responseTime, ld_Command = command, ld_Host = host, ld_Path = path\<rparr> of
        (Some err, db1) \<Rightarrow> (Some (SaveLearning err), db1)
      | (None, db1) \<Rightarrow>
          if responseCode = 429 then learnFromRateLimitError p (later 1 e) rk db1 resourceID host path requestTime
          else (None, db1))"

text \<open>An entry of the resource, or the best one of its host and path.\<close>

definition existing_info :: "sql_env \<Rightarrow> Database \<Rightarrow> string \<Rightarrow> string \<Rightarrow> string \<Rightarrow> RateLimitInfo option" where
  "existing_info e db resourceID host path =
     (case GetRateLimitInfo e db resourceID host path of
        Inr info \<Rightarrow> Some info
      | Inl _ \<Rightarrow> (case GetRateLimitInfoByHost (later 1 e) db host path of Inr info \<Rightarrow> Some info | Inl _ \<Rightarrow> None))"

definition UpdateRateLimitFromSuccess ::
  "sql_env \<Rightarrow> Database \<Rightarrow> string \<Rightarrow> string \<Rightarrow> string \<Rightarrow> db_error option \<times> Database" where
  "UpdateRateLimitFromSuccess e db resourceID host path =
     (case existing_info e db resourceID host path of
        None \<Rightarrow> (None, db)
      | Some info \<Rightarrow>
          let i1 = info\<lparr>rl_SuccessfulRequests := wrap64 (rl_SuccessfulRequests info + 1), rl_LastSeen := se_clock e 0,
                        rl_ObservationCount := wrap64 (rl_ObservationCount info + 1)\<rparr>
          in SaveRateLimitInfo (later 2 e) db (i1\<lparr>rl_Confidence := ConfidenceScore (se_clock e 1) i1\<rparr>))"

definition reduce_learned :: "platform \<Rightarrow> RateLimitInfo \<Rightarrow> RateLimitInfo" where
  "reduce_learned p i =
     (if rl_Source i = SourceLearned
         \<and> flt (f64_round (2 / 10)) (fdiv (f64_of_int (rl_FailedRequests i)) (f64_of_int (wrap64 (rl_SuccessfulRequests i + rl_FailedRequests i))))
      then i\<lparr>rl_Limit := (let l = i64_of_f64 p (fmul (f64_of_int (rl_Limit i)) (f64_round (9 / 10))) in if l < 1 then 1 else l)\<rparr>
      else i)"

definition UpdateRateLimitFromFailure ::
  "platform \<Rightarrow> sql_env \<Rightarrow> Database \<Rightarrow> string \<Rightarrow> string \<Rightarrow> string \<Rightarrow> instant \<Rightarrow> db_error option \<times> Database" where
  "UpdateRateLimitFromFailure p e db resourceID host path failureTime =
     (case existing_info e db resourceID host path of
        None \<Rightarrow> (None, db)
      | Some info \<Rightarrow>
          let i1 = reduce_learned p (info\<lparr>rl_FailedRequests := wrap64 (rl_FailedRequests info + 1), rl_LastSeen := se_clock e 0,
                        rl_ObservationCount := wrap64 (rl_ObservationCount info + 1), rl_Last429Response := Some failureTime\<rparr>)
          in SaveRateLimitInfo (later 2 e) db (i1\<lparr>rl_Confidence := ConfidenceScore (se_clock e 1) i1\<rparr>))"

text \<open>\<open>Time.Truncate\<close> counts from year 1.\<close>

definition Truncate :: "instant \<Rightarrow> duration \<Rightarrow> instant" where
  "Truncate t d = (if d \<le> 0 then t else t - (t - zero_time) mod d)"

definition window_groups :: "duration \<Rightarrow> LearningData list \<Rightarrow> (int \<times> LearningData list) list" where
  "window_groups window data =
     fold (\<lambda>d m. let w = unix_seconds (Truncate (ld_RequestTime d) window)
       in AList.update w ((case map_of m w of None \<Rightarrow> [] | Some ds \<Rightarrow> ds) @ [d]) m) data []"

definition window_counts :: "LearningData list \<Rightarrow> int \<times> int" where
  "window_counts ds =
     (int (length (filter ld_Success ds)), int (length (filter (\<lambda>d. \<not> ld_Success d \<and> ld_ResponseCode d = 429) ds)))"

definition analyzeWindowTrends ::
  "(nat \<Rightarrow> instant) \<Rightarrow> (int \<Rightarrow> nat) \<Rightarrow> LearningData list \<Rightarrow> duration \<Rightarrow> string \<Rightarrow> string \<Rightarrow> string \<Rightarrow> RateLimitInfo option" where
  "analyzeWindowTrends clk wk data window resourceID host path =
     (let counts = map (window_counts \<circ> snd) (map_range wk (window_groups window data));
          failedWindows = map fst (filter (\<lambda>(s, f). 0 < f) counts);
          successfulWindows = map fst (filter (\<lambda>(s, f). \<not> 0 < f \<and> 0 < s) counts)
      in if failedWindows \<noteq> [] \<and> successfulWindows \<noteq> []
         then let maxSuccessful = fold (\<lambda>count m. if m < count then count else m) successfulWindows 0;
                  minFailed = fold (\<lambda>count m. if count < m then count else m) failedWindows (2 ^ 31 - 1);
                  estimated = quo (maxSuccessful + minFailed) 2;
                  total = int (length successfulWindows + length failedWindows)
              in Some \<lparr>rl_ResourceID = resourceID, rl_Host = host, rl_Path = path,
                   rl_Limit = (if estimated < 1 then maxSuccessful + 1 else estimated), rl_Window = window, rl_Remaining = 0,
                   rl_ResetTime = time_add (clk 0) window, rl_Source = SourceLearned,
                   rl_Confidence = f64_min (f64_round (8 / 10)) (fdiv (f64_of_int total) (Fin 20)), rl_LastSeen = clk 1,
                   rl_ObservationCount = total, rl_SuccessfulRequests = int (length successfulWindows),
                   rl_FailedRequests = int (length failedWindows), rl_Last429Response = None\<rparr>
         else None)"

definition trendWindows :: "duration list" where
  "trendWindows = [Minute, 5 * Minute, 15 * Minute, Hour]"

text \<open>The loop that keeps the entry with the highest confidence; two clock readings in each round.\<close>

fun best_trend :: "(nat \<Rightarrow> duration \<Rightarrow> RateLimitInfo option) \<Rightarrow> nat \<Rightarrow> duration list \<Rightarrow> RateLimitInfo option \<Rightarrow> f64
    \<Rightarrow> RateLimitInfo option \<times> f64" where
  "best_trend analyze n [] best conf = (best, conf)"
| "best_trend analyze n (w # ws) best conf =
     (case analyze n w of
        Some info \<Rightarrow> (if flt conf (rl_Confidence info) then best_trend analyze (n + 2) ws (Some info) (rl_Confidence info)
                      else best_trend analyze (n + 2) ws best conf)
      | None \<Rightarrow> best_trend analyze (n + 2) ws best conf)"

definition analyzeTrendPatterns ::
  "(nat \<Rightarrow> instant) \<Rightarrow> (LearningData \<Rightarrow> nat) \<Rightarrow> (int \<Rightarrow> nat) \<Rightarrow> LearningData list \<Rightarrow> string \<Rightarrow> RateLimitInfo option" where
  "analyzeTrendPatterns clk rk wk data resourceID =
     (case sort_times rk data of
        [] \<Rightarrow> None
      | d # ds \<Rightarrow>
          (case best_trend (\<lambda>n window. analyzeWindowTrends (\<lambda>k. clk (n + k)) wk (d # ds) window resourceID (ld_Host d) (ld_Path d))
             0 trendWindows None (Fin 0) of
             (best, conf) \<Rightarrow> if flt (Fin (1 / 2)) conf then best else None))"

definition AnalyzeRateLimitTrends ::
  "sql_env \<Rightarrow> (LearningData \<Rightarrow> nat) \<Rightarrow> (int \<Rightarrow> nat) \<Rightarrow> Database \<Rightarrow> string \<Rightarrow> learn_error + RateLimitInfo option" where
  "AnalyzeRateLimitTrends e rk wk db resourceID =
     (case GetLearningData e db resourceID (time_add (se_clock e 0) (- 7 * 24 * Hour)) of
        Inl err \<Rightarrow> Inl (GetLearning err)
      | Inr data \<Rightarrow> if length data < 10 then Inr None
                    else Inr (analyzeTrendPatterns (se_clock (later 1 e)) rk wk data resourceID))"

section \<open>Which windows are learned from\<close>

text \<open>The share of ten requests, as the code computes it, between multiples of \<open>2^-20\<close>.\<close>

lemma data_factor:
  assumes "0 \<le> t" "t < 2 ^ 53"
  shows "\<exists>q. f64_min (Fin 1) (fdiv (f64_of_int t) (Fin 10)) = Fin q \<and> 0 \<le> q \<and> q \<le> 1
    \<and> (10 \<le> t \<longrightarrow> q = 1) \<and> (8 \<le> t \<longrightarrow> 79 / 100 \<le> q) \<and> (t \<le> 9 \<longrightarrow> q \<le> 91 / 100) \<and> (t \<le> 7 \<longrightarrow> q \<le> 71 / 100)"
proof (cases "10 \<le> t")
  case True
  have t: "f64_of_int t = Fin (of_int t)" using assms by (simp add: f64_of_int_small)
  have "(1 :: rat) \<le> of_int t / 10" "(of_int t / 10 :: rat) \<le> 2 ^ 63"
  proof -
    have "(of_int 10 :: rat) \<le> of_int t" "(of_int t :: rat) \<le> of_int (2 ^ 53)" using True assms by (simp_all only: of_int_le_iff less_imp_le)
    then show "(1 :: rat) \<le> of_int t / 10" "(of_int t / 10 :: rat) \<le> 2 ^ 63" by simp_all
  qed
  then obtain r where "f64_round (of_int t / 10) = Fin r" "1 \<le> r" "r \<le> 2 ^ 63"
    by (rule round_pos [where b = "2 ^ 63"]) (use rep64_half_big in \<open>simp_all del: power_numeral\<close>)
  then show ?thesis using t True by (auto simp: f64_min_def)
next
  case False
  have t: "f64_of_int t = Fin (of_int t)" using assms by (simp add: f64_of_int_small)
  have rt: "(of_int t :: rat) \<le> 9" "(0 :: rat) \<le> of_int t" using False assms(1) by simp_all
  let ?a = "(104857 * t)" and ?b = "(104858 * t)"
  have "(of_int ?a / 2 ^ 20 :: rat) \<le> of_int t / 10" "(of_int t / 10 :: rat) \<le> of_int ?b / 2 ^ 20" "0 \<le> ?a" "?b \<le> 2 ^ 20"
    using rt False assms(1) by (simp_all add: divide_simps)
  from round_enclosed [OF this] obtain q where
    q: "f64_round (of_int t / 10) = Fin q" "of_int ?a / 2 ^ 20 \<le> q" "q \<le> of_int ?b / 2 ^ 20" by blast
  have lo: "79 / 100 \<le> (of_int ?a / 2 ^ 20 :: rat)" if "8 \<le> t"
  proof -
    have "(8 :: rat) \<le> of_int t" using that by simp
    then show ?thesis by (simp add: divide_simps)
  qed
  have hi: "(of_int ?b / 2 ^ 20 :: rat) \<le> 71 / 100" if "t \<le> 7"
  proof -
    have "(of_int t :: rat) \<le> 7" using that by simp
    then show ?thesis by (simp add: divide_simps)
  qed
  have "0 \<le> q" "q \<le> 91 / 100" using q(2,3) rt by (simp_all add: divide_simps)
  moreover have "f64_min (Fin 1) (fdiv (f64_of_int t) (Fin 10)) = Fin q" using t q(1) \<open>q \<le> 91 / 100\<close> by (simp add: f64_min_def)
  ultimately show ?thesis using False lo hi q(2,3) by (auto intro: order_trans)
qed

lemma round_near:
  assumes "of_int a / 2 ^ 20 \<le> x" "x \<le> of_int b / 2 ^ 20" "0 \<le> a" "b \<le> 2 ^ 20"
  obtains r where "f64_round x = Fin r" "of_int a / 2 ^ 20 \<le> r" "r \<le> of_int b / 2 ^ 20"
  using round_enclosed [OF assms] by blast

lemma round_product:
  assumes "lx \<le> x" "x \<le> hx" "ly \<le> y" "y \<le> hy" "0 \<le> lx" "0 \<le> ly"
    and "of_int a / 2 ^ 20 \<le> lx * ly" "hx * hy \<le> of_int b / 2 ^ 20" "0 \<le> a" "b \<le> 2 ^ 20"
  obtains r where "fmul (Fin x) (Fin y) = Fin r" "of_int a / 2 ^ 20 \<le> r" "r \<le> of_int b / 2 ^ 20"
proof -
  have "lx * ly \<le> x * y" "x * y \<le> hx * hy" using assms(1-6) by (auto intro!: mult_mono)
  then have "of_int a / 2 ^ 20 \<le> x * y" "x * y \<le> of_int b / 2 ^ 20" using assms(7,8) by linarith+
  then show thesis using round_near [OF _ _ assms(9,10)] that by auto
qed

lemma round_tenths:
  assumes "k \<in> {3, 4, 6, 8}"
  obtains r where "f64_round (k / 10) = Fin r" "k / 10 - 1 / 1000000 \<le> r" "r \<le> k / 10 + 1 / 1000000"
proof -
  obtain n where n: "(n, k) \<in> {(314572 :: int, 3), (419430, 4), (629145, 6), (838860, 8)}" using assms by auto
  obtain r where "f64_round (k / 10) = Fin r" "of_int n / 2 ^ 20 \<le> r" "r \<le> of_int (n + 1) / 2 ^ 20"
    by (rule round_near [of n "k / 10" "n + 1"]) (use n in auto)
  then show thesis using that n by (elim insertE) auto
qed

text \<open>The confidence reaches 0.3 exactly for two or more successes among enough requests, and never for a day.\<close>

lemma learning_confidence:
  assumes "0 \<le> s" "0 \<le> f" "s + f < 2 ^ 53"
  shows "fle (f64_round (3 / 10)) (calculateLearningConfidence s f w)
      = (2 \<le> s \<and> (if 6 * Hour < w then False else if Hour < w then 10 \<le> s + f else 8 \<le> s + f))"
    and "flt (calculateLearningConfidence s f w) (Fin (1 / 2))"
proof -
  obtain q where q: "f64_min (Fin 1) (fdiv (f64_of_int (s + f)) (Fin 10)) = Fin q" "0 \<le> q" "q \<le> 1"
      "10 \<le> s + f \<longrightarrow> q = 1" "8 \<le> s + f \<longrightarrow> 79 / 100 \<le> q" "s + f \<le> 9 \<longrightarrow> q \<le> 91 / 100" "s + f \<le> 7 \<longrightarrow> q \<le> 71 / 100"
    using data_factor [of "s + f"] assms by auto
  obtain c3 where c3: "f64_round (3 / 10) = Fin c3" "3 / 10 - 1 / 1000000 \<le> c3" "c3 \<le> 3 / 10 + 1 / 1000000"
    by (rule round_tenths [of 3]) simp_all
  obtain c4 where c4: "f64_round (4 / 10) = Fin c4" "4 / 10 - 1 / 1000000 \<le> c4" "c4 \<le> 4 / 10 + 1 / 1000000"
    by (rule round_tenths [of 4]) simp_all
  obtain wf where wf: "(if 6 * Hour < w then f64_round (6 / 10) else if Hour < w then f64_round (8 / 10) else Fin 1) = Fin wf"
      "if 6 * Hour < w then 59 / 100 \<le> wf \<and> wf \<le> 61 / 100 else if Hour < w then 79 / 100 \<le> wf \<and> wf \<le> 81 / 100 else wf = 1"
  proof -
    obtain a where a: "f64_round (6 / 10) = Fin a" "6 / 10 - 1 / 1000000 \<le> a" "a \<le> 6 / 10 + 1 / 1000000"
      by (rule round_tenths [of 6]) simp_all
    obtain b where b: "f64_round (8 / 10) = Fin b" "8 / 10 - 1 / 1000000 \<le> b" "b \<le> 8 / 10 + 1 / 1000000"
      by (rule round_tenths [of 8]) simp_all
    show thesis by (rule that [of "if 6 * Hour < w then a else if Hour < w then b else 1"]) (use a b in \<open>auto split: if_splits\<close>)
  qed
  have unit: "0 \<le> wf" "wf \<le> 1" using wf(2) by (auto split: if_splits)
  have wrap: "wrap64 (s + f) = s + f" using assms by (simp add: in_i64_def)
  define conf where "conf = fmul (fmul (Fin c4) (Fin q)) (Fin wf)"
  have calc: "calculateLearningConfidence s f w = (if s < 2 then Fin 0 else clamp_unit conf)"
    unfolding calculateLearningConfidence_def Let_def wrap q(1) wf(1) c4(1) conf_def ..
  text \<open>Bounds of the two products follow from bounds of their factors.\<close>
  have bounds: "\<exists>r. conf = Fin r \<and> of_int b / 2 ^ 20 \<le> r \<and> r \<le> of_int b' / 2 ^ 20"
    if prem: "lq \<le> q" "q \<le> hq" "0 \<le> lq" "lw \<le> wf" "wf \<le> hw" "0 \<le> lw"
      "of_int a / 2 ^ 20 \<le> 399 / 1000 * lq" "401 / 1000 * hq \<le> of_int a' / 2 ^ 20" "0 \<le> a" "a' \<le> 2 ^ 20"
      "of_int b / 2 ^ 20 \<le> of_int a / 2 ^ 20 * lw" "of_int a' / 2 ^ 20 * hw \<le> of_int b' / 2 ^ 20" "0 \<le> b" "b' \<le> 2 ^ 20"
    for lq hq lw hw a a' b b'
  proof -
    obtain r where r: "fmul (Fin c4) (Fin q) = Fin r" "of_int a / 2 ^ 20 \<le> r" "r \<le> of_int a' / 2 ^ 20"
      by (rule round_product [of "399 / 1000" c4 "401 / 1000" lq q hq a a']) (use c4 prem in simp_all)
    show ?thesis unfolding conf_def r(1)
      by (rule round_product [OF r(2,3) prem(4,5) _ prem(6) prem(11,12,13,14)]) (use prem(9) in auto)
  qed
  let ?enough = "if 6 * Hour < w then False else if Hour < w then 10 \<le> s + f else 8 \<le> s + f"
  have "\<exists>r. conf = Fin r \<and> of_int (if ?enough then 330000 else 0) / 2 ^ 20 \<le> r \<and> r \<le> of_int (if ?enough then 421000 else 311000) / 2 ^ 20"
  proof -
    consider "s + f \<le> 7" | "6 * Hour < w" | "Hour < w" "\<not> 6 * Hour < w" "s + f \<le> 9"
      | "\<not> Hour < w" "\<not> 6 * Hour < w" "8 \<le> s + f" | "Hour < w" "\<not> 6 * Hour < w" "10 \<le> s + f" by (force simp: unit_defs)
    then show ?thesis
    proof cases
      case 1
      then show ?thesis using bounds [of 0 "71 / 100" 0 1 0 300000 0 311000] q unit by auto
    next
      case 2
      then show ?thesis using bounds [of 0 1 0 "61 / 100" 0 421000 0 311000] q wf(2) unit by auto
    next
      case 3
      then show ?thesis using bounds [of 0 "91 / 100" 0 "81 / 100" 0 383000 0 311000] q wf(2) unit by auto
    next
      case 4
      then show ?thesis using bounds [of "79 / 100" 1 1 1 330000 421000 330000 421000] q wf(2) by auto
    next
      case 5
      then show ?thesis using bounds [of 1 1 "79 / 100" 1 418000 421000 330000 421000] q wf(2) unit by auto
    qed
  qed
  then obtain r where r: "conf = Fin r" "of_int (if ?enough then 330000 else 0) / 2 ^ 20 \<le> r"
    "r \<le> of_int (if ?enough then 421000 else 311000) / 2 ^ 20" by blast
  then have clamp: "clamp_unit conf = Fin r" by (auto simp: clamp_unit_def split: if_splits)
  have cmp: "fle (f64_round (3 / 10)) (clamp_unit conf) = ?enough" and half: "flt (clamp_unit conf) (Fin (1 / 2))"
    using r c3 unfolding clamp by (auto simp: fle_def split: if_splits)
  show "fle (f64_round (3 / 10)) (calculateLearningConfidence s f w)
      = (2 \<le> s \<and> (if 6 * Hour < w then False else if Hour < w then 10 \<le> s + f else 8 \<le> s + f))"
  proof (cases "s < 2")
    case True
    then show ?thesis using c3 by (simp add: calc fle_def)
  next
    case False
    then show ?thesis using cmp unfolding calc by simp
  qed
  show "flt (calculateLearningConfidence s f w) (Fin (1 / 2))" using half by (simp add: calc)
qed

lemma length_filter_sort: "length (filter P (sort_key f xs)) = length (filter P xs)"
  by (simp add: filter_sort)

lemma length_filter_times: "length (filter P (sort_times rk data)) = length (filter P data)"
  by (simp add: sort_times_def length_filter_sort)

lemma set_sort_times [simp]: "set (sort_times rk data) = set data"
  by (simp add: sort_times_def)

text \<open>What the learner looks for, in terms of the requests alone.\<close>

definition successes_in :: "instant \<Rightarrow> LearningData list \<Rightarrow> duration \<Rightarrow> int" where
  "successes_in t data w = int (length (filter (\<lambda>d. ld_ResponseCode d \<noteq> 429 \<and> ld_Success d \<and> in_error_window w t d) data))"

definition refused_before :: "instant \<Rightarrow> LearningData list \<Rightarrow> int" where
  "refused_before t data = int (length (filter (\<lambda>d. ld_ResponseCode d = 429 \<and> ld_RequestTime d \<le> t) data))"

definition learnable :: "instant \<Rightarrow> LearningData list \<Rightarrow> duration \<Rightarrow> bool" where
  "learnable t data w \<longleftrightarrow> list_ex (\<lambda>d. ld_ResponseCode d = 429 \<and> in_error_window w t d) data
     \<and> 2 \<le> successes_in t data w \<and> 8 \<le> successes_in t data w + refused_before t data"

lemma successes_refused_bound: "0 \<le> successes_in t data w" "0 \<le> refused_before t data"
  "successes_in t data w + refused_before t data \<le> int (length data)"
proof -
  have "length (filter (\<lambda>d. ld_ResponseCode d \<noteq> 429 \<and> P d) xs) + length (filter (\<lambda>d. ld_ResponseCode d = 429 \<and> Q d) xs) \<le> length xs" for P Q xs
    by (induction xs) auto
  from this [of "\<lambda>d. ld_Success d \<and> in_error_window w t d" data "\<lambda>d. ld_RequestTime d \<le> t"]
  show "successes_in t data w + refused_before t data \<le> int (length data)"
    unfolding successes_in_def refused_before_def by linarith
qed (simp_all add: successes_in_def refused_before_def)

lemma window_pattern:
  fixes data t rk
  defines "recent \<equiv> filter (\<lambda>d. \<not> t < ld_RequestTime d) (sort_times rk data)"
  assumes "length data < 2 ^ 52" "w \<le> Hour \<or> 6 * Hour < w"
  shows "case analyzeWindowPattern p now (filter (\<lambda>d. ld_ResponseCode d \<noteq> 429 \<and> ld_Success d) recent)
      (filter (\<lambda>d. ld_ResponseCode d = 429) recent) w resourceID host path t of
      None \<Rightarrow> \<not> (w \<le> Hour \<and> learnable t data w)
    | Some i \<Rightarrow> (w \<le> Hour \<and> learnable t data w) \<and> rl_Window i = w
        \<and> rl_SuccessfulRequests i = successes_in t data w \<and> flt (rl_Confidence i) (Fin (1 / 2))"
proof -
  let ?S = "filter (in_error_window w t) (filter (\<lambda>d. ld_ResponseCode d \<noteq> 429 \<and> ld_Success d) recent)"
  have S: "int (length ?S) = successes_in t data w"
    unfolding recent_def successes_in_def filter_filter length_filter_times
    by (auto simp: in_error_window_def intro!: arg_cong [where f = length] filter_cong)
  have F: "int (length (filter (\<lambda>d. ld_ResponseCode d = 429) recent)) = refused_before t data"
    unfolding recent_def refused_before_def filter_filter length_filter_times
    by (auto intro!: arg_cong [where f = length] filter_cong)
  have E: "list_ex (in_error_window w t) (filter (\<lambda>d. ld_ResponseCode d = 429) recent)
      = list_ex (\<lambda>d. ld_ResponseCode d = 429 \<and> in_error_window w t d) data"
    by (auto simp: recent_def list_ex_iff in_error_window_def)
  have len: "int (length data) < 2 ^ 52" using assms(2) by (metis of_nat_less_iff of_nat_numeral of_nat_power)
  note b = successes_refused_bound(1) [of t data w] successes_refused_bound(2) [of t data] successes_refused_bound(3) [of t data w]
  have tot: "successes_in t data w + refused_before t data < 2 ^ 53" using b(3) len by simp
  note c = learning_confidence [OF b(1,2) tot, of w]
  have small: "\<not> 6 * Hour < w" if "w \<le> Hour" using that by (simp add: unit_defs)
  show ?thesis
    using c small b(1) assms(3) unfolding analyzeWindowPattern_def Let_def S F E learnable_def
    by (auto split: if_splits)
qed

lemma first_pattern_find:
  assumes "\<And>n w. w \<in> set ws \<Longrightarrow> case analyze n w of None \<Rightarrow> \<not> P w | Some i \<Rightarrow> P w \<and> Q w i"
  shows "case first_pattern analyze n ws of None \<Rightarrow> find P ws = None | Some i \<Rightarrow> (\<exists>w. find P ws = Some w \<and> Q w i)"
  using assms
proof (induction ws arbitrary: n)
  case (Cons w ws)
  have w: "case analyze n w of None \<Rightarrow> \<not> P w | Some i \<Rightarrow> P w \<and> Q w i" by (rule Cons.prems) simp
  have "case first_pattern analyze (Suc n) ws of None \<Rightarrow> find P ws = None | Some i \<Rightarrow> (\<exists>w. find P ws = Some w \<and> Q w i)"
    by (rule Cons.IH) (simp add: Cons.prems)
  with w show ?case by (auto split: option.splits)
qed simp

text \<open>C22. A rate limit is learned from a refused request exactly when one of the windows of 1, 5, 15 or 60 minutes before it holds a
  refused request and at least two successful ones, and these with all refused requests of the day make at least eight; the
  shortest such window is taken, whatever order the sort leaves equal times in. The window of 24 hours that the code also
  tries is never learned, and what is learned has a confidence below 0.5.\<close>

theorem learned_window_spec:
  assumes "length data < 2 ^ 52"
  shows "map_option (\<lambda>i. (rl_Window i, rl_SuccessfulRequests i)) (analyzeRequestPatterns p clk rk data resourceID host path errorTime)
      = map_option (\<lambda>w. (w, successes_in errorTime data w)) (find (learnable errorTime data) [Minute, 5 * Minute, 15 * Minute, Hour])
    \<and> (case analyzeRequestPatterns p clk rk data resourceID host path errorTime of
         None \<Rightarrow> True | Some i \<Rightarrow> flt (rl_Confidence i) (Fin (1 / 2)))"
proof -
  let ?r = "analyzeRequestPatterns p clk rk data resourceID host path errorTime"
  have cases: "case ?r of
      None \<Rightarrow> find (\<lambda>w. w \<le> Hour \<and> learnable errorTime data w) windowSizes = None
    | Some i \<Rightarrow> (\<exists>w. find (\<lambda>w. w \<le> Hour \<and> learnable errorTime data w) windowSizes = Some w \<and> rl_Window i = w
        \<and> rl_SuccessfulRequests i = successes_in errorTime data w \<and> flt (rl_Confidence i) (Fin (1 / 2)))"
    unfolding analyzeRequestPatterns_def Let_def
    by (rule first_pattern_find) (use window_pattern [OF assms] in \<open>auto simp: windowSizes_def unit_defs\<close>)
  have "find (\<lambda>w. w \<le> Hour \<and> learnable errorTime data w) windowSizes = find (learnable errorTime data) [Minute, 5 * Minute, 15 * Minute, Hour]"
    by (simp add: windowSizes_def unit_defs)
  then show ?thesis using cases by (cases ?r) auto
qed

definition sample_request :: "instant \<Rightarrow> int \<Rightarrow> LearningData" where
  "sample_request t code = \<lparr>ld_ResourceID = ''r'', ld_RequestTime = t * Second, ld_ResponseCode = code, ld_Success = code < 400,
     ld_ResponseTime = 0, ld_Command = [], ld_Host = ''h'', ld_Path = ''/''\<rparr>"

theorem learned_window_spec_witness:
  "map_option (\<lambda>i. (rl_Window i, rl_SuccessfulRequests i))
     (analyzeRequestPatterns amd64 (\<lambda>_. 0) (\<lambda>_. 0)
        (map (\<lambda>t. sample_request t 429) [500, 501, 502, 503, 504, 505] @ [sample_request 490 200, sample_request 495 200, sample_request 100 200])
        ''r'' ''h'' ''/'' (506 * Second)) = Some (Minute, 2)"
proof -
  let ?d = "map (\<lambda>t. sample_request t 429) [500, 501, 502, 503, 504, 505] @ [sample_request 490 200, sample_request 495 200, sample_request 100 200]"
  have "successes_in (506 * Second) ?d Minute = 2" "refused_before (506 * Second) ?d = 6"
    "list_ex (\<lambda>d. ld_ResponseCode d = 429 \<and> in_error_window Minute (506 * Second) d) ?d"
    by (simp_all add: successes_in_def refused_before_def in_error_window_def sample_request_def time_add_def in_i64_def unit_defs)
  then have "find (learnable (506 * Second) ?d) [Minute, 5 * Minute, 15 * Minute, Hour] = Some Minute" by (simp add: learnable_def)
  moreover have "length ?d < 2 ^ 52" by simp
  ultimately show ?thesis
    using learned_window_spec [of ?d amd64 "\<lambda>_. 0" "\<lambda>_. 0" "''r''" "''h''" "''/''" "506 * Second"]
      \<open>successes_in (506 * Second) ?d Minute = 2\<close> by simp
qed

text \<open>A trend never suggests a limit below one request.\<close>

lemma fold_max_ge: "m \<le> fold (\<lambda>count m. if m < count then count else m) xs (m :: int)"
proof (induction xs arbitrary: m)
  case (Cons a xs)
  show ?case using Cons.IH [of a] Cons.IH [of m] by auto
qed simp

lemma trend_limit_positive:
  "analyzeWindowTrends clk wk data window resourceID host path = Some i \<Longrightarrow> 1 \<le> rl_Limit i"
  using fold_max_ge [of 0] by (auto simp: analyzeWindowTrends_def Let_def split: if_splits)

end
