(* ===== verification/DiscoveryService.thy ===== *)
theory DiscoveryService
  imports DiscoveryLearner Diophantine
begin

text \<open>
  The discovery service, \<open>pkg/discovery/service.go\<close>, over the database, the parser and the learner, and the
  scheduling strategy that asks it, \<open>pkg/backoff/diophantine_discovery.go\<close>. Statements that
  only write to the log are left out. A disabled service has no database.
\<close>

section \<open>The service\<close>

text \<open>What a call of the service finds around it: the database engine and clock, and the orders of sorts and maps.\<close>

record service_env =
  sv_sql :: sql_env
  sv_parse :: "nat \<Rightarrow> instant"
  sv_platform :: platform
  sv_urlParse :: url_parser
  sv_rank :: "LearningData \<Rightarrow> nat"
  sv_windows :: "int \<Rightarrow> nat"

record Service =
  ds_db :: Database
  ds_enabled :: bool

definition no_database :: Database where
  "no_database = \<lparr>db_rate_limits = [], db_learning_data = [], db_closed = True, db_path = []\<rparr>"

definition NewService :: "(open_error + Database) \<Rightarrow> bool \<Rightarrow> open_error + Service" where
  "NewService newDatabase enabled =
     (if \<not> enabled then Inr \<lparr>ds_db = no_database, ds_enabled = False\<rparr>
      else case newDatabase of Inl err \<Rightarrow> Inl err | Inr db \<Rightarrow> Inr \<lparr>ds_db = db, ds_enabled = True\<rparr>)"

text \<open>\<open>fmt.Sprintf\<close> of a list of strings by \<open>%v\<close>.\<close>

definition command_str :: "string list \<Rightarrow> string" where
  "command_str command = ''['' @ join '' '' command @ '']''"

text \<open>The three parts of \<open>ProcessCommandOutput\<close>, whose errors are only logged.\<close>

definition save_found :: "sql_env \<Rightarrow> DiscoveryResult \<Rightarrow> Database \<Rightarrow> Database" where
  "save_found e result db =
     (case dr_Info result of
        Some info \<Rightarrow> if dr_Found result then snd (SaveRateLimitInfo e db info) else db
      | None \<Rightarrow> db)"

definition update_existing :: "platform \<Rightarrow> sql_env \<Rightarrow> string \<times> string \<times> string \<Rightarrow> int \<Rightarrow> Database \<Rightarrow> Database" where
  "update_existing p e k exitCode db =
     (case k of (resourceID, host, path) \<Rightarrow>
        if exitCode = 429 then snd (UpdateRateLimitFromFailure p (later 1 e) db resourceID host path (se_clock e 0))
        else if exitCode < 400 then snd (UpdateRateLimitFromSuccess e db resourceID host path)
        else db)"

definition ProcessCommandOutput ::
  "service_env \<Rightarrow> Service \<Rightarrow> string \<Rightarrow> string \<Rightarrow> int \<Rightarrow> string list \<Rightarrow> duration \<Rightarrow> DiscoveryResult \<times> Service" where
  "ProcessCommandOutput v s stdout stderr exitCode command responseTime =
     (if \<not> ds_enabled s then (not_found, s)
      else let p = sv_platform v; e = sv_sql v;
               result = ParseFromCommandOutput p (sv_urlParse v) (sv_parse v) stdout stderr exitCode command;
               db1 = save_found e result (ds_db s);
               (resourceID, host, path) = extractResourceInfo (sv_urlParse v) command;
               db2 = snd (LearnFromResponse p (later 11 e) (sv_rank v) db1 resourceID host path (command_str command)
                       exitCode responseTime (se_clock e 10));
               db3 = update_existing p (later 30 e) (resourceID, host, path) exitCode db2
           in (result, s\<lparr>ds_db := db3\<rparr>))"

definition Service_GetRateLimitInfo :: "sql_env \<Rightarrow> Service \<Rightarrow> string \<Rightarrow> string \<Rightarrow> string \<Rightarrow> RateLimitInfo option" where
  "Service_GetRateLimitInfo e s resourceID host path =
     (if \<not> ds_enabled s then None
      else case GetRateLimitInfo e (ds_db s) resourceID host path of
             Inr info \<Rightarrow> Some info
           | Inl _ \<Rightarrow> (case GetRateLimitInfoByHost (later 1 e) (ds_db s) host path of Inr info \<Rightarrow> Some info | Inl _ \<Rightarrow> None))"

definition GetRateLimitForCommand :: "url_parser \<Rightarrow> sql_env \<Rightarrow> Service \<Rightarrow> string list \<Rightarrow> RateLimitInfo option" where
  "GetRateLimitForCommand urlParse e s command =
     (if \<not> ds_enabled s then None
      else case extractResourceInfo urlParse command of (resourceID, host, path) \<Rightarrow> Service_GetRateLimitInfo e s resourceID host path)"

definition ListDiscoveredRateLimits :: "sql_env \<Rightarrow> Service \<Rightarrow> db_error + RateLimitInfo list" where
  "ListDiscoveredRateLimits e s = (if \<not> ds_enabled s then Inr [] else ListRateLimits e (ds_db s))"

definition Service_GetStats :: "sql_env \<Rightarrow> int option \<Rightarrow> Service \<Rightarrow> db_error + (string \<times> stat) list" where
  "Service_GetStats e fileSize s =
     (if \<not> ds_enabled s then Inr [(''enabled'', StatBool False)]
      else case Database_GetStats e fileSize (ds_db s) of
             Inl err \<Rightarrow> Inl err
           | Inr stats \<Rightarrow> Inr (AList.update ''enabled'' (StatBool True) stats))"

definition AnalyzeTrends :: "service_env \<Rightarrow> Service \<Rightarrow> string \<Rightarrow> learn_error + RateLimitInfo option" where
  "AnalyzeTrends v s resourceID =
     (if \<not> ds_enabled s then Inr None
      else AnalyzeRateLimitTrends (sv_sql v) (sv_rank v) (sv_windows v) (ds_db s) resourceID)"

text \<open>One tick of the background routine; the ticks are a day apart.\<close>

definition backgroundCleanup :: "sql_env \<Rightarrow> Service \<Rightarrow> Service" where
  "backgroundCleanup e s = s\<lparr>ds_db := snd (CleanupExpiredData e (ds_db s) (30 * 24 * Hour))\<rparr>"

definition Service_Close :: "Service \<Rightarrow> Service" where
  "Service_Close s = (if \<not> ds_enabled s then s else s\<lparr>ds_db := Database_Close (ds_db s)\<rparr>)"

datatype service_error = NotEnabled | DbError db_error

text \<open>The entry given is changed in place, also when it is not stored.\<close>

definition ForceLearnRateLimit ::
  "sql_env \<Rightarrow> Service \<Rightarrow> RateLimitInfo \<Rightarrow> service_error option \<times> Service \<times> RateLimitInfo" where
  "ForceLearnRateLimit e s info =
     (if \<not> ds_enabled s then (Some NotEnabled, s, info)
      else let i1 = info\<lparr>rl_Source := SourceManual, rl_LastSeen := se_clock e 0, rl_ObservationCount := 1, rl_Confidence := Fin 1\<rparr>;
               (err, db) = SaveRateLimitInfo (later 1 e) (ds_db s) i1
           in (map_option DbError err, s\<lparr>ds_db := db\<rparr>, i1))"

definition ClearRateLimitInfo ::
  "sql_env \<Rightarrow> Service \<Rightarrow> string \<Rightarrow> string \<Rightarrow> string \<Rightarrow> service_error option \<times> Service" where
  "ClearRateLimitInfo e s resourceID host path =
     (if \<not> ds_enabled s then (Some NotEnabled, s)
      else case GetRateLimitInfo e (ds_db s) resourceID host path of
             Inl err \<Rightarrow> (Some (DbError err), s)
           | Inr info \<Rightarrow>
               let (err, db) = SaveRateLimitInfo (later 1 e) (ds_db s) (info\<lparr>rl_Confidence := Fin 0, rl_LastSeen := se_clock e 0\<rparr>)
               in (map_option DbError err, s\<lparr>ds_db := db\<rparr>))"

definition GetDiscoveryResult :: "RateLimitInfo option \<Rightarrow> DiscoveryResult" where
  "GetDiscoveryResult info =
     (case info of None \<Rightarrow> not_found
      | Some i \<Rightarrow> \<lparr>dr_Found = True, dr_Info = Some i, dr_Source = rl_Source i, dr_Confidence = rl_Confidence i\<rparr>)"

section \<open>The strategy with discovery\<close>

text \<open>The service is a pointer, shared with others: its state is an argument; \<open>None\<close> is the nil pointer.\<close>

record DiophantineWithDiscovery =
  dd_base :: DiophantineStrategy
  dd_fallbackRateLimit :: int
  dd_fallbackWindow :: duration

definition NewDiophantineWithDiscovery :: "int \<Rightarrow> duration \<Rightarrow> duration list \<Rightarrow> DiophantineWithDiscovery" where
  "NewDiophantineWithDiscovery fallbackRateLimit fallbackWindow retryOffsets =
     \<lparr>dd_base = NewDiophantine fallbackRateLimit fallbackWindow retryOffsets,
      dd_fallbackRateLimit = fallbackRateLimit, dd_fallbackWindow = fallbackWindow\<rparr>"

definition GetDiscoveredRateLimit :: "url_parser \<Rightarrow> sql_env \<Rightarrow> Service option \<Rightarrow> string list \<Rightarrow> RateLimitInfo option" where
  "GetDiscoveredRateLimit urlParse e svc command =
     (case svc of None \<Rightarrow> None | Some s \<Rightarrow> GetRateLimitForCommand urlParse e s command)"

definition Dio_GetRateLimitForCommand ::
  "url_parser \<Rightarrow> sql_env \<Rightarrow> Service option \<Rightarrow> DiophantineWithDiscovery \<Rightarrow> string list \<Rightarrow> int \<times> duration" where
  "Dio_GetRateLimitForCommand urlParse e svc d command =
     (case GetDiscoveredRateLimit urlParse e svc command of
        None \<Rightarrow> (dd_fallbackRateLimit d, dd_fallbackWindow d)
      | Some info \<Rightarrow>
          if flt (rl_Confidence info) (Fin (1 / 2)) \<or> IsExpired (se_clock e 0) info
          then (dd_fallbackRateLimit d, dd_fallbackWindow d)
          else (rl_Limit info, rl_Window info))"

definition set_limits :: "int \<times> duration \<Rightarrow> DiophantineWithDiscovery \<Rightarrow> DiophantineWithDiscovery" where
  "set_limits l d = d\<lparr>dd_base := (dd_base d)\<lparr>di_rateLimit := fst l, di_window := snd l\<rparr>\<rparr>"

definition UpdateRateLimitFromDiscovery ::
  "url_parser \<Rightarrow> sql_env \<Rightarrow> Service option \<Rightarrow> DiophantineWithDiscovery \<Rightarrow> string list \<Rightarrow> DiophantineWithDiscovery" where
  "UpdateRateLimitFromDiscovery urlParse e svc d command = set_limits (Dio_GetRateLimitForCommand urlParse e svc d command) d"

definition CanScheduleRequestWithDiscovery ::
  "url_parser \<Rightarrow> sql_env \<Rightarrow> Service option \<Rightarrow> DiophantineWithDiscovery \<Rightarrow> instant list \<Rightarrow> instant \<Rightarrow> string list
     \<Rightarrow> bool \<times> DiophantineWithDiscovery" where
  "CanScheduleRequestWithDiscovery urlParse e svc d existing newRequestTime command =
     (let d' = UpdateRateLimitFromDiscovery urlParse e svc d command
      in (CanScheduleRequest (dd_base d') existing newRequestTime, d'))"

definition Dio_ProcessCommandOutput ::
  "service_env \<Rightarrow> Service option \<Rightarrow> DiophantineWithDiscovery \<Rightarrow> string \<Rightarrow> string \<Rightarrow> int \<Rightarrow> string list \<Rightarrow> duration
     \<Rightarrow> DiscoveryResult \<times> Service option \<times> DiophantineWithDiscovery" where
  "Dio_ProcessCommandOutput v svc d stdout stderr exitCode command responseTime =
     (case svc of
        None \<Rightarrow> (not_found, svc, d)
      | Some s \<Rightarrow>
          if \<not> ds_enabled s then (not_found, svc, d)
          else (case ProcessCommandOutput v s stdout stderr exitCode command responseTime of
                  (result, s') \<Rightarrow>
                    (result, Some s',
                     case dr_Info result of
                       Some info \<Rightarrow> if dr_Found result then set_limits (rl_Limit info, rl_Window info) d else d
                     | None \<Rightarrow> d)))"

definition IsUsingDiscoveredLimits :: "url_parser \<Rightarrow> sql_env \<Rightarrow> Service option \<Rightarrow> string list \<Rightarrow> bool" where
  "IsUsingDiscoveredLimits urlParse e svc command =
     (case GetDiscoveredRateLimit urlParse e svc command of
        None \<Rightarrow> False
      | Some info \<Rightarrow> fle (Fin (1 / 2)) (rl_Confidence info) \<and> \<not> IsExpired (se_clock e 0) info)"

definition GetDiscoveryStats :: "sql_env \<Rightarrow> int option \<Rightarrow> Service option \<Rightarrow> db_error + (string \<times> stat) list" where
  "GetDiscoveryStats e fileSize svc =
     (case svc of None \<Rightarrow> Inr [(''enabled'', StatBool False)] | Some s \<Rightarrow> Service_GetStats e fileSize s)"

definition Dio_ListDiscoveredRateLimits :: "sql_env \<Rightarrow> Service option \<Rightarrow> db_error + RateLimitInfo list" where
  "Dio_ListDiscoveredRateLimits e svc = (case svc of None \<Rightarrow> Inr [] | Some s \<Rightarrow> ListDiscoveredRateLimits e s)"

definition Dio_ForceLearnRateLimit ::
  "sql_env \<Rightarrow> Service option \<Rightarrow> RateLimitInfo \<Rightarrow> service_error option \<times> Service option" where
  "Dio_ForceLearnRateLimit e svc info =
     (case svc of
        None \<Rightarrow> (None, svc)
      | Some s \<Rightarrow> if \<not> ds_enabled s then (None, svc)
                  else (case ForceLearnRateLimit e s info of (err, s', _) \<Rightarrow> (err, Some s')))"

definition ClearDiscoveredRateLimit ::
  "sql_env \<Rightarrow> Service option \<Rightarrow> string \<Rightarrow> string \<Rightarrow> string \<Rightarrow> service_error option \<times> Service option" where
  "ClearDiscoveredRateLimit e svc resourceID host path =
     (case svc of
        None \<Rightarrow> (None, svc)
      | Some s \<Rightarrow> if \<not> ds_enabled s then (None, svc)
                  else (case ClearRateLimitInfo e s resourceID host path of (err, s') \<Rightarrow> (err, Some s')))"

section \<open>Scores of repeated observations\<close>

text \<open>The order of floats in the unit interval.\<close>

definition unit_le :: "f64 \<Rightarrow> f64 \<Rightarrow> bool" where
  "unit_le x y \<longleftrightarrow> unit_rate x \<and> unit_rate y \<and> \<not> flt y x"

lemma unit_leD: "unit_le x y \<Longrightarrow> \<exists>a b. x = Fin a \<and> y = Fin b \<and> 0 \<le> a \<and> a \<le> b \<and> b \<le> 1"
  by (auto simp: unit_le_def unit_rate_def)

lemma round_unit_le:
  assumes "0 \<le> a" "a \<le> b" "b \<le> 1"
  shows "unit_le (f64_round a) (f64_round b)"
proof -
  have "unit_rate (f64_round a)" "unit_rate (f64_round b)" using assms by (auto intro: round_unit)
  moreover from this have "f64_round a = Fin (rnd64 a)" "f64_round b = Fin (rnd64 b)"
    by (auto simp: unit_rate_def f64_round_def Let_def split: if_splits)
  ultimately show ?thesis using rnd64_mono [OF assms(2)] by (simp add: unit_le_def)
qed

lemma unit_le_mult:
  assumes "unit_le x y" "unit_rate c"
  shows "unit_le (fmul x c) (fmul y c)" "unit_le (fmul c x) (fmul c y)"
proof -
  obtain a b r where "x = Fin a" "y = Fin b" "c = Fin r" "0 \<le> a" "a \<le> b" "b \<le> 1" "0 \<le> r" "r \<le> 1"
    using unit_leD [OF assms(1)] assms(2) by (auto simp: unit_rate_def)
  then show "unit_le (fmul x c) (fmul y c)" "unit_le (fmul c x) (fmul c y)"
    by (auto intro!: round_unit_le mult_right_mono mult_left_mono mult_le_one)
qed

lemma observationFactor_mono:
  assumes "1 \<le> m" "m \<le> n" "n \<le> 2 ^ 52"
  shows "unit_le (observationFactor m) (observationFactor n)"
proof -
  have small: "observationFactor k = f64_round (of_int k / of_int (k + 10))" if "1 \<le> k" "k \<le> 2 ^ 52" for k
  proof -
    have "f64_of_int k = Fin (of_int k)" "f64_of_int (k + 10) = Fin (of_int (k + 10))"
      using that by (simp_all add: f64_of_int_small)
    then show ?thesis using that by (simp add: observationFactor_def f64_of_int_def)
  qed
  have "(1 :: rat) \<le> of_int m" "(of_int m :: rat) \<le> of_int n" using assms by simp_all
  then have "(of_int m / of_int (m + 10) :: rat) \<le> of_int n / of_int (n + 10)" by (simp add: divide_simps algebra_simps)
  then show ?thesis using assms by (simp add: small) (intro round_unit_le; simp)
qed

lemma successFactor_no_failure:
  assumes "0 \<le> s" "s \<le> 2 ^ 53"
  shows "successFactor s 0 = Fin 1"
proof (cases "s = 0")
  case False
  have "f64_of_int s = Fin (of_int s)" using assms by (simp add: f64_of_int_small)
  moreover have "f64_round 1 = Fin 1" "f64_round (1 / 2) = Fin (1 / 2)" by code_simp+
  moreover have "wrap64 s = s" using assms by (simp add: in_i64_def)
  ultimately show ?thesis using assms False by (simp add: successFactor_def)
qed (simp add: successFactor_def in_i64_def)

text \<open>The score of \<open>n\<close> observations without failure within a day.\<close>

definition calm_score :: "string \<Rightarrow> int \<Rightarrow> f64" where
  "calm_score source n = fmul (fmul (fmul (baseConfidence source) (observationFactor n)) (Fin 1)) (Fin 1)"

lemma calm_score_mono:
  "1 \<le> m \<Longrightarrow> m \<le> n \<Longrightarrow> n \<le> 2 ^ 52 \<Longrightarrow> unit_le (calm_score source m) (calm_score source n)"
  by (auto simp: calm_score_def intro!: unit_le_mult observationFactor_mono baseConfidence_unit unit_rate_1)

lemma calm_score_unit: "1 \<le> n \<Longrightarrow> n \<le> 2 ^ 52 \<Longrightarrow> unit_rate (calm_score source n)"
  using calm_score_mono [of n n source] by (simp add: unit_le_def)

lemma recency_day:
  assumes "a - b \<le> 24 * Hour"
  shows "recencyFactor (time_sub a b) = Fin 1"
proof -
  have "\<not> 24 * Hour < time_sub a b" using assms by (simp add: time_sub_def unit_defs)
  then show ?thesis by (simp add: recencyFactor_def)
qed

lemma ConfidenceScore_calm:
  assumes "rl_FailedRequests r = 0" "0 \<le> rl_SuccessfulRequests r" "rl_SuccessfulRequests r \<le> 2 ^ 53"
    and "1 \<le> rl_ObservationCount r" "rl_ObservationCount r \<le> 2 ^ 52" "now - rl_LastSeen r \<le> 24 * Hour"
  shows "ConfidenceScore now r = calm_score (rl_Source r) (rl_ObservationCount r)"
proof -
  have "ConfidenceScore now r = clamp_unit (calm_score (rl_Source r) (rl_ObservationCount r))"
    using assms by (simp add: ConfidenceScore_def successFactor_no_failure recency_day calm_score_def)
  then show ?thesis using calm_score_unit assms(4,5) by (simp add: clamp_unit_id)
qed

section \<open>What the service does not change\<close>

lemma info_of_row_simps [simp]:
  "rl_Source (info_of_row r) = rr_source r" "rl_ObservationCount (info_of_row r) = rr_observation_count r"
  "rl_SuccessfulRequests (info_of_row r) = rr_successful_requests r" "rl_FailedRequests (info_of_row r) = rr_failed_requests r"
  "rl_LastSeen (info_of_row r) = time_Unix (rr_last_seen r)" "rl_Confidence (info_of_row r) = rr_confidence r"
  "rl_Limit (info_of_row r) = rr_limit_value r" "rl_Window (info_of_row r) = seconds_duration (rr_window_seconds r)"
  by (simp_all add: info_of_row_def)

text \<open>An entry seen within a day is only counted, when what is saved has neither a better score nor a better source.\<close>

lemma save_observes:
  assumes "entry db (info_key info) = Some r" "\<not> db_closed db" "se_fault e = (\<lambda>_. None)"
    and "getSourcePriority (rl_Source info) \<le> getSourcePriority (rr_source r)" "se_clock e 3 - time_Unix (rr_last_seen r) \<le> 24 * Hour"
    and "\<not> flt (ConfidenceScore (se_clock e 2) (info_of_row r)) (ConfidenceScore (se_clock e 1) info)"
  shows "SaveRateLimitInfo e db info = (None, update_where (info_key info) (observed_row (unix_seconds (se_clock e 4))) db)"
proof -
  have "\<not> IsExpired (se_clock e 3) (info_of_row r)" using assms(5) by (simp add: IsExpired_def time_sub_def unit_defs)
  then have keep: "\<not> ShouldUpdate (se_clock e 1) (se_clock e 2) (se_clock e 3) (info_of_row r) info"
    using assms(4,6) by (simp add: ShouldUpdate_def)
  then have "SaveRateLimitInfo e db info = updateObservation (later 4 e) db (rl_ResourceID info) (rl_Host info) (rl_Path info)"
    using assms(1-3) info_of_row_keys [OF assms(1)]
    by (simp add: SaveRateLimitInfo_def GetRateLimitInfo_entry statement_def info_key_def [symmetric])
  then show ?thesis using assms(2,3) by (simp add: updateObservation_def later_def statement_def info_key_def)
qed

definition calm_row :: "rate_limit_row \<Rightarrow> bool" where
  "calm_row r \<longleftrightarrow> rr_failed_requests r = 0 \<and> 0 \<le> rr_successful_requests r \<and> rr_successful_requests r \<le> 2 ^ 53
     \<and> 1 \<le> rr_observation_count r \<and> rr_observation_count r \<le> 2 ^ 52"

lemma calm_row_score:
  "calm_row r \<Longrightarrow> now - time_Unix (rr_last_seen r) \<le> 24 * Hour \<Longrightarrow>
     ConfidenceScore now (info_of_row r) = calm_score (rr_source r) (rr_observation_count r)"
  by (subst ConfidenceScore_calm) (auto simp: calm_row_def)

lemma save_fresh_observes:
  assumes "entry db (info_key info) = Some r" "\<not> db_closed db" "se_fault e = (\<lambda>_. None)" "calm_row r"
    and "rl_Source info = rr_source r" "rl_ObservationCount info = 1" "rl_SuccessfulRequests info = 0" "rl_FailedRequests info = 0"
    and "se_clock e 1 - rl_LastSeen info \<le> 24 * Hour"
    and "se_clock e 2 - time_Unix (rr_last_seen r) \<le> 24 * Hour" "se_clock e 3 - time_Unix (rr_last_seen r) \<le> 24 * Hour"
  shows "SaveRateLimitInfo e db info = (None, update_where (info_key info) (observed_row (unix_seconds (se_clock e 4))) db)"
proof (rule save_observes [OF assms(1-3) _ assms(11)])
  have "ConfidenceScore (se_clock e 1) info = calm_score (rr_source r) 1"
    using assms(5-9) ConfidenceScore_calm [of info "se_clock e 1"] by simp
  moreover have "unit_le (calm_score (rr_source r) 1) (calm_score (rr_source r) (rr_observation_count r))"
    using assms(4) by (intro calm_score_mono) (auto simp: calm_row_def)
  ultimately show "\<not> flt (ConfidenceScore (se_clock e 2) (info_of_row r)) (ConfidenceScore (se_clock e 1) info)"
    using calm_row_score [OF assms(4,10)] by (simp add: unit_le_def)
qed (simp add: assms(5))

text \<open>A manual rate limit cannot be changed: \<open>ForceLearnRateLimit\<close> of other values for a resource whose manual entry
  was seen within the last day reports success and counts an observation, and the stored limit, window and all else stay.\<close>

lemma force_learn_keeps_old_limit:
  assumes "ds_enabled s" "entry (ds_db s) (info_key info) = Some r" "\<not> db_closed (ds_db s)" "se_fault e = (\<lambda>_. None)"
    and "rr_source r = SourceManual" "calm_row r" "rl_SuccessfulRequests info = 0" "rl_FailedRequests info = 0"
    and "se_clock e 2 - se_clock e 0 \<le> 24 * Hour"
    and "se_clock e 3 - time_Unix (rr_last_seen r) \<le> 24 * Hour" "se_clock e 4 - time_Unix (rr_last_seen r) \<le> 24 * Hour"
  shows "fst (ForceLearnRateLimit e s info) = None
    \<and> entry (ds_db (fst (snd (ForceLearnRateLimit e s info)))) = (entry (ds_db s))(info_key info \<mapsto> observed_row (unix_seconds (se_clock e 5)) r)"
proof -
  let ?i = "info\<lparr>rl_Source := SourceManual, rl_LastSeen := se_clock e 0, rl_ObservationCount := 1, rl_Confidence := Fin 1\<rparr>"
  have key: "info_key ?i = info_key info" by (simp add: info_key_def)
  have "SaveRateLimitInfo (later 1 e) (ds_db s) ?i =
      (None, update_where (info_key ?i) (observed_row (unix_seconds (se_clock (later 1 e) 4))) (ds_db s))"
    by (rule save_fresh_observes [of _ _ r]) (use assms key in \<open>simp_all add: later_def eval_nat_numeral\<close>)
  then show ?thesis
    using assms(1,2) key by (auto simp: ForceLearnRateLimit_def later_def entry_update_where fun_eq_iff eval_nat_numeral)
qed

text \<open>C23. \<open>ClearRateLimitInfo\<close> does not clear: for an entry seen within the last day it reports success, but the
  entry keeps its confidence, limit and window and is counted as observed once more.\<close>

theorem clear_keeps_entry:
  assumes "ds_enabled s" "entry (ds_db s) (resourceID, host, path) = Some r" "\<not> db_closed (ds_db s)" "se_fault e = (\<lambda>_. None)"
    and "se_clock e 2 - se_clock e 0 \<le> 24 * Hour"
    and "se_clock e 3 - time_Unix (rr_last_seen r) \<le> 24 * Hour" "se_clock e 4 - time_Unix (rr_last_seen r) \<le> 24 * Hour"
  shows "fst (ClearRateLimitInfo e s resourceID host path) = None
    \<and> entry (ds_db (snd (ClearRateLimitInfo e s resourceID host path)))
      = (entry (ds_db s))((resourceID, host, path) \<mapsto> observed_row (unix_seconds (se_clock e 5)) r)"
proof -
  let ?i = "(info_of_row r)\<lparr>rl_Confidence := Fin 0, rl_LastSeen := se_clock e 0\<rparr>"
  have key: "info_key ?i = (resourceID, host, path)"
    using entry_key [OF assms(2)] by (simp add: info_key_def row_key_def info_of_row_def)
  have "ConfidenceScore (se_clock e 3) (info_of_row r) = ConfidenceScore (se_clock e 2) ?i"
    using assms(5,6) by (simp add: ConfidenceScore_def recency_day)
  then have "SaveRateLimitInfo (later 1 e) (ds_db s) ?i =
      (None, update_where (info_key ?i) (observed_row (unix_seconds (se_clock (later 1 e) 4))) (ds_db s))"
    by (intro save_observes [of _ _ r]) (use assms key in \<open>simp_all add: later_def eval_nat_numeral\<close>)
  moreover have "GetRateLimitInfo e (ds_db s) resourceID host path = Inr (info_of_row r)"
    using assms(2-4) by (simp add: GetRateLimitInfo_entry statement_def)
  ultimately show ?thesis
    using assms(1,2) key by (auto simp: ClearRateLimitInfo_def later_def entry_update_where fun_eq_iff eval_nat_numeral)
qed

section \<open>Headers seen again and again\<close>

text \<open>An engine without faults whose clock stays within 23 hours from \<open>T\<close>.\<close>

definition in_day :: "instant \<Rightarrow> (nat \<Rightarrow> instant) \<Rightarrow> bool" where
  "in_day T clk \<longleftrightarrow> (\<forall>n. T \<le> clk n \<and> clk n \<le> T + 23 * Hour)"

definition day_env :: "instant \<Rightarrow> sql_env \<Rightarrow> bool" where
  "day_env T e \<longleftrightarrow> se_fault e = (\<lambda>_. None) \<and> in_day T (se_clock e)"

definition seen_in_day :: "instant \<Rightarrow> rate_limit_row \<Rightarrow> bool" where
  "seen_in_day T r \<longleftrightarrow> T - Second \<le> time_Unix (rr_last_seen r) \<and> time_Unix (rr_last_seen r) \<le> T + 23 * Hour"

lemma day_env_later [simp]: "day_env T e \<Longrightarrow> day_env T (later k e)"
  by (simp add: day_env_def in_day_def later_def)

lemma day_env_fault: "day_env T e \<Longrightarrow> se_fault e = (\<lambda>_. None)"
  by (simp add: day_env_def)

lemma stored_in_day:
  assumes "day_env T e" "0 \<le> T" "T \<le> 2 ^ 62" "rr_last_seen r = unix_seconds (se_clock e n)"
  shows "seen_in_day T r"
proof -
  have t: "T \<le> se_clock e n" "se_clock e n \<le> T + 23 * Hour" using assms(1) by (auto simp: day_env_def in_day_def)
  then have "storable_time (se_clock e n)" using assms(2,3) by (auto simp: storable_time_def in_i64_def unix_seconds_def unit_defs)
  moreover have "0 \<le> se_clock e n mod Second" "se_clock e n mod Second < Second" by (simp_all add: unit_defs)
  ultimately show ?thesis using t assms(4) by (simp add: seen_in_day_def stored_time whole_second_def)
qed

lemma day_recent:
  "day_env T e \<Longrightarrow> seen_in_day T r \<Longrightarrow> se_clock e n - time_Unix (rr_last_seen r) \<le> 24 * Hour"
  "day_env T e \<Longrightarrow> T \<le> u \<Longrightarrow> se_clock e n - u \<le> 24 * Hour"
  by (force simp: day_env_def in_day_def seen_in_day_def unit_defs dest: spec [of _ n])+

text \<open>The information that a successful request saves.\<close>

definition success_info :: "sql_env \<Rightarrow> rate_limit_row \<Rightarrow> RateLimitInfo" where
  "success_info e r =
     (let i1 = (info_of_row r)\<lparr>rl_SuccessfulRequests := wrap64 (rr_successful_requests r + 1), rl_LastSeen := se_clock e 0,
                  rl_ObservationCount := wrap64 (rr_observation_count r + 1)\<rparr>
      in i1\<lparr>rl_Confidence := ConfidenceScore (se_clock e 1) i1\<rparr>)"

lemma success_info_score:
  assumes "calm_row r" "rr_observation_count r < 2 ^ 52" "rr_successful_requests r < 2 ^ 53" "now - se_clock e 0 \<le> 24 * Hour"
  shows "ConfidenceScore now (success_info e r) = calm_score (rr_source r) (rr_observation_count r + 1)"
proof -
  have "in_i64 (rr_observation_count r + 1)" "in_i64 (rr_successful_requests r + 1)"
    using assms by (auto simp: calm_row_def in_i64_def)
  then show ?thesis using assms
    by (subst ConfidenceScore_calm) (auto simp: success_info_def Let_def calm_row_def)
qed

lemma success_info_confidence:
  "rl_Confidence (success_info e r) = ConfidenceScore (se_clock e 1) (success_info e r)"
  by (simp add: success_info_def Let_def ConfidenceScore_def)

lemma stored_window_again:
  assumes "0 \<le> n" "n < 2 ^ 22"
  shows "window_seconds (seconds_duration n) = n"
proof -
  have "in_i64 (n * Second)" "n * Second < 2 ^ 22 * Second" "0 \<le> n * Second" using assms by (simp_all add: in_i64_def unit_defs)
  then show ?thesis using window_seconds_exact [of "n * Second"] by (simp add: seconds_duration_def unit_defs)
qed

text \<open>A success replaces the row by one of a higher score, or counts where floats cannot tell the scores apart.\<close>

lemma success_step:
  assumes r: "entry db (resourceID, host, path) = Some r" "\<not> db_closed db" "calm_row r"
    and b: "rr_observation_count r < 2 ^ 52" "rr_successful_requests r < 2 ^ 53"
    and day: "day_env T e" "seen_in_day T r"
  shows "\<exists>t1 t2. snd (UpdateRateLimitFromSuccess e db resourceID host path) =
    update_where (resourceID, host, path)
      (if flt (calm_score (rr_source r) (rr_observation_count r)) (calm_score (rr_source r) (rr_observation_count r + 1))
       then updated_row (unix_seconds (se_clock e t1)) (success_info e r) else observed_row (unix_seconds (se_clock e t2))) db"
proof -
  let ?i = "success_info e r"
  have key: "info_key ?i = (resourceID, host, path)"
    using entry_key [OF r(1)] by (simp add: info_key_def row_key_def success_info_def Let_def info_of_row_def)
  have d2: "day_env T (later 2 e)" using day(1) by simp
  have T0: "T \<le> se_clock e 0" using day(1) by (simp add: day_env_def in_day_def)
  have new: "ConfidenceScore (se_clock (later 2 e) 1) ?i = calm_score (rr_source r) (rr_observation_count r + 1)"
    by (rule success_info_score [OF r(3) b day_recent(2) [OF d2 T0]])
  have old: "ConfidenceScore (se_clock (later 2 e) 2) (info_of_row r) = calm_score (rr_source r) (rr_observation_count r)"
    by (rule calm_row_score [OF r(3) day_recent(1) [OF d2 day(2)]])
  have conf: "rl_Confidence ?i \<noteq> NaN"
    using success_info_score [OF r(3) b day_recent(2) [OF day(1) T0, of 1]]
      calm_score_unit [of "rr_observation_count r + 1" "rr_source r"] r(3) b(1)
    by (auto simp: success_info_confidence calm_row_def unit_rate_def)
  have upd: "UpdateRateLimitFromSuccess e db resourceID host path = SaveRateLimitInfo (later 2 e) db ?i"
    using r(1,2) day_env_fault [OF day(1)]
    by (simp add: UpdateRateLimitFromSuccess_def existing_info_def GetRateLimitInfo_entry statement_def success_info_def Let_def)
  have expired: "\<not> IsExpired (se_clock (later 2 e) 3) (info_of_row r)"
    using day_recent(1) [OF d2 day(2), of 3] by (simp add: IsExpired_def time_sub_def unit_defs)
  have src: "rl_Source ?i = rr_source r" by (simp add: success_info_def Let_def)
  show ?thesis
  proof (cases rule: save_cases [of "later 2 e" db ?i])
    case refused
    then show ?thesis using r(2) conf day_env_fault [OF d2] by auto
  next
    case (observed r')
    then have "r' = r" using r(1) key by simp
    then have "\<not> flt (calm_score (rr_source r) (rr_observation_count r)) (calm_score (rr_source r) (rr_observation_count r + 1))"
      using observed(2) new old by (simp add: ShouldUpdate_def)
    then show ?thesis using upd observed(3) key by (auto simp: later_def intro: exI [of _ 6])
  next
    case (replaced r')
    then have "r' = r" using r(1) key by simp
    then have "flt (calm_score (rr_source r) (rr_observation_count r)) (calm_score (rr_source r) (rr_observation_count r + 1))"
      using replaced(2) new old expired src by (simp add: ShouldUpdate_def)
    then show ?thesis using upd replaced(3) key by (auto simp: later_def intro: exI [of _ 2])
  next
    case inserted
    then show ?thesis using r(1) key by simp
  qed
qed

text \<open>What the parser finds in headers.\<close>

lemma finish_info_simps [simp]:
  "rl_Source (finish_info clk i) = rl_Source i" "rl_ObservationCount (finish_info clk i) = rl_ObservationCount i"
  "rl_SuccessfulRequests (finish_info clk i) = rl_SuccessfulRequests i" "rl_FailedRequests (finish_info clk i) = rl_FailedRequests i"
  "rl_LastSeen (finish_info clk i) = rl_LastSeen i" "info_key (finish_info clk i) = info_key i" "rl_Limit (finish_info clk i) = rl_Limit i"
  by (simp_all add: finish_info_def Let_def info_key_def)

lemma finish_info_confidence: "rl_Confidence (finish_info clk i) = ConfidenceScore (clk 3) (finish_info clk i)"
  by (simp add: finish_info_def Let_def ConfidenceScore_def)

definition fresh_header :: "(nat \<Rightarrow> instant) \<Rightarrow> string \<times> string \<times> string \<Rightarrow> RateLimitInfo \<Rightarrow> bool" where
  "fresh_header clk k i \<longleftrightarrow> info_key i = k \<and> rl_Source i = SourceHTTPHeader \<and> rl_ObservationCount i = 1
     \<and> rl_SuccessfulRequests i = 0 \<and> rl_FailedRequests i = 0 \<and> rl_LastSeen i = clk 0 \<and> rl_Confidence i = ConfidenceScore (clk 3) i"

lemma header_window_simps [simp]:
  "rl_Source (header_window clk h i) = rl_Source i" "rl_ObservationCount (header_window clk h i) = rl_ObservationCount i"
  "rl_SuccessfulRequests (header_window clk h i) = rl_SuccessfulRequests i" "rl_FailedRequests (header_window clk h i) = rl_FailedRequests i"
  "rl_LastSeen (header_window clk h i) = rl_LastSeen i" "info_key (header_window clk h i) = info_key i"
  "rl_Limit (header_window clk h i) = rl_Limit i"
  unfolding header_window_def info_key_def by (simp_all split: option.split)

lemma parseHTTPHeaders_fresh:
  assumes "dr_Found (parseHTTPHeaders clk out resourceID host path)"
  shows "\<exists>i. parseHTTPHeaders clk out resourceID host path = found SourceHTTPHeader i \<and> fresh_header clk (resourceID, host, path) i"
proof -
  have "info_key ((new_info resourceID host path SourceHTTPHeader (clk 0))\<lparr>rl_Limit := l, rl_Remaining := m\<rparr>) = (resourceID, host, path)" for l m
    by (simp add: new_info_def info_key_def)
  then have fresh: "fresh_header clk (resourceID, host, path) (finish_info clk (header_window clk h
      ((new_info resourceID host path SourceHTTPHeader (clk 0))\<lparr>rl_Limit := l, rl_Remaining := m\<rparr>)))" for h l m
    unfolding fresh_header_def finish_info_confidence [symmetric] finish_info_simps header_window_simps by (simp add: new_info_def)
  have "hasRateLimitInfo (extractRateLimitHeaders out)"
    using assms by (auto simp: parseHTTPHeaders_def Let_def not_found_def split: if_splits)
  then show ?thesis unfolding parseHTTPHeaders_def Let_def using fresh by auto
qed

lemma header_result_fresh:
  assumes "ParseFromCommandOutput p urlParse clk stdout stderr exitCode command = res" "dr_Found res" "dr_Source res = SourceHTTPHeader"
  shows "\<exists>i. dr_Info res = Some i \<and> fresh_header clk (extractResourceInfo urlParse command) i"
proof -
  obtain rid h pa where k: "extractResourceInfo urlParse command = (rid, h, pa)" by (metis prod_cases3)
  let ?out = "take (50 * 1024) (stdout @ [newline] @ stderr)"
  have json: "dr_Source (parse_json_response p clk ?out rid h pa) \<noteq> SourceHTTPHeader"
    by (auto simp: parse_json_response_def Let_def found_def not_found_def source_defs split: option.splits)
  show ?thesis
  proof (cases "dr_Found (parseHTTPHeaders clk ?out rid h pa)")
    case True
    then show ?thesis using parseHTTPHeaders_fresh [OF True] assms(1) k
      by (auto simp: ParseFromCommandOutput_def Let_def found_def)
  next
    case False
    then show ?thesis using assms json k by (auto simp: ParseFromCommandOutput_def Let_def split: if_splits)
  qed
qed

type_synonym call = "service_env \<times> string \<times> string \<times> int \<times> duration"

fun call_result :: "string list \<Rightarrow> call \<Rightarrow> DiscoveryResult" where
  "call_result command (v, stdout, stderr, exitCode, _) =
     ParseFromCommandOutput (sv_platform v) (sv_urlParse v) (sv_parse v) stdout stderr exitCode command"

fun process_outputs :: "string list \<Rightarrow> call list \<Rightarrow> Service \<Rightarrow> Service" where
  "process_outputs command [] s = s"
| "process_outputs command ((v, stdout, stderr, exitCode, responseTime) # cs) s =
     process_outputs command cs (snd (ProcessCommandOutput v s stdout stderr exitCode command responseTime))"

text \<open>A run that shows rate limit headers and does not end as a refused request.\<close>

fun header_call :: "url_parser \<Rightarrow> instant \<Rightarrow> string list \<Rightarrow> call \<Rightarrow> bool" where
  "header_call urlParse T command (v, stdout, stderr, exitCode, responseTime) \<longleftrightarrow>
     sv_urlParse v = urlParse \<and> day_env T (sv_sql v) \<and> in_day T (sv_parse v) \<and> exitCode < 400
     \<and> dr_Found (call_result command (v, stdout, stderr, exitCode, responseTime))
     \<and> dr_Source (call_result command (v, stdout, stderr, exitCode, responseTime)) = SourceHTTPHeader"

text \<open>The state after \<open>k\<close> such runs: the values of the first, and a confidence that grows with \<open>k\<close>.\<close>

definition header_state :: "instant \<Rightarrow> int \<Rightarrow> int \<Rightarrow> nat \<Rightarrow> rate_limit_row \<Rightarrow> bool" where
  "header_state T limit secs k r \<longleftrightarrow>
     rr_source r = SourceHTTPHeader \<and> rr_limit_value r = limit \<and> rr_window_seconds r = secs \<and> rr_failed_requests r = 0
     \<and> 0 \<le> rr_successful_requests r \<and> rr_successful_requests r \<le> int k \<and> rr_observation_count r = 2 * int k \<and> seen_in_day T r
     \<and> (if k < 7 then rr_confidence r = calm_score SourceHTTPHeader (2 * int k) else unit_le (Fin (1 / 2)) (rr_confidence r))"

lemma learn_keeps_entries:
  "responseCode \<noteq> 429 \<Longrightarrow>
     entry (snd (LearnFromResponse p e rk db resourceID host path command responseCode responseTime requestTime)) = entry db
     \<and> db_closed (snd (LearnFromResponse p e rk db resourceID host path command responseCode responseTime requestTime)) = db_closed db"
  by (auto simp: LearnFromResponse_def SaveLearningData_def entry_def fun_eq_iff split: option.splits)

text \<open>Scores of headers, enclosed by dyadic fractions.\<close>

lemma header_score_enclosed:
  assumes "1 \<le> n" "n \<le> 2 ^ 40"
  shows "\<exists>r. calm_score SourceHTTPHeader n = Fin r
    \<and> of_int (921 * (1024 * n div (n + 10))) / 2 ^ 20 \<le> r \<and> r \<le> of_int (922 * (1024 * n div (n + 10) + 1)) / 2 ^ 20"
proof -
  let ?a = "1024 * n div (n + 10)"
  have d: "?a * (n + 10) \<le> 1024 * n" "1024 * n \<le> (?a + 1) * (n + 10)"
    using assms pos_mod_sign [of "n + 10" "1024 * n"] pos_mod_bound [of "n + 10" "1024 * n"]
      minus_mod_eq_div_mult [of "1024 * n" "n + 10"] by (linarith, simp only: distrib_right mult_1, linarith)
  then have a: "0 \<le> ?a" "?a < 1024"
    using assms mult_right_mono [of 1024 ?a "n + 10"] by (auto simp: pos_imp_zdiv_nonneg_iff not_le [symmetric])
  obtain c where c: "f64_round (9 / 10) = Fin c" "921 / 1024 \<le> c" "c \<le> 922 / 1024"
    using round_enclosed [of "921 * 1024" "9 / 10" "922 * 1024"] by auto
  have "(of_int ?a :: rat) * of_int (n + 10) \<le> of_int (1024 * n)" "of_int (1024 * n) \<le> (of_int (?a + 1) :: rat) * of_int (n + 10)"
    unfolding of_int_mult [symmetric] of_int_le_iff using d by simp_all
  then have q: "of_int (1024 * ?a) / 2 ^ 20 \<le> (of_int n / of_int (n + 10) :: rat)" "(of_int n / of_int (n + 10) :: rat) \<le> of_int (1024 * (?a + 1)) / 2 ^ 20"
    using assms by (simp_all add: divide_simps algebra_simps)
  obtain o1 where o1: "f64_round (of_int n / of_int (n + 10)) = Fin o1" "of_int ?a / 1024 \<le> o1" "o1 \<le> of_int (?a + 1) / 1024"
    using round_enclosed [OF q] a by auto
  have "of_int (921 * ?a) / 2 ^ 20 = 921 / 1024 * (of_int ?a / 1024 :: rat)" by simp
  also have "\<dots> \<le> c * o1" using c(2) o1(2) a(1) by (intro mult_mono) auto
  finally have lo: "of_int (921 * ?a) / 2 ^ 20 \<le> c * o1" .
  have "c * o1 \<le> 922 / 1024 * (of_int (?a + 1) / 1024)" using c(2,3) o1(2,3) a(1) by (intro mult_mono) (auto intro: order_trans [rotated])
  then have hi: "c * o1 \<le> of_int (922 * (?a + 1)) / 2 ^ 20" by simp
  have b: "0 \<le> 921 * ?a" "922 * (?a + 1) \<le> 2 ^ 20" using a by simp_all
  obtain r1 where r1: "f64_round (c * o1) = Fin r1" "of_int (921 * ?a) / 2 ^ 20 \<le> r1" "r1 \<le> of_int (922 * (?a + 1)) / 2 ^ 20"
    using round_enclosed [OF lo hi b] by blast
  obtain r2 where r2: "f64_round r1 = Fin r2" "of_int (921 * ?a) / 2 ^ 20 \<le> r2" "r2 \<le> of_int (922 * (?a + 1)) / 2 ^ 20"
    using round_enclosed [OF r1(2,3) b] by blast
  obtain r3 where r3: "f64_round r2 = Fin r3" "of_int (921 * ?a) / 2 ^ 20 \<le> r3" "r3 \<le> of_int (922 * (?a + 1)) / 2 ^ 20"
    using round_enclosed [OF r2(2,3) b] by blast
  have "f64_of_int n = Fin (of_int n)" "f64_of_int (n + 10) = Fin (of_int (n + 10))" using assms by (simp_all add: f64_of_int_small)
  then have "observationFactor n = Fin o1" using o1(1) assms by (simp add: observationFactor_def f64_of_int_def)
  then have "calm_score SourceHTTPHeader n = Fin r3" using c(1) r1(1) r2(1) r3(1) by (simp add: calm_score_def baseConfidence_def)
  then show ?thesis using r3(2,3) by blast
qed

lemma header_score_less:
  assumes "1 \<le> m" "m \<le> 2 ^ 40" "1 \<le> n" "n \<le> 2 ^ 40" "922 * (1024 * m div (m + 10) + 1) < 921 * (1024 * n div (n + 10))"
  shows "flt (calm_score SourceHTTPHeader m) (calm_score SourceHTTPHeader n)"
proof -
  have "(of_int (922 * (1024 * m div (m + 10) + 1)) / 2 ^ 20 :: rat) < of_int (921 * (1024 * n div (n + 10))) / 2 ^ 20"
    using assms(5) by (simp only: divide_strict_right_mono of_int_less_iff zero_less_power zero_less_numeral)
  then show ?thesis using header_score_enclosed [OF assms(1,2)] header_score_enclosed [OF assms(3,4)] by auto
qed

lemma header_scores:
  "1 \<le> n \<Longrightarrow> n \<le> 13 \<Longrightarrow> flt (calm_score SourceHTTPHeader n) (calm_score SourceHTTPHeader (n + 1))"
  "1 \<le> n \<Longrightarrow> n \<le> 12 \<Longrightarrow> flt (calm_score SourceHTTPHeader n) (Fin (1 / 2))"
  "\<not> flt (calm_score SourceHTTPHeader 14) (Fin (1 / 2))"
proof -
  assume n: "1 \<le> n" "n \<le> 13"
  then have "n \<in> set [1..13]" by simp
  then show "flt (calm_score SourceHTTPHeader n) (calm_score SourceHTTPHeader (n + 1))"
    by (intro header_score_less) (auto simp: upto.simps)
next
  have "flt (calm_score SourceHTTPHeader 12) (Fin (1 / 2))" using header_score_enclosed [of 12] by auto
  moreover assume "1 \<le> n" "n \<le> 12"
  then have "unit_le (calm_score SourceHTTPHeader n) (calm_score SourceHTTPHeader 12)" by (intro calm_score_mono) auto
  ultimately show "flt (calm_score SourceHTTPHeader n) (Fin (1 / 2))" by (auto dest!: unit_leD)
qed (use header_score_enclosed [of 14] in auto)

text \<open>One success after an odd number of observations.\<close>

lemma header_success:
  assumes r: "entry db (resourceID, host, path) = Some r" "\<not> db_closed db" "rr_source r = SourceHTTPHeader" "rr_limit_value r = limit"
    and w: "rr_window_seconds r = secs" "0 \<le> secs" "secs < 2 ^ 22" and "rr_failed_requests r = 0" "0 \<le> rr_successful_requests r"
    and k: "rr_successful_requests r \<le> int k" "rr_observation_count r = 2 * int k + 1" "k < 2 ^ 50"
    and conf: "7 \<le> k \<Longrightarrow> unit_le (Fin (1 / 2)) (rr_confidence r)"
    and day: "seen_in_day T r" "day_env T e" "0 \<le> T" "T \<le> 2 ^ 62"
  shows "\<exists>r'. entry (snd (UpdateRateLimitFromSuccess e db resourceID host path)) (resourceID, host, path) = Some r'
    \<and> header_state T limit secs (Suc k) r' \<and> \<not> db_closed (snd (UpdateRateLimitFromSuccess e db resourceID host path))"
proof -
  have big: "int k < 2 ^ 50" using k(3) by (metis of_nat_less_iff of_nat_numeral of_nat_power)
  have calm: "calm_row r" "rr_observation_count r < 2 ^ 52" "rr_successful_requests r < 2 ^ 53"
    using assms(8,9) k(1,2) big by (auto simp: calm_row_def)
  let ?up = "flt (calm_score (rr_source r) (rr_observation_count r)) (calm_score (rr_source r) (rr_observation_count r + 1))"
  obtain t1 t2 where u: "snd (UpdateRateLimitFromSuccess e db resourceID host path) = update_where (resourceID, host, path)
      (if ?up then updated_row (unix_seconds (se_clock e t1)) (success_info e r) else observed_row (unix_seconds (se_clock e t2))) db"
    using success_step [OF r(1,2) calm day(2,1)] by blast
  have T0: "se_clock e 1 - se_clock e 0 \<le> 24 * Hour" using day_recent(2) [OF day(2), of "se_clock e 0" 1] day(2) by (simp add: day_env_def in_day_def)
  have c: "rl_Confidence (success_info e r) = calm_score SourceHTTPHeader (2 * int (Suc k))"
    using success_info_score [OF calm T0] k(2) r(3) by (simp add: success_info_confidence add.commute)
  have up7: "?up" if "k \<le> 6" using header_scores(1) [of "2 * int k + 1"] that k(2) r(3) by (simp add: add.commute)
  have hi: "unit_le (Fin (1 / 2)) (calm_score SourceHTTPHeader (2 * int (Suc k)))" if "7 \<le> Suc k"
  proof -
    have le: "unit_le (calm_score SourceHTTPHeader 14) (calm_score SourceHTTPHeader (2 * int (Suc k)))"
      using that big by (intro calm_score_mono) auto
    have "unit_rate (Fin (1 / 2))" using rep64_le53 [of 1 "- 1"]
      unfolding unit_rate_def by (intro exI [of _ "1 / 2"] conjI) (simp_all add: pow2_def)
    moreover have "\<not> flt (calm_score SourceHTTPHeader (2 * int (Suc k))) (Fin (1 / 2))"
      using unit_leD [OF le] header_scores(3) by auto
    ultimately show ?thesis using le by (simp add: unit_le_def)
  qed
  have fields: "rl_Limit (success_info e r) = limit" "rl_Source (success_info e r) = SourceHTTPHeader"
    "window_seconds (rl_Window (success_info e r)) = secs" "rl_FailedRequests (success_info e r) = 0"
    "rl_SuccessfulRequests (success_info e r) = rr_successful_requests r + 1"
    using r(3,4) w assms(8,9) calm(3) stored_window_again by (simp_all add: success_info_def Let_def in_i64_def)
  show ?thesis
  proof (cases ?up)
    case True
    have "seen_in_day T (updated_row (unix_seconds (se_clock e t1)) (success_info e r) r)"
      by (rule stored_in_day [OF day(2-4), of _ t1]) (simp add: updated_row_def)
    then have "header_state T limit secs (Suc k) (updated_row (unix_seconds (se_clock e t1)) (success_info e r) r)"
      using fields k(1,2) c hi assms(9) by (auto simp: header_state_def updated_row_def)
    then show ?thesis using u True r(1,2) by (simp add: entry_update_where) (simp add: update_where_def)
  next
    case False
    then have k7: "7 \<le> k" using up7 by fastforce
    have "seen_in_day T (observed_row (unix_seconds (se_clock e t2)) r)"
      by (rule stored_in_day [OF day(2-4), of _ t2]) (simp add: observed_row_def)
    then have "header_state T limit secs (Suc k) (observed_row (unix_seconds (se_clock e t2)) r)"
      using r(3,4) w(1) k(1,2) k7 conf [OF k7] assms(8,9) by (auto simp: header_state_def observed_row_def)
    then show ?thesis using u False r(1,2) by (simp add: entry_update_where) (simp add: update_where_def)
  qed
qed

text \<open>One run with headers, from no entry and from the state of earlier runs.\<close>

lemma fresh_header_score:
  assumes "fresh_header clk key i" "in_day T clk" "day_env T e"
  shows "rl_Confidence i \<noteq> NaN" "se_clock e n - rl_LastSeen i \<le> 24 * Hour"
proof -
  have "T \<le> clk 0" "clk 3 \<le> T + 23 * Hour" using assms(2) unfolding in_day_def by blast+
  then have "clk 3 - rl_LastSeen i \<le> 24 * Hour" "T \<le> rl_LastSeen i" using assms(1) by (simp_all add: fresh_header_def unit_defs)
  then show "rl_Confidence i \<noteq> NaN" "se_clock e n - rl_LastSeen i \<le> 24 * Hour"
    using assms(1) ConfidenceScore_calm [of i "clk 3"] calm_score_unit [of 1 "rl_Source i"] day_recent(2) [OF assms(3)]
    by (auto simp: fresh_header_def unit_rate_def)
qed

lemma ProcessCommandOutput_db:
  assumes "ds_enabled s" "extractResourceInfo (sv_urlParse v) command = (resourceID, host, path)" "exitCode < 400"
    "ParseFromCommandOutput (sv_platform v) (sv_urlParse v) (sv_parse v) stdout stderr exitCode command = res"
    "dr_Found res" "dr_Info res = Some i"
  shows "\<exists>db2. entry db2 = entry (snd (SaveRateLimitInfo (sv_sql v) (ds_db s) i))
     \<and> db_closed db2 = db_closed (snd (SaveRateLimitInfo (sv_sql v) (ds_db s) i))
     \<and> snd (ProcessCommandOutput v s stdout stderr exitCode command responseTime)
       = s\<lparr>ds_db := snd (UpdateRateLimitFromSuccess (later 30 (sv_sql v)) db2 resourceID host path)\<rparr>"
  using assms learn_keeps_entries [of exitCode "sv_platform v" "later 11 (sv_sql v)" "sv_rank v"
    "snd (SaveRateLimitInfo (sv_sql v) (ds_db s) i)" resourceID host path "command_str command" responseTime "se_clock (sv_sql v) 10"]
  by (auto simp: ProcessCommandOutput_def Let_def save_found_def update_existing_def)

lemma header_call_step:
  assumes "header_call urlParse T command (v, stdout, stderr, exitCode, rt)" "ds_enabled s" "\<not> db_closed (ds_db s)"
    and key: "extractResourceInfo urlParse command = (resourceID, host, path)" and T: "0 \<le> T" "T \<le> 2 ^ 62"
    and info: "dr_Info (call_result command (v, stdout, stderr, exitCode, rt)) = Some i" and secs: "0 \<le> secs" "secs < 2 ^ 22"
    and state: "if k = 0 then entry (ds_db s) (resourceID, host, path) = None \<and> rl_Limit i = limit \<and> window_seconds (rl_Window i) = secs
      else \<exists>r. entry (ds_db s) (resourceID, host, path) = Some r \<and> header_state T limit secs k r"
    and k: "k < 2 ^ 50"
  defines "s' \<equiv> snd (ProcessCommandOutput v s stdout stderr exitCode command rt)"
  shows "ds_enabled s' \<and> \<not> db_closed (ds_db s')
    \<and> (\<exists>r. entry (ds_db s') (resourceID, host, path) = Some r \<and> header_state T limit secs (Suc k) r)"
proof -
  let ?e = "sv_sql v" and ?res = "call_result command (v, stdout, stderr, exitCode, rt)"
  have h: "sv_urlParse v = urlParse" "day_env T ?e" "in_day T (sv_parse v)" "exitCode < 400" "dr_Found ?res" "dr_Source ?res = SourceHTTPHeader"
    using assms(1) unfolding header_call.simps by blast+
  have i: "fresh_header (sv_parse v) (resourceID, host, path) i"
    using header_result_fresh [of "sv_platform v" urlParse "sv_parse v" stdout stderr exitCode command ?res] h(1,5,6) info key by simp
  note iconf = fresh_header_score(1) [OF i h(3,2)] and irecent = fresh_header_score(2) [OF i h(3,2)]
  have ikey: "info_key i = (resourceID, host, path)" using i by (simp add: fresh_header_def)
  obtain db2 where db2: "entry db2 = entry (snd (SaveRateLimitInfo ?e (ds_db s) i))"
      "db_closed db2 = db_closed (snd (SaveRateLimitInfo ?e (ds_db s) i))"
      "s' = s\<lparr>ds_db := snd (UpdateRateLimitFromSuccess (later 30 ?e) db2 resourceID host path)\<rparr>"
    using ProcessCommandOutput_db [of s v command resourceID host path exitCode stdout stderr ?res i rt] assms(2) key h(1,4,5) info
    unfolding s'_def by auto
  have e30: "day_env T (later 30 ?e)" using h(2) by simp
  note succ = header_success [where e = "later 30 ?e" and db = db2 and k = k and secs = secs and limit = limit and T = T, OF _ _ _ _ _ secs _ _ _ _ k _ _ e30 T]
  show ?thesis
  proof (cases "k = 0")
    case True
    let ?r = "new_row (unix_seconds (se_clock ?e 0)) i"
    have none: "entry (ds_db s) (info_key i) = None" and lw: "rl_Limit i = limit" "window_seconds (rl_Window i) = secs"
      using state True ikey by auto
    have save: "SaveRateLimitInfo ?e (ds_db s) i = (None, (ds_db s)\<lparr>db_rate_limits := db_rate_limits (ds_db s) @ [?r]\<rparr>)"
      by (cases rule: save_cases [of ?e "ds_db s" i]) (use none iconf assms(3) day_env_fault [OF h(2)] in auto)
    have r: "entry db2 (resourceID, host, path) = Some ?r" using db2(1) save entry_insert [of "ds_db s" ?r] none ikey by simp
    have "seen_in_day T ?r" by (rule stored_in_day [OF h(2) T, of _ 0]) (simp add: new_row_def)
    with r show ?thesis using succ [of resourceID host path ?r] True db2(2,3) save assms(2,3) i lw
      by (auto simp: new_row_def fresh_header_def)
  next
    case False
    then obtain r where r: "entry (ds_db s) (info_key i) = Some r" "header_state T limit secs k r" using state ikey by auto
    have big: "int k < 2 ^ 50" using k by (metis of_nat_less_iff of_nat_numeral of_nat_power)
    have calm: "calm_row r" and seen: "seen_in_day T r" using r(2) False big by (auto simp: header_state_def calm_row_def)
    let ?r = "observed_row (unix_seconds (se_clock ?e 4)) r"
    have save: "SaveRateLimitInfo ?e (ds_db s) i = (None, update_where (info_key i) (observed_row (unix_seconds (se_clock ?e 4))) (ds_db s))"
      by (rule save_fresh_observes [OF r(1) assms(3) day_env_fault [OF h(2)] calm])
         (use i r(2) irecent day_recent(1) [OF h(2) seen] in \<open>auto simp: fresh_header_def header_state_def\<close>)
    have r2: "entry db2 (resourceID, host, path) = Some ?r" using db2(1) save r(1) ikey by (simp add: entry_update_where)
    have "seen_in_day T ?r" by (rule stored_in_day [OF h(2) T, of _ 4]) (simp add: observed_row_def)
    with r2 show ?thesis using succ [of resourceID host path ?r] db2(2,3) save assms(2,3) r(2)
      by (auto simp: header_state_def observed_row_def update_where_def)
  qed
qed

lemma header_calls:
  assumes "list_all (header_call urlParse T command) cs" "ds_enabled s" "\<not> db_closed (ds_db s)"
    and key: "extractResourceInfo urlParse command = (resourceID, host, path)" and T: "0 \<le> T" "T \<le> 2 ^ 62"
    and secs: "0 \<le> secs" "secs < 2 ^ 22" and k: "k + length cs < 2 ^ 50" "0 < k"
    and "\<exists>r. entry (ds_db s) (resourceID, host, path) = Some r \<and> header_state T limit secs k r"
  shows "ds_enabled (process_outputs command cs s) \<and> \<not> db_closed (ds_db (process_outputs command cs s))
    \<and> (\<exists>r. entry (ds_db (process_outputs command cs s)) (resourceID, host, path) = Some r \<and> header_state T limit secs (k + length cs) r)"
  using assms(1-3) key k assms(11)
proof (induction command cs s arbitrary: k rule: process_outputs.induct)
  case (2 command v stdout stderr exitCode rt cs s)
  have call: "header_call urlParse T command (v, stdout, stderr, exitCode, rt)" using "2.prems"(1) by (simp only: list.pred_inject)
  then obtain i where "dr_Info (call_result command (v, stdout, stderr, exitCode, rt)) = Some i"
    using header_result_fresh [of "sv_platform v" "sv_urlParse v" "sv_parse v" stdout stderr exitCode command] 
    unfolding header_call.simps by force
  then show ?case
    using header_call_step [OF call "2.prems"(2-4) T _ secs, of i k limit] "2.IH" [of "Suc k"] "2.prems" by simp
qed simp

text \<open>C18. A rate limit announced in headers is used only from the seventh run on, and then with the values of the first: however
  many runs of a command within a day show rate limit headers, and whatever these say, the strategy answers with its fallback
  before the seventh and with the limit and window (in whole seconds) of the first output from the seventh on.\<close>

theorem header_limit_used_from_seventh:
  assumes "ds_enabled s" "\<not> db_closed (ds_db s)" "entry (ds_db s) (extractResourceInfo urlParse command) = None"
    and "list_all (header_call urlParse T command) (c # cs)" "length cs + 1 < 2 ^ 50" "day_env T e" "0 \<le> T" "T \<le> 2 ^ 62"
    and "dr_Info (call_result command c) = Some first" "0 \<le> rl_Window first" "rl_Window first < 2 ^ 22 * Second"
  shows "Dio_GetRateLimitForCommand urlParse e (Some (process_outputs command (c # cs) s)) d command =
    (if length (c # cs) < 7 then (dd_fallbackRateLimit d, dd_fallbackWindow d)
     else (rl_Limit first, rl_Window first - rl_Window first mod Second))"
proof -
  obtain v stdout stderr exitCode rt where c: "c = (v, stdout, stderr, exitCode, rt)" by (metis prod_cases5)
  obtain rid h pa where key: "extractResourceInfo urlParse command = (rid, h, pa)" by (metis prod_cases3)
  let ?secs = "window_seconds (rl_Window first)" and ?n = "length (c # cs)"
  have secs: "0 \<le> ?secs" "?secs < 2 ^ 22"
    using assms(10,11) window_seconds_exact [OF assms(10,11)] by (auto simp: unit_defs)
  have calls: "header_call urlParse T command (v, stdout, stderr, exitCode, rt)" "list_all (header_call urlParse T command) cs"
    using assms(4) c by (simp_all only: list.pred_inject)
  let ?s1 = "snd (ProcessCommandOutput v s stdout stderr exitCode command rt)" and ?s = "process_outputs command (c # cs) s"
  have "ds_enabled ?s1 \<and> \<not> db_closed (ds_db ?s1)
      \<and> (\<exists>r. entry (ds_db ?s1) (rid, h, pa) = Some r \<and> header_state T (rl_Limit first) ?secs 1 r)"
    using header_call_step [OF calls(1) assms(1,2) key assms(7,8) _ secs, of first 0 "rl_Limit first"] assms(3,9) key c by simp
  then obtain r where s: "ds_enabled ?s" "\<not> db_closed (ds_db ?s)" and r: "entry (ds_db ?s) (rid, h, pa) = Some r"
      and st: "header_state T (rl_Limit first) ?secs ?n r"
    using header_calls [OF calls(2) _ _ key assms(7,8) secs, of ?s1 1 "rl_Limit first"] assms(5) c by auto
  have get: "GetDiscoveredRateLimit urlParse e (Some ?s) command = Some (info_of_row r)"
    using s r key day_env_fault [OF assms(6)]
    by (simp add: GetDiscoveredRateLimit_def GetRateLimitForCommand_def Service_GetRateLimitInfo_def GetRateLimitInfo_entry statement_def)
  have seen: "seen_in_day T r" using st by (simp add: header_state_def)
  have fresh: "\<not> IsExpired (se_clock e 0) (info_of_row r)"
    using day_recent(1) [OF assms(6) seen, of 0] by (simp add: IsExpired_def time_sub_def unit_defs)
  have vals: "rl_Limit (info_of_row r) = rl_Limit first" "rl_Window (info_of_row r) = rl_Window first - rl_Window first mod Second"
    using st stored_window [OF assms(10,11)] by (simp_all add: header_state_def)
  show ?thesis
  proof (cases "?n < 7")
    case True
    then have "flt (rl_Confidence (info_of_row r)) (Fin (1 / 2))"
      using st header_scores(2) [of "2 * int ?n"] by (simp add: header_state_def)
    then show ?thesis using True get unfolding Dio_GetRateLimitForCommand_def by simp
  next
    case False
    then have "\<not> flt (rl_Confidence (info_of_row r)) (Fin (1 / 2))" using st by (simp add: header_state_def unit_le_def)
    then show ?thesis using False get fresh vals unfolding Dio_GetRateLimitForCommand_def by simp
  qed
qed

section \<open>Examples\<close>

definition sample_env :: service_env where
  "sample_env = \<lparr>sv_sql = quiet_env (\<lambda>_. 1000 * Second), sv_parse = (\<lambda>_. 1000 * Second), sv_platform = amd64,
     sv_urlParse = (\<lambda>_. Some (''h'', ''/'')), sv_rank = (\<lambda>_. 0), sv_windows = (\<lambda>_. 0)\<rparr>"

definition sample_call :: "string \<Rightarrow> call" where
  "sample_call n = (sample_env, ''x-ratelimit-limit: '' @ n, [], 0, 0)"

definition sample_command :: "string list" where
  "sample_command = [''curl'', ''http://h/'']"

definition sample_service :: "rate_limit_row list \<Rightarrow> Service" where
  "sample_service rows = \<lparr>ds_db = empty_db\<lparr>db_rate_limits := rows\<rparr>, ds_enabled = True\<rparr>"

definition limit_header :: "int \<Rightarrow> RateLimitHeaders" where
  "limit_header n =
     \<lparr>rh_RateLimit = Some n, rh_RateLimitRemaining = None, rh_RateLimitReset = None, rh_RetryAfter = None,
      rh_GitHubLimit = Some n, rh_GitHubRemaining = None, rh_GitHubReset = None,
      rh_TwitterLimit = None, rh_TwitterRemaining = None, rh_TwitterReset = None\<rparr>"

lemma sample_headers:
  assumes "n \<in> {(''60'', 60), (''30'', 30)}"
  shows "extractRateLimitHeaders (take (50 * 1024) ((''x-ratelimit-limit: '' @ fst n) @ [newline] @ [])) = limit_header (snd n)"
proof -
  have "take (50 * 1024) ((''x-ratelimit-limit: '' @ fst n) @ [newline] @ []) = ''x-ratelimit-limit: '' @ fst n @ [newline]"
    using assms by auto
  moreover have "extractRateLimitHeaders (''x-ratelimit-limit: '' @ ''60'' @ [newline]) = limit_header 60"
    "extractRateLimitHeaders (''x-ratelimit-limit: '' @ ''30'' @ [newline]) = limit_header 30" by code_simp+
  ultimately show ?thesis using assms by (auto simp del: append.simps)
qed

lemma sample_resource: "extractResourceInfo (sv_urlParse sample_env) sample_command = (''h/'', ''h'', ''/'')"
  by (simp add: extractResourceInfo_def sample_env_def sample_command_def from_url_def)

lemma sample_result:
  assumes "n \<in> {(''60'', 60), (''30'', 30)}"
  shows "\<exists>i. call_result sample_command (sample_call (fst n)) = found SourceHTTPHeader i \<and> rl_Limit i = snd n \<and> rl_Window i = Hour"
proof -
  let ?out = "take (50 * 1024) ((''x-ratelimit-limit: '' @ fst n) @ [newline] @ [])"
  have h: "parseHTTPHeaders (\<lambda>_. 1000 * Second) ?out ''h/'' ''h'' ''/'' =
      found SourceHTTPHeader (finish_info (\<lambda>_. 1000 * Second) ((new_info ''h/'' ''h'' ''/'' SourceHTTPHeader (1000 * Second))\<lparr>rl_Limit := snd n\<rparr>))"
    unfolding parseHTTPHeaders_def sample_headers [OF assms]
    by (simp add: hasRateLimitInfo_def header_window_def or_zero_def new_info_def limit_header_def)
  have "call_result sample_command (sample_call (fst n)) = parseHTTPHeaders (\<lambda>_. 1000 * Second) ?out ''h/'' ''h'' ''/''"
    unfolding sample_call_def call_result.simps ParseFromCommandOutput_def sample_resource Let_def prod.case
    using h by (simp add: found_def sample_env_def)
  moreover have "rl_Window (finish_info (\<lambda>_. 1000 * Second) ((new_info ''h/'' ''h'' ''/'' SourceHTTPHeader (1000 * Second))\<lparr>rl_Limit := snd n\<rparr>)) = Hour"
    by (simp add: finish_info_def new_info_def)
  ultimately show ?thesis using h by (metis finish_info_simps(7) RateLimitInfo.select_convs(4) RateLimitInfo.surjective RateLimitInfo.update_convs(4))
qed

lemma day_const: "in_day t (\<lambda>_. t)" "day_env t (quiet_env (\<lambda>_. t))"
  by (simp_all add: in_day_def day_env_def quiet_env_def unit_defs)

lemma sample_header_call:
  assumes "n \<in> {(''60'', 60 :: int), (''30'', 30)}"
  shows "header_call (sv_urlParse sample_env) (1000 * Second) sample_command (sample_call (fst n))"
  using sample_result [OF assms] day_const [of "1000 * Second"] unfolding sample_call_def header_call.simps
  by (auto simp: found_def sample_env_def simp del: call_result.simps)

theorem header_limit_used_from_seventh_witness:
  "Dio_GetRateLimitForCommand (sv_urlParse sample_env) (sv_sql sample_env)
     (Some (process_outputs sample_command (sample_call ''60'' # replicate 5 (sample_call ''30'')) (sample_service [])))
     (NewDiophantineWithDiscovery 10 Minute []) sample_command = (10, Minute)
   \<and> Dio_GetRateLimitForCommand (sv_urlParse sample_env) (sv_sql sample_env)
     (Some (process_outputs sample_command (sample_call ''60'' # replicate 6 (sample_call ''30'')) (sample_service [])))
     (NewDiophantineWithDiscovery 10 Minute []) sample_command = (60, Hour)"
proof -
  obtain i where i: "dr_Info (call_result sample_command (sample_call ''60'')) = Some i" "rl_Limit i = 60" "rl_Window i = Hour"
    using sample_result [of "(''60'', 60)"] by (auto simp: found_def simp del: call_result.simps)
  have calls: "list_all (header_call (sv_urlParse sample_env) (1000 * Second) sample_command) (sample_call ''60'' # replicate m (sample_call ''30''))" for m
    using sample_header_call [of "(''60'', 60)"] sample_header_call [of "(''30'', 30)"] by (simp add: list_all_iff del: header_call.simps)
  have start: "ds_enabled (sample_service [])" "\<not> db_closed (ds_db (sample_service []))"
    "entry (ds_db (sample_service [])) (extractResourceInfo (sv_urlParse sample_env) sample_command) = None"
    by (simp_all add: sample_service_def empty_db_def entry_def)
  have day: "day_env (1000 * Second) (sv_sql sample_env)" using day_const by (simp add: sample_env_def)
  have w: "0 \<le> rl_Window i" "rl_Window i < 2 ^ 22 * Second" "0 \<le> 1000 * Second" "1000 * Second \<le> 2 ^ 62" "Hour mod Second = 0"
    using i(3) by (simp_all add: unit_defs)
  have len: "length (replicate 5 (sample_call ''30'')) + 1 < 2 ^ 50" "length (replicate 6 (sample_call ''30'')) + 1 < 2 ^ 50" by simp_all
  show ?thesis
    using header_limit_used_from_seventh [OF start calls len(1) day w(3,4) i(1) w(1,2), of "NewDiophantineWithDiscovery 10 Minute []"]
      header_limit_used_from_seventh [OF start calls len(2) day w(3,4) i(1) w(1,2), of "NewDiophantineWithDiscovery 10 Minute []"] i w(5)
    by (simp add: NewDiophantineWithDiscovery_def)
qed

definition manual_row :: rate_limit_row where
  "manual_row = new_row 1000 ((new_info ''r'' ''h'' ''/'' SourceManual 0)\<lparr>rl_Limit := 60, rl_Window := Minute, rl_Confidence := Fin 1\<rparr>)"

lemma manual_sample:
  "ds_enabled (sample_service [manual_row])" "\<not> db_closed (ds_db (sample_service [manual_row]))" "rr_source manual_row = SourceManual"
  "entry (ds_db (sample_service [manual_row])) = [(''r'', ''h'', ''/'') \<mapsto> manual_row]" "calm_row manual_row"
  "rr_confidence manual_row = Fin 1" "rr_limit_value manual_row = 60" "time_Unix (rr_last_seen manual_row) = 1000 * Second"
  by (auto simp: sample_service_def empty_db_def manual_row_def new_row_def new_info_def calm_row_def entry_def row_key_def
      fun_eq_iff time_Unix_def in_i64_def unit_defs)

theorem clear_keeps_entry_witness:
  "map_option rr_confidence (entry (ds_db (snd (ClearRateLimitInfo (quiet_env (\<lambda>_. 1000 * Second)) (sample_service [manual_row]) ''r'' ''h'' ''/'')))
     (''r'', ''h'', ''/'')) = Some (Fin 1)"
  using clear_keeps_entry [of "sample_service [manual_row]" "''r''" "''h''" "''/''" manual_row "quiet_env (\<lambda>_. 1000 * Second)"] manual_sample
  by (simp add: quiet_env_def observed_row_def unit_defs)

section \<open>Exit codes are not status codes\<close>

text \<open>Nothing was learned: no entry comes from the learner, and every recorded request counts as a success.\<close>

definition nothing_learned :: "Database \<Rightarrow> bool" where
  "nothing_learned db \<longleftrightarrow> list_all (\<lambda>r. rr_source r \<noteq> SourceLearned) (db_rate_limits db) \<and> list_all lr_success (db_learning_data db)"

lemma nothing_learned_update:
  "nothing_learned db \<Longrightarrow> (\<And>r. rr_source r \<noteq> SourceLearned \<Longrightarrow> rr_source (f r) \<noteq> SourceLearned) \<Longrightarrow> nothing_learned (update_where k f db)"
  by (auto simp: nothing_learned_def update_where_def list_all_iff)

lemma save_nothing_learned:
  assumes "nothing_learned db" "rl_Source i \<noteq> SourceLearned"
  shows "nothing_learned (snd (SaveRateLimitInfo e db i))"
proof (cases rule: save_cases [of e db i])
  case inserted
  then show ?thesis using assms by (simp add: nothing_learned_def new_row_def)
qed (use assms in \<open>auto intro!: nothing_learned_update simp: observed_row_def updated_row_def\<close>)

lemma existing_info_source:
  assumes "existing_info e db resourceID host path = Some i" "nothing_learned db"
  shows "rl_Source i \<noteq> SourceLearned"
proof -
  have "\<exists>r \<in> set (db_rate_limits db). i = info_of_row r"
  proof (cases "GetRateLimitInfo e db resourceID host path")
    case (Inl err)
    then show ?thesis using assms(1)
      by (auto simp: existing_info_def GetRateLimitInfoByHost_def split: sum.splits option.splits list.splits)
         (metis (no_types, lifting) filter_is_subset list.set_intros(1) order_rows_def set_sort subsetD)
  next
    case (Inr j)
    then show ?thesis using assms(1)
      by (auto simp: existing_info_def GetRateLimitInfo_def find_Some_iff split: option.splits)
  qed
  then show ?thesis using assms(2) by (auto simp: nothing_learned_def list_all_iff)
qed

lemma parsed_source:
  assumes "dr_Info (ParseFromCommandOutput p urlParse clk stdout stderr exitCode command) = Some i"
  shows "rl_Source i \<noteq> SourceLearned"
proof -
  obtain rid h pa where k: "extractResourceInfo urlParse command = (rid, h, pa)" by (metis prod_cases3)
  have "rl_Source j = SourceHTTPHeader" if "dr_Info (parseHTTPHeaders clk out rid h pa) = Some j" for out j
    using that by (auto simp: parseHTTPHeaders_def Let_def not_found_def found_def new_info_def split: if_splits)
  moreover have "rl_Source j = SourceJSONBody" if "dr_Info (parse_json_response p clk out rid h pa) = Some j" for out j
    using that by (auto simp: parse_json_response_def Let_def not_found_def found_def new_info_def split: if_splits option.splits)
  ultimately show ?thesis using assms k by (auto simp: ParseFromCommandOutput_def Let_def source_defs split: if_splits)
qed

text \<open>C19. The learner never learns from processes: \<open>ProcessCommandOutput\<close> is given the exit code of a process, at most 255, and takes
  it for an HTTP status. However many outputs are processed, failed ones too, every request is recorded as a success and
  no rate limit is ever learned from refusals.\<close>

theorem exit_codes_never_learn:
  assumes "nothing_learned (ds_db s)" "list_all (\<lambda>(v, stdout, stderr, exitCode, responseTime). exitCode \<le> 255) cs"
  shows "nothing_learned (ds_db (process_outputs command cs s))"
  using assms
proof (induction command cs s rule: process_outputs.induct)
  case (2 command v stdout stderr exitCode rt cs s)
  let ?p = "sv_platform v" and ?e = "sv_sql v"
  obtain rid h pa where key: "extractResourceInfo (sv_urlParse v) command = (rid, h, pa)" by (metis prod_cases3)
  have code: "exitCode \<le> 255" "exitCode \<noteq> 429" "exitCode < 400" using "2.prems"(2) by auto
  let ?res = "ParseFromCommandOutput ?p (sv_urlParse v) (sv_parse v) stdout stderr exitCode command"
  let ?db1 = "save_found ?e ?res (ds_db s)"
  let ?db2 = "snd (LearnFromResponse ?p (later 11 ?e) (sv_rank v) ?db1 rid h pa (command_str command) exitCode rt (se_clock ?e 10))"
  have n1: "nothing_learned ?db1"
    using "2.prems"(1) parsed_source save_nothing_learned by (auto simp: save_found_def split: option.splits)
  have n2: "nothing_learned ?db2"
    using n1 code(2,3) by (auto simp: LearnFromResponse_def SaveLearningData_def nothing_learned_def learning_row_of_def split: option.splits)
  have n3: "nothing_learned (snd (UpdateRateLimitFromSuccess (later 30 ?e) ?db2 rid h pa))"
    using n2 existing_info_source [OF _ n2] save_nothing_learned [OF n2]
    by (auto simp: UpdateRateLimitFromSuccess_def Let_def split: option.splits)
  have "nothing_learned (ds_db (snd (ProcessCommandOutput v s stdout stderr exitCode command rt)))"
    using "2.prems"(1) n3 code(2,3) key by (simp add: ProcessCommandOutput_def Let_def update_existing_def)
  then show ?case using "2.IH" "2.prems"(2) by simp
qed simp

theorem exit_codes_never_learn_witness:
  "nothing_learned (ds_db (process_outputs sample_command (replicate 9 (sample_env, ''HTTP/1.1 429 Too Many Requests'', [], 22, 0)) (sample_service [])))"
  using exit_codes_never_learn [of "sample_service []" "replicate 9 (sample_env, ''HTTP/1.1 429 Too Many Requests'', [], 22, 0)" sample_command]
  by (simp add: nothing_learned_def sample_service_def empty_db_def list_all_iff)

end
