(* ===== verification/EnhancedParser.thy ===== *)
theory EnhancedParser
  imports DiscoveryParser
begin

text \<open>
  The enhanced parser of \<open>pkg/discovery/enhanced_parser.go\<close>, which recognises more headers and known
  services. The regular expressions are kept as texts; \<open>findAll re s\<close> stands for
  \<open>FindAllStringSubmatch\<close>, the groups of all matches of an expression in a text. Lower-casing is on
  ASCII. The order in which the map of service patterns is ranged over is given by \<open>rk\<close>.
\<close>

section \<open>Expressions\<close>

type_synonym matcher = "string \<Rightarrow> string \<Rightarrow> string list list"

definition enhancedPatterns :: "(string \<times> string) list" where
  "enhancedPatterns = map (map_prod id esc)
     [(''ratelimit-policy'', ''(?i)ratelimit-policy:@s*(@d+);w=(@d+)''),
      (''x-ratelimit-window'', ''(?i)x-ratelimit-window:@s*(@d+)''),
      (''x-rate-limit-window'', ''(?i)x-rate-limit-window:@s*(@d+)''),
      (''cf-ray'', ''(?i)cf-ray:@s*([a-zA-Z0-9-]+)''),
      (''x-ratelimit-limit-cf'', ''(?i)x-ratelimit-limit:@s*(@d+)''),
      (''x-amzn-requestid'', ''(?i)x-amzn-requestid:@s*([a-zA-Z0-9-]+)''),
      (''x-amzn-trace-id'', ''(?i)x-amzn-trace-id:@s*([a-zA-Z0-9-=]+)''),
      (''x-amzn-ratelimit'', ''(?i)x-amzn-ratelimit-limit:@s*(@d+)''),
      (''x-goog-quota-limit'', ''(?i)x-goog-quota-limit:@s*(@d+)''),
      (''x-goog-quota-remaining'', ''(?i)x-goog-quota-remaining:@s*(@d+)''),
      (''x-ms-ratelimit-remaining'', ''(?i)x-ms-ratelimit-remaining-[^:]*:@s*(@d+)''),
      (''x-ms-request-id'', ''(?i)x-ms-request-id:@s*([a-zA-Z0-9-]+)''),
      (''docker-ratelimit-source'', ''(?i)docker-ratelimit-source:@s*([^@r@n]+)''),
      (''ratelimit-limit'', ''(?i)ratelimit-limit:@s*(@d+);w=(@d+)''),
      (''ratelimit-remaining'', ''(?i)ratelimit-remaining:@s*(@d+);w=(@d+)''),
      (''x-kubernetes-pf-flowschema-uid'', ''(?i)x-kubernetes-pf-flowschema-uid:@s*([a-zA-Z0-9-]+)''),
      (''x-kubernetes-pf-prioritylevel-uid'', ''(?i)x-kubernetes-pf-prioritylevel-uid:@s*([a-zA-Z0-9-]+)''),
      (''x-rate-limit'', ''(?i)x-rate-limit[^:]*:@s*(@d+)''),
      (''rate-limit'', ''(?i)rate-limit[^:]*:@s*(@d+)''),
      (''quota-limit'', ''(?i)quota-limit[^:]*:@s*(@d+)''),
      (''throttle-limit'', ''(?i)throttle-limit[^:]*:@s*(@d+)''),
      (''http-429'', ''(?i)HTTP/[@d.]+@s+429@s+Too Many Requests''),
      (''status-429'', ''(?i)status:@s*429''),
      (''rate-limit-exceeded'', ''(?i)(rate.limit.exceeded|too.many.requests|quota.exceeded|throttled)'')]"

definition apiPatterns :: "(string \<times> string) list" where
  "apiPatterns = map (map_prod id esc)
     [(''rest-api'', ''(?i)/(api|v@d+)/([^/@s?]+)''),
      (''graphql'', ''(?i)/graphql''),
      (''aws-api'', ''(?i)@.amazonaws@.com/''),
      (''gcp-api'', ''(?i)@.googleapis@.com/''),
      (''azure-api'', ''(?i)@.azure@.com/''),
      (''docker-hub'', ''(?i)registry-1@.docker@.io/''),
      (''gcr'', ''(?i)gcr@.io/''),
      (''ecr'', ''(?i)@.dkr@.ecr@.[^.]+@.amazonaws@.com/''),
      (''github-api'', ''(?i)api@.github@.com/''),
      (''gitlab-api'', ''(?i)gitlab@.com/api/''),
      (''bitbucket-api'', ''(?i)api@.bitbucket@.org/''),
      (''k8s-api'', ''(?i)/api/v@d+/''),
      (''k8s-apis'', ''(?i)/apis/[^/]+/v@d+/'')]"

definition MatchString :: "matcher \<Rightarrow> string \<Rightarrow> string \<Rightarrow> bool" where
  "MatchString findAll re s \<longleftrightarrow> findAll re s \<noteq> []"

definition FindString :: "matcher \<Rightarrow> string \<Rightarrow> string \<Rightarrow> string" where
  "FindString findAll re s = (case findAll re s of (m # _) # _ \<Rightarrow> m | _ \<Rightarrow> [])"

definition pattern_matches :: "matcher \<Rightarrow> string \<Rightarrow> string \<Rightarrow> bool" where
  "pattern_matches findAll name s = (case map_of enhancedPatterns name of Some re \<Rightarrow> MatchString findAll re s | None \<Rightarrow> False)"

section \<open>Resources\<close>

definition trim_slashes :: "string \<Rightarrow> string" where
  "trim_slashes s = trim_right (CHR ''/'') (dropWhile (\<lambda>c. c = CHR ''/'') s)"

definition normalizeAWSPath :: "string \<Rightarrow> string" where
  "normalizeAWSPath path =
     (case split_on (CHR ''/'') (trim_slashes path) of
        a # b # _ \<Rightarrow> ''/'' @ a @ ''/'' @ b @ ''/*''
      | _ \<Rightarrow> path)"

definition normalizeGCPPath :: "matcher \<Rightarrow> string \<Rightarrow> string" where
  "normalizeGCPPath findAll path =
     (let m = FindString findAll (esc ''(/v@d+/[^/]+)'') path in if m \<noteq> [] then m @ ''/*'' else path)"

definition normalizeGitHubPath :: "string \<Rightarrow> string" where
  "normalizeGitHubPath path = (case split_on (CHR ''/'') (trim_slashes path) of a # _ \<Rightarrow> ''/'' @ a @ ''/*'' | [] \<Rightarrow> path)"

definition normalizeDockerPath :: "string \<Rightarrow> string" where
  "normalizeDockerPath path =
     (if contains path ''/manifests/'' then ''/v2/*/manifests/*''
      else if contains path ''/blobs/'' then ''/v2/*/blobs/*'' else path)"

definition normalizeK8sPath :: "matcher \<Rightarrow> string \<Rightarrow> string" where
  "normalizeK8sPath findAll path =
     (let m1 = FindString findAll (esc ''(/api/v@d+)'') path; m2 = FindString findAll (esc ''(/apis/[^/]+/v@d+)'') path
      in if m1 \<noteq> [] then m1 @ ''/*'' else if m2 \<noteq> [] then m2 @ ''/*'' else path)"

definition identifyAPIResource :: "matcher \<Rightarrow> (string \<Rightarrow> nat) \<Rightarrow> string \<Rightarrow> string \<Rightarrow> string" where
  "identifyAPIResource findAll rk host path =
     (if contains host ''docker.io'' then ''docker:'' @ normalizeDockerPath path
      else if contains host ''amazonaws.com'' then ''aws:'' @ host @ normalizeAWSPath path
      else if contains host ''googleapis.com'' then ''gcp:'' @ host @ normalizeGCPPath findAll path
      else if contains host ''api.github.com'' then ''github:'' @ normalizeGitHubPath path
      else if contains host ''kubernetes'' \<or> contains path ''/api/v'' \<or> contains path ''/apis/''
      then ''k8s:'' @ host @ normalizeK8sPath findAll path
      else case find (\<lambda>(name, re). MatchString findAll re (host @ path)) (map_range rk apiPatterns) of
             Some (name, _) \<Rightarrow> name @ '':'' @ host @ path
           | None \<Rightarrow> host @ path)"

text \<open>The first argument that is an address and can be parsed.\<close>

fun first_url :: "url_parser \<Rightarrow> string list \<Rightarrow> (string \<times> string) option" where
  "first_url urlParse [] = None"
| "first_url urlParse (arg # args) =
     (if has_prefix arg ''http://'' \<or> has_prefix arg ''https://''
      then (case from_url urlParse arg of Some hp \<Rightarrow> Some hp | None \<Rightarrow> first_url urlParse args)
      else first_url urlParse args)"

definition extractEnhancedResourceInfo ::
  "matcher \<Rightarrow> (string \<Rightarrow> nat) \<Rightarrow> url_parser \<Rightarrow> string list \<Rightarrow> string \<times> string \<times> string" where
  "extractEnhancedResourceInfo findAll rk urlParse command =
     (case first_url urlParse command of
        Some (host, path) \<Rightarrow> (identifyAPIResource findAll rk host path, host, path)
      | None \<Rightarrow> extractResourceInfo urlParse command)"

section \<open>Headers\<close>

definition extractEnhancedHeaders :: "matcher \<Rightarrow> string \<Rightarrow> (string \<times> string list list) list" where
  "extractEnhancedHeaders findAll output =
     filter (\<lambda>(name, ms). ms \<noteq> []) (map (\<lambda>(name, re). (name, findAll re output)) enhancedPatterns)"

definition rateLimitIndicators :: "string list" where
  "rateLimitIndicators =
     [''ratelimit-policy'', ''x-ratelimit-window'', ''x-rate-limit-window'', ''x-ratelimit-limit-cf'', ''x-amzn-ratelimit'',
      ''x-goog-quota-limit'', ''x-ms-ratelimit-remaining'', ''ratelimit-limit'', ''x-rate-limit'', ''rate-limit'', ''quota-limit'',
      ''throttle-limit'']"

definition hasEnhancedRateLimitInfo :: "(string \<times> string list list) list \<Rightarrow> bool" where
  "hasEnhancedRateLimitInfo headers = list_ex (\<lambda>name. map_of headers name \<noteq> None) rateLimitIndicators"

text \<open>Group \<open>k\<close> of the first match as a number, where the match has more than \<open>n\<close> groups.\<close>

definition group_int :: "(string \<times> string list list) list \<Rightarrow> nat \<Rightarrow> string \<Rightarrow> nat \<Rightarrow> int option" where
  "group_int headers n name k =
     (case map_of headers name of Some (m # _) \<Rightarrow> if n < length m then parse_int (m ! k) else None | _ \<Rightarrow> None)"

definition set_limit :: "int option \<Rightarrow> RateLimitInfo \<Rightarrow> RateLimitInfo" where
  "set_limit x i = (case x of Some l \<Rightarrow> i\<lparr>rl_Limit := l\<rparr> | None \<Rightarrow> i)"

definition set_window :: "instant \<Rightarrow> int option \<Rightarrow> RateLimitInfo \<Rightarrow> RateLimitInfo" where
  "set_window now x i =
     (case x of Some w \<Rightarrow> i\<lparr>rl_Window := seconds_duration w, rl_ResetTime := time_add now (seconds_duration w)\<rparr> | None \<Rightarrow> i)"

definition inferRateLimitFromContext :: "string \<Rightarrow> int" where
  "inferRateLimitFromContext output =
     (let s = map lower output
      in if contains s ''github'' then 5000 else if contains s ''docker'' then 100
         else if contains s ''kubernetes'' then 400 else if contains s ''aws'' then 1000 else 100)"

definition limitHeaders :: "string list" where
  "limitHeaders = [''x-goog-quota-limit'', ''x-amzn-ratelimit'', ''x-rate-limit'', ''rate-limit'', ''quota-limit'']"

definition remainingHeaders :: "string list" where
  "remainingHeaders = [''x-goog-quota-remaining'', ''x-ms-ratelimit-remaining'']"

definition populateFromEnhancedHeaders ::
  "(nat \<Rightarrow> instant) \<Rightarrow> RateLimitInfo \<Rightarrow> (string \<times> string list list) list \<Rightarrow> string \<Rightarrow> RateLimitInfo" where
  "populateFromEnhancedHeaders clk info headers output =
     (let i1 = info\<lparr>rl_Window := Hour, rl_ResetTime := time_add (clk 1) Hour\<rparr>;
          i2 = set_window (clk 2) (group_int headers 2 ''ratelimit-policy'' 2) (set_limit (group_int headers 2 ''ratelimit-policy'' 1) i1);
          i3 = set_window (clk 3) (group_int headers 2 ''ratelimit-limit'' 2) (set_limit (group_int headers 2 ''ratelimit-limit'' 1) i2);
          i4 = set_limit (first_some (map (\<lambda>h. group_int headers 1 h 1) limitHeaders)) i3;
          i5 = (case first_some (map (\<lambda>h. group_int headers 1 h 1) remainingHeaders) of
                  Some n \<Rightarrow> i4\<lparr>rl_Remaining := n\<rparr> | None \<Rightarrow> i4);
          i6 = (if map_of headers ''http-429'' \<noteq> None then i5\<lparr>rl_Last429Response := Some (clk 4), rl_FailedRequests := 1\<rparr> else i5)
      in if rl_Limit i6 = 0 then i6\<lparr>rl_Limit := inferRateLimitFromContext output\<rparr> else i6)"

definition hasRateLimitIndicators :: "matcher \<Rightarrow> string \<Rightarrow> bool" where
  "hasRateLimitIndicators findAll output =
     list_ex (\<lambda>name. pattern_matches findAll name output) [''rate-limit-exceeded'', ''http-429'', ''status-429'']"

definition go_min :: "f64 \<Rightarrow> f64 \<Rightarrow> f64" where
  "go_min a b = (if flt a b then a else b)"

section \<open>Parsing\<close>

definition enhanceDiscoveryResult ::
  "matcher \<Rightarrow> (string \<Rightarrow> nat) \<Rightarrow> url_parser \<Rightarrow> (nat \<Rightarrow> instant) \<Rightarrow> DiscoveryResult \<Rightarrow> string \<Rightarrow> string \<Rightarrow> int \<Rightarrow> string list \<Rightarrow> DiscoveryResult" where
  "enhanceDiscoveryResult findAll rk urlParse clk result stdout stderr exitCode command =
     (case dr_Info result of
        None \<Rightarrow> result
      | Some info \<Rightarrow>
          let output = stdout @ [newline] @ stderr;
              (resourceID, host, path) = extractEnhancedResourceInfo findAll rk urlParse command;
              i1 = (if resourceID \<noteq> ''unknown'' \<and> resourceID \<noteq> rl_ResourceID info
                    then info\<lparr>rl_ResourceID := resourceID, rl_Host := host, rl_Path := path\<rparr> else info);
              headers = extractEnhancedHeaders findAll output;
              i2 = (if rl_Limit i1 = 0 \<and> hasEnhancedRateLimitInfo headers then populateFromEnhancedHeaders clk i1 headers output else i1);
              c1 = (if hasRateLimitIndicators findAll output then go_min (fadd (dr_Confidence result) (f64_round (1 / 10))) (Fin 1)
                    else dr_Confidence result)
          in if exitCode = 429 \<or> pattern_matches findAll ''http-429'' output
             then result\<lparr>dr_Info := Some (i2\<lparr>rl_Last429Response := Some (clk 5), rl_FailedRequests := wrap64 (rl_FailedRequests i2 + 1)\<rparr>),
                         dr_Confidence := go_min (fadd c1 (f64_round (2 / 10))) (Fin 1)\<rparr>
             else result\<lparr>dr_Info := Some i2, dr_Confidence := c1\<rparr>)"

definition parseWithEnhancedPatterns ::
  "matcher \<Rightarrow> (string \<Rightarrow> nat) \<Rightarrow> url_parser \<Rightarrow> (nat \<Rightarrow> instant) \<Rightarrow> string \<Rightarrow> string \<Rightarrow> int \<Rightarrow> string list \<Rightarrow> DiscoveryResult" where
  "parseWithEnhancedPatterns findAll rk urlParse clk stdout stderr exitCode command =
     (let output = stdout @ [newline] @ stderr;
          (resourceID, host, path) = extractEnhancedResourceInfo findAll rk urlParse command;
          headers = extractEnhancedHeaders findAll output
      in if \<not> hasEnhancedRateLimitInfo headers then not_found
         else let i1 = populateFromEnhancedHeaders clk (new_info resourceID host path SourceHTTPHeader (clk 0)) headers output
              in found SourceHTTPHeader (i1\<lparr>rl_Confidence := ConfidenceScore (clk 6) i1\<rparr>))"

definition ParseFromCommandOutputEnhanced ::
  "matcher \<Rightarrow> (string \<Rightarrow> nat) \<Rightarrow> platform \<Rightarrow> url_parser \<Rightarrow> (nat \<Rightarrow> instant) \<Rightarrow> (nat \<Rightarrow> instant) \<Rightarrow> string \<Rightarrow> string \<Rightarrow> int \<Rightarrow> string list
     \<Rightarrow> DiscoveryResult" where
  "ParseFromCommandOutputEnhanced findAll rk p urlParse clk0 clk stdout stderr exitCode command =
     (let result = ParseFromCommandOutput p urlParse clk0 stdout stderr exitCode command
      in if dr_Found result then enhanceDiscoveryResult findAll rk urlParse clk result stdout stderr exitCode command
         else parseWithEnhancedPatterns findAll rk urlParse clk stdout stderr exitCode command)"

section \<open>Properties\<close>


lemma split_on_first:
  "split_on sep s = a # b # rest \<Longrightarrow> s = [] \<or> hd s \<noteq> sep \<Longrightarrow> a \<noteq> [] \<and> hd a \<noteq> sep"
  by (cases s) (auto split: list.splits if_splits)

lemma trim_right_prefix: "\<exists>r. s = trim_right c s @ r"
proof
  show "s = trim_right c s @ rev (takeWhile (\<lambda>x. x = c) (rev s))"
    by (simp add: trim_right_def flip: rev_append)
qed

lemma trim_slashes_hd: "trim_slashes s = [] \<or> hd (trim_slashes s) \<noteq> CHR ''/''"
proof (cases "trim_slashes s")
  case (Cons c cs)
  let ?t = "dropWhile (\<lambda>c. c = CHR ''/'') s"
  obtain r where "?t = trim_slashes s @ r" using trim_right_prefix [of ?t "CHR ''/''"] unfolding trim_slashes_def by blast
  then have t: "?t = c # cs @ r" using Cons by simp
  then have "c \<noteq> CHR ''/''" using hd_dropWhile [of "\<lambda>c. c = CHR ''/''" s] by simp
  then show ?thesis using Cons by simp
qed simp

text \<open>Normalising an AWS path a second time changes nothing, so that a normalised resource stays in its group.\<close>

lemma normalizeAWSPath_idem: "normalizeAWSPath (normalizeAWSPath path) = normalizeAWSPath path"
proof (cases "split_on (CHR ''/'') (trim_slashes path)")
  case (Cons a ps)
  show ?thesis
  proof (cases ps)
    case (Cons b qs)
    with \<open>split_on (CHR ''/'') (trim_slashes path) = a # ps\<close>
    have s: "split_on (CHR ''/'') (trim_slashes path) = a # b # qs" by simp
    have free: "CHR ''/'' \<notin> set a" "CHR ''/'' \<notin> set b" using split_on_parts s by (metis list.set_intros)+
    have "a \<noteq> []" "hd a \<noteq> CHR ''/''" using split_on_first [OF s trim_slashes_hd] by auto
    then have "trim_slashes (''/'' @ a @ ''/'' @ b @ ''/*'') = a @ CHR ''/'' # b @ CHR ''/'' # ''*''"
      by (cases a) (auto simp: trim_slashes_def trim_right_def)
    then show ?thesis using s free by (simp add: normalizeAWSPath_def split_on_append split_on_single)
  qed (use Cons in \<open>simp add: normalizeAWSPath_def\<close>)
qed (simp add: normalizeAWSPath_def)

text \<open>
  What is found in further headers always has a limit, if only a guessed one. But a window that the base
  parser found, say from \<open>Retry-After\<close>, is replaced by an hour, and the confidence that is stored is not raised.
\<close>

lemma set_simps [simp]:
  "rl_Window (set_limit x i) = rl_Window i" "rl_Confidence (set_limit x i) = rl_Confidence i"
  "rl_Confidence (set_window t x i) = rl_Confidence i"
  by (simp_all add: set_limit_def set_window_def split: option.split)

lemma infer_positive: "0 < inferRateLimitFromContext output"
  by (simp add: inferRateLimitFromContext_def Let_def)

lemma populate_limit_nonzero: "rl_Limit (populateFromEnhancedHeaders clk info headers output) \<noteq> 0"
  using infer_positive [of "output"] by (simp add: populateFromEnhancedHeaders_def Let_def)

lemma populate_replaces_window:
  assumes "group_int headers 2 ''ratelimit-policy'' 2 = None" "group_int headers 2 ''ratelimit-limit'' 2 = None"
  shows "rl_Window (populateFromEnhancedHeaders clk info headers output) = Hour"
  using assms by (simp add: populateFromEnhancedHeaders_def Let_def set_window_def split: option.split)

lemma populate_confidence [simp]: "rl_Confidence (populateFromEnhancedHeaders clk info headers output) = rl_Confidence info"
  by (simp add: populateFromEnhancedHeaders_def Let_def split: option.split)

lemma enhance_keeps_stored_confidence:
  "map_option rl_Confidence (dr_Info (enhanceDiscoveryResult findAll rk urlParse clk result stdout stderr exitCode command))
     = map_option rl_Confidence (dr_Info result)"
  by (auto simp: enhanceDiscoveryResult_def Let_def split: option.split prod.split)

end
