(* ===== verification/MetricsClient.thy ===== *)
theory MetricsClient
  imports WorkerPool JsonPrint
begin

text \<open>
  The metrics client of \<open>pkg/metrics/metrics.go\<close>: the JSON of run metrics with the custom marshaler
  of attempts, and the sending over a socket. \<open>fmt\<close> prints a float as \<open>encoding/json\<close> does; it gives
  \<open>None\<close>, an error, for infinities and NaN. A list of attempts is \<open>nil\<close> when it is empty, since the
  executor starts with \<open>nil\<close>.
\<close>

section \<open>Marshaling\<close>

definition attempt_MarshalJSON :: "(f64 \<Rightarrow> string option) \<Rightarrow> AttemptMetric \<Rightarrow> json option" where
  "attempt_MarshalJSON fmt a =
     map_option (\<lambda>t. JObj [(''duration_seconds'', JNum t (DurationSeconds a)), (''exit_code'', jint (am_ExitCode a)),
       (''success'', JBool (am_Success a))]) (fmt (DurationSeconds a))"

definition attempts_json :: "(f64 \<Rightarrow> string option) \<Rightarrow> AttemptMetric list \<Rightarrow> json option" where
  "attempts_json fmt as = (if as = [] then Some JNull else map_option JArr (all_some (map (attempt_MarshalJSON fmt) as)))"

definition run_json :: "(f64 \<Rightarrow> string option) \<Rightarrow> RunMetrics \<Rightarrow> json option" where
  "run_json fmt m =
     (case fmt (rm_TotalDurationSeconds m) of
        None \<Rightarrow> None
      | Some t \<Rightarrow> map_option (\<lambda>as. JObj
          [(''command'', JStr (rm_Command m)), (''command_hash'', JStr (rm_CommandHash m)), (''final_status'', JStr (rm_FinalStatus m)),
           (''total_duration_seconds'', JNum t (rm_TotalDurationSeconds m)), (''total_attempts'', jint (rm_TotalAttempts m)),
           (''successful_attempts'', jint (rm_SuccessfulAttempts m)), (''failed_attempts'', jint (rm_FailedAttempts m)),
           (''attempts'', as), (''timestamp'', jint (rm_Timestamp m))]) (attempts_json fmt (rm_Attempts m)))"

section \<open>Sending\<close>

record metrics_Client =
  mc_socketPath :: string
  mc_timeout :: duration

definition NewClient :: "string \<Rightarrow> metrics_Client" where
  "NewClient socketPath = \<lparr>mc_socketPath = socketPath, mc_timeout = 100 * Millisecond\<rparr>"

definition DefaultSocketPath :: string where
  "DefaultSocketPath = ''/tmp/retryd.sock''"

datatype send_error = MarshalFailed | ConnectFailed | SendFailed

text \<open>
  How the socket at a path behaves within a timeout: whether it can be dialled, and after how many
  bytes a write fails, if it does.
\<close>

record socket =
  sk_dial :: "string \<Rightarrow> duration \<Rightarrow> bool"
  sk_write :: "nat option"

text \<open>The error, and what the other end reads until the connection is closed.\<close>

definition SendMetrics ::
  "(f64 \<Rightarrow> string option) \<Rightarrow> socket \<Rightarrow> metrics_Client \<Rightarrow> RunMetrics \<Rightarrow> send_error option \<times> string option" where
  "SendMetrics fmt sk c m =
     (case run_json fmt m of
        None \<Rightarrow> (Some MarshalFailed, None)
      | Some v \<Rightarrow>
          if \<not> sk_dial sk (mc_socketPath c) (mc_timeout c) then (Some ConnectFailed, None)
          else (case sk_write sk of
                  None \<Rightarrow> (None, Some (print_json v))
                | Some n \<Rightarrow> (Some SendFailed, Some (take n (print_json v)))))"

text \<open>The goroutine of \<open>SendMetricsAsync\<close> drops the error.\<close>

definition SendMetricsAsync :: "(f64 \<Rightarrow> string option) \<Rightarrow> socket \<Rightarrow> metrics_Client \<Rightarrow> RunMetrics \<Rightarrow> string option" where
  "SendMetricsAsync fmt sk c m = snd (SendMetrics fmt sk c m)"

section \<open>From the client to the store\<close>

text \<open>The printed form of a number is read back.\<close>

definition prints_float :: "(f64 \<Rightarrow> string option) \<Rightarrow> f64 \<Rightarrow> bool" where
  "prints_float fmt x \<longleftrightarrow> is_fin x \<and> (\<exists>l. fmt x = Some l \<and> number_text l x)"

text \<open>
  What is left of a run on its way: the durations of the attempts are lost, and in the strings every
  byte that is not part of well-formed UTF-8 has become U+FFFD.
\<close>

definition wire_form :: "RunMetrics \<Rightarrow> RunMetrics" where
  "wire_form m = m\<lparr>rm_Command := to_valid (rm_Command m), rm_CommandHash := to_valid (rm_CommandHash m),
     rm_FinalStatus := to_valid (rm_FinalStatus m), rm_Attempts := map (\<lambda>a. a\<lparr>am_Duration := 0\<rparr>) (rm_Attempts m)\<rparr>"

lemma parse_int_itoa: "in_i64 n \<Longrightarrow> parse_int (itoa n) = Some n"
proof (cases "n < 0")
  case True
  assume "in_i64 n"
  moreover have "utoa (nat (- n)) \<noteq> []" using utoa_head [of "nat (- n)"] by auto
  ultimately show ?thesis using True utoa_digits [of "nat (- n)"] by (simp add: parse_int_def itoa_def)
next
  case False
  assume "in_i64 n"
  with False show ?thesis by (simp add: itoa_def in_i64_def nat_less_iff)
qed

lemma decode_int_jint: "in_i64 n \<Longrightarrow> decode_int (jint n) old = Some n"
  by (simp add: decode_int_def jint_def parse_int_itoa)

lemma field_names [simp]:
  "k \<in> set run_names \<Longrightarrow> field_name run_names k = Some k" "k \<in> set attempt_names \<Longrightarrow> field_name attempt_names k = Some k"
  "field_name attempt_names ''duration_seconds'' = None"
  by (simp_all add: field_name_def) (code_simp)

lemma attempt_read_back:
  assumes "prints_float fmt (DurationSeconds a)" "in_i64 (am_ExitCode a)"
  shows "\<exists>v. attempt_MarshalJSON fmt a = Some v \<and> printable v \<and> clean v = v
    \<and> decode_struct attempt_names set_attempt zero_attempt v = Some (a\<lparr>am_Duration := 0\<rparr>)"
proof -
  obtain l where l: "fmt (DurationSeconds a) = Some l" "number_text l (DurationSeconds a)"
    using assms(1) by (auto simp: prints_float_def)
  have "''exit_code'' \<in> set attempt_names" "''success'' \<in> set attempt_names" by (simp_all add: attempt_names_def)
  then show ?thesis using l assms(2)
    by (simp add: attempt_MarshalJSON_def decode_struct_def set_attempt_def decode_int_jint decode_bool_def zero_attempt_def)
qed

lemma attempts_read_back:
  assumes "list_all (\<lambda>a. prints_float fmt (DurationSeconds a) \<and> in_i64 (am_ExitCode a)) as"
  shows "\<exists>v. attempts_json fmt as = Some v \<and> printable v \<and> clean v = v
    \<and> decode_list (decode_struct attempt_names set_attempt zero_attempt) v = Some (map (\<lambda>a. a\<lparr>am_Duration := 0\<rparr>) as)"
proof -
  have "\<exists>vs. all_some (map (attempt_MarshalJSON fmt) as) = Some vs \<and> list_all printable vs \<and> map clean vs = vs
      \<and> all_some (map (decode_struct attempt_names set_attempt zero_attempt) vs) = Some (map (\<lambda>a. a\<lparr>am_Duration := 0\<rparr>) as)"
    using assms
  proof (induction as)
    case (Cons a as)
    obtain v where "attempt_MarshalJSON fmt a = Some v" "printable v" "clean v = v"
        "decode_struct attempt_names set_attempt zero_attempt v = Some (a\<lparr>am_Duration := 0\<rparr>)"
      using attempt_read_back [of fmt a] Cons.prems by auto
    then show ?case using Cons by force
  qed simp
  then show ?thesis by (cases "as = []") (auto simp: attempts_json_def decode_list_def)
qed

text \<open>A run whose numbers are printed so that they are read back.\<close>

definition run_prints :: "(f64 \<Rightarrow> string option) \<Rightarrow> RunMetrics \<Rightarrow> bool" where
  "run_prints fmt m \<longleftrightarrow> prints_float fmt (rm_TotalDurationSeconds m)
     \<and> list_all (\<lambda>a. prints_float fmt (DurationSeconds a) \<and> in_i64 (am_ExitCode a)) (rm_Attempts m)
     \<and> list_all in_i64 [rm_TotalAttempts m, rm_SuccessfulAttempts m, rm_FailedAttempts m, rm_Timestamp m]"

lemma unmarshal_clean:
  assumes "printable v"
  shows "unmarshal_struct names upd zero (print_json (clean v)) = decode_struct names upd zero (clean v)"
    and "unmarshal_struct names upd zero (print_json v) = decode_struct names upd zero (clean v)"
  using json_roundtrip [of v] json_roundtrip [of "clean v"] assms by (simp_all add: unmarshal_struct_def)

lemma run_read_back:
  assumes "run_prints fmt m"
  shows "\<exists>v. run_json fmt m = Some v \<and> printable v \<and> print_json v \<noteq> []
    \<and> unmarshal_RunMetrics (print_json v) = Some (wire_form m)
    \<and> unmarshal_RunMetrics (print_json (clean v)) = Some (wire_form m)"
proof -
  obtain l where l: "fmt (rm_TotalDurationSeconds m) = Some l" "number_text l (rm_TotalDurationSeconds m)" "is_fin (rm_TotalDurationSeconds m)"
    using assms by (auto simp: run_prints_def prints_float_def)
  obtain as where as: "attempts_json fmt (rm_Attempts m) = Some as" "printable as" "clean as = as"
      "decode_list (decode_struct attempt_names set_attempt zero_attempt) as = Some (map (\<lambda>a. a\<lparr>am_Duration := 0\<rparr>) (rm_Attempts m))"
    using attempts_read_back [of fmt "rm_Attempts m"] assms unfolding run_prints_def by blast
  obtain ms where v: "run_json fmt m = Some (JObj ms)" "printable (JObj ms)"
      "decode_fields run_names set_run (clean_members ms) zero_run = Some (wire_form m)"
    using l as assms
    by (simp add: run_prints_def run_json_def set_run_def decode_string_def decode_float_def decode_int_jint zero_run_def wire_form_def run_names_def
        field_name_def)
  then have "decode_struct run_names set_run zero_run (clean (JObj ms)) = Some (wire_form m)" by (simp add: decode_struct_def)
  then have "unmarshal_RunMetrics (print_json (JObj ms)) = Some (wire_form m)"
      "unmarshal_RunMetrics (print_json (clean (JObj ms))) = Some (wire_form m)"
    using unmarshal_clean [OF v(2), of run_names set_run zero_run] by (simp_all only: unmarshal_RunMetrics_def)
  with v(1,2) show ?thesis by fastforce
qed

text \<open>What the daemon has decoded can be printed and read back again.\<close>

lemma wire_form_idem: "wire_form (wire_form m) = wire_form m"
  by (simp add: wire_form_def)

lemma wire_form_prints: "run_prints fmt m \<Longrightarrow> prints_float fmt (Fin 0) \<Longrightarrow> run_prints fmt (wire_form m)"
proof -
  have "DurationSeconds (a\<lparr>am_Duration := 0\<rparr>) = Fin 0" for a
    using f64_round_fixed [OF rep64_of_int [of 0]] by (simp add: DurationSeconds_def f64_of_int_small Second_def)
  then show "run_prints fmt m \<Longrightarrow> prints_float fmt (Fin 0) \<Longrightarrow> run_prints fmt (wire_form m)"
    by (auto simp: run_prints_def wire_form_def list_all_iff)
qed

text \<open>What a client sends is what the daemon stores: when the socket takes the bytes, a worker that handles the connection stores
  the metrics of the run with all their fields, except that the durations of the attempts are lost, since the
  custom marshaler writes a field that the decoder does not know, and that ill-formed UTF-8 is replaced. Floats are assumed to be printed so that they are read back.\<close>

lemma sent_metrics_stored:
  assumes "run_prints fmt m" "sk_dial sk (mc_socketPath c) (mc_timeout c)" "sk_write sk = None"
  shows "\<exists>data. SendMetrics fmt sk c m = (None, Some data)
    \<and> handleConnection t now \<lparr>cn_id = i, cn_read = Some data\<rparr> wp
      = wp\<lparr>wp_storage := Store t now (wp_storage wp) (wire_form m)\<rparr>"
proof -
  obtain v where v: "run_json fmt m = Some v" "print_json v \<noteq> []" "unmarshal_RunMetrics (print_json v) = Some (wire_form m)"
    using run_read_back [OF assms(1)] by blast
  then have "SendMetrics fmt sk c m = (None, Some (print_json v))" using assms(2,3) by (simp add: SendMetrics_def)
  then show ?thesis using v by (simp add: handleConnection_def)
qed

definition half_fmt :: "f64 \<Rightarrow> string option" where
  "half_fmt x = (if x = Fin (1 / 2) then Some ''0.5'' else if x = Fin 0 then Some ''0'' else None)"

definition half_run :: RunMetrics where
  "half_run = NewRunMetrics id 0 [''true''] True (500 * Millisecond) [\<lparr>am_Duration = 500 * Millisecond, am_ExitCode = 0, am_Success = True\<rparr>]"

lemma half_prints: "prints_float half_fmt (Fin (1 / 2))"
proof -
  have r: "f64_round (1 / 2) = Fin (1 / 2)" by code_simp
  have "jnumber (''0.5'' @ s) = Some (JNum ''0.5'' (Fin (1 / 2)), s)" if "delimited s" for s
    using that num_tail [OF that] span_digits_append [of "''5''" s] r
    by (simp add: jnumber_def num_int_def num_frac_def is_digit_def digits_val_def digit_val_def)
  then show ?thesis by (simp add: prints_float_def half_fmt_def number_text_def is_digit_def)
qed

lemma half_fields: "rm_TotalDurationSeconds half_run = Fin (1 / 2)" "map DurationSeconds (rm_Attempts half_run) = [Fin (1 / 2)]"
  "rm_Attempts half_run = [\<lparr>am_Duration = 500 * Millisecond, am_ExitCode = 0, am_Success = True\<rparr>]"
  "map rm_TotalAttempts [half_run] = [1]" "rm_SuccessfulAttempts half_run = 1" "rm_FailedAttempts half_run = 0" "rm_Timestamp half_run = 0"
  by code_simp+

lemma zero_prints: "prints_float half_fmt (Fin 0)"
proof -
  have "jint 0 = JNum ''0'' (Fin 0)" by code_simp
  then have "number_text ''0'' (Fin 0)" using printable_jint [of 0] by simp
  then show ?thesis by (simp add: prints_float_def half_fmt_def)
qed

lemma half_run_prints: "run_prints half_fmt half_run"
  using half_prints half_fields by (simp add: run_prints_def in_i64_def)

end
