(* ===== verification/HttpServer.thy ===== *)
theory HttpServer
  imports MetricsClient
begin

text \<open>
  The HTTP interface of the daemon, \<open>pkg/daemon/server.go\<close>, with \<open>ExportJSON\<close> of
  \<open>pkg/storage/storage.go\<close>: from a request to the bytes of its response, over the metrics store. What
  \<open>net/url\<close> does with a query and what \<open>ServeMux\<close> does with a path is written out. The clock, the
  printing and parsing of times and the printing of floats, the statistics of the runtime and the text of the
  dashboard page are fields of an environment. No handler changes the store. The request target
  \<open>*\<close> is not modelled.
\<close>

section \<open>Requests and responses\<close>

record http_request =
  rq_Method :: string
  rq_Path :: string
  rq_RawQuery :: string

record http_response =
  hp_Status :: int
  hp_Header :: "(string \<times> string) list"
  hp_Body :: string

text \<open>\<open>runtime.MemStats\<close>, as far as it is reported.\<close>

record MemStats =
  mm_Alloc :: int
  mm_TotalAlloc :: int
  mm_Sys :: int
  mm_HeapAlloc :: int
  mm_HeapSys :: int
  mm_HeapIdle :: int
  mm_HeapInuse :: int
  mm_HeapReleased :: int
  mm_HeapObjects :: int
  mm_StackInuse :: int
  mm_StackSys :: int
  mm_NumGC :: int
  mm_NumForcedGC :: int
  mm_GCCPUFraction :: f64
  mm_LastGC :: int
  mm_PauseTotalNs :: int
  mm_PauseNs :: "int list"

text \<open>
  \<open>he_fmt_time\<close> is the text of a time in JSON, \<open>None\<close> when its year has not four digits; a time parsed from
  a query comes with the text it is printed as, which keeps its offset.
\<close>

record http_env =
  he_now :: instant
  he_fmt_float :: "f64 \<Rightarrow> string option"
  he_fmt_time :: "instant \<Rightarrow> string option"
  he_parse_time :: "string \<Rightarrow> (instant \<times> string option) option"
  he_date :: "instant \<Rightarrow> string"
  he_fmt_hour :: "instant \<Rightarrow> string"
  he_platform :: platform
  he_command_order :: "string \<Rightarrow> nat"
  he_hour_order :: "string \<Rightarrow> nat"
  he_mem :: MemStats
  he_goroutines :: int
  he_gomaxprocs :: int
  he_num_cpu :: int
  he_go_version :: string
  he_compiler :: string
  he_arch :: string
  he_os :: string
  he_html :: string

text \<open>\<open>http.Error\<close> and \<open>http.NotFound\<close>.\<close>

definition http_Error :: "string \<Rightarrow> int \<Rightarrow> http_response" where
  "http_Error msg code = \<lparr>hp_Status = code,
     hp_Header = [(''Content-Type'', ''text/plain; charset=utf-8''), (''X-Content-Type-Options'', ''nosniff'')],
     hp_Body = msg @ [CHR 0x0A]\<rparr>"

definition http_NotFound :: http_response where
  "http_NotFound = http_Error ''404 page not found'' 404"

text \<open>
  What an encoder writes: the value on a line, and nothing when it cannot be encoded; the error is dropped, and
  the status is 200 in both cases.
\<close>

definition encode_body :: "json option \<Rightarrow> http_response" where
  "encode_body v = \<lparr>hp_Status = 200, hp_Header = [(''Content-Type'', ''application/json'')],
     hp_Body = (case v of None \<Rightarrow> [] | Some j \<Rightarrow> print_json j @ [CHR 0x0A])\<rparr>"

definition get_only :: "http_request \<Rightarrow> http_response \<Rightarrow> http_response" where
  "get_only r response = (if rq_Method r \<noteq> ''GET'' then http_Error ''Method not allowed'' 405 else response)"

section \<open>Queries\<close>

text \<open>\<open>url.QueryUnescape\<close>.\<close>

fun query_unescape :: "string \<Rightarrow> string option" where
  "query_unescape [] = Some []"
| "query_unescape (c # r) =
     (if c = CHR ''%'' then
        (case r of
           a # b # r' \<Rightarrow>
             (case (hex_val a, hex_val b) of
                (Some x, Some y) \<Rightarrow> map_option (Cons (char_of (16 * x + y))) (query_unescape r')
              | _ \<Rightarrow> None)
         | _ \<Rightarrow> None)
      else map_option (Cons (if c = CHR ''+'' then CHR '' '' else c)) (query_unescape r))"

text \<open>One part of a query, between ampersands: parts with a semicolon, empty ones and ill-formed ones are dropped.\<close>

definition query_pair :: "string \<Rightarrow> (string \<times> string) option" where
  "query_pair part =
     (if CHR '';'' \<in> set part \<or> part = [] then None
      else case (query_unescape (takeWhile (\<lambda>c. c \<noteq> CHR ''='') part), query_unescape (drop 1 (dropWhile (\<lambda>c. c \<noteq> CHR ''='') part))) of
             (Some key, Some val) \<Rightarrow> Some (key, val)
           | _ \<Rightarrow> None)"

definition query_Get :: "http_request \<Rightarrow> string \<Rightarrow> string" where
  "query_Get r key =
     (case map_of (List.map_filter query_pair (split_on (CHR ''&'') (rq_RawQuery r))) key of None \<Rightarrow> [] | Some v \<Rightarrow> v)"

section \<open>JSON of the store\<close>

definition stored_json :: "http_env \<Rightarrow> StoredMetric \<Rightarrow> json option" where
  "stored_json env m =
     (case (he_fmt_time env (sd_Timestamp m), run_json (he_fmt_float env) (sd_Metrics m)) of
        (Some t, Some v) \<Rightarrow> Some (JObj [(''timestamp'', JStr t), (''metrics'', v)])
      | _ \<Rightarrow> None)"

definition jfloat :: "http_env \<Rightarrow> f64 \<Rightarrow> json option" where
  "jfloat env x = map_option (\<lambda>l. JNum l x) (he_fmt_float env x)"

definition jtime :: "http_env \<Rightarrow> instant \<Rightarrow> json option" where
  "jtime env t = map_option JStr (he_fmt_time env t)"

text \<open>Members whose values may fail to be encoded.\<close>

definition jobj :: "(string \<times> json option) list \<Rightarrow> json option" where
  "jobj ms = map_option (\<lambda>vs. JObj (zip (map fst ms) vs)) (all_some (map snd ms))"

text \<open>A slice that is \<open>nil\<close> when it is empty.\<close>

definition jslice :: "json option list \<Rightarrow> json option" where
  "jslice vs = (if vs = [] then Some JNull else map_option JArr (all_some vs))"

definition command_json :: "http_env \<Rightarrow> CommandStats \<Rightarrow> json option" where
  "command_json env c = jobj [(''command'', Some (JStr (cs_Command c))), (''count'', Some (jint (cs_Count c))),
     (''success_rate'', jfloat env (cs_SuccessRate c)), (''avg_duration'', Some (jint (cs_AvgDuration c)))]"

definition hourly_json :: "http_env \<Rightarrow> HourlyStats \<Rightarrow> json option" where
  "hourly_json env h = jobj [(''hour'', jtime env (hs_Hour h)), (''total_runs'', Some (jint (hs_TotalRuns h))),
     (''success_rate'', jfloat env (hs_SuccessRate h))]"

text \<open>The two texts are those of the ends of the time range.\<close>

definition aggregated_json :: "http_env \<Rightarrow> string option \<Rightarrow> string option \<Rightarrow> AggregatedStats \<Rightarrow> json option" where
  "aggregated_json env start stop s = jobj
     [(''time_range'', jobj [(''start'', map_option JStr start), (''end'', map_option JStr stop)]),
      (''total_runs'', Some (jint (as_TotalRuns s))), (''successful_runs'', Some (jint (as_SuccessfulRuns s))),
      (''failed_runs'', Some (jint (as_FailedRuns s))), (''success_rate'', jfloat env (as_SuccessRate s)),
      (''average_attempts'', jfloat env (as_AverageAttempts s)), (''average_duration'', Some (jint (as_AverageDuration s))),
      (''top_commands'', jslice (map (command_json env) (as_TopCommands s))),
      (''hourly_breakdown'', jslice (map (hourly_json env) (as_HourlyBreakdown s)))]"

text \<open>
  \<open>json.MarshalIndent\<close> with two blanks, and the export. An empty slice of metrics is printed as
  \<open>null\<close> when it is \<open>nil\<close>, as a cleanup that kept nothing leaves it.
\<close>

definition ExportJSON :: "http_env \<Rightarrow> bool \<Rightarrow> MetricsStorage \<Rightarrow> string option" where
  "ExportJSON env isnil s =
     map_option (render_json new_line '' '' 0)
       (if ms_metrics s = [] \<and> isnil then Some JNull else map_option JArr (all_some (map (stored_json env) (ms_metrics s))))"

section \<open>Handlers\<close>

definition recent_limit :: "http_request \<Rightarrow> int" where
  "recent_limit r =
     (let limitStr = query_Get r ''limit''
      in if limitStr \<noteq> [] then (case parse_int limitStr of Some parsedLimit \<Rightarrow> if 0 < parsedLimit then parsedLimit else 10 | None \<Rightarrow> 10)
         else 10)"

text \<open>Maps are encoded with their keys in order.\<close>

definition handleRecentMetrics :: "http_env \<Rightarrow> MetricsStorage \<Rightarrow> http_request \<Rightarrow> http_response" where
  "handleRecentMetrics env s r = get_only r
     (let metrics = GetRecent s (recent_limit r)
      in encode_body (jobj [(''count'', Some (jint (int (length metrics)))),
           (''metrics'', map_option JArr (all_some (map (stored_json env) metrics)))]))"

definition query_time :: "http_env \<Rightarrow> http_request \<Rightarrow> string \<Rightarrow> instant \<Rightarrow> instant \<times> string option" where
  "query_time env r key def =
     (let str = query_Get r key; unset = (def, he_fmt_time env def)
      in if str \<noteq> [] then (case he_parse_time env str of Some t \<Rightarrow> t | None \<Rightarrow> unset) else unset)"

definition handleAggregatedStats :: "http_env \<Rightarrow> MetricsStorage \<Rightarrow> http_request \<Rightarrow> http_response" where
  "handleAggregatedStats env s r = get_only r
     (let (start, start_text) = query_time env r ''start'' (time_add (he_now env) (- 24 * Hour));
          (stop, stop_text) = query_time env r ''end'' (he_now env)
      in encode_body (aggregated_json env start_text stop_text
           (GetAggregatedStats (he_platform env) (he_fmt_hour env) (he_command_order env) (he_hour_order env) s start stop)))"

definition handleExportMetrics :: "http_env \<Rightarrow> bool \<Rightarrow> MetricsStorage \<Rightarrow> http_request \<Rightarrow> http_response" where
  "handleExportMetrics env isnil s r = get_only r
     (case ExportJSON env isnil s of
        None \<Rightarrow> http_Error ''Failed to export metrics'' 500
      | Some data \<Rightarrow> \<lparr>hp_Status = 200, hp_Header = [(''Content-Type'', ''application/json''),
          (''Content-Disposition'', ''attachment; filename=retry-metrics-'' @ he_date env (he_now env) @ ''.json'')], hp_Body = data\<rparr>)"

definition handleDaemonStats :: "http_env \<Rightarrow> MetricsStorage \<Rightarrow> http_request \<Rightarrow> http_response" where
  "handleDaemonStats env s r = get_only r
     (let stats = GetStats s
      in encode_body (jobj [(''last_cleanup'', jtime env (ss_last_cleanup stats)), (''max_age'', Some (JStr (ss_max_age stats))),
           (''max_size'', Some (jint (ss_max_size stats))), (''total_metrics'', Some (jint (ss_total_metrics stats)))]))"

definition last_pause :: "MemStats \<Rightarrow> duration" where
  "last_pause m = (if 0 < length (mm_PauseNs m) then wrap64 (mm_PauseNs m ! nat ((mm_NumGC m + 255) mod 2 ^ 32 mod 256)) else 0)"

definition handlePerformanceStats :: "http_env \<Rightarrow> http_request \<Rightarrow> http_response" where
  "handlePerformanceStats env r = get_only r
     (let m = he_mem env
      in encode_body (jobj
        [(''gc'', jobj
           [(''gc_cpu_fraction'', jfloat env (mm_GCCPUFraction m)), (''last_gc_time'', jtime env (wrap64 (mm_LastGC m))),
            (''last_pause_ns'', Some (jint (last_pause m))), (''num_forced_gc'', Some (jint (mm_NumForcedGC m))),
            (''num_gc'', Some (jint (mm_NumGC m))), (''pause_total_ns'', Some (jint (mm_PauseTotalNs m)))]),
         (''memory'', jobj
           [(''alloc_bytes'', Some (jint (mm_Alloc m))), (''heap_alloc_bytes'', Some (jint (mm_HeapAlloc m))),
            (''heap_idle_bytes'', Some (jint (mm_HeapIdle m))), (''heap_inuse_bytes'', Some (jint (mm_HeapInuse m))),
            (''heap_objects'', Some (jint (mm_HeapObjects m))), (''heap_released_bytes'', Some (jint (mm_HeapReleased m))),
            (''heap_sys_bytes'', Some (jint (mm_HeapSys m))), (''stack_inuse_bytes'', Some (jint (mm_StackInuse m))),
            (''stack_sys_bytes'', Some (jint (mm_StackSys m))), (''sys_bytes'', Some (jint (mm_Sys m))),
            (''total_alloc_bytes'', Some (jint (mm_TotalAlloc m)))]),
         (''runtime'', jobj
           [(''arch'', Some (JStr (he_arch env))), (''compiler'', Some (JStr (he_compiler env))),
            (''go_version'', Some (JStr (he_go_version env))), (''gomaxprocs'', Some (jint (he_gomaxprocs env))),
            (''goroutines'', Some (jint (he_goroutines env))), (''num_cpu'', Some (jint (he_num_cpu env))),
            (''os'', Some (JStr (he_os env)))])]))"

definition handleHealth :: "http_env \<Rightarrow> http_request \<Rightarrow> http_response" where
  "handleHealth env r = get_only r
     (encode_body (jobj [(''status'', Some (JStr ''healthy'')), (''timestamp'', Some (jint (he_now env div Second))),
        (''version'', Some (JStr ''1.0.0''))]))"

definition handleDashboard :: "http_env \<Rightarrow> http_request \<Rightarrow> http_response" where
  "handleDashboard env r =
     (if rq_Path r \<noteq> ''/'' then http_NotFound
      else \<lparr>hp_Status = 200, hp_Header = [(''Content-Type'', ''text/html'')], hp_Body = he_html env\<rparr>)"

section \<open>The server\<close>

record http_Server =
  hv_storage :: MetricsStorage
  hv_port :: int
  hv_httpServer :: "string option"

definition NewServer :: "MetricsStorage \<Rightarrow> int \<Rightarrow> http_Server" where
  "NewServer s port = \<lparr>hv_storage = s, hv_port = port, hv_httpServer = None\<rparr>"

text \<open>The routes of \<open>Start\<close>: every other path goes to the dashboard.\<close>

definition route :: "http_env \<Rightarrow> bool \<Rightarrow> MetricsStorage \<Rightarrow> http_request \<Rightarrow> http_response" where
  "route env isnil s r =
     (if rq_Path r = ''/api/metrics/recent'' then handleRecentMetrics env s r
      else if rq_Path r = ''/api/metrics/stats'' then handleAggregatedStats env s r
      else if rq_Path r = ''/api/metrics/export'' then handleExportMetrics env isnil s r
      else if rq_Path r = ''/api/daemon/stats'' then handleDaemonStats env s r
      else if rq_Path r = ''/api/daemon/performance'' then handlePerformanceStats env r
      else if rq_Path r = ''/api/health'' then handleHealth env r
      else handleDashboard env r)"

text \<open>\<open>ServeMux\<close> redirects to the cleaned path first, except for \<open>CONNECT\<close>.\<close>

fun clean_parts :: "string list \<Rightarrow> string list \<Rightarrow> string list" where
  "clean_parts acc [] = rev acc"
| "clean_parts acc (p # ps) =
     (if p = [] \<or> p = ''.'' then clean_parts acc ps else if p = ''..'' then clean_parts (drop 1 acc) ps else clean_parts (p # acc) ps)"

definition clean_path :: "string \<Rightarrow> string" where
  "clean_path p =
     (let np = CHR ''/'' # join ''/'' (clean_parts [] (split_on (CHR ''/'') p))
      in if p \<noteq> [] \<and> last p = CHR ''/'' \<and> np \<noteq> ''/'' then np @ ''/'' else np)"

datatype served = Answered http_response | MovedPermanently string

definition ServeHTTP :: "http_env \<Rightarrow> bool \<Rightarrow> MetricsStorage \<Rightarrow> http_request \<Rightarrow> served" where
  "ServeHTTP env isnil s r =
     (if rq_Method r \<noteq> ''CONNECT'' \<and> clean_path (rq_Path r) \<noteq> rq_Path r then MovedPermanently (clean_path (rq_Path r))
      else Answered (route env isnil s r))"

text \<open>
  The \<open>select\<close> of \<open>Start\<close>: cancelled, or the listener failed; a listener that was shut down reports
  nothing, so after \<open>Stop\<close> alone \<open>Start\<close> goes on waiting for the context. No case that is ready means to wait.
\<close>

datatype start_case = CtxDone | ListenFailed string

definition ErrServerClosed :: string where
  "ErrServerClosed = ''http: Server closed''"

definition start_cases :: "bool \<Rightarrow> string option \<Rightarrow> start_case list" where
  "start_cases cancelled listen =
     (if cancelled then [CtxDone] else [])
     @ (case listen of None \<Rightarrow> [] | Some err \<Rightarrow> if err \<noteq> ErrServerClosed then [ListenFailed err] else [])"

definition Start_listen :: "http_Server \<Rightarrow> http_Server" where
  "Start_listen s = s\<lparr>hv_httpServer := Some (CHR '':'' # itoa (hv_port s))\<rparr>"

text \<open>\<open>shutdown\<close> is the error of \<open>http.Server.Shutdown\<close>, which \<open>Stop\<close> limits to five seconds.\<close>

definition Start_select :: "string option \<Rightarrow> start_case \<Rightarrow> string option" where
  "Start_select shutdown k = (case k of CtxDone \<Rightarrow> shutdown | ListenFailed err \<Rightarrow> Some err)"

definition http_Stop :: "(duration \<Rightarrow> string option) \<Rightarrow> http_Server \<Rightarrow> string option" where
  "http_Stop shutdown s = (case hv_httpServer s of None \<Rightarrow> None | Some _ \<Rightarrow> shutdown (5 * Second))"

section \<open>What the interface shows\<close>

text \<open>Characters that stand for themselves in a query.\<close>

definition plain_query :: "string \<Rightarrow> bool" where
  "plain_query s \<longleftrightarrow> list_all (\<lambda>c. c \<notin> set ''%+&;='') s"

lemma query_unescape_plain: "plain_query s \<Longrightarrow> query_unescape s = Some s"
  by (induction s) (auto simp: plain_query_def)

lemma query_pair_plain:
  assumes "plain_query k" "plain_query v" "k \<noteq> []"
  shows "query_pair (k @ CHR ''='' # v) = Some (k, v)"
proof -
  have k: "\<forall>c \<in> set k. c \<noteq> CHR ''=''" using assms(1) by (auto simp: plain_query_def list_all_iff)
  have "CHR '';'' \<notin> set (k @ CHR ''='' # v)" using assms by (auto simp: plain_query_def list_all_iff)
  then show ?thesis using k query_unescape_plain [OF assms(1)] query_unescape_plain [OF assms(2)] assms(3)
    by (simp add: query_pair_def takeWhile_append2 dropWhile_append2)
qed

lemma query_Get_plain:
  assumes "plain_query k" "plain_query v" "k \<noteq> []" "rq_RawQuery r = k @ CHR ''='' # v"
  shows "query_Get r k = v"
proof -
  have "CHR ''&'' \<notin> set (k @ CHR ''='' # v)" using assms by (auto simp: plain_query_def list_all_iff)
  then show ?thesis using query_pair_plain [OF assms(1-3)] by (simp add: query_Get_def assms(4) split_on_single List.map_filter_simps)
qed

lemma plain_itoa: "plain_query (itoa n)"
  using itoa_chars [of _ n] by (fastforce simp: plain_query_def list_all_iff is_digit_def)

text \<open>A limit that is missing, no number, or not positive means ten.\<close>

lemma recent_limit_cases:
  "recent_limit r = (case parse_int (query_Get r ''limit'') of Some n \<Rightarrow> if 0 < n then n else 10 | None \<Rightarrow> 10)"
proof -
  have "parse_int [] = None" by (simp add: parse_int_def)
  then show ?thesis by (auto simp: recent_limit_def Let_def)
qed

lemma recent_limit_given:
  "0 < n \<Longrightarrow> n < 2 ^ 63 \<Longrightarrow> rq_RawQuery r = ''limit='' @ itoa n \<Longrightarrow> recent_limit r = n"
  using query_Get_plain [of "''limit''" "itoa n" r] plain_itoa [of n] parse_int_itoa [of n]
  by (simp add: recent_limit_cases plain_query_def in_i64_def)

text \<open>
  The JSON of a stored metric as it is read: its time, and its run, which read back loses the
  durations of attempts and ill-formed UTF-8 only.
\<close>

definition shows_metric :: "http_env \<Rightarrow> json \<Rightarrow> StoredMetric \<Rightarrow> bool" where
  "shows_metric env v m \<longleftrightarrow> (\<exists>t run. v = JObj [(''timestamp'', JStr (to_valid t)), (''metrics'', run)]
     \<and> he_fmt_time env (sd_Timestamp m) = Some t \<and> unmarshal_RunMetrics (print_json run) = Some (wire_form (sd_Metrics m)))"

definition metric_prints :: "http_env \<Rightarrow> StoredMetric \<Rightarrow> bool" where
  "metric_prints env m \<longleftrightarrow> he_fmt_time env (sd_Timestamp m) \<noteq> None \<and> run_prints (he_fmt_float env) (sd_Metrics m)"

lemma stored_shown:
  assumes "metric_prints env m"
  shows "\<exists>v. stored_json env m = Some v \<and> printable v \<and> shows_metric env (clean v) m"
proof -
  obtain v where "run_json (he_fmt_float env) (sd_Metrics m) = Some v" "printable v"
      "unmarshal_RunMetrics (print_json (clean v)) = Some (wire_form (sd_Metrics m))"
    using run_read_back [of "he_fmt_float env" "sd_Metrics m"] assms by (auto simp: metric_prints_def)
  then show ?thesis using assms by (auto simp: metric_prints_def stored_json_def shows_metric_def)
qed

lemma all_stored_shown:
  assumes "list_all (metric_prints env) ms"
  shows "\<exists>vs. all_some (map (stored_json env) ms) = Some vs \<and> list_all printable vs
    \<and> list_all2 (shows_metric env) (map clean vs) ms"
  using assms
proof (induction ms)
  case (Cons m ms)
  then obtain v where "stored_json env m = Some v" "printable v" "shows_metric env (clean v) m" using stored_shown [of env m] by auto
  then show ?case using Cons by auto
qed simp

lemma list_all_drop: "list_all P xs \<Longrightarrow> list_all P (drop n xs)"
  by (auto simp: list_all_iff dest: in_set_dropD)

lemma clean_api [simp]:
  "clean_path ''/api/metrics/recent'' = ''/api/metrics/recent''" "clean_path ''/api/metrics/export'' = ''/api/metrics/export''"
  "clean_path ''/debug/pprof/'' = ''/debug/pprof/''"
  by code_simp+

lemma recent_count: "0 < n \<Longrightarrow> GetRecent s n = drop (length (ms_metrics s) - nat n) (ms_metrics s)"
  by (simp add: GetRecent_def Let_def nat_diff_distrib')

lemma recent_answer:
  assumes "list_all (metric_prints env) (drop (length (ms_metrics s) - nat n) (ms_metrics s))" "0 < n" "n < 2 ^ 63"
  shows "\<exists>recent vs. ServeHTTP env isnil s \<lparr>rq_Method = ''GET'', rq_Path = ''/api/metrics/recent'', rq_RawQuery = ''limit='' @ itoa n\<rparr> = Answered recent
    \<and> hp_Status recent = 200
    \<and> json_decode (hp_Body recent) = Some (JObj [(''count'', jint (min n (int (length (ms_metrics s))))), (''metrics'', JArr vs)])
    \<and> list_all2 (shows_metric env) vs (drop (length (ms_metrics s) - nat n) (ms_metrics s))"
proof -
  let ?newest = "drop (length (ms_metrics s) - nat n) (ms_metrics s)"
  obtain vs where vs: "all_some (map (stored_json env) ?newest) = Some vs" "list_all printable vs"
      "list_all2 (shows_metric env) (map clean vs) ?newest"
    using all_stored_shown [OF assms(1)] by blast
  let ?v = "JObj [(''count'', jint (int (length ?newest))), (''metrics'', JArr vs)]"
  have "int (length ?newest) = min n (int (length (ms_metrics s)))" using assms(2) by auto
  moreover have "json_decode (print_json ?v @ [CHR 0x0A]) =
      Some (JObj [(''count'', jint (int (length ?newest))), (''metrics'', JArr (map clean vs))])"
    using json_line_roundtrip [of ?v] vs(2) by simp
  ultimately show ?thesis using vs recent_limit_given [OF assms(2,3)] recent_count [OF assms(2), of s]
    by (simp add: ServeHTTP_def route_def handleRecentMetrics_def get_only_def encode_body_def jobj_def Let_def)
qed

lemma export_answer:
  assumes "list_all (metric_prints env) (ms_metrics s)" "ms_metrics s \<noteq> [] \<or> \<not> isnil"
  shows "\<exists>export vs. ServeHTTP env isnil s \<lparr>rq_Method = ''GET'', rq_Path = ''/api/metrics/export'', rq_RawQuery = q\<rparr> = Answered export
    \<and> hp_Status export = 200 \<and> json_decode (hp_Body export) = Some (JArr vs) \<and> list_all2 (shows_metric env) vs (ms_metrics s)"
proof -
  obtain vs where vs: "all_some (map (stored_json env) (ms_metrics s)) = Some vs" "list_all printable vs"
      "list_all2 (shows_metric env) (map clean vs) (ms_metrics s)"
    using all_stored_shown [OF assms(1)] by blast
  moreover have "ExportJSON env isnil s = Some (render_json new_line '' '' 0 (JArr vs))"
    using vs(1) assms(2) unfolding ExportJSON_def by (cases "ms_metrics s") auto
  moreover have "json_decode (render_json new_line '' '' 0 (JArr vs)) = Some (JArr (map clean vs))"
    using indent_roundtrip [of "JArr vs"] vs(2) by simp
  ultimately show ?thesis
    by (simp add: ServeHTTP_def route_def handleExportMetrics_def get_only_def del: render_json.simps)
qed

text \<open>
  The interface is read-only: on its own paths every method but \<open>GET\<close> is refused, whatever the store holds.
  Everything else but the root is not found, also the pages of \<open>net/http/pprof\<close>, which register themselves at
  another multiplexer than the one \<open>Start\<close> makes.
\<close>

definition api_paths :: "string list" where
  "api_paths = [''/api/metrics/recent'', ''/api/metrics/stats'', ''/api/metrics/export'', ''/api/daemon/stats'',
     ''/api/daemon/performance'', ''/api/health'']"

lemma other_methods_refused:
  "rq_Path r \<in> set api_paths \<Longrightarrow> rq_Method r \<noteq> ''GET'' \<Longrightarrow> route env isnil s r = http_Error ''Method not allowed'' 405"
  unfolding api_paths_def
  by (auto simp: route_def handleRecentMetrics_def handleAggregatedStats_def handleExportMetrics_def handleDaemonStats_def
      handlePerformanceStats_def handleHealth_def get_only_def)

lemma other_paths_not_found:
  "rq_Path r \<notin> set api_paths \<Longrightarrow> rq_Path r \<noteq> ''/'' \<Longrightarrow> route env isnil s r = http_NotFound"
  unfolding api_paths_def by (auto simp: route_def handleDashboard_def)

lemma profiling_not_served:
  "ServeHTTP env isnil s \<lparr>rq_Method = ''GET'', rq_Path = ''/debug/pprof/'', rq_RawQuery = []\<rparr> = Answered http_NotFound"
  using other_paths_not_found [of "\<lparr>rq_Method = ''GET'', rq_Path = ''/debug/pprof/'', rq_RawQuery = []\<rparr>" env isnil s]
  by (simp add: ServeHTTP_def api_paths_def)

text \<open>A number that cannot be encoded, as a NaN, gives status 200 and an empty body, since the error of the encoder is dropped.\<close>

lemma unencodable_fraction_ignored:
  "he_fmt_float env (mm_GCCPUFraction (he_mem env)) = None \<Longrightarrow> rq_Method r = ''GET'' \<Longrightarrow>
     handlePerformanceStats env r = encode_body None"
  by (simp add: handlePerformanceStats_def get_only_def jobj_def jfloat_def)

text \<open>The index into the ring of pauses stays in its 256 elements.\<close>

lemma last_pause_index:
  "length (mm_PauseNs m) = 256 \<Longrightarrow> nat ((mm_NumGC m + 255) mod 2 ^ 32 mod 256) < length (mm_PauseNs m)"
  by (simp add: nat_less_iff)

text \<open>Paths of the interface are clean, so that they are not redirected.\<close>

lemma api_paths_clean: "p \<in> set api_paths \<Longrightarrow> clean_path p = p"
proof -
  have "list_all (\<lambda>p. clean_path p = p) api_paths" by code_simp
  then show "p \<in> set api_paths \<Longrightarrow> clean_path p = p" by (simp add: list_all_iff)
qed

text \<open>C39. The HTTP interface shows what the store holds: asked for the recent metrics with a positive limit, it answers with a
  JSON document that holds the number and exactly the newest metrics up to the limit, oldest first, and the export is a JSON
  document of all stored metrics in order; every one is shown with its time and with a run from which the type of the daemon reads
  back all but the durations of the attempts, bytes that are not UTF-8 replaced by U+FFFD (which is so in the store already for runs
  that came over the socket). Times and floats are assumed to be printable.\<close>

theorem interface_shows_store:
  assumes "list_all (metric_prints env) (ms_metrics s)" "0 < n" "n < 2 ^ 63" "ms_metrics s \<noteq> [] \<or> \<not> isnil"
  shows "(\<exists>recent vs. ServeHTTP env isnil s \<lparr>rq_Method = ''GET'', rq_Path = ''/api/metrics/recent'', rq_RawQuery = ''limit='' @ itoa n\<rparr> = Answered recent
      \<and> hp_Status recent = 200
      \<and> json_decode (hp_Body recent) = Some (JObj [(''count'', jint (min n (int (length (ms_metrics s))))), (''metrics'', JArr vs)])
      \<and> list_all2 (shows_metric env) vs (drop (length (ms_metrics s) - nat n) (ms_metrics s)))
    \<and> (\<exists>export ws. ServeHTTP env isnil s \<lparr>rq_Method = ''GET'', rq_Path = ''/api/metrics/export'', rq_RawQuery = q\<rparr> = Answered export
      \<and> hp_Status export = 200 \<and> json_decode (hp_Body export) = Some (JArr ws) \<and> list_all2 (shows_metric env) ws (ms_metrics s))"
  using recent_answer [OF list_all_drop [OF assms(1)] assms(2,3)] export_answer [OF assms(1,4)] by blast

definition idle_env :: http_env where
  "idle_env = \<lparr>he_now = 0, he_fmt_float = half_fmt, he_fmt_time = (\<lambda>_. Some ''2024-01-01T00:00:00Z''), he_parse_time = (\<lambda>_. None),
     he_date = (\<lambda>_. ''2024-01-01''), he_fmt_hour = (\<lambda>_. []), he_platform = amd64, he_command_order = (\<lambda>_. 0), he_hour_order = (\<lambda>_. 0),
     he_mem = \<lparr>mm_Alloc = 0, mm_TotalAlloc = 0, mm_Sys = 0, mm_HeapAlloc = 0, mm_HeapSys = 0, mm_HeapIdle = 0, mm_HeapInuse = 0,
       mm_HeapReleased = 0, mm_HeapObjects = 0, mm_StackInuse = 0, mm_StackSys = 0, mm_NumGC = 0, mm_NumForcedGC = 0,
       mm_GCCPUFraction = Fin 0, mm_LastGC = 0, mm_PauseTotalNs = 0, mm_PauseNs = replicate 256 0\<rparr>,
     he_goroutines = 1, he_gomaxprocs = 1, he_num_cpu = 1, he_go_version = ''go1.21'', he_compiler = ''gc'', he_arch = ''amd64'',
     he_os = ''linux'', he_html = []\<rparr>"

definition two_runs :: MetricsStorage where
  "two_runs = \<lparr>ms_metrics = [\<lparr>sd_Timestamp = 0, sd_Metrics = half_run\<rparr>, \<lparr>sd_Timestamp = 1, sd_Metrics = half_run\<rparr>],
     ms_maxSize = 10, ms_maxAge = Hour, ms_lastCleanup = 0\<rparr>"

theorem interface_shows_store_witness:
  "\<exists>recent vs. ServeHTTP idle_env False two_runs \<lparr>rq_Method = ''GET'', rq_Path = ''/api/metrics/recent'', rq_RawQuery = ''limit='' @ itoa 1\<rparr> = Answered recent
     \<and> json_decode (hp_Body recent) = Some (JObj [(''count'', jint 1), (''metrics'', JArr vs)])
     \<and> list_all2 (shows_metric idle_env) vs [\<lparr>sd_Timestamp = 1, sd_Metrics = half_run\<rparr>]"
  using interface_shows_store [of idle_env two_runs 1 False "[]"] half_run_prints
  by (auto simp: two_runs_def metric_prints_def idle_env_def)

end
