(* ===== verification/TypedClient.thy ===== *)
theory TypedClient
  imports UnixServer
begin

text \<open>
  The methods of \<open>pkg/daemon/client.go\<close> over the message types of \<open>protocol_types.go\<close>. They
  send untyped maps with \<open>sendRequest\<close> and copy fields of the answer; \<open>send\<close> is what a request is answered with,
  \<open>None\<close> when writing, reading or decoding fails. They do not connect: on a client that has no connection the
  call goes through a nil pointer. \<open>fmt_seconds\<close> formats a time with RFC 3339 in whole seconds.
\<close>

section \<open>Messages of protocol.go\<close>

record RegisterRequest =
  rgq_Requests :: "ScheduledRequest list"

record RegisterResponse =
  rgp_Success :: bool
  rgp_Message :: string

section \<open>Methods\<close>

datatype typed_error = NilConnection | RequestFailed

definition typed_send :: "(json \<Rightarrow> reply option) \<Rightarrow> DaemonClient \<Rightarrow> json \<Rightarrow> typed_error + reply" where
  "typed_send send c request =
     (if \<not> dc_conn c then Inl NilConnection else case send request of None \<Rightarrow> Inl RequestFailed | Some r \<Rightarrow> Inr r)"

definition copied :: "reply \<Rightarrow> string \<Rightarrow> string" where
  "copied response k = (case str_field response k of Some t \<Rightarrow> t | None \<Rightarrow> [])"

definition copied_time :: "(string \<Rightarrow> instant option) \<Rightarrow> reply \<Rightarrow> string \<Rightarrow> instant" where
  "copied_time parse_time response k =
     (case Option.bind (str_field response k) parse_time of Some t \<Rightarrow> t | None \<Rightarrow> zero_time)"

text \<open>A \<open>nil\<close> slice of strings is encoded as \<open>null\<close>; an empty command is taken to be \<open>nil\<close>.\<close>

definition strings_json :: "string list \<Rightarrow> json" where
  "strings_json ts = (if ts = [] then JNull else JArr (map JStr ts))"

definition SendHandshakeTypeSafe ::
  "(json \<Rightarrow> reply option) \<Rightarrow> DaemonClient \<Rightarrow> HandshakeRequestJSON \<Rightarrow> typed_error + HandshakeResponseJSON" where
  "SendHandshakeTypeSafe send c req =
     map_sum id (\<lambda>response. \<lparr>hr_Type = ''handshake_response'', hr_Status = copied response ''status'', hr_Message = copied response ''message''\<rparr>)
       (typed_send send c (JObj [(''client'', JStr (hq_Client req)), (''type'', JStr (hq_Type req)), (''version'', JStr (hq_Version req))]))"

definition SendScheduleRequestTypeSafe ::
  "(instant \<Rightarrow> string) \<Rightarrow> (string \<Rightarrow> instant option) \<Rightarrow> (json \<Rightarrow> reply option) \<Rightarrow> DaemonClient \<Rightarrow> ScheduleRequestJSON \<Rightarrow>
     typed_error + ScheduleResponseJSON" where
  "SendScheduleRequestTypeSafe fmt_seconds parse_time send c req =
     map_sum id (\<lambda>response. \<lparr>jp_Type = ''schedule_response'', jp_Status = copied response ''status'', jp_CanSchedule = False, jp_Reason = [],
         jp_Message = copied response ''message'', jp_ScheduledAt = copied_time parse_time response ''scheduled_at'',
         jp_ExpiresAt = copied_time parse_time response ''expires_at''\<rparr>)
       (typed_send send c (JObj [(''command'', strings_json (jq_Command req)), (''requested_at'', JStr (fmt_seconds (jq_RequestedAt req))),
          (''resource_id'', JStr (jq_ResourceID req)), (''type'', JStr (jq_Type req))]))"

definition SendRegisterRequestTypeSafe ::
  "(instant \<Rightarrow> string) \<Rightarrow> (json \<Rightarrow> reply option) \<Rightarrow> DaemonClient \<Rightarrow> RegisterRequestJSON \<Rightarrow> typed_error + RegisterResponseJSON" where
  "SendRegisterRequestTypeSafe fmt_seconds send c req =
     map_sum id (\<lambda>response. \<lparr>rr_Type = ''register_response'', rr_Status = copied response ''status'', rr_Success = False,
         rr_Message = copied response ''message''\<rparr>)
       (typed_send send c (JObj [(''requests'', JArr (map (\<lambda>r. JObj [(''command'', strings_json (ri_Command r)),
            (''requested_at'', JStr (fmt_seconds (ri_RequestedAt r)))]) (rq_Requests req))),
          (''resource_id'', JStr (rq_ResourceID req)), (''type'', JStr (rq_Type req))]))"

section \<open>Against the server\<close>

text \<open>What the socket server answers to a request.\<close>

definition server_send :: "(instant \<Rightarrow> string) \<Rightarrow> (string \<Rightarrow> instant option) \<Rightarrow> instant stream \<Rightarrow> json \<Rightarrow> reply option" where
  "server_send fmt_time parse_time clock v = client_reply (serve_connection fmt_time parse_time clock (print_json v @ [CHR 0x0A]))"

lemma server_fields:
  assumes "printable (JObj ms)"
  shows "\<exists>reply. server_send fmt_time parse_time clock (JObj ms) = Some reply
    \<and> (\<forall>k. json_get reply k = map_option clean (json_get (response_fields fmt_time
        (handleProtocolMessageTypeSafe parse_time (shd clock) (shd (stl clock)) (print_json (JObj ms)))) k))"
  using served_object [OF assms] json_get_twice [OF response_plain] by (simp add: server_send_def del: print_json.simps)

lemma unmarshal_object:
  "printable (JObj ms) \<Longrightarrow>
     unmarshal_struct names upd zero (print_json (JObj ms)) = decode_struct names upd zero (clean (JObj ms))"
  using json_roundtrip by (simp add: unmarshal_struct_def del: print_json.simps)

lemma strings_json_decoded: "decode_list (\<lambda>e. decode_string e []) (clean (strings_json ts)) = Some (map to_valid ts)"
proof -
  have "all_some (map (\<lambda>e. decode_string e []) (map clean (map JStr ts))) = Some (map to_valid ts)"
    by (induction ts) (auto simp: decode_string_def)
  then show ?thesis by (simp add: strings_json_def decode_list_def)
qed

lemma printable_strings [simp]: "printable (strings_json ts)"
  by (auto simp: strings_json_def list_all_iff)

text \<open>
  The server decodes a typed schedule request to the request that was sent, its strings made
  well-formed UTF-8 and its time cut to what the format keeps, and grants it; but the client does not
  copy the fields \<open>can_schedule\<close> and \<open>reason\<close>: what it returns says that the request cannot be
  scheduled. Printed times are ASCII, so that they are read back as they are.
\<close>

lemma typed_schedule_decoded:
  assumes "parse_time (fmt_seconds (jq_RequestedAt req)) = Some t" "well_formed (fmt_seconds (jq_RequestedAt req))"
  shows "decode_schedule parse_time (print_json (JObj [(''command'', strings_json (jq_Command req)),
      (''requested_at'', JStr (fmt_seconds (jq_RequestedAt req))), (''resource_id'', JStr (jq_ResourceID req)), (''type'', JStr (jq_Type req))]))
    = Some \<lparr>jq_Type = to_valid (jq_Type req), jq_ResourceID = to_valid (jq_ResourceID req),
            jq_Command = map to_valid (jq_Command req), jq_RequestedAt = t\<rparr>"
  unfolding decode_schedule_def using assms strings_json_decoded
  by (subst unmarshal_object)
    (auto simp: decode_struct_def field_name_def set_schedule_def decode_string_def decode_time_def well_formed_def)

lemma typed_schedule_loses_grant:
  assumes "dc_conn c" "jq_Type req = ''schedule_request''" "parse_time (fmt_seconds (jq_RequestedAt req)) \<noteq> None"
    and "\<And>t. parse_time (fmt_time t) = Some t" "\<And>t. well_formed (fmt_time t)" "well_formed (fmt_seconds (jq_RequestedAt req))"
  shows "\<exists>r. SendScheduleRequestTypeSafe fmt_seconds parse_time (server_send fmt_time parse_time clock) c req = Inr r
    \<and> jp_Status r = ''ok'' \<and> jp_Message r = ''request scheduled'' \<and> \<not> jp_CanSchedule r
    \<and> jp_ScheduledAt r = shd clock \<and> jp_ExpiresAt r = time_add (shd (stl clock)) Hour"
proof -
  let ?ms = "[(''command'', strings_json (jq_Command req)), (''requested_at'', JStr (fmt_seconds (jq_RequestedAt req))),
    (''resource_id'', JStr (jq_ResourceID req)), (''type'', JStr (jq_Type req))]"
  obtain t where t: "parse_time (fmt_seconds (jq_RequestedAt req)) = Some t" using assms(3) by blast
  have p: "printable (JObj ?ms)" by simp
  have "decode_type (print_json (JObj ?ms)) = Some ''schedule_request''"
    unfolding decode_type_def unmarshal_object [OF p] using assms(2)
    by (simp add: decode_struct_def field_name_def decode_string_def upper_ascii_def)
  then have "\<exists>q. handleProtocolMessageTypeSafe parse_time (shd clock) (shd (stl clock)) (print_json (JObj ?ms))
      = ScheduleResp (handleScheduleRequestTypeSafe (shd clock) (shd (stl clock)) q)"
    using typed_schedule_decoded [of parse_time fmt_seconds req t] t assms(6)
    by (auto simp: handleProtocolMessageTypeSafe_def simp del: print_json.simps)
  then obtain q where a: "handleProtocolMessageTypeSafe parse_time (shd clock) (shd (stl clock)) (print_json (JObj ?ms))
      = ScheduleResp (handleScheduleRequestTypeSafe (shd clock) (shd (stl clock)) q)" ..
  from server_fields [OF p, of fmt_time parse_time clock, unfolded a] obtain reply where reply:
      "server_send fmt_time parse_time clock (JObj ?ms) = Some reply"
      "\<And>k. json_get reply k = map_option clean (json_get (response_fields fmt_time
        (ScheduleResp (handleScheduleRequestTypeSafe (shd clock) (shd (stl clock)) q))) k)"
    by blast
  then show ?thesis using assms(1,4,5)
    by (simp add: SendScheduleRequestTypeSafe_def typed_send_def copied_def copied_time_def str_field_def
        handleScheduleRequestTypeSafe_def omitempty_def json_get_def well_formed_def)
qed

text \<open>The same holds for registrations: success is never reported. And without a connection every call goes through nil.\<close>

lemma typed_never_succeeds:
  "SendScheduleRequestTypeSafe fmt_seconds parse_time send c sreq = Inr s \<Longrightarrow> \<not> jp_CanSchedule s"
  "SendRegisterRequestTypeSafe fmt_seconds send c rreq = Inr r \<Longrightarrow> \<not> rr_Success r"
  by (auto simp: SendScheduleRequestTypeSafe_def SendRegisterRequestTypeSafe_def typed_send_def split: if_splits option.splits)

lemma typed_needs_connection:
  "SendHandshakeTypeSafe send (NewDaemonClient p) hreq = Inl NilConnection"
  "SendScheduleRequestTypeSafe fmt_seconds parse_time send (NewDaemonClient p) sreq = Inl NilConnection"
  "SendRegisterRequestTypeSafe fmt_seconds send (NewDaemonClient p) rreq = Inl NilConnection"
  by (simp_all add: SendHandshakeTypeSafe_def SendScheduleRequestTypeSafe_def SendRegisterRequestTypeSafe_def typed_send_def NewDaemonClient_def)

end
