(* ===== verification/DaemonOps.thy ===== *)
theory DaemonOps
  imports Daemon UnixServer MetricsClient
begin

text \<open>
  The rest of the daemon process: the accept loop, \<open>handleConnection\<close> and \<open>GetStats\<close> of
  \<open>pkg/daemon/daemon.go\<close>, start and stop of the socket server (\<open>unix_server.go\<close>) over the record of the
  operating system, and the commands of \<open>cmd/patienced/main.go\<close> that report, stop, and write an example
  configuration.
\<close>

section \<open>Connections\<close>

text \<open>
  One round of the accept loop: whether the context is cancelled when it begins, what \<open>Accept\<close>
  returns within its second, whether the context is cancelled after an error, and the case a submission takes.
\<close>

datatype accept_result = AcceptTimeout | AcceptFailed | Accepted conn

record accept_round =
  ar_done :: bool
  ar_accept :: accept_result
  ar_done_after :: bool
  ar_select :: submit_case

text \<open>A pool that is not started closes the connection.\<close>

definition SubmitConnection :: "submit_case \<Rightarrow> conn \<Rightarrow> WorkerPool \<Rightarrow> bool \<times> WorkerPool" where
  "SubmitConnection k c wp = (if \<not> wp_started wp then (False, wp) else submit_select k c wp)"

text \<open>The daemon, and whether the loop has ended, after some rounds.\<close>

fun handleConnections :: "accept_round list \<Rightarrow> Daemon \<Rightarrow> Daemon \<times> bool" where
  "handleConnections [] d = (d, False)"
| "handleConnections (r # rs) d =
     (if ar_done r then (d, True)
      else case ar_accept r of
        AcceptTimeout \<Rightarrow> handleConnections rs d
      | AcceptFailed \<Rightarrow> if ar_done_after r then (d, True) else handleConnections rs d
      | Accepted c \<Rightarrow> handleConnections rs (d\<lparr>dm_workerPool := snd (SubmitConnection (ar_select r) c (dm_workerPool d))\<rparr>))"

text \<open>The daemon's own handler, which nothing calls: it does not look for empty data.\<close>

definition Daemon_handleConnection :: "instant \<Rightarrow> instant \<Rightarrow> conn \<Rightarrow> MetricsStorage \<Rightarrow> MetricsStorage" where
  "Daemon_handleConnection t now c s =
     (case cn_read c of
        None \<Rightarrow> s
      | Some data \<Rightarrow> (case unmarshal_RunMetrics data of None \<Rightarrow> s | Some runMetrics \<Rightarrow> Store t now s runMetrics))"

text \<open>\<open>uptime\<close> is the time between two readings of the clock in one expression.\<close>

record DaemonStats =
  ds_storage :: StorageStats
  ds_daemon_config :: DaemonConfig
  ds_uptime :: duration
  ds_worker_pool :: PoolStats

definition Daemon_GetStats :: "instant \<Rightarrow> instant \<Rightarrow> Daemon \<Rightarrow> DaemonStats" where
  "Daemon_GetStats now1 now2 d = \<lparr>ds_storage = GetStats (wp_storage (dm_workerPool d)), ds_daemon_config = dm_config d,
     ds_uptime = time_sub now2 now1, ds_worker_pool = Pool_GetStats (dm_workerPool d)\<rparr>"

section \<open>The socket server\<close>

datatype unix_error = RemoveFailed | UnixListenFailed | ChmodFailed | CloseFailed

text \<open>Removing a file that is not there is no error. The flag says whether the server has a listener.\<close>

definition remove_unless_missing :: "string \<Rightarrow> osys \<Rightarrow> bool \<times> osys" where
  "remove_unless_missing path os = (if os_files os path = None then (True, os) else remove_file path os)"

definition unix_Start :: "UnixServer \<Rightarrow> osys \<Rightarrow> unix_error option \<times> osys" where
  "unix_Start s os =
     (case remove_unless_missing (us_socketPath s) os of
        (False, os1) \<Rightarrow> (Some RemoveFailed, os1)
      | (True, os1) \<Rightarrow>
          if \<not> os_ok os1 (Listen (us_socketPath s)) then (Some UnixListenFailed, os1)
          else if \<not> os_ok os1 (Chmod (us_socketPath s)) then (Some ChmodFailed, os1)
          else (None, os1\<lparr>os_files := (os_files os1)(us_socketPath s \<mapsto> [])\<rparr>))"

text \<open>
  Closing the listener removes its file; \<open>close_ok\<close> says whether it reports success. The connections
  are waited for in between.
\<close>

definition unix_Stop :: "bool \<Rightarrow> bool \<Rightarrow> UnixServer \<Rightarrow> osys \<Rightarrow> unix_error option \<times> osys" where
  "unix_Stop listening close_ok s os =
     (let os1 = (if listening then os\<lparr>os_files := (os_files os)(us_socketPath s := None)\<rparr> else os);
          err = (if listening \<and> \<not> close_ok then Some CloseFailed else None);
          (removed, os2) = remove_unless_missing (us_socketPath s) os1
      in (if \<not> removed \<and> err = None then Some RemoveFailed else err, os2))"

section \<open>Commands of patienced\<close>

text \<open>What is printed on the standard output and the standard error; \<open>err\<close> is the text of an error of \<open>IsRunning\<close>.\<close>

definition status_config :: "DaemonFlags \<Rightarrow> DaemonConfig" where
  "status_config fl = (if fl_pidFile fl \<noteq> [] then DefaultConfig\<lparr>dg_PidFile := fl_pidFile fl\<rparr> else DefaultConfig)"

definition showDaemonStatus :: "string \<Rightarrow> DaemonFlags \<Rightarrow> osys \<Rightarrow> string list \<times> string list" where
  "showDaemonStatus err fl os =
     (let config = status_config fl
      in case IsRunning os (dg_PidFile config) of
           BadPidFile \<Rightarrow> ([], [''Error checking daemon status: '' @ err])
         | RunningAs pid \<Rightarrow> ([''Daemon is running with PID '' @ itoa pid, ''Socket: '' @ dg_SocketPath config,
             ''HTTP Port: '' @ itoa (dg_HTTPPort config)], [])
         | NotRunning pid \<Rightarrow> (''Daemon is not running'' # (if pid \<noteq> 0 then [''Stale PID file found with PID '' @ itoa pid] else []), []))"

text \<open>
  \<open>signal\<close> sends the interrupt to a process, \<open>None\<close> when it fails with the text \<open>err\<close>, and gives the
  system two seconds later. \<open>FindProcess\<close> never fails here.
\<close>

definition stopRunningDaemon :: "string \<Rightarrow> (int \<Rightarrow> osys \<Rightarrow> osys option) \<Rightarrow> DaemonFlags \<Rightarrow> osys \<Rightarrow> (string list \<times> string list) \<times> osys" where
  "stopRunningDaemon err signal fl os =
     (let config = status_config fl
      in case IsRunning os (dg_PidFile config) of
           BadPidFile \<Rightarrow> (([], [''Error checking daemon status: '' @ err]), os)
         | NotRunning _ \<Rightarrow> (([''Daemon is not running''], []), os)
         | RunningAs pid \<Rightarrow>
             (case signal pid os of
                None \<Rightarrow> (([], [''Error stopping daemon: '' @ err]), os)
              | Some os' \<Rightarrow>
                  (([''Sent stop signal to daemon (PID '' @ itoa pid @ '')'',
                     (case IsRunning os' (dg_PidFile config) of
                        RunningAs _ \<Rightarrow> ''Daemon may still be running, check status''
                      | _ \<Rightarrow> ''Daemon stopped successfully'')], []), os')))"

definition daemonizeProcess :: "string list" where
  "daemonizeProcess = [''Daemonization requested - in production this would fork to background'',
     ''Consider using systemd or similar service manager instead'']"

definition config_json :: "DaemonConfig \<Rightarrow> json" where
  "config_json c = JObj [(''socket_path'', JStr (dg_SocketPath c)), (''http_port'', jint (dg_HTTPPort c)),
     (''max_metrics'', jint (dg_MaxMetrics c)), (''metrics_max_age'', jint (dg_MetricsMaxAge c)), (''log_level'', JStr (dg_LogLevel c)),
     (''pid_file'', JStr (dg_PidFile c)), (''enable_http'', JBool (dg_EnableHTTP c)), (''enable_profiling'', JBool (dg_EnableProfiling c)),
     (''max_connections'', jint (dg_MaxConnections c))]"

definition createExampleConfig :: "string \<Rightarrow> osys \<Rightarrow> bool \<times> osys" where
  "createExampleConfig filename os =
     (if \<not> os_ok os (MkdirFor filename) \<or> \<not> os_ok os (WriteFile filename) then (False, os)
      else (True, os\<lparr>os_files := (os_files os)(filename \<mapsto> render_json new_line '' '' 0 (config_json DefaultConfig))\<rparr>))"

section \<open>Properties\<close>

text \<open>The two handlers do the same to the store: empty data cannot be parsed.\<close>

lemma Daemon_handleConnection_same:
  "Daemon_handleConnection t now c (wp_storage wp) = wp_storage (handleConnection t now c wp)"
proof -
  have "unmarshal_RunMetrics [] = None" by (simp add: unmarshal_RunMetrics_def unmarshal_struct_def json_decode_def json_ws_def)
  then show ?thesis by (auto simp: Daemon_handleConnection_def handleConnection_def split: option.splits)
qed

text \<open>The loop ends at the first round that finds the context cancelled, and queues accepted connections only.\<close>

lemma handleConnections_queue:
  "handleConnections rs d = (d', e) \<Longrightarrow> set (wp_jobQueue (dm_workerPool d'))
     \<subseteq> set (wp_jobQueue (dm_workerPool d)) \<union> {c. \<exists>r \<in> set rs. ar_accept r = Accepted c}
   \<and> wp_storage (dm_workerPool d') = wp_storage (dm_workerPool d)"
proof (induction rs arbitrary: d)
  case (Cons r rs)
  show ?case
  proof (cases "ar_accept r")
    case (Accepted c)
    let ?d = "d\<lparr>dm_workerPool := snd (SubmitConnection (ar_select r) c (dm_workerPool d))\<rparr>"
    have "set (wp_jobQueue (dm_workerPool ?d)) \<subseteq> insert c (set (wp_jobQueue (dm_workerPool d)))"
      "wp_storage (dm_workerPool ?d) = wp_storage (dm_workerPool d)"
      by (auto simp: SubmitConnection_def submit_select_def)
    then show ?thesis using Cons Accepted by (cases "ar_done r") (fastforce, force)
  qed (use Cons in \<open>auto split: if_splits\<close>)
qed simp

lemma handleConnections_ends: "ar_done r \<Longrightarrow> snd (handleConnections (rs @ r # ss) d)"
  by (induction rs arbitrary: d) (auto split: accept_result.splits)

text \<open>A start that fails, and a stop after a start, leave no socket file and every other file as it was.\<close>

lemma unix_start_stop:
  "unix_Start s os = (None, os') \<Longrightarrow>
     \<exists>os''. unix_Stop True True s os' = (None, os'') \<and> os_files os'' = (os_files os)(us_socketPath s := None)"
  "unix_Start s os = (Some err, os') \<Longrightarrow> err \<noteq> RemoveFailed \<Longrightarrow> os_files os' = (os_files os)(us_socketPath s := None)"
  by (auto simp: unix_Start_def unix_Stop_def remove_unless_missing_def remove_file_def Let_def split: if_splits bool.splits)

text \<open>The example configuration is read back as the default configuration.\<close>

lemma config_read_back:
  assumes "list_all in_i64 [dg_HTTPPort c, dg_MaxMetrics c, dg_MetricsMaxAge c, dg_MaxConnections c]"
    and "list_all well_formed [dg_SocketPath c, dg_LogLevel c, dg_PidFile c]"
  shows "unmarshal_struct config_names set_config c0 (render_json new_line '' '' 0 (config_json c)) = Some c"
proof -
  have "printable (config_json c)" by (simp add: config_json_def)
  moreover have "clean (config_json c) = config_json c" using assms(2) by (simp add: config_json_def well_formed_def)
  ultimately have "json_decode (render_json new_line '' '' 0 (config_json c)) = Some (config_json c)"
    using indent_roundtrip [of "config_json c"] by simp
  then show ?thesis using assms
    by (simp add: unmarshal_struct_def decode_struct_def config_json_def config_names_def field_name_def set_config_def
        decode_string_def decode_bool_def decode_int_jint)
qed

lemma example_config_loads:
  assumes "createExampleConfig filename os = (True, os')" "os_readable os filename"
  shows "loadConfigFromFile os' filename c0 = Some DefaultConfig"
proof -
  have "list_all in_i64 [dg_HTTPPort DefaultConfig, dg_MaxMetrics DefaultConfig, dg_MetricsMaxAge DefaultConfig, dg_MaxConnections DefaultConfig]"
    "list_all well_formed [dg_SocketPath DefaultConfig, dg_LogLevel DefaultConfig, dg_PidFile DefaultConfig]"
    by code_simp+
  then show ?thesis using assms config_read_back [of DefaultConfig c0]
    by (auto simp: createExampleConfig_def loadConfigFromFile_def split: if_splits)
qed

text \<open>The status names the default socket, whatever socket the daemon was started with.\<close>

lemma status_names_default_socket:
  assumes "IsRunning os (dg_PidFile (status_config fl)) = RunningAs pid"
  shows "''Socket: /tmp/retry-daemon.sock'' \<in> set (fst (showDaemonStatus err fl os))"
  using assms by (simp add: showDaemonStatus_def status_config_def DefaultConfig_def Let_def)

text \<open>
  A daemon that ends on the signal keeps its PID file: the stop command reports success, and the status afterwards a
  stale PID file.
\<close>

lemma stop_leaves_stale_pid:
  assumes "fl_pidFile fl \<noteq> []" "IsRunning os (fl_pidFile fl) = RunningAs pid" "pid \<noteq> 0"
    and "signal pid os = Some (os\<lparr>os_alive := (os_alive os)(pid := False)\<rparr>)"
  shows "\<exists>os'. stopRunningDaemon err signal fl os =
      (([''Sent stop signal to daemon (PID '' @ itoa pid @ '')'', ''Daemon stopped successfully''], []), os')
    \<and> showDaemonStatus err fl os' = ([''Daemon is not running'', ''Stale PID file found with PID '' @ itoa pid], [])"
proof -
  have "dg_PidFile (status_config fl) = fl_pidFile fl" using assms(1) by (simp add: status_config_def)
  moreover have "IsRunning (os\<lparr>os_alive := (os_alive os)(pid := False)\<rparr>) (fl_pidFile fl) = NotRunning pid"
    using assms(1,2) by (auto simp: IsRunning_def split: option.splits if_splits)
  ultimately show ?thesis using assms(2-4) by (simp add: stopRunningDaemon_def showDaemonStatus_def Let_def)
qed

end
