(* ===== verification/Monitoring.thy ===== *)
theory Monitoring
  imports Float64
begin

text \<open>
  The resource monitor of \<open>pkg/monitoring/resources.go\<close> and the structured logger of
  \<open>pkg/daemon/logging.go\<close>. What the runtime reports is a record; a log record is what the handler of
  \<open>log/slog\<close> is given, \<open>None\<close> when its level is not enabled. How the handler prints a record, and its time, are
  not modelled.
\<close>

section \<open>Resource monitor\<close>

record ResourceMonitor =
  rm_maxMemoryMB :: f64
  rm_maxGoroutines :: int
  rm_maxFileHandles :: int
  rm_enabled :: bool

record ResourceSnapshot =
  rs_Timestamp :: int
  rs_AllocMB :: f64
  rs_SysMB :: f64
  rs_NumGoroutine :: int
  rs_HeapObjects :: int

text \<open>What the runtime reports when it is asked.\<close>

record runtime_use =
  ru_Now :: int
  ru_Alloc :: int
  ru_Sys :: int
  ru_NumGoroutine :: int
  ru_HeapObjects :: int

definition NewResourceMonitor :: "f64 \<Rightarrow> int \<Rightarrow> ResourceMonitor" where
  "NewResourceMonitor maxMemoryMB maxGoroutines =
     \<lparr>rm_maxMemoryMB = maxMemoryMB, rm_maxGoroutines = maxGoroutines, rm_maxFileHandles = 0, rm_enabled = True\<rparr>"

definition Enable :: "bool \<Rightarrow> ResourceMonitor \<Rightarrow> ResourceMonitor" where
  "Enable enabled rm = rm\<lparr>rm_enabled := enabled\<rparr>"

definition megabytes :: "int \<Rightarrow> f64" where
  "megabytes n = fdiv (fdiv (f64_of_int n) (Fin 1024)) (Fin 1024)"

definition GetSnapshot :: "runtime_use \<Rightarrow> ResourceSnapshot" where
  "GetSnapshot u = \<lparr>rs_Timestamp = ru_Now u, rs_AllocMB = megabytes (ru_Alloc u), rs_SysMB = megabytes (ru_Sys u),
     rs_NumGoroutine = ru_NumGoroutine u, rs_HeapObjects = ru_HeapObjects u\<rparr>"

datatype limit_error = MemoryExceeded f64 f64 | GoroutinesExceeded int int

definition CheckLimits :: "ResourceMonitor \<Rightarrow> runtime_use \<Rightarrow> limit_error option" where
  "CheckLimits rm u =
     (if \<not> rm_enabled rm then None
      else let snapshot = GetSnapshot u
           in if flt (rm_maxMemoryMB rm) (rs_AllocMB snapshot) then Some (MemoryExceeded (rs_AllocMB snapshot) (rm_maxMemoryMB rm))
              else if rm_maxGoroutines rm < rs_NumGoroutine snapshot
              then Some (GoroutinesExceeded (rs_NumGoroutine snapshot) (rm_maxGoroutines rm))
              else None)"

text \<open>\<open>ForceGC\<close> does nothing, enabled or not.\<close>

definition ForceGC :: "f64 \<Rightarrow> ResourceMonitor \<Rightarrow> ResourceMonitor" where
  "ForceGC threshold rm = rm"

definition GetMemoryGrowth :: "runtime_use \<Rightarrow> ResourceSnapshot \<Rightarrow> f64" where
  "GetMemoryGrowth u baseline = fsub (rs_AllocMB (GetSnapshot u)) (rs_AllocMB baseline)"

definition GetGoroutineGrowth :: "runtime_use \<Rightarrow> ResourceSnapshot \<Rightarrow> int" where
  "GetGoroutineGrowth u baseline = rs_NumGoroutine (GetSnapshot u) - rs_NumGoroutine baseline"

text \<open>Dividing by 1024 is exact, so up to \<open>2^53\<close> bytes the limit is compared without rounding.\<close>

lemma divide_exact:
  assumes "\<bar>n\<bar> < 2 ^ 53" "k \<le> 1074"
  shows "f64_round (of_int n / 2 ^ k) = Fin (of_int n / 2 ^ k)"
proof (rule f64_round_fixed)
  have "of_int n / 2 ^ k = of_int n * pow2 (- int k)" by (simp add: pow2_powi power_int_minus field_simps)
  then show "rep64 (of_int n / 2 ^ k)" using assms by (intro rep64I) auto
  have "\<bar>of_int n / 2 ^ k :: rat\<bar> \<le> \<bar>of_int n\<bar>" by (simp add: abs_divide divide_le_eq mult_le_cancel_left1)
  also have "\<dots> \<le> 2 ^ 63" using assms(1) by (simp flip: of_int_abs)
  finally show "\<bar>of_int n / 2 ^ k\<bar> < f64_limit" by (rule rep64_pow2_1024)
qed

lemma megabytes_exact: "\<bar>n\<bar> < 2 ^ 53 \<Longrightarrow> megabytes n = Fin (of_int n / 2 ^ 20)"
  using divide_exact [of n 10] divide_exact [of n 20] by (simp add: megabytes_def f64_of_int_small)

lemma CheckLimits_exact:
  assumes "\<bar>ru_Alloc u\<bar> < 2 ^ 53"
  shows "CheckLimits (NewResourceMonitor (Fin mb) g) u = None \<longleftrightarrow> of_int (ru_Alloc u) \<le> mb * 2 ^ 20 \<and> ru_NumGoroutine u \<le> g"
proof -
  have "mb < of_int (ru_Alloc u) / 2 ^ 20 \<longleftrightarrow> mb * 2 ^ 20 < of_int (ru_Alloc u)" by (simp add: less_divide_eq)
  then show ?thesis using megabytes_exact [OF assms]
    by (auto simp: CheckLimits_def NewResourceMonitor_def GetSnapshot_def Let_def)
qed

text \<open>A disabled monitor never complains.\<close>

lemma disabled_never_exceeds: "CheckLimits (Enable False rm) u = None"
  by (simp add: CheckLimits_def Enable_def)

section \<open>Logger\<close>

datatype log_value = LStr string | LInt int | LBool bool

datatype level = LevelDebug | LevelInfo | LevelWarn | LevelError

fun slog_level :: "level \<Rightarrow> int" where
  "slog_level LevelDebug = - 4"
| "slog_level LevelInfo = 0"
| "slog_level LevelWarn = 4"
| "slog_level LevelError = 8"

text \<open>The attributes of the embedded logger are those of its calls of \<open>With\<close>.\<close>

record Logger =
  lg_level :: int
  lg_with :: "(string \<times> log_value) list"
  lg_component :: string

record log_record =
  lc_level :: level
  lc_msg :: string
  lc_attrs :: "(string \<times> log_value) list"

definition NewLogger :: "string \<Rightarrow> string \<Rightarrow> Logger" where
  "NewLogger component level =
     \<lparr>lg_level = slog_level (if level = ''debug'' then LevelDebug else if level = ''info'' then LevelInfo
        else if level = ''warn'' then LevelWarn else if level = ''error'' then LevelError else LevelInfo),
      lg_with = [], lg_component = component\<rparr>"

definition WithComponent :: "Logger \<Rightarrow> string \<Rightarrow> Logger" where
  "WithComponent l component = l\<lparr>lg_with := lg_with l @ [(''component'', LStr component)], lg_component := component\<rparr>"

definition WithRequest :: "Logger \<Rightarrow> string \<Rightarrow> Logger" where
  "WithRequest l requestID = l\<lparr>lg_with := lg_with l @ [(''request_id'', LStr requestID)]\<rparr>"

text \<open>How \<open>slog\<close> pairs its arguments.\<close>

fun args_attrs :: "log_value list \<Rightarrow> (string \<times> log_value) list" where
  "args_attrs [] = []"
| "args_attrs [LStr k] = [(''!BADKEY'', LStr k)]"
| "args_attrs (LStr k # v # r) = (k, v) # args_attrs r"
| "args_attrs (v # r) = (''!BADKEY'', v) # args_attrs r"

definition log_at :: "level \<Rightarrow> Logger \<Rightarrow> string \<Rightarrow> log_value list \<Rightarrow> log_record option" where
  "log_at level l msg args =
     (if slog_level level < lg_level l then None
      else Some \<lparr>lc_level = level, lc_msg = msg, lc_attrs = lg_with l @ args_attrs (LStr ''component'' # LStr (lg_component l) # args)\<rparr>)"

definition Log_Debug :: "Logger \<Rightarrow> string \<Rightarrow> log_value list \<Rightarrow> log_record option" where
  "Log_Debug = log_at LevelDebug"

definition Log_Info :: "Logger \<Rightarrow> string \<Rightarrow> log_value list \<Rightarrow> log_record option" where
  "Log_Info = log_at LevelInfo"

definition Log_Warn :: "Logger \<Rightarrow> string \<Rightarrow> log_value list \<Rightarrow> log_record option" where
  "Log_Warn = log_at LevelWarn"

definition Log_Error :: "Logger \<Rightarrow> string \<Rightarrow> log_value list \<Rightarrow> log_record option" where
  "Log_Error = log_at LevelError"

definition LogDaemonStart :: "int \<Rightarrow> Logger \<Rightarrow> int \<Rightarrow> string \<Rightarrow> log_record option" where
  "LogDaemonStart pid l port version =
     Log_Info l ''daemon starting'' [LStr ''port'', LInt port, LStr ''version'', LStr version, LStr ''pid'', LInt pid]"

definition LogClientConnection :: "Logger \<Rightarrow> string \<Rightarrow> string \<Rightarrow> log_record option" where
  "LogClientConnection l clientID action = Log_Info l ''client connection'' [LStr ''client_id'', LStr clientID, LStr ''action'', LStr action]"

definition LogScheduleRequest :: "Logger \<Rightarrow> string \<Rightarrow> bool \<Rightarrow> string \<Rightarrow> log_record option" where
  "LogScheduleRequest l resourceID canSchedule reason = Log_Info l ''schedule request processed''
     [LStr ''resource_id'', LStr resourceID, LStr ''can_schedule'', LBool canSchedule, LStr ''reason'', LStr reason]"

definition LogError :: "Logger \<Rightarrow> string \<Rightarrow> string \<Rightarrow> log_value list \<Rightarrow> log_record option" where
  "LogError l operation err context_args =
     Log_Error l ''operation failed'' ([LStr ''operation'', LStr operation, LStr ''error'', LStr err] @ context_args)"

text \<open>Every record carries the component of its logger, and errors are logged at every level that can be configured.\<close>

lemma record_has_component:
  "log_at level l msg args = Some r \<Longrightarrow> (''component'', LStr (lg_component l)) \<in> set (lc_attrs r)"
  by (auto simp: log_at_def split: if_splits)

lemma errors_always_logged: "\<exists>r. LogError (NewLogger component level) operation err args = Some r"
  by (simp add: LogError_def Log_Error_def log_at_def NewLogger_def)

lemma level_filters: "log_at k (NewLogger component level) msg args = None \<longleftrightarrow>
    slog_level k < (if level = ''debug'' then - 4 else if level = ''warn'' then 4 else if level = ''error'' then 8 else 0)"
  by (simp add: log_at_def NewLogger_def)

text \<open>A logger made by \<open>WithComponent\<close> writes the component twice.\<close>

lemma component_twice:
  "log_at level (WithComponent l c) msg args = Some r \<Longrightarrow> 2 \<le> length (filter (\<lambda>kv. kv = (''component'', LStr c)) (lc_attrs r))"
  by (auto simp: log_at_def WithComponent_def split: if_splits)

end
