(* ===== verification/ResourceAnalysis.thy ===== *)
theory ResourceAnalysis
  imports DiscoveryParser
begin

text \<open>
  The analysis of resource names in \<open>pkg/discovery/resource_grouper.go\<close>: \<open>AnalyzeResourcePattern\<close>
  with its path patterns, and the statistics of a grouper. The three regular expressions of \<open>extractPathPattern\<close>
  are written out; \<open>url.Parse\<close> is a parameter that gives host and path. Maps are ranged over in the order
  of an argument.
\<close>

section \<open>Path patterns\<close>

text \<open>
  \<open>ReplaceAllString\<close> for an expression that begins with a slash: \<open>m\<close> gives the length of its
  match after the slash.
\<close>

fun replace_after_slash :: "(string \<Rightarrow> nat option) \<Rightarrow> string \<Rightarrow> string \<Rightarrow> string" where
  "replace_after_slash m t [] = []"
| "replace_after_slash m t (c # r) =
     (if c = CHR ''/'' then
        (case m r of Some n \<Rightarrow> t @ replace_after_slash m t (drop n r) | None \<Rightarrow> c # replace_after_slash m t r)
      else c # replace_after_slash m t r)"

definition number_length :: "string \<Rightarrow> nat option" where
  "number_length r = (let n = length (takeWhile is_digit r) in if n = 0 then None else Some n)"

definition lower_hex :: "char \<Rightarrow> bool" where
  "lower_hex c \<longleftrightarrow> is_digit c \<or> c \<in> set ''abcdef''"

definition uuid_shape :: "bool list" where
  "uuid_shape = replicate 8 True @ [False] @ replicate 4 True @ [False] @ replicate 4 True @ [False] @ replicate 4 True @ [False] @ replicate 12 True"

definition uuid_length :: "string \<Rightarrow> nat option" where
  "uuid_length r =
     (if list_all2 (\<lambda>h c. if h then lower_hex c else c = CHR ''-'') uuid_shape (take 36 r) then Some 36 else None)"

definition id_char :: "char \<Rightarrow> bool" where
  "id_char c \<longleftrightarrow> (let n = (of_char c :: nat) in
     97 \<le> n \<and> n \<le> 122 \<or> 65 \<le> n \<and> n \<le> 90 \<or> 48 \<le> n \<and> n \<le> 57 \<or> c = CHR ''_'' \<or> c = CHR ''-'')"

definition id_length :: "string \<Rightarrow> nat option" where
  "id_length r = (let n = length (takeWhile id_char r) in if n < 8 then None else Some n)"

definition extractPathPattern :: "string \<Rightarrow> string" where
  "extractPathPattern path =
     (let pattern1 = replace_after_slash number_length (''/'' @ [CHR 0x5C] @ ''d+'') path;
          pattern2 = replace_after_slash uuid_length ''/[a-f0-9-]+'' pattern1
      in replace_after_slash id_length ''/[a-zA-Z0-9_-]+'' pattern2)"

section \<open>Suggestions\<close>

record ResourceGroupSuggestion =
  sg_SuggestedName :: string
  sg_SuggestedPattern :: string
  sg_ResourceCount :: int
  sg_CommonHost :: string
  sg_CommonPath :: string
  sg_Confidence :: f64
  sg_Resources :: "string list"

definition count_step :: "string \<Rightarrow> (string \<times> int) list \<Rightarrow> (string \<times> int) list" where
  "count_step k m = AList.update k (case map_of m k of Some n \<Rightarrow> n + 1 | None \<Rightarrow> 1) m"

text \<open>The loop for the largest count, which keeps the first one it meets.\<close>

fun most_common :: "string \<times> int \<Rightarrow> (string \<times> int) list \<Rightarrow> string \<times> int" where
  "most_common best [] = best"
| "most_common best (kv # m) = most_common (if snd best < snd kv then kv else best) m"

definition quote_meta :: "string \<Rightarrow> string" where
  "quote_meta s = concat (map (\<lambda>c. if c \<in> set (CHR 0x5C # ''.+*?()|[]{}^$'') then [CHR 0x5C, c] else [c]) s)"

definition AnalyzeResourcePattern ::
  "url_parser \<Rightarrow> (string \<Rightarrow> nat) \<Rightarrow> (string \<Rightarrow> nat) \<Rightarrow> string list \<Rightarrow> ResourceGroupSuggestion option" where
  "AnalyzeResourcePattern urlParse rk rk' resources =
     (if resources = [] then None
      else let urls = List.map_filter urlParse resources;
               hostCounts = fold count_step (map fst urls) [];
               pathPatterns = fold count_step (map (\<lambda>u. extractPathPattern (snd u)) urls) [];
               (commonHost, maxHostCount) = most_common ([], 0) (map_range rk hostCounts);
               (commonPathPattern, maxPathCount) = most_common ([], 0) (map_range rk' pathPatterns)
           in Some \<lparr>sg_SuggestedName = ''Custom '' @ commonHost, sg_SuggestedPattern = quote_meta commonHost @ commonPathPattern,
                sg_ResourceCount = int (length resources), sg_CommonHost = commonHost, sg_CommonPath = commonPathPattern,
                sg_Confidence = fdiv (f64_of_int (maxHostCount + maxPathCount)) (f64_of_int (int (length resources) * 2)),
                sg_Resources = resources\<rparr>)"

section \<open>Statistics\<close>

record group_stats =
  gs_pattern :: string
  gs_default_limit :: int
  gs_default_window :: string
  gs_share_rate_limit :: bool
  gs_priority :: int
  gs_description :: string

definition GetResourceGroups :: "ResourceGrouper \<Rightarrow> (string \<times> ResourceGroupConfig) list" where
  "GetResourceGroups rg = rg_groupConfigs rg"

definition GetResourceGroupStats :: "ResourceGrouper \<Rightarrow> int \<times> int \<times> (string \<times> group_stats) list" where
  "GetResourceGroupStats rg = (int (length (rg_groupConfigs rg)), int (length (rg_patterns rg)),
     map (\<lambda>(name, config). (name, \<lparr>gs_pattern = gc_Pattern config, gs_default_limit = gc_DefaultLimit config,
       gs_default_window = Duration_String (gc_DefaultWindow config), gs_share_rate_limit = gc_ShareRateLimit config,
       gs_priority = gc_Priority config, gs_description = gc_Description config\<rparr>)) (rg_groupConfigs rg))"

section \<open>Properties\<close>

interpretation counting: grouping "\<lambda>k. k" "\<lambda>_. 1" "\<lambda>_ n. n + 1" count_step
  by unfold_locales (simp add: count_step_def)

lemma count_entry: "(k, n) \<in> set (fold count_step ks []) \<longleftrightarrow> k \<in> set ks \<and> n = int (count_list ks k)"
proof -
  have len: "length (filter (\<lambda>x. x = k) ks) = count_list ks k"
    by (induction ks) auto
  have counts: "map_of (fold count_step ks []) k = Some v \<Longrightarrow> v = int (count_list ks k)" for v
    using counting.group_invariant [where Q = "\<lambda>xs v. v = int (length xs)" and xs = ks and k = k and v = v] len by simp
  have none: "map_of (fold count_step ks []) k = None \<longleftrightarrow> k \<notin> set ks"
    using counting.group_none [of ks k] by (auto simp: filter_empty_conv)
  show ?thesis
  proof
    assume "(k, n) \<in> set (fold count_step ks [])"
    then have "map_of (fold count_step ks []) k = Some n" by (rule counting.group_entry)
    then show "k \<in> set ks \<and> n = int (count_list ks k)" using counts none by fastforce
  next
    assume *: "k \<in> set ks \<and> n = int (count_list ks k)"
    then obtain v where "map_of (fold count_step ks []) k = Some v" using none by fastforce
    then show "(k, n) \<in> set (fold count_step ks [])" using counts * by (auto dest: map_of_SomeD)
  qed
qed

lemma most_common_spec:
  "snd best \<le> snd (most_common best m) \<and> (\<forall>kv \<in> set m. snd kv \<le> snd (most_common best m))
     \<and> (most_common best m = best \<or> most_common best m \<in> set m)"
proof (induction m arbitrary: best)
  case (Cons kv m)
  from Cons [of "if snd best < snd kv then kv else best"] show ?case by (auto split: if_splits)
qed simp

text \<open>The most frequent key of a list and its count, whatever the order of the map.\<close>

lemma most_common_counts:
  assumes "most_common ([], 0) (map_range rk (fold count_step ks [])) = (k, n)"
  shows "0 \<le> n" "n \<le> int (length ks)" "\<forall>k'. int (count_list ks k') \<le> n" "ks \<noteq> [] \<Longrightarrow> n = int (count_list ks k) \<and> k \<in> set ks"
proof -
  have entry: "(k, n) = ([], 0) \<or> k \<in> set ks \<and> n = int (count_list ks k)"
    using most_common_spec [of "([], 0)" "map_range rk (fold count_step ks [])"] assms count_entry [of k n ks] by auto
  show nonneg: "0 \<le> n" using most_common_spec [of "([], 0)" "map_range rk (fold count_step ks [])"] assms by auto
  show "n \<le> int (length ks)" using entry count_le_length [of ks k] by auto
  show all: "\<forall>k'. int (count_list ks k') \<le> n"
  proof
    fix k'
    show "int (count_list ks k') \<le> n"
    proof (cases "k' \<in> set ks")
      case True
      then have "(k', int (count_list ks k')) \<in> set (map_range rk (fold count_step ks []))" using count_entry by simp
      then show ?thesis
        using most_common_spec [of "([], 0)" "map_range rk (fold count_step ks [])"] assms by fastforce
    next
      case False
      then show ?thesis using nonneg by (simp add: count_notin)
    qed
  qed
  show "n = int (count_list ks k) \<and> k \<in> set ks" if "ks \<noteq> []"
  proof -
    obtain x where "x \<in> set ks" using \<open>ks \<noteq> []\<close> by (cases ks) auto
    then have "0 < n" using all count_list_0_iff [of ks x] by (metis gr_zeroI of_nat_0_less_iff order_less_le_trans)
    then show ?thesis using entry by auto
  qed
qed

text \<open>
  A suggestion names a most frequent host and a most frequent path pattern, for every order of the maps, and
  its confidence is a number between 0 and 1.
\<close>

lemma suggestion_correct:
  assumes "AnalyzeResourcePattern urlParse rk rk' resources = Some s"
    and "urls = List.map_filter urlParse resources" "urls \<noteq> []" "int (length resources) < 2 ^ 50"
  shows "\<forall>h. count_list (map fst urls) h \<le> count_list (map fst urls) (sg_CommonHost s)"
    and "\<forall>p. count_list (map (\<lambda>u. extractPathPattern (snd u)) urls) p
        \<le> count_list (map (\<lambda>u. extractPathPattern (snd u)) urls) (sg_CommonPath s)"
    and "\<exists>x. sg_Confidence s = Fin x \<and> 0 \<le> x \<and> x \<le> 1"
proof -
  let ?hosts = "map fst urls" and ?paths = "map (\<lambda>u. extractPathPattern (snd u)) urls"
  obtain h n where h: "most_common ([], 0) (map_range rk (fold count_step ?hosts [])) = (h, n)" by fastforce
  obtain p m where p: "most_common ([], 0) (map_range rk' (fold count_step ?paths [])) = (p, m)" by fastforce
  note mh = most_common_counts [OF h] and mp = most_common_counts [OF p]
  have ne: "resources \<noteq> []" using assms(1) by (auto simp: AnalyzeResourcePattern_def)
  have s: "sg_CommonHost s = h" "sg_CommonPath s = p"
    "sg_Confidence s = fdiv (f64_of_int (n + m)) (f64_of_int (int (length resources) * 2))"
    using assms(1,2) h p ne by (auto simp: AnalyzeResourcePattern_def Let_def)
  show "\<forall>h. count_list ?hosts h \<le> count_list ?hosts (sg_CommonHost s)" using mh assms(3) s(1) by auto
  show "\<forall>p. count_list ?paths p \<le> count_list ?paths (sg_CommonPath s)" using mp assms(3) s(2) by auto
  have "length urls \<le> length resources" unfolding assms(2) by (simp add: List.map_filter_def)
  define a d where "a = n + m" and "d = int (length resources) * 2"
  have "0 \<le> a" "a \<le> d" "0 < d" "d \<le> 2 ^ 53"
    using \<open>length urls \<le> length resources\<close> mh(1,2) mp(1,2) assms(4) ne by (auto simp: a_def d_def)
  then have q: "0 \<le> (of_int a / of_int d :: rat)" "(of_int a / of_int d :: rat) \<le> 1"
    and c: "sg_Confidence s = f64_round (of_int a / of_int d)"
    using s(3) by (simp_all add: divide_le_eq f64_of_int_small flip: a_def d_def)
  have "rep64 0" "rep64 1" using rep64_of_int [of 0] rep64_of_int [of 1] by simp_all
  from f64_round_between [OF this q] show "\<exists>x. sg_Confidence s = Fin x \<and> 0 \<le> x \<and> x \<le> 1"
    using c rep64_pow2_1024 [of 1] by auto
qed

text \<open>
  Numbers are replaced first, and an expression without an end also matches the first digits of a longer name:
  a UUID that begins with a digit is no longer recognised, and the pattern suggested for it does not match it.
\<close>

lemma uuid_garbled:
  "extractPathPattern ''/123e4567-e89b-12d3-a456-426614174000'' = ''/'' @ [CHR 0x5C] @ ''d+e4567-e89b-12d3-a456-426614174000''"
  "extractPathPattern ''/a23e4567-e89b-12d3-a456-426614174000'' = ''/[a-f0-9-]+''"
  by (simp_all add: extractPathPattern_def number_length_def uuid_length_def id_length_def uuid_shape_def lower_hex_def id_char_def
      is_digit_def eval_nat_numeral)

end
