(* ===== verification/Spec2Isabelle.thy ===== *)
theory Spec2Isabelle
  imports CLI Effectiveness Daemon UnixServer PatternSets HttpBackoff DiscoveryService EnhancedParser
    HttpServer TypedClient DaemonOps Monitoring ResourceAnalysis
begin

text \<open>
  \<^bold>\<open>A verification library for patience, a command-line tool that retries commands.\<close>

  \<open>patience STRATEGY [flags] -- command\<close> runs a command until it succeeds, its attempts are used up
  or a failure pattern matches, and waits between attempts as long as a backoff strategy says. A
  daemon collects metrics of the runs and is meant to coordinate several instances that share a
  rate limit. The library models the Go sources under \<open>src/\<close> as executable functions over
  records with the fields of the structs, and proves what makes them correct.

  \<^bold>\<open>Conventions.\<close> A Go function \<open>F\<close> is a function of the same name; a method \<open>(t T) M\<close> is \<open>M\<close> or
  \<open>T_M\<close>. Durations and instants are integers of nanoseconds, with the 64-bit wrap-around written out by
  \<open>wrap64\<close> where the source multiplies or adds; \<open>int\<close> counters that cannot reach \<open>2^63\<close> are
  integers. \<open>float64\<close> is IEEE binary64 with correct rounding over the rationals (\<open>Float64\<close>);
  what Go leaves to the platform (conversion of a float outside the integer range, \<open>math.Pow\<close>)
  is a \<open>platform\<close> parameter. Errors are the left values of a sum, or \<open>None\<close>. Maps are association lists
  ranged over in an arbitrary order given as an argument. The clock, the processes started, the
  random source and the network are explicit arguments or fields of a \<open>world\<close> record. Third-party
  packages (viper, cobra, regexp syntax) are parameters.

  \<^bold>\<open>Theories.\<close>

  \<^item> \<open>Prelude\<close>: integers, time, decimal printing, lists and maps that the components share; the
    locale \<open>grouping\<close> for folds that group a list by a key.
  \<^item> \<open>Float64\<close>, \<open>GoText\<close>, \<open>GoFloat\<close>, \<open>GoJson\<close>, \<open>JsonStruct\<close>, \<open>JsonPrint\<close>: what the
    sources use of the language's floats, \<open>strings\<close>, \<open>strconv\<close>, \<open>time.Duration\<close> and \<open>encoding/json\<close>: the
    decoder into maps and structs, the printer, and that the decoder reads back what is printed; strings are
    bytes, and both replace what is not well-formed UTF-8 by U+FFFD (\<open>to_valid\<close>). The
    decoder's fuel is twice the length of the input; \<open>jvalue_enough\<close> shows that more changes nothing.
  \<^item> \<open>Transitions\<close>: runs of labelled transition systems, and locales for invariants (\<open>kept\<close>) and for
    measures that bound runs (\<open>measured\<close>).
  \<^item> \<open>Strategy\<close> (\<open>pkg/backoff/strategy.go\<close>, \<open>polynomial.go\<close>), \<open>Diophantine\<close>
    (\<open>diophantine.go\<close>), \<open>Adaptive\<close> (\<open>adaptive.go\<close>), \<open>HTTPAware\<close> (\<open>http_aware.go\<close>),
    \<open>Effectiveness\<close> (\<open>effectiveness_tracker.go\<close>): the strategies. Each delay is computed as the code
    computes it and related to its mathematical value where nothing overflows; two theorems show
    where it overflows. The contract of a strategy that is bounded and keeps its invariant is
    the locale \<open>bounded_strategy\<close>; wrapping strategies (\<open>small_fallback\<close>, \<open>http_fallback\<close>) are
    sublocales of it, and the executor's choice of any strategy is an interpretation.
  \<^item> \<open>Conditions\<close> (\<open>pkg/conditions\<close>), \<open>Reporting\<close> (\<open>pkg/ui\<close>, the records of
    \<open>pkg/metrics\<close>): success and failure patterns, texts, statistics.
  \<^item> \<open>Executor\<close> (\<open>pkg/executor\<close>): output capture, one attempt, coordination with the daemon and the
    retry loop as a terminating function over the \<open>world\<close>. The loop invariant \<open>loop_inv\<close> gives the
    count of attempts, the meaning of success, the bound of all waits and the exit code.
  \<^item> \<open>Config\<close> (\<open>pkg/config\<close>): defaults, validation, precedence of flags, environment and file.
  \<^item> \<open>CLI\<close> (\<open>cmd/patience\<close>): the subcommands from parsed flags to exit status.
  \<^item> \<open>Scheduler\<close> (\<open>pkg/daemon/scheduler.go\<close>), \<open>DaemonClient\<close> (\<open>client.go\<close>,
    \<open>protocol.go\<close>), \<open>UnixServer\<close> (\<open>unix_server.go\<close>, \<open>protocol_types.go\<close>), \<open>TypedClient\<close> (the type-safe
    methods of \<open>client.go\<close>): rate-limit scheduling, the client over an explicit network, the server with the bytes
    on the wire, and both ends together; the accept loop is a transition system.
  \<^item> \<open>Storage\<close> (\<open>pkg/storage\<close>), \<open>WorkerPool\<close> (\<open>worker_pool.go\<close>): the metrics store with its
    aggregation, and the pool of workers that fill it, a transition system with invariants, a bound of its
    shutdown and a liveness theorem.
  \<^item> \<open>MetricsClient\<close> (\<open>pkg/metrics/metrics.go\<close>), \<open>HttpServer\<close> (\<open>server.go\<close>): how metrics come into
    the store and how they are shown: the JSON of runs, the client of the socket, and the HTTP interface from a request
    to the bytes of the answer. The two ends are put together below.
  \<^item> \<open>Daemon\<close> and \<open>DaemonOps\<close> (\<open>daemon.go\<close>, \<open>cmd/patienced\<close>): configuration, start, the accept
    loop and the ways down of the daemon process over a record of the operating system, and the commands for status,
    stopping and an example configuration. \<open>Monitoring\<close> (\<open>logging.go\<close>,
    \<open>pkg/monitoring\<close>): log records and resource limits.
  \<^item> \<open>JsonMatcher\<close> (\<open>pkg/patterns/json_matcher.go\<close>, \<open>matcher.go\<close>), \<open>Patterns\<close>
    (\<open>multiline_matcher.go\<close>), \<open>PatternSets\<close> (\<open>pattern_set.go\<close>), \<open>HttpPattern\<close>
    (\<open>http_pattern_matcher.go\<close>): patterns over outputs, with a reference semantics of JSON paths. Regular expressions are
    parameters, given by what they match.
  \<^item> \<open>HttpBackoff\<close> (\<open>http_aware_selector.go\<close>, \<open>http_aware_adaptive.go\<close>): the choice of a strategy
    from an HTTP response, its cache, and the delays that follow.
  \<^item> \<open>Discovery\<close> (\<open>pkg/discovery/types.go\<close>, \<open>resource_grouper.go\<close>), \<open>ResourceAnalysis\<close>
    (its analysis of resource names), \<open>DiscoveryParser\<close> (\<open>parser.go\<close>), \<open>EnhancedParser\<close>
    (\<open>enhanced_parser.go\<close>), \<open>DiscoveryStore\<close> (\<open>database.go\<close>), \<open>DiscoveryLearner\<close> (\<open>learner.go\<close>),
    \<open>DiscoveryService\<close> (\<open>service.go\<close>, \<open>pkg/backoff/diophantine_discovery.go\<close>): how rate limits are read from
    outputs, learned, kept and used. Every SQL statement is a function on the rows of its table; faults of the engine,
    the order of tied rows and the clock are fields of \<open>sql_env\<close>.

  \<^bold>\<open>What the theorems show.\<close> For the executor: the attempts counted are the processes started (none, where no
  attempt can start one), success means what the conditions say of the output of the last process, the waits
  between attempts are bounded, also from the flags of the command line, and
  the exit status tells success. For the configuration: validation accepts exactly the documented
  ranges and explicit flags win. For the daemon: the scheduler keeps the rate limit over the whole history of its
  requests, though no code calls it; the store keeps the newest metrics and aggregates
  exactly; what a client sends is stored, and what is stored is what the HTTP interface shows; the pool loses no
  connection, drains and stops; the wire format between client and
  server is unambiguous up to ill-formed UTF-8, though the server reads little of it; the server bounds its connections but grants every request; and only
  \<open>Stop\<close> cleans up. Patterns match what their paths select, sets of them report the best match, the streaming matcher
  agrees with matching prefixes, and a printed HTTP response is parsed back. The choice of a strategy for a response is
  well typed and final, and its delays are bounded. The database refines a map that is inserted into or updated,
  entries are read back, a limit is learned exactly when a window holds enough requests, and from the headers of
  responses it is used from the seventh on. For the strategies: exact values, bounds, learning as a refinement of the
  history, and extraction of the server's timing. Several theorems state where the code does not do
  what it means to; the manifest lists them as findings.

  \<^bold>\<open>Bounds and fuel.\<close> The JSON decoder is the only function with fuel. Loops are structural recursions, or
  functions with a measure: the attempts left for the retry loop, the steps left for iterative strategies, the length of the input for
  parsers. Rate limits, counters and times are unbounded integers where the theorems state the range in which the
  64-bit integers of the source agree with them.

  \<^bold>\<open>Not modelled.\<close> The text of the dashboard page and of usage and debug output, the printing of log
  records by their handler, the default path of the database, helpers of the command line that only tests call, white space beyond ASCII,
  and the parsing of flags by cobra. What the operating system, the SQLite engine, viper, regular
  expressions, hashes and the formatting of times do is a parameter of the definitions that use it. Interleavings are modelled for the worker
  pool and the socket server; the methods of other components hold a mutex and are single steps.
\<close>

section \<open>From the client to the page\<close>

text \<open>C13. Metrics arrive: when a client sends the metrics of a run over a socket that takes them, a worker that handles the connection
  while the metric is younger than the maximal age stores them, and the HTTP interface, asked for the newest entry, answers with a JSON
  document of exactly this run under the time it was stored, from which the run is read back field for field, except that the
  durations of the attempts are zero and that in the strings every byte that is not part of well-formed UTF-8, which a command line
  may hold, has become U+FFFD. The numbers are assumed to be printed so that they are read back.\<close>

theorem sent_metric_shown:
  assumes "run_prints (he_fmt_float env) m" "prints_float (he_fmt_float env) (Fin 0)" "he_fmt_time env t = Some text_of_t"
    and "sk_dial sk (mc_socketPath c) (mc_timeout c)" "sk_write sk = None"
    and "1 \<le> ms_maxSize (wp_storage wp)" "in_i64 (- ms_maxAge (wp_storage wp))" "now - ms_maxAge (wp_storage wp) < t"
  shows "\<exists>data recent run. SendMetrics (he_fmt_float env) sk c m = (None, Some data)
    \<and> ServeHTTP env isnil (wp_storage (handleConnection t now \<lparr>cn_id = i, cn_read = Some data\<rparr> wp))
        \<lparr>rq_Method = ''GET'', rq_Path = ''/api/metrics/recent'', rq_RawQuery = ''limit=1''\<rparr> = Answered recent
    \<and> json_decode (hp_Body recent) = Some (JObj [(''count'', jint 1),
        (''metrics'', JArr [JObj [(''timestamp'', JStr (to_valid text_of_t)), (''metrics'', run)]])])
    \<and> unmarshal_RunMetrics (print_json run) = Some (m\<lparr>rm_Command := to_valid (rm_Command m),
        rm_CommandHash := to_valid (rm_CommandHash m), rm_FinalStatus := to_valid (rm_FinalStatus m),
        rm_Attempts := map (\<lambda>a. a\<lparr>am_Duration := 0\<rparr>) (rm_Attempts m)\<rparr>)"
proof -
  let ?m = "wire_form m"
  let ?x = "\<lparr>sd_Timestamp = t, sd_Metrics = ?m\<rparr>"
  obtain data where data: "SendMetrics (he_fmt_float env) sk c m = (None, Some data)"
      "wp_storage (handleConnection t now \<lparr>cn_id = i, cn_read = Some data\<rparr> wp) = Store t now (wp_storage wp) ?m"
    using sent_metrics_stored [OF assms(1,4,5), of t now i wp] by auto
  obtain xs where xs: "ms_metrics (Store t now (wp_storage wp) ?m) = xs @ [?x]" using Store_last [OF assms(6-8)] by blast
  have p: "metric_prints env ?x" using wire_form_prints [OF assms(1,2)] assms(3) by (simp add: metric_prints_def)
  obtain recent vs where r: "ServeHTTP env isnil (Store t now (wp_storage wp) ?m)
        \<lparr>rq_Method = ''GET'', rq_Path = ''/api/metrics/recent'', rq_RawQuery = ''limit='' @ itoa 1\<rparr> = Answered recent"
      "json_decode (hp_Body recent) = Some (JObj [(''count'', jint 1), (''metrics'', JArr vs)])" "list_all2 (shows_metric env) vs [?x]"
    using recent_answer [of env "Store t now (wp_storage wp) ?m" 1 isnil] p by (auto simp: xs)
  have "itoa 1 = ''1''" by code_simp
  then show ?thesis using data r assms(3)
    by (auto simp: shows_metric_def wire_form_idem list_all2_Cons2 wire_form_def)
qed

text \<open>A command line with an argument in UTF-8 and one that is none.\<close>

definition accented_run :: RunMetrics where
  "accented_run = half_run\<lparr>rm_Command := ''echo caf'' @ [CHR 0xC3, CHR 0xA9, CHR '' '', CHR 0xFF]\<rparr>"

theorem sent_metric_shown_witness:
  "\<exists>data recent run. SendMetrics half_fmt \<lparr>sk_dial = (\<lambda>_ _. True), sk_write = None\<rparr> (NewClient DefaultSocketPath) accented_run = (None, Some data)
    \<and> ServeHTTP idle_env False (wp_storage (handleConnection 2 3 \<lparr>cn_id = 0, cn_read = Some data\<rparr> (NewWorkerPool 1 two_runs)))
        \<lparr>rq_Method = ''GET'', rq_Path = ''/api/metrics/recent'', rq_RawQuery = ''limit=1''\<rparr> = Answered recent
    \<and> json_decode (hp_Body recent) = Some (JObj [(''count'', jint 1),
        (''metrics'', JArr [JObj [(''timestamp'', JStr ''2024-01-01T00:00:00Z''), (''metrics'', run)]])])
    \<and> unmarshal_RunMetrics (print_json run) = Some (half_run
        \<lparr>rm_Command := ''echo caf'' @ [CHR 0xC3, CHR 0xA9, CHR '' '', CHR 0xEF, CHR 0xBF, CHR 0xBD],
         rm_Attempts := [\<lparr>am_Duration = 0, am_ExitCode = 0, am_Success = True\<rparr>]\<rparr>)"
proof -
  have env: "he_fmt_float idle_env = half_fmt" "he_fmt_time idle_env 2 = Some ''2024-01-01T00:00:00Z''" by (simp_all add: idle_env_def)
  have pool: "wp_storage (NewWorkerPool 1 two_runs) = two_runs" by (simp add: NewWorkerPool_def)
  have st: "1 \<le> ms_maxSize two_runs" "in_i64 (- ms_maxAge two_runs)" "3 - ms_maxAge two_runs < 2" by code_simp+
  have v: "to_valid (rm_Command accented_run) = ''echo caf'' @ [CHR 0xC3, CHR 0xA9, CHR '' '', CHR 0xEF, CHR 0xBF, CHR 0xBD]"
    "to_valid (rm_CommandHash half_run) = rm_CommandHash half_run" "to_valid (rm_FinalStatus half_run) = rm_FinalStatus half_run"
    by code_simp+
  have "run_prints half_fmt accented_run" using half_run_prints by (simp add: accented_run_def run_prints_def)
  then show ?thesis
    using sent_metric_shown [of idle_env accented_run 2 "''2024-01-01T00:00:00Z''" "\<lparr>sk_dial = (\<lambda>_ _. True), sk_write = None\<rparr>"
        "NewClient DefaultSocketPath" "NewWorkerPool 1 two_runs" 3 False 0]
      zero_prints env pool st half_fields(3) v by (simp add: accented_run_def)
qed

end
